(* ===== verification/Prelude.thy ===== *)
theory Prelude
  imports Main "HOL-Library.Word" "HOL-Library.Multiset"
begin

text \<open>
  Shared vocabulary of the development: the machine types of the Rust sources, saturating and
  wrapping arithmetic on them, decimal printing (\<^verbatim>\<open>format!("{}")\<close>), the idiom
  \<^verbatim>\<open>iter_mut().find(..)\<close> followed by an update, \<^verbatim>\<open>slice::chunks\<close>, a stable sort for
  \<^verbatim>\<open>sort_by\<close>, and \<^verbatim>\<open>str::trim\<close>.

  Conventions. A Rust \<^verbatim>\<open>String\<close> or \<^verbatim>\<open>&str\<close> is its UTF-8 byte sequence, an Isabelle
  \<open>string\<close> (a \<open>char\<close> is one byte), so \<^verbatim>\<open>len()\<close> is \<open>length\<close> and byte slicing is list
  slicing. \<^verbatim>\<open>usize\<close> is 64 bits wide. A \<^verbatim>\<open>Uuid\<close> is a number, a \<^verbatim>\<open>VecDeque\<close> a list
  with its front first, a \<^verbatim>\<open>HashSet\<close> a set, an \<^verbatim>\<open>Instant\<close> a number of nanoseconds.
\<close>

section \<open>Types and fact collections\<close>

type_synonym u8 = "8 word"
type_synonym u16 = "16 word"
type_synonym u64 = "64 word"
type_synonym uuid = nat

named_theorems wf_defs \<open>well-formedness predicates of the components, unfolded in preservation proofs\<close>
named_theorems step_defs \<open>definitions of the state-changing operations\<close>

section \<open>Bounded arithmetic\<close>

definition usize_max :: nat where
  "usize_max = 2 ^ 64 - 1"

text \<open>\<^verbatim>\<open>saturating_add\<close> / \<^verbatim>\<open>saturating_mul\<close> of an unsigned type with maximum \<open>m\<close>.\<close>

definition sat_add :: "nat \<Rightarrow> nat \<Rightarrow> nat \<Rightarrow> nat" where
  "sat_add m a b = min m (a + b)"

definition sat_mul :: "nat \<Rightarrow> nat \<Rightarrow> nat \<Rightarrow> nat" where
  "sat_mul m a b = min m (a * b)"

lemma sat_add_le [simp]: "sat_add m a b \<le> m"
  by (simp add: sat_add_def)

lemma sat_mul_le [simp]: "sat_mul m a b \<le> m"
  by (simp add: sat_mul_def)

lemma sat_add_exact: "a + b \<le> m \<Longrightarrow> sat_add m a b = a + b"
  by (simp add: sat_add_def)

text \<open>\<^verbatim>\<open>x.clamp(lo, hi)\<close> on an ordered type (the source only calls it with \<open>lo \<le> hi\<close>).\<close>

definition clamp :: "'a::linorder \<Rightarrow> 'a \<Rightarrow> 'a \<Rightarrow> 'a" where
  "clamp lo hi x = (if x < lo then lo else if hi < x then hi else x)"

lemma clamp_bounds: "lo \<le> hi \<Longrightarrow> lo \<le> clamp lo hi x \<and> clamp lo hi x \<le> hi"
  by (auto simp: clamp_def)

lemma clamp_idem [simp]: "lo \<le> hi \<Longrightarrow> clamp lo hi (clamp lo hi x) = clamp lo hi x"
  by (auto simp: clamp_def)

lemma clamp_id: "lo \<le> x \<Longrightarrow> x \<le> hi \<Longrightarrow> clamp lo hi x = x"
  by (auto simp: clamp_def)

section \<open>Request identifiers\<close>

text \<open>
  \<^verbatim>\<open>x.wrapping_add(1).max(1)\<close> on \<^verbatim>\<open>u64\<close>: the next generation number, never zero.
\<close>

definition next_generation :: "u64 \<Rightarrow> u64" where
  "next_generation g = max (g + 1) 1"

lemma next_generation_pos [simp]: "next_generation g \<noteq> 0"
  by (auto simp: next_generation_def max_def)

lemma next_generation_neq [simp]: "next_generation g \<noteq> g"
proof
  assume eq: "next_generation g = g"
  show False
  proof (cases "g + 1 = 0")
    case True
    with eq have "g = 1" by (simp add: next_generation_def max_def)
    with True show False by simp
  next
    case False
    then have "1 \<le> g + 1" by (simp add: word_le_nat_alt unat_gt_0 Suc_le_eq)
    with eq have "g + 1 = g" by (simp add: next_generation_def max_def split: if_splits)
    then show False by simp
  qed
qed

lemma unat_next_generation: "unat (next_generation g) = unat g mod (2 ^ 64 - 1) + 1"
proof (cases "g + 1 = 0")
  case True
  then have "g = - 1" by (simp add: eq_neg_iff_add_eq_0)
  then have "unat g = 2 ^ 64 - 1" by (simp add: unsigned_minus_1_eq_mask mask_eq_exp_minus_1)
  with True show ?thesis by (simp add: next_generation_def max_def)
next
  case False
  then have u: "unat (g + 1) = unat g + 1" using unatSuc [of g] by (simp add: add.commute)
  have "unat (g + 1) < 2 ^ LENGTH(64)" by (rule unsigned_less)
  with u have "unat g < 2 ^ 64 - 1" by simp
  moreover have "1 \<le> g + 1" using False by (simp add: word_le_nat_alt unat_gt_0 Suc_le_eq)
  then have "next_generation g = g + 1" by (auto simp: next_generation_def max_def)
  ultimately show ?thesis using u by simp
qed

lemma mod_shift_neq: "0 < k \<Longrightarrow> k < m \<Longrightarrow> a < m \<Longrightarrow> (a + k) mod m \<noteq> (a :: nat)"
proof (cases "a + k < m")
  case False
  assume "0 < k" "k < m" "a < m"
  moreover have "(a + k) mod m = (a + k - m) mod m" using False by (simp add: le_mod_geq)
  ultimately show ?thesis using False by (simp add: mod_less)
qed simp

text \<open>A generation number does not come back within \<open>2 ^ 64 - 2\<close> steps.\<close>

lemma next_generation_pow_neq:
  assumes "0 < k" "k < 2 ^ 64 - 1"
  shows "(next_generation ^^ k) g \<noteq> g"
proof
  let ?m = "2 ^ 64 - 1 :: nat"
  have pow: "unat ((next_generation ^^ Suc j) g) = (unat g + j) mod ?m + 1" for j
  proof (induction j)
    case (Suc j)
    have "unat ((next_generation ^^ Suc (Suc j)) g) = unat ((next_generation ^^ Suc j) g) mod ?m + 1"
      by (simp only: funpow.simps comp_apply unat_next_generation)
    also have "\<dots> = ((unat g + j) mod ?m + 1) mod ?m + 1" by (simp only: Suc.IH)
    also have "\<dots> = (unat g + j + 1) mod ?m + 1" by (simp only: mod_add_left_eq)
    finally show ?case by simp
  qed (simp add: unat_next_generation)
  obtain j where j: "k = Suc j" using assms(1) by (cases k) auto
  assume "(next_generation ^^ k) g = g"
  then have eq: "(unat g + j) mod ?m + 1 = unat g" using pow [of j] j by simp
  then have "unat g = 1 + (unat g - 1)" by linarith
  then have "((unat g - 1) + k) mod ?m = unat g - 1" using eq j by simp
  moreover have "unat g < 2 ^ LENGTH(64)" by (rule unsigned_less)
  then have "unat g - 1 < ?m" by simp
  ultimately show False using mod_shift_neq [OF assms] by blast
qed

section \<open>Decimal printing\<close>

definition digit_char :: "nat \<Rightarrow> char" where
  "digit_char d = char_of (48 + d)"

fun show_nat :: "nat \<Rightarrow> string" where
  "show_nat n = (if n < 10 then [digit_char n] else show_nat (n div 10) @ [digit_char (n mod 10)])"

declare show_nat.simps [simp del]

definition is_digit :: "char \<Rightarrow> bool" where
  "is_digit c \<longleftrightarrow> 48 \<le> (of_char c :: nat) \<and> (of_char c :: nat) \<le> 57"

definition digit_value :: "char \<Rightarrow> nat" where
  "digit_value c = of_char c - 48"

text \<open>The value a decimal string denotes: the reader's side of the round trip.\<close>

definition read_nat :: "string \<Rightarrow> nat" where
  "read_nat s = foldl (\<lambda>a c. 10 * a + digit_value c) 0 s"

lemma digit_char_value: "d < 10 \<Longrightarrow> digit_value (digit_char d) = d"
  by (simp add: digit_value_def digit_char_def)

lemma digit_char_is_digit: "d < 10 \<Longrightarrow> is_digit (digit_char d)"
  by (simp add: is_digit_def digit_char_def)

lemma digit_char_simps [simp]:
  "digit_char 0 = CHR ''0''" "digit_char 1 = CHR ''1''" "digit_char 2 = CHR ''2''"
  "digit_char 3 = CHR ''3''" "digit_char 4 = CHR ''4''" "digit_char 5 = CHR ''5''"
  "digit_char 6 = CHR ''6''" "digit_char 7 = CHR ''7''" "digit_char 8 = CHR ''8''"
  "digit_char 9 = CHR ''9''" "digit_char (Suc 0) = CHR ''1''"
  by code_simp+

lemma read_nat_snoc: "read_nat (s @ [c]) = 10 * read_nat s + digit_value c"
  by (simp add: read_nat_def)

lemma read_show_nat [simp]: "read_nat (show_nat n) = n"
proof (induction n rule: show_nat.induct)
  case (1 n)
  show ?case
  proof (cases "n < 10")
    case True
    then show ?thesis by (simp add: show_nat.simps [of n] read_nat_def digit_char_value)
  next
    case False
    with 1 have "read_nat (show_nat (n div 10)) = n div 10" by simp
    with False show ?thesis
      by (simp add: show_nat.simps [of n] read_nat_snoc digit_char_value)
  qed
qed

lemma show_nat_digits: "c \<in> set (show_nat n) \<Longrightarrow> is_digit c"
proof (induction n rule: show_nat.induct)
  case (1 n)
  then show ?case
    by (cases "n < 10") (auto simp: show_nat.simps [of n] digit_char_is_digit)
qed

lemma show_nat_inj: "show_nat a = show_nat b \<Longrightarrow> a = b"
  by (metis read_show_nat)

lemma show_nat_nonempty [simp]: "show_nat n \<noteq> []"
  by (subst show_nat.simps) simp

text \<open>A decimal number ends where the first non-digit stands: printed fields cannot run together.\<close>

lemma digits_split:
  assumes "\<forall>c \<in> set xs. is_digit c" "\<forall>c \<in> set ys. is_digit c" "\<not> is_digit a" "\<not> is_digit b"
    and "xs @ a # us = ys @ b # vs"
  shows "xs = ys \<and> a = b \<and> us = vs"
  using assms
proof (induction xs arbitrary: ys)
  case Nil
  then show ?case by (cases ys) auto
next
  case (Cons x xs)
  then show ?case by (cases ys) auto
qed

lemma show_nat_split:
  assumes "\<not> is_digit a" "\<not> is_digit b" "show_nat m @ a # us = show_nat n @ b # vs"
  shows "m = n \<and> a = b \<and> us = vs"
  using digits_split [OF _ _ assms] show_nat_digits show_nat_inj by blast

section \<open>Find and update in place\<close>

text \<open>
  \<^verbatim>\<open>if let Some(x) = xs.iter_mut().find(|x| p(x)) { *x = f(x) }\<close>.
\<close>

fun update_first :: "('a \<Rightarrow> bool) \<Rightarrow> ('a \<Rightarrow> 'a) \<Rightarrow> 'a list \<Rightarrow> 'a list" where
  "update_first p f [] = []"
| "update_first p f (x # xs) = (if p x then f x # xs else x # update_first p f xs)"

lemma update_first_map:
  "(\<And>x. p x \<Longrightarrow> h (f x) = h x) \<Longrightarrow> map h (update_first p f xs) = map h xs"
  by (induction xs) auto

lemma length_update_first [simp]: "length (update_first p f xs) = length xs"
  by (induction xs) auto

lemma set_update_first_subset:
  "y \<in> set (update_first p f xs) \<Longrightarrow> y \<in> set xs \<or> (\<exists>x. find p xs = Some x \<and> y = f x)"
  by (induction xs) (auto split: if_splits)

lemma update_first_none: "find p xs = None \<Longrightarrow> update_first p f xs = xs"
  by (induction xs) (auto split: if_splits)

lemma find_update_first:
  "(\<And>x. p x \<Longrightarrow> p (f x)) \<Longrightarrow> find p (update_first p f xs) = map_option f (find p xs)"
  by (induction xs) auto

lemma find_update_first_other:
  "(\<And>x. p x \<Longrightarrow> \<not> q x \<and> \<not> q (f x)) \<Longrightarrow> find q (update_first p f xs) = find q xs"
  by (induction xs) auto

lemma find_SomeD: "find p xs = Some x \<Longrightarrow> p x \<and> x \<in> set xs"
  by (induction xs) (auto split: if_splits)

lemma find_NoneD: "find p xs = None \<Longrightarrow> x \<in> set xs \<Longrightarrow> \<not> p x"
  by (induction xs) (auto split: if_splits)

lemma find_distinct_key:
  "distinct (map h xs) \<Longrightarrow> x \<in> set xs \<Longrightarrow> find (\<lambda>y. h y = h x) xs = Some x"
  by (induction xs) (auto simp: rev_image_eqI)

section \<open>Chunks\<close>

text \<open>\<^verbatim>\<open>slice.chunks(n)\<close> for \<open>n > 0\<close> (Rust panics on 0; every caller passes a positive constant).\<close>

function chunks :: "nat \<Rightarrow> 'a list \<Rightarrow> 'a list list" where
  "chunks n xs = (if xs = [] \<or> n = 0 then [] else take n xs # chunks n (drop n xs))"
  by pat_completeness auto
termination
  by (relation "measure (\<lambda>(n, xs). length xs)") auto

declare chunks.simps [simp del]

lemma chunks_Nil [simp]: "chunks n [] = []"
  by (simp add: chunks.simps)

lemma chunks_zero [simp]: "chunks 0 xs = []"
  by (simp add: chunks.simps)

lemma concat_chunks: "0 < n \<Longrightarrow> concat (chunks n xs) = xs"
proof (induction n xs rule: chunks.induct)
  case (1 n xs)
  then show ?case by (cases "xs = []") (auto simp: chunks.simps [of n xs])
qed

lemma chunks_bounded: "c \<in> set (chunks n xs) \<Longrightarrow> c \<noteq> [] \<and> length c \<le> n"
proof (induction n xs rule: chunks.induct)
  case (1 n xs)
  then show ?case
    by (cases "xs = [] \<or> n = 0") (auto simp: chunks.simps [of n xs])
qed

section \<open>Stable sorting by a comparison\<close>

text \<open>
  \<^verbatim>\<open>sort_by\<close> is stable; for a total preorder \<open>le\<close> ("not greater") its result is the one of
  insertion sort that inserts an element before the first one it is not greater than.
\<close>

fun insert_by :: "('a \<Rightarrow> 'a \<Rightarrow> bool) \<Rightarrow> 'a \<Rightarrow> 'a list \<Rightarrow> 'a list" where
  "insert_by le x [] = [x]"
| "insert_by le x (y # ys) = (if le x y then x # y # ys else y # insert_by le x ys)"

definition sort_by :: "('a \<Rightarrow> 'a \<Rightarrow> bool) \<Rightarrow> 'a list \<Rightarrow> 'a list" where
  "sort_by le xs = foldr (insert_by le) xs []"

lemma mset_insert_by [simp]: "mset (insert_by le x xs) = add_mset x (mset xs)"
  by (induction xs) auto

lemma mset_sort_by [simp]: "mset (sort_by le xs) = mset xs"
  by (induction xs) (auto simp: sort_by_def)

lemma set_sort_by [simp]: "set (sort_by le xs) = set xs"
  by (metis mset_sort_by set_mset_mset)

lemma length_sort_by [simp]: "length (sort_by le xs) = length xs"
  by (metis mset_sort_by size_mset)

lemma sorted_insert_by:
  assumes "totalp le" "reflp le" "transp le" "sorted_wrt le xs"
  shows "sorted_wrt le (insert_by le x xs)"
  using assms(4)
proof (induction xs)
  case (Cons y ys)
  have mem: "\<And>z. z \<in> set (insert_by le x ys) \<longleftrightarrow> z = x \<or> z \<in> set ys"
    by (metis insert_iff list.set(2) mset.simps(2) mset_insert_by set_mset_mset)
  show ?case
    using Cons assms(1-3)
    by (auto simp: mem dest: transpD totalpD reflpD) (metis reflpD totalpD)+
qed simp

lemma sorted_sort_by:
  "totalp le \<Longrightarrow> reflp le \<Longrightarrow> transp le \<Longrightarrow> sorted_wrt le (sort_by le xs)"
  by (induction xs) (auto simp: sort_by_def sorted_insert_by)

section \<open>Characters of UTF-8 text\<close>

definition is_continuation :: "char \<Rightarrow> bool" where
  "is_continuation c \<longleftrightarrow> 128 \<le> (of_char c :: nat) \<and> (of_char c :: nat) < 192"

text \<open>\<^verbatim>\<open>s.chars().count()\<close> and \<^verbatim>\<open>s.chars().take(n).collect()\<close>.\<close>

definition char_count :: "string \<Rightarrow> nat" where
  "char_count s = length (filter (\<lambda>c. \<not> is_continuation c) s)"

fun take_chars :: "nat \<Rightarrow> string \<Rightarrow> string" where
  "take_chars n [] = []"
| "take_chars n (c # cs) =
     (if is_continuation c then c # take_chars n cs
      else if n = 0 then [] else c # take_chars (n - 1) cs)"

lemma char_count_take_chars: "char_count (take_chars n s) \<le> n"
  by (induction n s rule: take_chars.induct) (auto simp: char_count_def)

lemma take_chars_id: "char_count s \<le> n \<Longrightarrow> take_chars n s = s"
  by (induction n s rule: take_chars.induct) (auto simp: char_count_def split: if_splits)

lemma take_chars_prefix: "\<exists>r. s = take_chars n s @ r"
  by (induction n s rule: take_chars.induct) auto

end
