(* ===== verification/Dimensions.thy ===== *)
theory Dimensions
  imports Prelude
begin

text \<open>
  Terminal dimensions shared by the terminal model, the settings and every backend worker
  (\<^verbatim>\<open>src/src/terminal_dimensions.rs\<close>) and the bounded motion queues of
  \<^verbatim>\<open>src/src/terminal_input.rs\<close>.
\<close>

section \<open>Sizes\<close>

definition MIN_TERMINAL_COLUMNS :: nat where "MIN_TERMINAL_COLUMNS = 10"
definition MIN_TERMINAL_ROWS :: nat where "MIN_TERMINAL_ROWS = 3"
definition MAX_TERMINAL_COLUMNS :: nat where "MAX_TERMINAL_COLUMNS = 300"
definition MAX_TERMINAL_ROWS :: nat where "MAX_TERMINAL_ROWS = 100"

lemmas dimension_limits =
  MIN_TERMINAL_COLUMNS_def MIN_TERMINAL_ROWS_def MAX_TERMINAL_COLUMNS_def MAX_TERMINAL_ROWS_def

record terminal_size =
  ts_columns :: nat
  ts_rows :: nat
  ts_pixel_width :: nat
  ts_pixel_height :: nat

text \<open>\<^verbatim>\<open>u32::try_from(x).unwrap_or(u32::MAX)\<close> followed by the clamp.\<close>

definition to_u32 :: "nat \<Rightarrow> nat" where
  "to_u32 x = (if x < 2 ^ 32 then x else 2 ^ 32 - 1)"

definition size_model :: "nat \<Rightarrow> nat \<Rightarrow> terminal_size" where
  "size_model columns rows =
     \<lparr>ts_columns = clamp MIN_TERMINAL_COLUMNS MAX_TERMINAL_COLUMNS (to_u32 columns),
      ts_rows = clamp MIN_TERMINAL_ROWS MAX_TERMINAL_ROWS (to_u32 rows),
      ts_pixel_width = 0, ts_pixel_height = 0\<rparr>"

definition size_model_with_pixels :: "nat \<Rightarrow> nat \<Rightarrow> nat \<Rightarrow> nat \<Rightarrow> terminal_size" where
  "size_model_with_pixels columns rows pw ph =
     (size_model columns rows)\<lparr>ts_pixel_width := pw, ts_pixel_height := ph\<rparr>"

definition size_backend :: "nat \<Rightarrow> nat \<Rightarrow> terminal_size" where
  "size_backend columns rows =
     \<lparr>ts_columns = clamp 1 MAX_TERMINAL_COLUMNS columns,
      ts_rows = clamp 1 MAX_TERMINAL_ROWS rows,
      ts_pixel_width = 0, ts_pixel_height = 0\<rparr>"

definition size_backend_with_pixels :: "nat \<Rightarrow> nat \<Rightarrow> nat \<Rightarrow> nat \<Rightarrow> terminal_size" where
  "size_backend_with_pixels columns rows pw ph =
     (size_backend columns rows)\<lparr>ts_pixel_width := pw, ts_pixel_height := ph\<rparr>"

datatype size_error = ZeroDimension | DimensionTooLarge

definition validate_backend_size :: "nat \<Rightarrow> nat \<Rightarrow> size_error + unit" where
  "validate_backend_size columns rows =
     (if columns = 0 \<or> rows = 0 then Inl ZeroDimension
      else if MAX_TERMINAL_COLUMNS < columns \<or> MAX_TERMINAL_ROWS < rows then Inl DimensionTooLarge
      else Inr ())"

lemma size_backend_bounds:
  "1 \<le> ts_columns (size_backend c r) \<and> ts_columns (size_backend c r) \<le> 300 \<and>
   1 \<le> ts_rows (size_backend c r) \<and> ts_rows (size_backend c r) \<le> 100"
  using clamp_bounds [of 1 "300::nat" c] clamp_bounds [of 1 "100::nat" r]
  by (simp add: size_backend_def dimension_limits)

lemma size_model_bounds:
  "10 \<le> ts_columns (size_model c r) \<and> ts_columns (size_model c r) \<le> 300 \<and>
   3 \<le> ts_rows (size_model c r) \<and> ts_rows (size_model c r) \<le> 100"
  using clamp_bounds [of 10 "300::nat" "to_u32 c"] clamp_bounds [of 3 "100::nat" "to_u32 r"]
  by (simp add: size_model_def dimension_limits)

lemma validate_backend_size_ok_iff:
  "validate_backend_size c r = Inr () \<longleftrightarrow> 1 \<le> c \<and> c \<le> 300 \<and> 1 \<le> r \<and> r \<le> 100"
  by (auto simp: validate_backend_size_def dimension_limits)

section \<open>Lossy motion queues\<close>

text \<open>
  A bounded channel as its sender sees it: the number of queued commands, its capacity and whether
  the receiver is gone. \<^verbatim>\<open>try_send\<close> checks for a closed receiver before a full buffer.
\<close>

record 'c channel =
  ch_queue :: "'c list"
  ch_capacity :: nat
  ch_closed :: bool

datatype 'c send_error = Closed | Full

definition try_send :: "'c channel \<Rightarrow> 'c \<Rightarrow> 'c send_error + 'c channel" where
  "try_send ch c =
     (if ch_closed ch then Inl Closed
      else if ch_capacity ch \<le> length (ch_queue ch) then Inl Full
      else Inr (ch\<lparr>ch_queue := ch_queue ch @ [c]\<rparr>))"

text \<open>
  \<^verbatim>\<open>try_queue_tokio_motion\<close>: the result is the new channel and \<^verbatim>\<open>Ok(sent)\<close>, or an error. It
  never uses the last free slot, which stays available to press, release and command input.
\<close>

definition try_queue_tokio_motion :: "'c channel \<Rightarrow> 'c \<Rightarrow> unit + (bool \<times> 'c channel)" where
  "try_queue_tokio_motion ch c =
     (if ch_capacity ch - length (ch_queue ch) \<le> 1 then
        (if ch_closed ch then Inl () else Inr (False, ch))
      else case try_send ch c of
        Inr ch' \<Rightarrow> Inr (True, ch')
      | Inl Full \<Rightarrow> Inr (False, ch)
      | Inl Closed \<Rightarrow> Inl ())"

definition try_queue_sync_motion :: "'c channel \<Rightarrow> 'c \<Rightarrow> unit + (bool \<times> 'c channel)" where
  "try_queue_sync_motion ch c =
     (case try_send ch c of
        Inr ch' \<Rightarrow> Inr (True, ch')
      | Inl Full \<Rightarrow> Inr (False, ch)
      | Inl Closed \<Rightarrow> Inl ())"

definition free_slots :: "'c channel \<Rightarrow> nat" where
  "free_slots ch = ch_capacity ch - length (ch_queue ch)"

text \<open>A run of motion events: errors end it, dropped events leave the queue as it is.\<close>

fun queue_motions :: "'c channel \<Rightarrow> 'c list \<Rightarrow> unit + 'c channel" where
  "queue_motions ch [] = Inr ch"
| "queue_motions ch (c # cs) =
     (case try_queue_tokio_motion ch c of Inl e \<Rightarrow> Inl e | Inr (_, ch') \<Rightarrow> queue_motions ch' cs)"

lemma tokio_motion_keeps_slot:
  "try_queue_tokio_motion ch c = Inr (sent, ch') \<Longrightarrow> 1 \<le> free_slots ch \<Longrightarrow> 1 \<le> free_slots ch'"
  by (auto simp: try_queue_tokio_motion_def try_send_def free_slots_def split: if_splits)

lemma queue_motions_keeps_slot:
  "queue_motions ch cs = Inr ch' \<Longrightarrow> 1 \<le> free_slots ch \<Longrightarrow> 1 \<le> free_slots ch'"
  by (induction cs arbitrary: ch)
    (auto split: sum.splits prod.splits dest: tokio_motion_keeps_slot)

lemma queue_motions_open:
  "queue_motions ch cs = Inr ch' \<Longrightarrow> ch_closed ch' = ch_closed ch"
  by (induction cs arbitrary: ch)
    (auto simp: try_queue_tokio_motion_def try_send_def
      split: sum.splits prod.splits if_splits send_error.splits)

end
