(* ===== verification/Key_Input.thy ===== *)
theory Key_Input
  imports Prelude
begin

text \<open>
  Terminal key encoding (\<^verbatim>\<open>src/src/terminal/input.rs\<close>): keys with modifiers to the xterm byte
  sequences sent to the remote, and the clipboard paste transaction with DEC bracketed paste.
  The bytes sent are an Isabelle \<open>string\<close>. The paste loop and the single-character tests of the
  source run over \<^verbatim>\<open>chars()\<close>; every character they look for is ASCII, which never occurs inside
  a UTF-8 sequence of another character, so on UTF-8 bytes they are the same.
\<close>

section \<open>Keys and modifiers\<close>

datatype terminal_key =
  KText string | KReturn | KBackspace | KTab | KEscape | KUp | KDown | KRight | KLeft
| KInsert | KDelete | KHome | KEnd | KPageUp | KPageDown | KFunction nat

record modifiers =
  m_alt :: bool
  m_control :: bool
  m_meta :: bool
  m_shift :: bool

datatype terminal_platform = MacOs | OtherPlatform

definition ESC :: char where "ESC = CHR 0x1B"
definition CR :: char where "CR = CHR 0x0D"
definition LF :: char where "LF = CHR 0x0A"
definition DEL :: char where "DEL = CHR 0x7F"

lemmas control_chars = ESC_def CR_def LF_def DEL_def

definition mods_empty :: "modifiers \<Rightarrow> bool" where
  "mods_empty m \<longleftrightarrow> \<not> m_alt m \<and> \<not> m_control m \<and> \<not> m_meta m \<and> \<not> m_shift m"

definition xterm_code :: "modifiers \<Rightarrow> nat" where
  "xterm_code m = 1 + of_bool (m_shift m) + 2 * of_bool (m_alt m) + 4 * of_bool (m_control m)"

section \<open>Encoders\<close>

definition platform_navigation_sequence ::
  "terminal_key \<Rightarrow> modifiers \<Rightarrow> terminal_platform \<Rightarrow> string option" where
  "platform_navigation_sequence key m platform =
     (if platform \<noteq> MacOs \<or> m_control m \<or> m_shift m then None
      else case (key, m_alt m, m_meta m) of
        (KLeft, False, True) \<Rightarrow> Some [CHR 0x01]
      | (KRight, False, True) \<Rightarrow> Some [CHR 0x05]
      | (KLeft, True, False) \<Rightarrow> Some (ESC # ''b'')
      | (KRight, True, False) \<Rightarrow> Some (ESC # ''f'')
      | _ \<Rightarrow> None)"

definition modified_navigation_sequence :: "terminal_key \<Rightarrow> modifiers \<Rightarrow> string option" where
  "modified_navigation_sequence key m =
     (if mods_empty m \<or> m_meta m then None
      else let code = show_nat (xterm_code m) in
        case key of
          KUp \<Rightarrow> Some (ESC # ''[1;'' @ code @ ''A'')
        | KDown \<Rightarrow> Some (ESC # ''[1;'' @ code @ ''B'')
        | KRight \<Rightarrow> Some (ESC # ''[1;'' @ code @ ''C'')
        | KLeft \<Rightarrow> Some (ESC # ''[1;'' @ code @ ''D'')
        | KHome \<Rightarrow> Some (ESC # ''[1;'' @ code @ ''H'')
        | KEnd \<Rightarrow> Some (ESC # ''[1;'' @ code @ ''F'')
        | KInsert \<Rightarrow> Some (ESC # ''[2;'' @ code @ ''~'')
        | KDelete \<Rightarrow> Some (ESC # ''[3;'' @ code @ ''~'')
        | KPageUp \<Rightarrow> Some (ESC # ''[5;'' @ code @ ''~'')
        | KPageDown \<Rightarrow> Some (ESC # ''[6;'' @ code @ ''~'')
        | _ \<Rightarrow> None)"

text \<open>The two tables of \<^verbatim>\<open>function_key_sequence\<close>: without and with modifiers.\<close>

definition function_unmodified :: "nat \<Rightarrow> string option" where
  "function_unmodified n = map_option (\<lambda>s. ESC # s) (map_of
     [(1, ''OP''), (2, ''OQ''), (3, ''OR''), (4, ''OS''),
      (5, ''[15~''), (6, ''[17~''), (7, ''[18~''), (8, ''[19~''),
      (9, ''[20~''), (10, ''[21~''), (11, ''[23~''), (12, ''[24~''),
      (13, ''[1;2P''), (14, ''[1;2Q''), (15, ''[1;2R''), (16, ''[1;2S''),
      (17, ''[15;2~''), (18, ''[17;2~''), (19, ''[18;2~''), (20, ''[19;2~''),
      (21, ''[20;2~''), (22, ''[21;2~''), (23, ''[23;2~''), (24, ''[24;2~'')] n)"

definition function_modified :: "nat \<Rightarrow> string \<Rightarrow> string option" where
  "function_modified n code = map_option (\<lambda>(pre, suf). ESC # pre @ code @ suf) (map_of
     [(1, (''[1;'', ''P'')), (2, (''[1;'', ''Q'')), (3, (''[1;'', ''R'')), (4, (''[1;'', ''S'')),
      (5, (''[15;'', ''~'')), (6, (''[17;'', ''~'')), (7, (''[18;'', ''~'')), (8, (''[19;'', ''~'')),
      (9, (''[20;'', ''~'')), (10, (''[21;'', ''~'')), (11, (''[23;'', ''~'')),
      (12, (''[24;'', ''~'')),
      (13, (''[1;'', ''P'')), (14, (''[1;'', ''Q'')), (15, (''[1;'', ''R'')), (16, (''[1;'', ''S'')),
      (17, (''[15;'', ''~'')), (18, (''[17;'', ''~'')), (19, (''[18;'', ''~'')),
      (20, (''[19;'', ''~'')), (21, (''[20;'', ''~'')), (22, (''[21;'', ''~'')),
      (23, (''[23;'', ''~'')), (24, (''[24;'', ''~''))] n)"

fun function_key_sequence :: "terminal_key \<Rightarrow> modifiers \<Rightarrow> string option" where
  "function_key_sequence (KFunction n) m =
     (if mods_empty m then function_unmodified n
      else function_modified n (show_nat (xterm_code m)))"
| "function_key_sequence _ m = None"

text \<open>The \<^verbatim>\<open>match key\<close> of \<^verbatim>\<open>encode_key_for_platform\<close>: keys with a fixed sequence.\<close>

definition fixed_sequence :: "terminal_key \<Rightarrow> modifiers \<Rightarrow> bool \<Rightarrow> string option" where
  "fixed_sequence key m application_cursor =
     (let empty = mods_empty m;
          arrow = (\<lambda>c. if empty \<and> application_cursor then Some (ESC # ''O'' @ [c])
                       else if empty then Some (ESC # ''['' @ [c]) else None);
          plain = (\<lambda>s. if empty then Some (ESC # s) else None)
      in case key of
        KReturn \<Rightarrow>
          if empty then Some [CR]
          else if m_shift m \<and> \<not> m_alt m \<and> \<not> m_control m then Some [LF]
          else if m_alt m \<and> \<not> m_control m \<and> \<not> m_shift m then Some [ESC, CR]
          else None
      | KBackspace \<Rightarrow>
          if empty \<or> (m_shift m \<and> \<not> m_alt m \<and> \<not> m_control m) then Some [DEL]
          else if m_control m \<and> \<not> m_alt m then Some [CHR 0x08]
          else if m_alt m \<and> \<not> m_control m then Some [ESC, DEL]
          else None
      | KTab \<Rightarrow>
          if empty then Some [CHR 0x09]
          else if m_shift m \<and> \<not> m_alt m \<and> \<not> m_control m then Some (ESC # ''[Z'')
          else None
      | KEscape \<Rightarrow> if empty then Some [ESC] else None
      | KUp \<Rightarrow> arrow (CHR ''A'')
      | KDown \<Rightarrow> arrow (CHR ''B'')
      | KRight \<Rightarrow> arrow (CHR ''C'')
      | KLeft \<Rightarrow> arrow (CHR ''D'')
      | KHome \<Rightarrow> arrow (CHR ''H'')
      | KEnd \<Rightarrow> arrow (CHR ''F'')
      | KInsert \<Rightarrow> plain ''[2~''
      | KDelete \<Rightarrow> plain ''[3~''
      | KPageUp \<Rightarrow> plain ''[5~''
      | KPageDown \<Rightarrow> plain ''[6~''
      | _ \<Rightarrow> None)"

definition is_bare_modifier_text :: "string \<Rightarrow> modifiers \<Rightarrow> bool" where
  "is_bare_modifier_text text m =
     (if m_control m then False
      else case text of
        [c] \<Rightarrow> 0x10 \<le> (of_char c :: nat) \<and> (of_char c :: nat) \<le> 0x18
      | _ \<Rightarrow> False)"

text \<open>
  \<^verbatim>\<open>encode_control_text\<close> on the byte value of its single character (\<^verbatim>\<open>to_ascii_uppercase\<close>
  first); a character outside ASCII is several bytes and falls into the \<^verbatim>\<open>_ => None\<close> arm, as a
  text of several characters does.
\<close>

definition ascii_upper :: "nat \<Rightarrow> nat" where
  "ascii_upper n = (if 97 \<le> n \<and> n \<le> 122 then n - 32 else n)"

definition control_code :: "nat \<Rightarrow> nat option" where
  "control_code n =
     (if (1 \<le> n \<and> n \<le> 0x1f) \<or> n = 0x7f then Some n
      else let u = ascii_upper n in
        if u = 0x20 \<or> u = 0x40 then Some 0x00
        else if 0x41 \<le> u \<and> u \<le> 0x5a then Some (u - 0x41 + 1)
        else if u = 0x5b then Some 0x1b
        else if u = 0x5c then Some 0x1c
        else if u = 0x5d then Some 0x1d
        else if u = 0x5e then Some 0x1e
        else if u = 0x5f then Some 0x1f
        else if u = 0x3f then Some 0x7f
        else None)"

definition encode_control_text :: "string \<Rightarrow> string option" where
  "encode_control_text text =
     (case text of
        [c] \<Rightarrow> map_option (\<lambda>k. [char_of k]) (control_code (of_char c))
      | _ \<Rightarrow> None)"

fun encode_text :: "terminal_key \<Rightarrow> modifiers \<Rightarrow> string option" where
  "encode_text (KText text) m =
     (if is_bare_modifier_text text m then None
      else if m_control m then
        map_option (\<lambda>e. if m_alt m then ESC # e else e) (encode_control_text text)
      else if m_alt m then Some (ESC # text)
      else if text = [] then None else Some text)"
| "encode_text _ m = None"

definition encode_key_for_platform ::
  "terminal_key \<Rightarrow> modifiers \<Rightarrow> bool \<Rightarrow> terminal_platform \<Rightarrow> string option" where
  "encode_key_for_platform key m application_cursor platform =
     (case platform_navigation_sequence key m platform of
        Some s \<Rightarrow> Some s
      | None \<Rightarrow>
          if m_meta m then None
          else case function_key_sequence key m of
            Some s \<Rightarrow> Some s
          | None \<Rightarrow>
              (case fixed_sequence key m application_cursor of
                 Some s \<Rightarrow> Some s
               | None \<Rightarrow>
                   (case modified_navigation_sequence key m of
                      Some s \<Rightarrow> Some s
                    | None \<Rightarrow> encode_text key m)))"

section \<open>Paste\<close>

definition TERMINAL_PASTE_MAX_BYTES :: nat where
  "TERMINAL_PASTE_MAX_BYTES = 4 * 1024 * 1024"

definition skip_lf :: "string \<Rightarrow> string" where
  "skip_lf cs = (if cs \<noteq> [] \<and> hd cs = LF then tl cs else cs)"

lemma skip_lf_length [termination_simp]: "length (skip_lf cs) \<le> length cs"
  by (simp add: skip_lf_def)

lemma skip_lf_subset: "set (skip_lf cs) \<subseteq> set cs"
  by (auto simp: skip_lf_def dest: list.set_sel(2))

fun normalize_paste :: "string \<Rightarrow> string" where
  "normalize_paste [] = []"
| "normalize_paste (c # cs) =
     (if c = ESC then normalize_paste cs
      else if c = CR then CR # normalize_paste (skip_lf cs)
      else if c = LF then CR # normalize_paste cs
      else c # normalize_paste cs)"

definition paste_start :: string where "paste_start = ESC # ''[200~''"
definition paste_end :: string where "paste_end = ESC # ''[201~''"

definition encode_paste :: "string \<Rightarrow> bool \<Rightarrow> string option" where
  "encode_paste text bracketed =
     (let normalized = normalize_paste text in
      if normalized = [] \<or> TERMINAL_PASTE_MAX_BYTES < length normalized then None
      else let wrapper = (if bracketed then 12 else 0) in
        if usize_max < length normalized + wrapper then None
        else if TERMINAL_PASTE_MAX_BYTES < length normalized + wrapper then None
        else Some ((if bracketed then paste_start else []) @ normalized @
                   (if bracketed then paste_end else [])))"

section \<open>Paste lemmas\<close>

lemma esc_neq [simp]: "ESC \<noteq> CR" "ESC \<noteq> LF" "CR \<noteq> LF" "CR \<noteq> ESC" "LF \<noteq> ESC" "LF \<noteq> CR"
  by (simp_all add: control_chars)

lemma normalize_paste_clean: "ESC \<notin> set (normalize_paste t) \<and> LF \<notin> set (normalize_paste t)"
  by (induction t rule: normalize_paste.induct) auto

lemma normalize_paste_length: "length (normalize_paste t) \<le> length t"
  using skip_lf_length
  by (induction t rule: normalize_paste.induct) (auto intro: le_trans)

lemma normalize_paste_id: "ESC \<notin> set t \<Longrightarrow> LF \<notin> set t \<Longrightarrow> normalize_paste t = t"
  by (induction t rule: normalize_paste.induct)
    (auto simp: skip_lf_def dest: list.set_sel(1))

lemma encode_paste_Some:
  "encode_paste t b = Some bs \<longleftrightarrow>
     normalize_paste t \<noteq> [] \<and>
     length (normalize_paste t) + (if b then 12 else 0) \<le> TERMINAL_PASTE_MAX_BYTES \<and>
     bs = (if b then paste_start else []) @ normalize_paste t @ (if b then paste_end else [])"
  by (auto simp: encode_paste_def Let_def TERMINAL_PASTE_MAX_BYTES_def usize_max_def)

text \<open>
  C27. A bracketed paste cannot be escaped from: what is sent is the start marker, a payload with no
  ESC and no line feed, and the end marker, so the only end marker in the stream is the last six
  bytes; the whole transaction is within the 4 MiB limit, and every normalised text that fits is sent.
\<close>

theorem bracketed_paste_contained:
  "encode_paste t True = Some bs \<longleftrightarrow>
     (\<exists>p. p = normalize_paste t \<and> p \<noteq> [] \<and> bs = paste_start @ p @ paste_end \<and>
          ESC \<notin> set p \<and> LF \<notin> set p \<and> length bs \<le> TERMINAL_PASTE_MAX_BYTES)"
  using normalize_paste_clean [of t]
  by (auto simp: encode_paste_Some paste_start_def paste_end_def)

lemma encode_paste_plain_idem:
  "encode_paste t False = Some bs \<Longrightarrow> encode_paste bs False = Some bs"
  using normalize_paste_clean [of t]
  by (auto simp: encode_paste_Some normalize_paste_id)

section \<open>Navigation keys are told apart\<close>

definition navigation_keys :: "terminal_key list" where
  "navigation_keys = [KUp, KDown, KRight, KLeft, KHome, KEnd, KInsert, KDelete, KPageUp, KPageDown]"

text \<open>The receiver's side: a key and its xterm modifier code from a sequence.\<close>

definition letter_key :: "char \<Rightarrow> terminal_key option" where
  "letter_key c = map_of [(CHR ''A'', KUp), (CHR ''B'', KDown), (CHR ''C'', KRight),
     (CHR ''D'', KLeft), (CHR ''H'', KHome), (CHR ''F'', KEnd)] c"

definition tilde_key :: "char \<Rightarrow> terminal_key option" where
  "tilde_key c = map_of [(CHR ''2'', KInsert), (CHR ''3'', KDelete), (CHR ''5'', KPageUp),
     (CHR ''6'', KPageDown)] c"

definition decode_navigation :: "string \<Rightarrow> (terminal_key \<times> nat) option" where
  "decode_navigation s =
     (case s of
        [_, _, c] \<Rightarrow> map_option (\<lambda>k. (k, 1)) (letter_key c)
      | [_, _, n, _] \<Rightarrow> map_option (\<lambda>k. (k, 1)) (tilde_key n)
      | [_, _, n, _, code, f] \<Rightarrow>
          map_option (\<lambda>k. (k, digit_value code)) (if f = CHR ''~'' then tilde_key n else letter_key f)
      | _ \<Rightarrow> None)"

lemma xterm_code_range: "1 \<le> xterm_code m \<and> xterm_code m \<le> 8"
  by (simp add: xterm_code_def of_bool_def)

lemma xterm_code_empty: "\<not> m_meta m \<Longrightarrow> mods_empty m \<longleftrightarrow> xterm_code m = 1"
  by (auto simp: xterm_code_def mods_empty_def of_bool_def)

lemma xterm_code_inj:
  "xterm_code m = xterm_code n \<Longrightarrow> m_meta m = m_meta n \<Longrightarrow> m = n"
  by (cases m; cases n) (auto simp: xterm_code_def of_bool_def split: if_splits)

lemma show_xterm_code: "show_nat (xterm_code m) = [digit_char (xterm_code m)]"
  using xterm_code_range [of m] by (simp add: show_nat.simps)

lemma xterm_digit_value: "digit_value (digit_char (xterm_code m)) = xterm_code m"
  using xterm_code_range [of m] by (intro digit_char_value) simp

lemma decode_encode_navigation:
  assumes "k \<in> set navigation_keys" "\<not> m_meta m"
  shows "\<exists>s. encode_key_for_platform k m a OtherPlatform = Some s \<and>
             decode_navigation s = Some (k, xterm_code m)"
  using assms
  by (cases "mods_empty m"; cases a)
    (auto simp: navigation_keys_def encode_key_for_platform_def platform_navigation_sequence_def
       fixed_sequence_def modified_navigation_sequence_def decode_navigation_def letter_key_def
       tilde_key_def show_xterm_code xterm_digit_value xterm_code_empty)

text \<open>
  Navigation keys with any combination of Shift, Alt and Control are sent as pairwise different
  sequences within one cursor mode: the remote can tell which key was pressed with which modifiers.
\<close>

theorem navigation_encoding_injective:
  assumes "k \<in> set navigation_keys" "k' \<in> set navigation_keys" "\<not> m_meta m" "\<not> m_meta m'"
    and "encode_key_for_platform k m a OtherPlatform = encode_key_for_platform k' m' a OtherPlatform"
  shows "k = k' \<and> m = m'"
  using decode_encode_navigation [OF assms(1,3), of a] decode_encode_navigation [OF assms(2,4), of a]
    assms(3-5) xterm_code_inj [of m m']
  by auto

theorem navigation_encoding_injective_witness:
  "let m = \<lparr>m_alt = True, m_control = False, m_meta = False, m_shift = True\<rparr> in
     KHome = KHome \<and> m = m \<and>
     encode_key_for_platform KHome m False OtherPlatform = Some (ESC # ''[1;4H'')"
proof -
  let ?m = "\<lparr>m_alt = True, m_control = False, m_meta = False, m_shift = True\<rparr>"
  have code: "xterm_code ?m = 4" by (simp add: xterm_code_def)
  have "encode_key_for_platform KHome ?m False OtherPlatform = Some (ESC # ''[1;4H'')"
    by (simp add: encode_key_for_platform_def platform_navigation_sequence_def
        fixed_sequence_def modified_navigation_sequence_def mods_empty_def show_nat.simps code)
  then show ?thesis
    using navigation_encoding_injective [of KHome KHome ?m ?m False]
    by (simp add: navigation_keys_def)
qed

section \<open>Totality and non-emptiness\<close>

lemma control_code_is_control: "control_code n = Some k \<Longrightarrow> k < 32 \<or> k = 127"
  by (auto simp: control_code_def ascii_upper_def Let_def split: if_splits)

lemma control_code_letter: "65 \<le> n \<Longrightarrow> n \<le> 90 \<Longrightarrow> control_code n = Some (n - 64)"
  by (simp add: control_code_def ascii_upper_def Let_def)

lemma control_code_lower: "97 \<le> n \<Longrightarrow> n \<le> 122 \<Longrightarrow> control_code n = control_code (n - 32)"
  by (auto simp: control_code_def ascii_upper_def Let_def)

lemma encode_control_text_Some:
  "encode_control_text t = Some bs \<Longrightarrow>
     \<exists>k. bs = [char_of k] \<and> ((k::nat) < 32 \<or> k = 127)"
  by (auto simp: encode_control_text_def split: list.splits dest: control_code_is_control)

lemma map_option_esc: "map_option (\<lambda>s. ESC # s) X \<noteq> Some []"
  by (cases X) auto

lemma map_option_esc_pair: "map_option (\<lambda>(pre, suf). ESC # pre @ code @ suf) X \<noteq> Some []"
  by (cases X) auto

lemma function_key_nonempty: "function_key_sequence k m \<noteq> Some []"
proof (cases k)
  case (KFunction n)
  have "function_unmodified n \<noteq> Some []"
    unfolding function_unmodified_def by (rule map_option_esc)
  moreover have "function_modified n code \<noteq> Some []" for code
    unfolding function_modified_def by (rule map_option_esc_pair)
  ultimately show ?thesis by (simp add: KFunction)
qed simp_all

lemma encoded_key_nonempty:
  assumes "encode_key_for_platform k m a pf = Some bs"
  shows "bs \<noteq> []"
proof -
  have nav: "platform_navigation_sequence k m pf \<noteq> Some []"
    by (cases k; cases "m_alt m"; cases "m_meta m") (auto simp: platform_navigation_sequence_def)
  have fixed: "fixed_sequence k m a \<noteq> Some []"
    by (cases k) (auto simp: fixed_sequence_def Let_def)
  have modi: "modified_navigation_sequence k m \<noteq> Some []"
    by (cases k) (auto simp: modified_navigation_sequence_def Let_def)
  have text_case: "encode_text k m \<noteq> Some []"
    by (cases k) (auto dest: encode_control_text_Some split: if_splits)
  show ?thesis
    using assms nav fixed modi function_key_nonempty [of k m] text_case
    by (auto simp: encode_key_for_platform_def split: option.splits if_splits)
qed

text \<open>
  Control with a one-character text sends a single C0 control byte or DEL and nothing else (after
  an ESC prefix when Alt is held); no key press is ever encoded as the empty sequence.
\<close>

theorem control_text_single_byte:
  assumes "m_control m" "\<not> m_meta m"
    and "encode_key_for_platform (KText t) m a pf = Some bs"
  shows "\<exists>k. bs = (if m_alt m then [ESC] else []) @ [char_of k] \<and> ((k::nat) < 32 \<or> k = 127)"
  using assms
  by (auto simp: encode_key_for_platform_def platform_navigation_sequence_def
      fixed_sequence_def modified_navigation_sequence_def is_bare_modifier_text_def Let_def
      split: option.splits if_splits dest!: encode_control_text_Some)

theorem control_text_single_byte_witness:
  "encode_key_for_platform (KText ''C'')
     \<lparr>m_alt = True, m_control = True, m_meta = False, m_shift = False\<rparr> False OtherPlatform
     = Some [ESC, CHR 0x03] \<and>
   (\<exists>k. [ESC, CHR 0x03] = [ESC] @ [char_of k] \<and> ((k::nat) < 32 \<or> k = 127))"
proof -
  let ?m = "\<lparr>m_alt = True, m_control = True, m_meta = False, m_shift = False\<rparr>"
  have three: "char_of (3::nat) = CHR 0x03" by code_simp
  have enc: "encode_key_for_platform (KText ''C'') ?m False OtherPlatform = Some [ESC, CHR 0x03]"
    by (simp add: encode_key_for_platform_def platform_navigation_sequence_def fixed_sequence_def
        modified_navigation_sequence_def is_bare_modifier_text_def encode_control_text_def
        control_code_letter mods_empty_def three)
  show ?thesis
    using control_text_single_byte [OF _ _ enc] enc by simp
qed

end
