(* ===== verification/Mouse_Protocol.thy ===== *)
theory Mouse_Protocol
  imports Key_Input
begin

unbundle bit_operations_syntax

text \<open>
  The protocol side of the terminal model (\<^verbatim>\<open>src/src/terminal/model.rs\<close>, types in
  \<^verbatim>\<open>src/src/terminal.rs\<close>): the private-mode tracker that follows the mouse coordinate encodings
  through split transport reads, the tracker for \<^verbatim>\<open>CSI 16 t\<close> queries with its bounded reply
  queue, mouse report encoding, and the OSC colour defaults.

  The terminal core (\<^verbatim>\<open>alacritty_terminal::Term\<close>) is not part of the repository: what the code
  reads of it, its mode flags and grid size, is the record \<open>term_view\<close>, an argument of the model.
\<close>

section \<open>Byte observers\<close>

text \<open>
  The interface both trackers share: they see the transport's bytes one batch at a time. The client
  facts are that batch boundaries do not matter.
\<close>

locale byte_observer =
  fixes step :: "'s \<Rightarrow> char \<Rightarrow> 's"
    and observe :: "'s \<Rightarrow> string \<Rightarrow> 's"
  assumes observe_Nil: "observe s [] = s"
    and observe_Cons: "observe s (b # bs) = observe (step s b) bs"
begin

lemma observe_append: "observe s (xs @ ys) = observe (observe s xs) ys"
  by (induction xs arbitrary: s) (simp_all add: observe_Nil observe_Cons)

lemma observe_batches: "foldl observe s bss = observe s (concat bss)"
  by (induction bss arbitrary: s) (simp_all add: observe_Nil observe_append)

lemma observe_invariant:
  assumes "\<And>s b. I s \<Longrightarrow> I (step s b)" "I s"
  shows "I (observe s bs)"
  using assms(2) by (induction bs arbitrary: s) (simp_all add: observe_Nil observe_Cons assms(1))

end

section \<open>Mouse coordinate encoding tracker\<close>

record mouse_tracker =
  utf8_coordinates :: bool
  urxvt_coordinates :: bool
  pixel_coordinates :: bool
  parser_state :: nat
  parameter :: nat
  has_parameter :: bool
  parameters :: "nat list"

definition mouse_tracker_default :: mouse_tracker where
  "mouse_tracker_default =
     \<lparr>utf8_coordinates = False, urxvt_coordinates = False, pixel_coordinates = False,
      parser_state = 0, parameter = 0, has_parameter = False, parameters = []\<rparr>"

datatype coordinate_encoding = CDefault | CUtf8 | CUrxvt | CSgr | CSgrPixels

definition coordinate_encoding :: "mouse_tracker \<Rightarrow> bool \<Rightarrow> coordinate_encoding" where
  "coordinate_encoding t sgr =
     (if pixel_coordinates t \<and> sgr then CSgrPixels
      else if sgr then CSgr
      else if urxvt_coordinates t then CUrxvt
      else if utf8_coordinates t then CUtf8
      else CDefault)"

definition u16_max :: nat where "u16_max = 65535"

definition push_digit :: "nat \<Rightarrow> char \<Rightarrow> nat" where
  "push_digit n b = sat_add u16_max (sat_mul u16_max n 10) (digit_value b)"

definition finish_parameter :: "mouse_tracker \<Rightarrow> mouse_tracker" where
  "finish_parameter t =
     (let ps = (if has_parameter t then parameters t @ [parameter t] else parameters t)
      in t\<lparr>parameter := 0, has_parameter := False, parameters := ps\<rparr>)"

definition apply_parameter :: "bool \<Rightarrow> mouse_tracker \<Rightarrow> nat \<Rightarrow> mouse_tracker" where
  "apply_parameter enabled t p =
     (if p = 1005 then
        (if enabled
         then t\<lparr>utf8_coordinates := True, urxvt_coordinates := False, pixel_coordinates := False\<rparr>
         else t\<lparr>utf8_coordinates := False\<rparr>)
      else if p = 1015 then
        (if enabled
         then t\<lparr>urxvt_coordinates := True, utf8_coordinates := False, pixel_coordinates := False\<rparr>
         else t\<lparr>urxvt_coordinates := False\<rparr>)
      else if p = 1006 \<and> enabled then
        t\<lparr>utf8_coordinates := False, urxvt_coordinates := False\<rparr>
      else if p = 1016 then t\<lparr>pixel_coordinates := enabled\<rparr>
      else t)"

definition apply_parameters :: "bool \<Rightarrow> mouse_tracker \<Rightarrow> mouse_tracker" where
  "apply_parameters enabled t =
     (foldl (apply_parameter enabled) t (parameters t))\<lparr>parameters := []\<rparr>"

definition mouse_step :: "mouse_tracker \<Rightarrow> char \<Rightarrow> mouse_tracker" where
  "mouse_step t b =
     (let st = parser_state t in
      if st = 0 \<and> b = ESC then t\<lparr>parser_state := 1\<rparr>
      else if st = 1 \<and> b = CHR ''['' then t\<lparr>parser_state := 2\<rparr>
      else if st = 1 \<and> b = CHR ''c'' then
        t\<lparr>utf8_coordinates := False, urxvt_coordinates := False, pixel_coordinates := False,
          parser_state := 0\<rparr>
      else if st = 2 \<and> b = CHR ''?'' then
        t\<lparr>parser_state := 3, parameter := 0, has_parameter := False, parameters := []\<rparr>
      else if st = 3 \<and> is_digit b then
        t\<lparr>parameter := push_digit (parameter t) b, has_parameter := True\<rparr>
      else if st = 3 \<and> b = CHR '';'' then finish_parameter t
      else if st = 3 \<and> (b = CHR ''h'' \<or> b = CHR ''l'') then
        (apply_parameters (b = CHR ''h'') (finish_parameter t))\<lparr>parser_state := 0\<rparr>
      else t\<lparr>parser_state := of_bool (b = ESC)\<rparr>)"

fun mouse_observe :: "mouse_tracker \<Rightarrow> string \<Rightarrow> mouse_tracker" where
  "mouse_observe t [] = t"
| "mouse_observe t (b # bs) = mouse_observe (mouse_step t b) bs"

interpretation mouse_obs: byte_observer mouse_step mouse_observe
  by unfold_locales simp_all

section \<open>Window operation queries\<close>

record query_tracker =
  q_parser_state :: nat
  q_parameter :: nat
  q_has_parameter :: bool

definition query_tracker_default :: query_tracker where
  "query_tracker_default = \<lparr>q_parser_state = 0, q_parameter = 0, q_has_parameter = False\<rparr>"

text \<open>One byte: the tracker and the request count (a saturating \<^verbatim>\<open>usize\<close>).\<close>

definition query_step :: "query_tracker \<times> nat \<Rightarrow> char \<Rightarrow> query_tracker \<times> nat" where
  "query_step s b =
     (let t = fst s; requests = snd s; st = q_parser_state t in
      if st = 0 \<and> b = ESC then (t\<lparr>q_parser_state := 1\<rparr>, requests)
      else if st = 1 \<and> b = CHR ''['' then
        (t\<lparr>q_parser_state := 2, q_parameter := 0, q_has_parameter := False\<rparr>, requests)
      else if st = 2 \<and> is_digit b then
        (t\<lparr>q_parameter := push_digit (q_parameter t) b, q_has_parameter := True\<rparr>, requests)
      else if st = 2 \<and> b = CHR ''t'' \<and> q_has_parameter t \<and> q_parameter t = 16 then
        (t\<lparr>q_parser_state := 0\<rparr>, sat_add usize_max requests 1)
      else (t\<lparr>q_parser_state := of_bool (b = ESC)\<rparr>, requests))"

fun query_loop :: "query_tracker \<times> nat \<Rightarrow> string \<Rightarrow> query_tracker \<times> nat" where
  "query_loop s [] = s"
| "query_loop s (b # bs) = query_loop (query_step s b) bs"

definition query_observe :: "query_tracker \<Rightarrow> string \<Rightarrow> query_tracker \<times> nat" where
  "query_observe t bs = query_loop (t, 0) bs"

interpretation query_obs: byte_observer query_step query_loop
  by unfold_locales simp_all

section \<open>Protocol replies\<close>

definition PROTOCOL_RESPONSE_CAPACITY :: nat where "PROTOCOL_RESPONSE_CAPACITY = 16"
definition MAX_PROTOCOL_RESPONSE_BYTES :: nat where "MAX_PROTOCOL_RESPONSE_BYTES = 4 * 1024"

record window_size =
  ws_num_lines :: nat
  ws_num_cols :: nat
  ws_cell_width :: nat
  ws_cell_height :: nat

definition protocol_response :: "string \<Rightarrow> string option" where
  "protocol_response r =
     (if r \<noteq> [] \<and> length r \<le> MAX_PROTOCOL_RESPONSE_BYTES then Some r else None)"

definition cell_size_response :: "window_size \<Rightarrow> string option" where
  "cell_size_response ws =
     protocol_response
       (ESC # ''[6;'' @ show_nat (ws_cell_height ws) @ '';'' @ show_nat (ws_cell_width ws) @ ''t'')"

text \<open>
  The reply state: the measured window, the deferred text-area formatters (closures of the terminal
  core, so functions here) and the count of deferred cell-size requests.
\<close>

record reply_state =
  rs_window_size :: "window_size option"
  rs_pending_text_area :: "(window_size \<Rightarrow> string) list"
  rs_pending_cell_size :: nat

text \<open>\<^verbatim>\<open>repeat_with(..).take(n).flatten()\<close> over an optional reply.\<close>

definition repeat_reply :: "nat \<Rightarrow> string option \<Rightarrow> string list" where
  "repeat_reply n r = (case r of None \<Rightarrow> [] | Some x \<Rightarrow> replicate n x)"

definition handle_cell_size_requests ::
  "reply_state \<Rightarrow> nat \<Rightarrow> string list \<Rightarrow> reply_state \<times> string list" where
  "handle_cell_size_requests s n responses =
     (if n = 0 then (s, responses)
      else case rs_window_size s of
        Some ws \<Rightarrow>
          let remaining = PROTOCOL_RESPONSE_CAPACITY - length responses
          in (s, responses @ repeat_reply (min n remaining) (cell_size_response ws))
      | None \<Rightarrow>
          let occupied =
                sat_add usize_max (length (rs_pending_text_area s)) (rs_pending_cell_size s);
              added = min n (PROTOCOL_RESPONSE_CAPACITY - occupied)
          in (s\<lparr>rs_pending_cell_size := sat_add usize_max (rs_pending_cell_size s) added\<rparr>,
              responses))"

text \<open>
  A text-area request (\<^verbatim>\<open>CSI 14 t\<close>) drained from the core's event queue
  (\<^verbatim>\<open>drain_protocol_events\<close>, \<^verbatim>\<open>TextAreaSizeRequest\<close> arm).
\<close>

definition text_area_request ::
  "reply_state \<Rightarrow> (window_size \<Rightarrow> string) \<Rightarrow> string list \<Rightarrow> reply_state \<times> string list" where
  "text_area_request s formatter responses =
     (case rs_window_size s of
        Some ws \<Rightarrow>
          (s, responses @ (case protocol_response (formatter ws) of None \<Rightarrow> [] | Some r \<Rightarrow> [r]))
      | None \<Rightarrow>
          (if length (rs_pending_text_area s) < PROTOCOL_RESPONSE_CAPACITY
           then (s\<lparr>rs_pending_text_area := rs_pending_text_area s @ [formatter]\<rparr>, responses)
           else (s, responses)))"

definition set_window_size ::
  "reply_state \<Rightarrow> nat \<Rightarrow> nat \<Rightarrow> nat \<Rightarrow> nat \<Rightarrow> reply_state \<times> string list" where
  "set_window_size s columns rows cell_width cell_height =
     (let ws = \<lparr>ws_num_lines = min rows u16_max, ws_num_cols = min columns u16_max,
                ws_cell_width = min cell_width u16_max, ws_cell_height = min cell_height u16_max\<rparr>
      in if rs_window_size s = Some ws then (s, [])
         else
           let responses = List.map_filter (\<lambda>f. protocol_response (f ws)) (rs_pending_text_area s);
               remaining = PROTOCOL_RESPONSE_CAPACITY - length responses
           in (s\<lparr>rs_window_size := Some ws, rs_pending_text_area := [], rs_pending_cell_size := 0\<rparr>,
               responses @
                 repeat_reply (min (rs_pending_cell_size s) remaining) (cell_size_response ws)))"

section \<open>Mouse reports\<close>

text \<open>What the code reads of the terminal core: mode flags and the grid size.\<close>

record term_view =
  tv_click :: bool
  tv_drag :: bool
  tv_motion :: bool
  tv_sgr :: bool
  tv_alternate_scroll :: bool
  tv_alt_screen :: bool
  tv_app_cursor :: bool
  tv_columns :: nat
  tv_rows :: nat

datatype mouse_button =
  BNone | BLeft | BMiddle | BRight | BWheelUp | BWheelDown | BWheelLeft | BWheelRight
| BAuxiliary8 | BAuxiliary9 | BAuxiliary10 | BAuxiliary11

datatype mouse_kind = MPress | MRelease | MMotion

record mouse_event =
  me_kind :: mouse_kind
  me_button :: mouse_button
  me_column :: nat
  me_row :: nat
  me_shift :: bool
  me_alt :: bool
  me_control :: bool

definition reporting_enabled :: "term_view \<Rightarrow> bool" where
  "reporting_enabled v \<longleftrightarrow> tv_click v \<or> tv_drag v \<or> tv_motion v"

definition is_wheel :: "mouse_button \<Rightarrow> bool" where
  "is_wheel b \<longleftrightarrow> b \<in> {BWheelUp, BWheelDown, BWheelLeft, BWheelRight}"

definition mouse_allowed :: "term_view \<Rightarrow> mouse_event \<Rightarrow> bool" where
  "mouse_allowed v e =
     (let w = is_wheel (me_button e) in
      case me_kind e of
        MPress \<Rightarrow> me_button e \<noteq> BNone \<and> (w \<or> tv_click v \<or> tv_drag v \<or> tv_motion v)
      | MRelease \<Rightarrow> \<not> w \<and> me_button e \<noteq> BNone \<and> (tv_click v \<or> tv_drag v \<or> tv_motion v)
      | MMotion \<Rightarrow> (tv_motion v \<or> (tv_drag v \<and> me_button e \<noteq> BNone)) \<and> \<not> w)"

fun button_code :: "mouse_button \<Rightarrow> nat" where
  "button_code BNone = 3"
| "button_code BLeft = 0"
| "button_code BMiddle = 1"
| "button_code BRight = 2"
| "button_code BWheelUp = 64"
| "button_code BWheelDown = 65"
| "button_code BWheelLeft = 66"
| "button_code BWheelRight = 67"
| "button_code BAuxiliary8 = 128"
| "button_code BAuxiliary9 = 129"
| "button_code BAuxiliary10 = 130"
| "button_code BAuxiliary11 = 131"

definition report_code :: "term_view \<Rightarrow> mouse_event \<Rightarrow> nat" where
  "report_code v e =
     (let c0 = button_code (me_button e);
          c1 = (if me_kind e = MRelease \<and> \<not> tv_sgr v then 3
                else if me_kind e = MMotion then c0 OR 32 else c0);
          c2 = (if me_shift e then c1 OR 4 else c1);
          c3 = (if me_alt e then c2 OR 8 else c2)
      in if me_control e then c3 OR 16 else c3)"

text \<open>\<^verbatim>\<open>char::from_u32\<close> and \<^verbatim>\<open>encode_utf8\<close> on a code point.\<close>

definition utf8_encode :: "nat \<Rightarrow> string option" where
  "utf8_encode n =
     (if 0x10FFFF < n \<or> (0xD800 \<le> n \<and> n \<le> 0xDFFF) then None
      else if n < 0x80 then Some [char_of n]
      else if n < 0x800 then Some [char_of (0xC0 + n div 64), char_of (0x80 + n mod 64)]
      else if n < 0x10000 then
        Some [char_of (0xE0 + n div 4096), char_of (0x80 + n div 64 mod 64), char_of (0x80 + n mod 64)]
      else
        Some [char_of (0xF0 + n div 262144), char_of (0x80 + n div 4096 mod 64),
              char_of (0x80 + n div 64 mod 64), char_of (0x80 + n mod 64)])"

text \<open>The three-field report shared by the default and UTF-8 encodings.\<close>

definition prefixed_report ::
  "(nat \<Rightarrow> string option) \<Rightarrow> nat \<Rightarrow> nat \<Rightarrow> nat \<Rightarrow> string option" where
  "prefixed_report enc code column row =
     (case enc code of None \<Rightarrow> None | Some a \<Rightarrow>
        (case enc column of None \<Rightarrow> None | Some b \<Rightarrow>
          (case enc row of None \<Rightarrow> None | Some c \<Rightarrow> Some (ESC # ''[M'' @ a @ b @ c))))"

definition encode_utf8_value :: "nat \<Rightarrow> string option" where
  "encode_utf8_value value = utf8_encode ((value + 32) mod 2 ^ 32)"

definition encode_byte_value :: "nat \<Rightarrow> string option" where
  "encode_byte_value value = (if value + 32 \<le> 255 then Some [char_of (value + 32)] else None)"

definition pixel_bounds :: "window_size option \<Rightarrow> nat \<times> nat" where
  "pixel_bounds wso =
     (case wso of
        None \<Rightarrow> (usize_max, usize_max)
      | Some ws \<Rightarrow> (sat_mul usize_max (ws_num_cols ws) (ws_cell_width ws),
                    sat_mul usize_max (ws_num_lines ws) (ws_cell_height ws)))"

definition encode_mouse_event_with_pixels ::
  "term_view \<Rightarrow> mouse_tracker \<Rightarrow> window_size option \<Rightarrow> mouse_event \<Rightarrow> nat \<Rightarrow> nat \<Rightarrow> string option"
  where
  "encode_mouse_event_with_pixels v t wso e pixel_x pixel_y =
     (let enc = coordinate_encoding t (tv_sgr v);
          w = is_wheel (me_button e);
          alternate_scroll = tv_alternate_scroll v \<and> tv_alt_screen v \<and> \<not> reporting_enabled v
      in if \<not> reporting_enabled v \<and> \<not> (tv_alternate_scroll v \<and> tv_alt_screen v) then None
      else if \<not> mouse_allowed v e then None
      else if alternate_scroll \<and> w then
        (let arrow = (\<lambda>d. Some [ESC, if tv_app_cursor v then CHR ''O'' else CHR ''['', d]) in
         if me_button e = BWheelUp then arrow (CHR ''A'')
         else if me_button e = BWheelDown then arrow (CHR ''B'')
         else None)
      else if tv_columns v = 0 \<or> tv_rows v = 0 then None
      else
        let column = min (me_column e) (tv_columns v - 1) + 1;
            row = min (me_row e) (tv_rows v - 1) + 1;
            code = report_code v e
        in if enc = CSgr \<or> enc = CSgrPixels then
             (let suffix = (if me_kind e = MRelease then CHR ''m'' else CHR ''M'');
                  mx = fst (pixel_bounds wso); my = snd (pixel_bounds wso);
                  x = (if enc = CSgrPixels then clamp 1 (max mx 1) pixel_x else column);
                  y = (if enc = CSgrPixels then clamp 1 (max my 1) pixel_y else row)
              in Some (ESC # ''[<'' @ show_nat code @ '';'' @ show_nat x @ '';'' @ show_nat y @ [suffix]))
           else if enc = CUrxvt then
             Some (ESC # ''['' @ show_nat (code + 32) @ '';'' @ show_nat column @ '';'' @
                   show_nat row @ ''M'')
           else if enc = CUtf8 then prefixed_report encode_utf8_value code column row
           else prefixed_report encode_byte_value code column row)"

definition encode_mouse_event ::
  "term_view \<Rightarrow> mouse_tracker \<Rightarrow> window_size option \<Rightarrow> mouse_event \<Rightarrow> string option" where
  "encode_mouse_event v t wso e =
     encode_mouse_event_with_pixels v t wso e
       (sat_add usize_max (me_column e) 1) (sat_add usize_max (me_row e) 1)"

definition encode_focus_event :: "bool \<Rightarrow> bool \<Rightarrow> string option" where
  "encode_focus_event focus_mode focused =
     (if focus_mode then Some (if focused then ESC # ''[I'' else ESC # ''[O'') else None)"

definition mouse_wheel_reporting_active :: "term_view \<Rightarrow> bool" where
  "mouse_wheel_reporting_active v \<longleftrightarrow>
     reporting_enabled v \<or> (tv_alternate_scroll v \<and> tv_alt_screen v)"

section \<open>OSC colour defaults\<close>

type_synonym rgb = "nat \<times> nat \<times> nat"

record query_palette =
  qp_ansi :: "rgb list"
  qp_foreground :: rgb
  qp_background :: rgb
  qp_cursor :: rgb

definition query_palette_default :: query_palette where
  "query_palette_default =
     (let ansi = [(0, 0, 0), (205, 0, 0), (0, 205, 0), (205, 205, 0), (0, 0, 238), (205, 0, 205),
                  (0, 205, 205), (229, 229, 229), (127, 127, 127), (255, 0, 0), (0, 255, 0),
                  (255, 255, 0), (92, 92, 255), (255, 0, 255), (0, 255, 255), (255, 255, 255)]
      in \<lparr>qp_ansi = ansi, qp_foreground = ansi ! 7, qp_background = ansi ! 0, qp_cursor = ansi ! 7\<rparr>)"

definition default_query_color :: "nat \<Rightarrow> query_palette \<Rightarrow> rgb" where
  "default_query_color index palette =
     (if index \<le> 15 then qp_ansi palette ! index
      else if index \<le> 231 then
        (let value = index - 16; component = (\<lambda>part. [0, 95, 135, 175, 215, 255] ! part)
         in (component (value div 36), component (value div 6 mod 6), component (value mod 6)))
      else if index \<le> 255 then
        (let shade = (8 + (index - 232) * 10) mod 256 in (shade, shade, shade))
      else if index = 256 then qp_foreground palette
      else if index = 257 then qp_background palette
      else if index = 258 then qp_cursor palette
      else qp_foreground palette)"

section \<open>The tracker follows the private modes\<close>

text \<open>The text of a parameter list, as an application writes it.\<close>

fun param_text :: "nat list \<Rightarrow> string" where
  "param_text [] = []"
| "param_text [p] = show_nat p"
| "param_text (p # ps) = show_nat p @ CHR '';'' # param_text ps"

lemma push_digit_min:
  "push_digit (min u16_max x) b = min u16_max (10 * x + digit_value b)"
  by (simp add: push_digit_def sat_add_def sat_mul_def u16_max_def min_def)

lemma is_digit_not [simp]:
  "\<not> is_digit (CHR '';'')" "\<not> is_digit (CHR ''h'')" "\<not> is_digit (CHR ''l'')" "\<not> is_digit ESC"
  "\<not> is_digit (CHR ''m'')" "\<not> is_digit (CHR ''M'')" "\<not> is_digit (CHR ''t'')"
  by (simp_all add: is_digit_def ESC_def)

lemma mouse_observe_digits:
  "parser_state t = 3 \<Longrightarrow> parameter t = min u16_max x \<Longrightarrow> \<forall>c \<in> set ds. is_digit c \<Longrightarrow> ds \<noteq> [] \<Longrightarrow>
   mouse_observe t ds =
     t\<lparr>parameter := min u16_max (foldl (\<lambda>a c. 10 * a + digit_value c) x ds), has_parameter := True\<rparr>"
proof (induction ds arbitrary: t x)
  case (Cons d ds)
  let ?t = "t\<lparr>parameter := min u16_max (10 * x + digit_value d), has_parameter := True\<rparr>"
  have step: "mouse_step t d = ?t"
    using Cons.prems by (auto simp: mouse_step_def push_digit_min)
  show ?case
  proof (cases "ds = []")
    case True
    then show ?thesis by (simp add: step)
  next
    case False
    have "mouse_observe ?t ds =
        ?t\<lparr>parameter := min u16_max (foldl (\<lambda>a c. 10 * a + digit_value c) (10 * x + digit_value d) ds),
           has_parameter := True\<rparr>"
      by (rule Cons.IH) (use Cons.prems False in auto)
    then show ?thesis by (simp add: step)
  qed
qed simp

lemma mouse_observe_number:
  assumes "parser_state t = 3" "parameter t = 0"
  shows "mouse_observe t (show_nat n) = t\<lparr>parameter := min u16_max n, has_parameter := True\<rparr>"
  using mouse_observe_digits [of t 0 "show_nat n"] assms show_nat_digits read_show_nat [of n]
  by (auto simp: read_nat_def)

lemma tracker_cleared:
  "parameter t = 0 \<Longrightarrow> \<not> has_parameter t \<Longrightarrow>
     t\<lparr>parameter := 0, has_parameter := False, parameters := x\<rparr> = t\<lparr>parameters := x\<rparr>"
  by (cases t) simp

lemma mouse_observe_params:
  assumes "parser_state t = 3" "parameter t = 0" "\<not> has_parameter t" "ps \<noteq> []"
    and f: "f = CHR ''h'' \<or> f = CHR ''l''"
  shows "mouse_observe t (param_text ps @ [f]) =
    (apply_parameters (f = CHR ''h'')
       (t\<lparr>parameters := parameters t @ map (min u16_max) ps\<rparr>))\<lparr>parser_state := 0\<rparr>"
  using assms(1-4)
proof (induction ps arbitrary: t rule: param_text.induct)
  case (2 p)
  show ?case
    using 2 f mouse_observe_number [of t p]
    by (auto simp: mouse_obs.observe_append mouse_step_def finish_parameter_def tracker_cleared)
next
  case (3 p q ps)
  let ?t = "t\<lparr>parameter := min u16_max p, has_parameter := True\<rparr>"
  let ?u = "t\<lparr>parameters := parameters t @ [min u16_max p]\<rparr>"
  have sep: "mouse_step ?t (CHR '';'') = ?u"
    using "3.prems" by (simp add: mouse_step_def finish_parameter_def tracker_cleared)
  have IH: "mouse_observe ?u (param_text (q # ps) @ [f]) =
      (apply_parameters (f = CHR ''h'')
         (?u\<lparr>parameters := parameters ?u @ map (min u16_max) (q # ps)\<rparr>))\<lparr>parser_state := 0\<rparr>"
    by (rule "3.IH") (use "3.prems" in auto)
  show ?case
    using "3.prems" mouse_observe_number [of t p] IH sep
    by (simp add: mouse_obs.observe_append)
qed simp

lemma foldl_apply_parameter_frame:
  "foldl (apply_parameter en) (t\<lparr>parser_state := a, parameter := b, has_parameter := c, parameters := d\<rparr>) ps
   = (foldl (apply_parameter en) t ps)\<lparr>parser_state := a, parameter := b, has_parameter := c, parameters := d\<rparr>"
proof (induction ps arbitrary: t)
  case (Cons p ps)
  have "apply_parameter en (t\<lparr>parser_state := a, parameter := b, has_parameter := c, parameters := d\<rparr>) p
      = (apply_parameter en t p)\<lparr>parser_state := a, parameter := b, has_parameter := c, parameters := d\<rparr>"
    by (simp add: apply_parameter_def)
  then show ?case by (simp add: Cons.IH)
qed simp

text \<open>
  C40. A combined private-mode sequence \<^verbatim>\<open>CSI ? p1;...;pn h|l\<close> arriving in the ground state has
  exactly the effect of its parameters, saturated to 16 bits, applied from left to right, and leaves
  the tracker in the ground state with an empty parameter buffer. The sequence may be split over any
  number of transport reads.
\<close>

theorem private_mode_sequence_applied:
  assumes "parser_state t = 0" "ps \<noteq> []" "f = CHR ''h'' \<or> f = CHR ''l''"
    and "concat bss = ESC # ''[?'' @ param_text ps @ [f]"
  shows "foldl mouse_observe t bss =
    (foldl (apply_parameter (f = CHR ''h'')) t (map (min u16_max) ps))
      \<lparr>parser_state := 0, parameter := 0, has_parameter := False, parameters := []\<rparr>"
proof -
  let ?t = "t\<lparr>parser_state := 3, parameter := 0, has_parameter := False, parameters := []\<rparr>"
  have "foldl mouse_observe t bss = mouse_observe t (ESC # ''[?'' @ param_text ps @ [f])"
    using assms(4) by (simp add: mouse_obs.observe_batches)
  also have "\<dots> = mouse_observe ?t (param_text ps @ [f])"
    using assms(1) by (simp add: mouse_step_def ESC_def)
  also have "\<dots> = (apply_parameters (f = CHR ''h'')
       (?t\<lparr>parameters := parameters ?t @ map (min u16_max) ps\<rparr>))\<lparr>parser_state := 0\<rparr>"
    by (rule mouse_observe_params) (use assms(2,3) in auto)
  finally show ?thesis
    using foldl_apply_parameter_frame
      [where en = "f = CHR ''h''" and t = t and a = 3 and b = 0 and c = False
        and d = "map (min u16_max) ps" and ps = "map (min u16_max) ps"]
    by (simp add: apply_parameters_def)
qed

theorem private_mode_sequence_applied_witness:
  "foldl mouse_observe mouse_tracker_default [ESC # ''[?10'', ''00;1015h''] =
     mouse_tracker_default\<lparr>urxvt_coordinates := True\<rparr>"
proof -
  have cat: "concat [ESC # ''[?10'', ''00;1015h''] = ESC # ''[?'' @ param_text [1000, 1015] @ ''h''"
    by (simp add: show_nat.simps)
  show ?thesis
    using private_mode_sequence_applied [OF _ _ _ cat, of mouse_tracker_default]
    by (simp add: mouse_tracker_default_def apply_parameter_def u16_max_def)
qed

text \<open>The tracker never selects two of the mutually exclusive legacy encodings.\<close>

definition tracker_exclusive :: "mouse_tracker \<Rightarrow> bool" where
  "tracker_exclusive t \<longleftrightarrow> \<not> (utf8_coordinates t \<and> urxvt_coordinates t)"

lemma apply_parameter_exclusive:
  "tracker_exclusive t \<Longrightarrow> tracker_exclusive (apply_parameter en t p)"
  by (auto simp: tracker_exclusive_def apply_parameter_def)

lemma apply_parameters_exclusive:
  assumes "tracker_exclusive t"
  shows "tracker_exclusive (apply_parameters en t)"
proof -
  have "tracker_exclusive (foldl (apply_parameter en) t ps)" for ps
    using assms by (induction ps arbitrary: t) (simp_all add: apply_parameter_exclusive)
  then show ?thesis by (simp add: apply_parameters_def tracker_exclusive_def)
qed

lemma finish_parameter_exclusive: "tracker_exclusive (finish_parameter t) = tracker_exclusive t"
  by (simp add: tracker_exclusive_def finish_parameter_def Let_def)

lemma tracker_exclusive_state [simp]:
  "tracker_exclusive (t\<lparr>parser_state := x\<rparr>) = tracker_exclusive t"
  "tracker_exclusive (t\<lparr>parameter := y\<rparr>) = tracker_exclusive t"
  "tracker_exclusive (t\<lparr>has_parameter := z\<rparr>) = tracker_exclusive t"
  "tracker_exclusive (t\<lparr>parameters := w\<rparr>) = tracker_exclusive t"
  by (simp_all add: tracker_exclusive_def)

lemma mouse_step_exclusive: "tracker_exclusive t \<Longrightarrow> tracker_exclusive (mouse_step t b)"
  by (simp add: mouse_step_def Let_def apply_parameters_exclusive finish_parameter_exclusive)
    (simp add: tracker_exclusive_def)

text \<open>
  After any bytes from the remote, in any batches, at most one of the UTF-8 and URXVT coordinate
  encodings is selected.
\<close>

theorem tracker_encodings_exclusive:
  "tracker_exclusive (foldl mouse_observe mouse_tracker_default bss)"
  unfolding mouse_obs.observe_batches
  by (rule mouse_obs.observe_invariant [where I = tracker_exclusive])
    (simp_all add: mouse_step_exclusive, simp add: tracker_exclusive_def mouse_tracker_default_def)

section \<open>Mouse report lemmas\<close>

definition cell_column :: "term_view \<Rightarrow> mouse_event \<Rightarrow> nat" where
  "cell_column v e = min (me_column e) (tv_columns v - 1) + 1"

definition cell_row :: "term_view \<Rightarrow> mouse_event \<Rightarrow> nat" where
  "cell_row v e = min (me_row e) (tv_rows v - 1) + 1"

lemma cell_bounds:
  "0 < tv_columns v \<Longrightarrow> 1 \<le> cell_column v e \<and> cell_column v e \<le> tv_columns v"
  "0 < tv_rows v \<Longrightarrow> 1 \<le> cell_row v e \<and> cell_row v e \<le> tv_rows v"
  by (auto simp: cell_column_def cell_row_def)

lemma alternate_scroll_arrow:
  assumes "\<not> reporting_enabled v" "encode_mouse_event_with_pixels v t wso e px py = Some bs"
  shows "tv_alternate_scroll v \<and> tv_alt_screen v \<and> is_wheel (me_button e) \<and>
    (\<exists>d \<in> {CHR ''A'', CHR ''B''}. bs = [ESC, if tv_app_cursor v then CHR ''O'' else CHR ''['', d])"
  using assms
  by (cases "me_kind e")
    (auto simp: encode_mouse_event_with_pixels_def mouse_allowed_def reporting_enabled_def Let_def
       split: if_splits)

lemma reporting_grid:
  assumes "reporting_enabled v" "encode_mouse_event_with_pixels v t wso e px py = Some bs"
  shows "0 < tv_columns v \<and> 0 < tv_rows v"
  using assms by (auto simp: encode_mouse_event_with_pixels_def Let_def split: if_splits)

lemma sgr_report:
  assumes "reporting_enabled v" "coordinate_encoding t (tv_sgr v) = CSgr"
    and "encode_mouse_event_with_pixels v t wso e px py = Some bs"
  shows "bs = ESC # ''[<'' @ show_nat (report_code v e) @ '';'' @ show_nat (cell_column v e) @ '';'' @
              show_nat (cell_row v e) @ [if me_kind e = MRelease then CHR ''m'' else CHR ''M'']"
  using assms
  by (auto simp: encode_mouse_event_with_pixels_def cell_column_def cell_row_def Let_def
      split: if_splits)

text \<open>
  SGR mouse reports are unambiguous: two reported events with the same bytes have the same button
  and modifier code, the same cell, and agree on being a release; and the reported cell lies in the
  grid.
\<close>

theorem sgr_report_injective:
  assumes "reporting_enabled v" "coordinate_encoding t (tv_sgr v) = CSgr"
    and "encode_mouse_event_with_pixels v t wso e px py = Some bs"
    and "encode_mouse_event_with_pixels v t wso e' px' py' = Some bs"
  shows "report_code v e = report_code v e' \<and> cell_column v e = cell_column v e' \<and>
         cell_row v e = cell_row v e' \<and> (me_kind e = MRelease \<longleftrightarrow> me_kind e' = MRelease) \<and>
         1 \<le> cell_column v e \<and> cell_column v e \<le> tv_columns v \<and>
         1 \<le> cell_row v e \<and> cell_row v e \<le> tv_rows v"
proof -
  let ?suf = "\<lambda>e. if me_kind e = MRelease then CHR ''m'' else CHR ''M''"
  have eq: "show_nat (report_code v e) @ CHR '';'' # show_nat (cell_column v e) @ CHR '';'' #
            show_nat (cell_row v e) @ ?suf e # [] =
          show_nat (report_code v e') @ CHR '';'' # show_nat (cell_column v e') @ CHR '';'' #
            show_nat (cell_row v e') @ ?suf e' # []"
    using sgr_report [OF assms(1-3)] sgr_report [OF assms(1,2,4)] by simp
  note s1 = show_nat_split [OF _ _ eq]
  have code: "report_code v e = report_code v e'"
    and eq2: "show_nat (cell_column v e) @ CHR '';'' # show_nat (cell_row v e) @ ?suf e # [] =
      show_nat (cell_column v e') @ CHR '';'' # show_nat (cell_row v e') @ ?suf e' # []"
    using s1 by auto
  note s2 = show_nat_split [OF _ _ eq2]
  have col: "cell_column v e = cell_column v e'"
    and eq3: "show_nat (cell_row v e) @ ?suf e # [] = show_nat (cell_row v e') @ ?suf e' # []"
    using s2 by auto
  have row: "cell_row v e = cell_row v e' \<and> ?suf e = ?suf e'"
    using show_nat_split [OF _ _ eq3] by auto
  show ?thesis
    using code col row cell_bounds reporting_grid [OF assms(1,3)] by (auto split: if_splits)
qed

definition sample_view :: term_view where
  "sample_view = \<lparr>tv_click = True, tv_drag = False, tv_motion = False, tv_sgr = True,
     tv_alternate_scroll = False, tv_alt_screen = False, tv_app_cursor = False,
     tv_columns = 80, tv_rows = 24\<rparr>"

definition sample_event :: mouse_event where
  "sample_event = \<lparr>me_kind = MPress, me_button = BLeft, me_column = 4, me_row = 2,
     me_shift = False, me_alt = False, me_control = False\<rparr>"

lemma sample_report:
  "encode_mouse_event_with_pixels sample_view mouse_tracker_default None sample_event 9 9 =
     Some (ESC # ''[<0;5;3M'')"
  by (simp add: encode_mouse_event_with_pixels_def sample_view_def sample_event_def
      mouse_tracker_default_def coordinate_encoding_def reporting_enabled_def mouse_allowed_def
      is_wheel_def report_code_def show_nat.simps)

theorem sgr_report_injective_witness:
  "report_code sample_view sample_event = report_code sample_view sample_event \<and>
   cell_column sample_view sample_event \<le> 80"
  using sgr_report_injective [OF _ _ sample_report sample_report]
  by (simp add: sample_view_def reporting_enabled_def coordinate_encoding_def
      mouse_tracker_default_def)

lemma char_of_inj_small: "a < 256 \<Longrightarrow> b < 256 \<Longrightarrow> char_of (a::nat) = char_of b \<Longrightarrow> a = b"
  by (metis mod_less of_char_of)

lemma encode_byte_value_Some:
  "encode_byte_value n = Some bs \<longleftrightarrow> n \<le> 223 \<and> bs = [char_of (n + 32)]"
  by (auto simp: encode_byte_value_def)

lemma prefixed_report_Some:
  "prefixed_report enc c x y = Some bs \<longleftrightarrow>
     (\<exists>a b d. enc c = Some a \<and> enc x = Some b \<and> enc y = Some d \<and> bs = ESC # ''[M'' @ a @ b @ d)"
  by (auto simp: prefixed_report_def split: option.splits)

lemma default_report:
  assumes "reporting_enabled v" "coordinate_encoding t (tv_sgr v) = CDefault"
    and "encode_mouse_event_with_pixels v t wso e px py = Some bs"
  shows "prefixed_report encode_byte_value (report_code v e) (cell_column v e) (cell_row v e) = Some bs"
  using assms
  by (auto simp: encode_mouse_event_with_pixels_def cell_column_def cell_row_def Let_def
      split: if_splits)

text \<open>
  A legacy X10 report is \<^verbatim>\<open>ESC [ M\<close> and exactly three more bytes, each at least 32, and it
  determines the code and the cell; a cell beyond column or row 223 is never sent truncated, the
  report is dropped instead.
\<close>

theorem x10_report_exact:
  assumes "reporting_enabled v" "coordinate_encoding t (tv_sgr v) = CDefault"
    and "encode_mouse_event_with_pixels v t wso e px py = Some bs"
  shows "bs = ESC # ''[M'' @ [char_of (report_code v e + 32), char_of (cell_column v e + 32),
                               char_of (cell_row v e + 32)] \<and>
         report_code v e \<le> 223 \<and> cell_column v e \<le> 223 \<and> cell_row v e \<le> 223"
  using default_report [OF assms]
  by (auto simp: prefixed_report_Some encode_byte_value_Some)

theorem x10_report_exact_witness:
  "encode_mouse_event_with_pixels (sample_view\<lparr>tv_sgr := False\<rparr>) mouse_tracker_default None
     sample_event 9 9 = Some (ESC # ''[M'' @ [char_of (32::nat), char_of (37::nat), char_of (35::nat)]) \<and>
   cell_column (sample_view\<lparr>tv_sgr := False\<rparr>) sample_event \<le> 223"
proof -
  let ?v = "sample_view\<lparr>tv_sgr := False\<rparr>"
  have enc: "encode_mouse_event_with_pixels ?v mouse_tracker_default None sample_event 9 9 =
      Some (ESC # ''[M'' @ [char_of (32::nat), char_of (37::nat), char_of (35::nat)])"
    by (simp add: encode_mouse_event_with_pixels_def sample_view_def sample_event_def
        mouse_tracker_default_def coordinate_encoding_def reporting_enabled_def mouse_allowed_def
        is_wheel_def report_code_def prefixed_report_def encode_byte_value_def)
  show ?thesis
    using x10_report_exact [OF _ _ enc] enc
    by (simp add: sample_view_def reporting_enabled_def coordinate_encoding_def
        mouse_tracker_default_def)
qed

section \<open>Reply batches are bounded\<close>

text \<open>
  What the remote and the layout can do to the reply state, each with the replies it sends: drained
  text-area requests (at most one event queue full, 16) and cell-size queries of one parser pass, and
  a measurement of the window.
\<close>

datatype reply_event =
  Parsed "(window_size \<Rightarrow> string) list" nat
| Measured nat nat nat nat

fun drain_text_area ::
  "reply_state \<Rightarrow> (window_size \<Rightarrow> string) list \<Rightarrow> string list \<Rightarrow> reply_state \<times> string list" where
  "drain_text_area s [] rs = (s, rs)"
| "drain_text_area s (f # fs) rs = (case text_area_request s f rs of (s', rs') \<Rightarrow> drain_text_area s' fs rs')"

fun reply_step :: "reply_state \<Rightarrow> reply_event \<Rightarrow> reply_state \<times> string list" where
  "reply_step s (Parsed fs n) =
     (case drain_text_area s (take PROTOCOL_RESPONSE_CAPACITY fs) [] of
        (s', rs) \<Rightarrow> handle_cell_size_requests s' n rs)"
| "reply_step s (Measured c r w h) = set_window_size s c r w h"

inductive reply_reachable :: "reply_state \<Rightarrow> bool" where
  initial: "reply_reachable \<lparr>rs_window_size = None, rs_pending_text_area = [], rs_pending_cell_size = 0\<rparr>"
| step: "reply_reachable s \<Longrightarrow> reply_reachable (fst (reply_step s e))"

definition reply_inv :: "reply_state \<Rightarrow> bool" where [wf_defs]:
  "reply_inv s \<longleftrightarrow> length (rs_pending_text_area s) \<le> 16 \<and> rs_pending_cell_size s \<le> 16"

lemma repeat_reply_length: "length (repeat_reply n r) \<le> n"
  by (simp add: repeat_reply_def split: option.splits)

lemma text_area_request_inv:
  "reply_inv s \<Longrightarrow> reply_inv (fst (text_area_request s f rs))"
  "length (snd (text_area_request s f rs)) \<le> Suc (length rs)"
  by (auto simp: text_area_request_def wf_defs PROTOCOL_RESPONSE_CAPACITY_def split: option.splits)

lemma drain_text_area_inv:
  "reply_inv s \<Longrightarrow> reply_inv (fst (drain_text_area s fs rs)) \<and>
     length (snd (drain_text_area s fs rs)) \<le> length rs + length fs"
proof (induction fs arbitrary: s rs)
  case (Cons f fs)
  obtain s' rs' where eq: "text_area_request s f rs = (s', rs')" by (cases "text_area_request s f rs")
  then show ?case
    using Cons.IH [of s' rs'] text_area_request_inv [of s f rs] Cons.prems by simp
qed simp

lemma text_area_inv_step:
  "length rs \<le> 16 \<Longrightarrow> length xs \<le> 16 - length rs \<Longrightarrow> length (rs @ xs) \<le> (16::nat)"
  by simp

lemma handle_cell_size_inv:
  assumes "reply_inv s" "length rs \<le> 16"
  shows "reply_inv (fst (handle_cell_size_requests s n rs)) \<and>
         length (snd (handle_cell_size_requests s n rs)) \<le> 16"
proof (cases "rs_window_size s")
  case None
  have "rs_pending_cell_size s + min n (16 - (length (rs_pending_text_area s) + rs_pending_cell_size s)) \<le> 16"
    using assms(1) by (auto simp: wf_defs)
  then show ?thesis
    using assms None
    by (simp add: handle_cell_size_requests_def wf_defs PROTOCOL_RESPONSE_CAPACITY_def
        sat_add_exact usize_max_def)
next
  case (Some ws)
  have "length (repeat_reply (min n (16 - length rs)) (cell_size_response ws)) \<le> 16 - length rs"
    by (rule le_trans [OF repeat_reply_length]) simp
  then have "length (rs @ repeat_reply (min n (16 - length rs)) (cell_size_response ws)) \<le> 16"
    by (rule text_area_inv_step [OF assms(2)])
  then show ?thesis
    using assms Some
    by (simp add: handle_cell_size_requests_def PROTOCOL_RESPONSE_CAPACITY_def)
qed

lemma length_map_filter: "length (List.map_filter f xs) \<le> length xs"
  by (simp add: List.map_filter_def)

definition measured :: "nat \<Rightarrow> nat \<Rightarrow> nat \<Rightarrow> nat \<Rightarrow> window_size" where
  "measured columns rows cell_width cell_height =
     \<lparr>ws_num_lines = min rows u16_max, ws_num_cols = min columns u16_max,
      ws_cell_width = min cell_width u16_max, ws_cell_height = min cell_height u16_max\<rparr>"

lemma set_window_size_inv:
  assumes "reply_inv s"
  shows "reply_inv (fst (set_window_size s c r w h)) \<and> length (snd (set_window_size s c r w h)) \<le> 16"
proof -
  define ws where "ws = measured c r w h"
  define rs where "rs = List.map_filter (\<lambda>f. protocol_response (f ws)) (rs_pending_text_area s)"
  have "length rs \<le> 16"
    using length_map_filter assms unfolding rs_def wf_defs by (blast intro: le_trans)
  then have "length (rs @ repeat_reply (min (rs_pending_cell_size s) (16 - length rs))
                            (cell_size_response ws)) \<le> 16"
    by (rule text_area_inv_step) (rule le_trans [OF repeat_reply_length], simp)
  moreover have "set_window_size s c r w h =
     (if rs_window_size s = Some ws then (s, [])
      else (s\<lparr>rs_window_size := Some ws, rs_pending_text_area := [], rs_pending_cell_size := 0\<rparr>,
            rs @ repeat_reply (min (rs_pending_cell_size s) (16 - length rs)) (cell_size_response ws)))"
    by (simp only: set_window_size_def ws_def rs_def measured_def Let_def PROTOCOL_RESPONSE_CAPACITY_def)
  ultimately show ?thesis
    using assms by (simp add: wf_defs)
qed

lemma reply_step_inv:
  assumes "reply_inv s"
  shows "reply_inv (fst (reply_step s e)) \<and> length (snd (reply_step s e)) \<le> 16"
proof (cases e)
  case (Parsed fs n)
  obtain s' rs where eq: "drain_text_area s (take 16 fs) [] = (s', rs)"
    by (cases "drain_text_area s (take 16 fs) []")
  have "reply_inv s'" "length rs \<le> 16"
    using drain_text_area_inv [of s "take 16 fs" "[]"] assms eq by auto
  then show ?thesis
    using handle_cell_size_inv Parsed eq by (simp add: PROTOCOL_RESPONSE_CAPACITY_def)
next
  case (Measured c r w h)
  then show ?thesis using set_window_size_inv [OF assms] by simp
qed

lemma reply_reachable_inv: "reply_reachable s \<Longrightarrow> reply_inv s"
proof (induction rule: reply_reachable.induct)
  case initial
  show ?case by (simp add: wf_defs)
next
  case (step s e)
  then show ?case using reply_step_inv by blast
qed

text \<open>
  However the remote mixes \<^verbatim>\<open>CSI 14 t\<close> and \<^verbatim>\<open>CSI 16 t\<close> queries and however the window is
  measured, every batch of protocol replies has at most 16 entries and at most 16 requests of each
  kind are kept waiting for the first layout.
\<close>

theorem protocol_replies_bounded:
  assumes "reply_reachable s"
  shows "length (snd (reply_step s e)) \<le> PROTOCOL_RESPONSE_CAPACITY \<and>
         length (rs_pending_text_area s) \<le> PROTOCOL_RESPONSE_CAPACITY \<and>
         rs_pending_cell_size s \<le> PROTOCOL_RESPONSE_CAPACITY"
  using reply_reachable_inv [OF assms] reply_step_inv [of s e]
  by (simp add: wf_defs PROTOCOL_RESPONSE_CAPACITY_def)

theorem protocol_replies_bounded_witness:
  "let s = fst (reply_step \<lparr>rs_window_size = None, rs_pending_text_area = [], rs_pending_cell_size = 0\<rparr>
                  (Parsed [] 40)) in
   rs_pending_cell_size s = 16 \<and> length (snd (reply_step s (Measured 80 24 9 18))) \<le> 16"
proof -
  let ?s = "fst (reply_step \<lparr>rs_window_size = None, rs_pending_text_area = [], rs_pending_cell_size = 0\<rparr>
                  (Parsed [] 40))"
  have "rs_pending_cell_size ?s = 16"
    by (simp add: handle_cell_size_requests_def sat_add_def usize_max_def PROTOCOL_RESPONSE_CAPACITY_def)
  moreover have "reply_reachable ?s" by (rule reply_reachable.step [OF reply_reachable.initial])
  ultimately show ?thesis
    using protocol_replies_bounded [of ?s "Measured 80 24 9 18"]
    by (simp only: Let_def PROTOCOL_RESPONSE_CAPACITY_def)
qed

end
