(* ===== verification/Telnet.thy ===== *)
theory Telnet
  imports Dimensions Key_Input
begin

text \<open>
  The Telnet worker (\<^verbatim>\<open>src/src/telnet.rs\<close>): RFC 854 framing of the inbound byte stream, the
  handling of parsed events with NAWS and TTYPE negotiation, output batching, and the frames of
  outbound input. The option parser (\<^verbatim>\<open>libmudtelnet_rs::Parser\<close>) is a third-party package: its
  state type, \<open>receive\<close>, \<open>subnegotiation\<close> and \<open>escape_iac\<close> are arguments of the definitions that
  call them. Socket writes and event sends are collected in lists.
\<close>

section \<open>Framing\<close>

definition IAC :: char where "IAC = CHR 0xFF"
definition T_DONT :: char where "T_DONT = CHR 0xFE"
definition T_DO :: char where "T_DO = CHR 0xFD"
definition T_WONT :: char where "T_WONT = CHR 0xFC"
definition T_WILL :: char where "T_WILL = CHR 0xFB"
definition T_SB :: char where "T_SB = CHR 0xFA"
definition T_SE :: char where "T_SE = CHR 0xF0"
definition T_IS :: char where "T_IS = CHR 0x00"
definition T_SEND :: char where "T_SEND = CHR 0x01"
definition O_SGA :: char where "O_SGA = CHR 0x03"
definition O_TTYPE :: char where "O_TTYPE = CHR 0x18"
definition O_NAWS :: char where "O_NAWS = CHR 0x1F"

lemmas telnet_codes = IAC_def T_DONT_def T_DO_def T_WONT_def T_WILL_def T_SB_def T_SE_def

lemma telnet_code_neq [simp]:
  "T_DONT \<noteq> IAC" "T_DO \<noteq> IAC" "T_WONT \<noteq> IAC" "T_WILL \<noteq> IAC" "T_SB \<noteq> IAC" "T_SE \<noteq> IAC"
  "T_SB \<noteq> T_DONT" "T_SB \<noteq> T_DO" "T_SB \<noteq> T_WONT" "T_SB \<noteq> T_WILL" "T_SE \<noteq> T_SB"
  by (simp_all add: telnet_codes)

lemmas telnet_code_neq_sym [simp] = telnet_code_neq [symmetric]

definition MAX_PROTOCOL_FRAME_BYTES :: nat where "MAX_PROTOCOL_FRAME_BYTES = 64 * 1024"

datatype inbound_frame = FParser string | FLiteral string

text \<open>
  \<^verbatim>\<open>subnegotiation_frame_length\<close>: the scan from \<open>index\<close>; \<open>buffer\<close> is the rest of the pending
  bytes from that index on.
\<close>

fun sub_scan :: "string \<Rightarrow> nat \<Rightarrow> nat option" where
  "sub_scan (b # c # bs) i =
     (if b \<noteq> IAC then sub_scan (c # bs) (i + 1)
      else if c = IAC then sub_scan bs (i + 2)
      else if c = T_SE then Some (i + 2)
      else sub_scan bs (i + 2))"
| "sub_scan _ i = None"

definition subnegotiation_frame_length :: "string \<Rightarrow> nat option" where
  "subnegotiation_frame_length buf = sub_scan (drop 2 buf) 2"

definition is_negotiation :: "char \<Rightarrow> bool" where
  "is_negotiation c \<longleftrightarrow> c = T_WILL \<or> c = T_WONT \<or> c = T_DO \<or> c = T_DONT"

text \<open>
  One pass of the loop: the frame at the front of a non-empty pending buffer and how many bytes it
  takes, or \<open>None\<close> when more bytes are needed (\<^verbatim>\<open>break\<close>).
\<close>

definition next_frame :: "string \<Rightarrow> (inbound_frame \<times> nat) option" where
  "next_frame p =
     (case p of
        [] \<Rightarrow> None
      | b # rest \<Rightarrow>
          if b \<noteq> IAC then
            (let data = takeWhile (\<lambda>x. x \<noteq> IAC) p in Some (FParser data, length data))
          else case rest of
            [] \<Rightarrow> None
          | c # _ \<Rightarrow>
              if c = IAC then Some (FLiteral [IAC], 2)
              else if is_negotiation c then
                (if length p < 3 then None else Some (FParser (take 3 p), 3))
              else if c = T_SB then
                (case subnegotiation_frame_length p of
                   None \<Rightarrow> None
                 | Some n \<Rightarrow> Some (FParser (take n p), n))
              else Some (FParser (take 2 p), 2))"

lemma sub_scan_bounds: "sub_scan bs i = Some n \<Longrightarrow> i + 2 \<le> n \<and> n \<le> i + length bs"
  by (induction bs i rule: sub_scan.induct) (auto split: if_splits)

lemma sub_scan_append: "sub_scan bs i = Some n \<Longrightarrow> sub_scan (bs @ q) i = Some n"
  by (induction bs i rule: sub_scan.induct) (auto split: if_splits)

text \<open>The frame at the front of a buffer that starts with IAC.\<close>

lemma next_frame_command:
  "next_frame (IAC # p) =
     (case p of
        [] \<Rightarrow> None
      | c # q \<Rightarrow>
          if c = IAC then Some (FLiteral [IAC], 2)
          else if is_negotiation c then
            (if q = [] then None else Some (FParser [IAC, c, hd q], 3))
          else if c = T_SB then
            map_option (\<lambda>n. (FParser (take n (IAC # p)), n)) (sub_scan q 2)
          else Some (FParser [IAC, c], 2))"
  by (cases p; cases "tl p")
    (auto simp: next_frame_def subnegotiation_frame_length_def split: option.splits)

lemma next_frame_data:
  "b \<noteq> IAC \<Longrightarrow> next_frame (b # p) =
     Some (FParser (b # takeWhile (\<lambda>x. x \<noteq> IAC) p), Suc (length (takeWhile (\<lambda>x. x \<noteq> IAC) p)))"
  by (simp add: next_frame_def Let_def)

lemma next_frame_Nil [simp]: "next_frame [] = None"
  by (simp add: next_frame_def)

lemma next_frame_bounds:
  assumes "next_frame p = Some (f, n)"
  shows "0 < n \<and> n \<le> length p"
proof (cases p)
  case (Cons b q)
  show ?thesis
  proof (cases "b = IAC")
    case False
    then show ?thesis
      using assms Cons length_takeWhile_le [of "\<lambda>x. x \<noteq> IAC" q] by (auto simp: next_frame_data)
  next
    case True
    then show ?thesis
      using assms Cons
      by (auto simp: next_frame_command Suc_le_eq split: list.splits if_splits dest!: sub_scan_bounds)
  qed
qed (use assms in simp)

function frame_loop :: "string \<Rightarrow> inbound_frame list \<times> string" where
  "frame_loop p =
     (case next_frame p of
        None \<Rightarrow> ([], p)
      | Some (f, n) \<Rightarrow> (case frame_loop (drop n p) of (fs, rest) \<Rightarrow> (f # fs, rest)))"
  by pat_completeness auto
termination
  by (relation "measure length") (auto dest: next_frame_bounds)

declare frame_loop.simps [simp del]

text \<open>
  \<^verbatim>\<open>TelnetFrameBuffer::receive\<close>: the pending bytes before, the data read, the frames and the pending
  bytes after; \<open>None\<close> is the over-long frame error (\<^verbatim>\<open>checked_add\<close> fails only above it).
\<close>

definition frame_receive :: "string \<Rightarrow> string \<Rightarrow> (inbound_frame list \<times> string) option" where
  "frame_receive pending data =
     (let buffered = length pending + length data in
      if usize_max < buffered \<or> MAX_PROTOCOL_FRAME_BYTES < buffered then None
      else Some (frame_loop (pending @ data)))"

lemma frame_receive_None:
  "frame_receive p d = None \<longleftrightarrow> MAX_PROTOCOL_FRAME_BYTES < length p + length d"
  by (auto simp: frame_receive_def Let_def MAX_PROTOCOL_FRAME_BYTES_def usize_max_def)

lemma frame_receive_Some:
  "frame_receive p d = Some r \<Longrightarrow> r = frame_loop (p @ d) \<and> length p + length d \<le> MAX_PROTOCOL_FRAME_BYTES"
  by (auto simp: frame_receive_def Let_def split: if_splits)

section \<open>Framing loses nothing\<close>

text \<open>The bytes a frame stands for on the wire: a literal IAC was sent doubled.\<close>

fun frame_wire :: "inbound_frame \<Rightarrow> string" where
  "frame_wire (FParser bs) = bs"
| "frame_wire (FLiteral bs) = concat (map (\<lambda>b. [b, b]) bs)"

text \<open>A frame given to the parser is a run of data, or one complete command.\<close>

definition frame_complete :: "inbound_frame \<Rightarrow> bool" where
  "frame_complete f \<longleftrightarrow>
     (case f of
        FLiteral bs \<Rightarrow> bs = [IAC]
      | FParser bs \<Rightarrow> bs \<noteq> [] \<and> (IAC \<notin> set bs \<or> next_frame bs = Some (f, length bs)))"

lemma sub_scan_take:
  "sub_scan bs i = Some n \<Longrightarrow> sub_scan (take (n - i) bs) i = Some n"
proof (induction bs i rule: sub_scan.induct)
  case (1 b c bs i)
  then have "i + 2 \<le> n" using sub_scan_bounds by blast
  then obtain k where n: "n = Suc (Suc (i + k))" by (metis add_2_eq_Suc' add_Suc_right le_iff_add add.commute)
  show ?case
  proof (cases "b = IAC")
    case False
    then have "sub_scan (take (n - (i + 1)) (c # bs)) (i + 1) = Some n" using 1 by simp
    then show ?thesis using False n by simp
  next
    case True
    then show ?thesis using 1 n by (auto split: if_splits)
  qed
qed simp_all

lemma next_frame_subnegotiation:
  assumes "sub_scan q 2 = Some n"
  shows "next_frame (take n (IAC # T_SB # q)) = Some (FParser (take n (IAC # T_SB # q)), n)
    \<and> length (take n (IAC # T_SB # q)) = n"
proof -
  have b: "4 \<le> n" "n \<le> 2 + length q" using sub_scan_bounds [OF assms] by auto
  define m where "m = n - 2"
  have n: "n = Suc (Suc m)" using b by (simp add: m_def)
  have "sub_scan (take m q) 2 = Some n" using sub_scan_take [OF assms] n by simp
  then show ?thesis
    using b n by (simp add: next_frame_command is_negotiation_def)
qed

lemma next_frame_wire_complete:
  assumes "next_frame p = Some (f, n)"
  shows "frame_wire f = take n p \<and> frame_complete f"
proof (cases p)
  case (Cons b q)
  show ?thesis
  proof (cases "b = IAC")
    case False
    have "take (length (takeWhile (\<lambda>x. x \<noteq> IAC) q)) q = takeWhile (\<lambda>x. x \<noteq> IAC) q"
      by (metis takeWhile_eq_take)
    then show ?thesis
      using assms Cons False
      by (auto simp: next_frame_data frame_complete_def dest: set_takeWhileD)
  next
    case b: True
    obtain c r where q: "q = c # r"
      using assms Cons b by (cases q) (auto simp: next_frame_command)
    show ?thesis
    proof (cases "c = T_SB")
      case True
      then obtain m where m: "sub_scan r 2 = Some m"
        and fn: "n = m" "f = FParser (take m (IAC # T_SB # r))"
        using assms Cons b q by (auto simp: next_frame_command is_negotiation_def)
      have "n \<noteq> 0" using sub_scan_bounds [OF m] fn by simp
      then show ?thesis
        using next_frame_subnegotiation [OF m] fn Cons b q True
        by (auto simp: frame_complete_def)
    next
      case False
      then show ?thesis
        using assms Cons b q
        by (cases r) (auto simp: next_frame_command frame_complete_def numeral_3_eq_3
            numeral_2_eq_2 split: if_splits)
    qed
  qed
qed (use assms in simp)

lemma frame_loop_wire:
  "concat (map frame_wire (fst (frame_loop p))) @ snd (frame_loop p) = p"
proof (induction p rule: frame_loop.induct)
  case (1 p)
  show ?case
  proof (cases "next_frame p")
    case (Some a)
    then obtain f n where a: "next_frame p = Some (f, n)" by (cases a) auto
    obtain fs r where l: "frame_loop (drop n p) = (fs, r)" by (cases "frame_loop (drop n p)")
    have "concat (map frame_wire fs) @ r = drop n p" using "1.IH" [OF a] l by simp
    then have "frame_wire f @ concat (map frame_wire fs) @ r = p"
      using next_frame_wire_complete [OF a] by simp
    then show ?thesis using a l by (simp add: frame_loop.simps [of p])
  qed (simp add: frame_loop.simps [of p])
qed

lemma frame_loop_complete: "f \<in> set (fst (frame_loop p)) \<Longrightarrow> frame_complete f"
proof (induction p rule: frame_loop.induct)
  case (1 p)
  show ?case
  proof (cases "next_frame p")
    case None
    with "1.prems" show ?thesis by (simp add: frame_loop.simps [of p])
  next
    case (Some a)
    then obtain g n where a: "next_frame p = Some (g, n)" by (cases a) auto
    with "1.prems" "1.IH" [OF a] next_frame_wire_complete [OF a] show ?thesis
      by (auto simp: frame_loop.simps [of p] split: prod.splits)
  qed
qed

lemma frame_loop_rest: "next_frame (snd (frame_loop p)) = None"
proof (induction p rule: frame_loop.induct)
  case (1 p)
  then show ?case
    by (cases "next_frame p") (auto simp: frame_loop.simps [of p] split: prod.splits)
qed

text \<open>
  Framing loses, reorders and invents no byte: the frames handed on, written back as wire bytes,
  followed by the bytes kept pending, are the pending bytes followed by the data read; every frame is
  a run of plain data, an escaped IAC or one complete command; and what stays pending is an incomplete
  command only (no frame could be cut from it).
\<close>

theorem framing_lossless:
  assumes "frame_receive pending data = Some (fs, rest)"
  shows "concat (map frame_wire fs) @ rest = pending @ data \<and>
         (\<forall>f \<in> set fs. frame_complete f) \<and> next_frame rest = None"
  using frame_receive_Some [OF assms] frame_loop_wire [of "pending @ data"]
    frame_loop_complete [of _ "pending @ data"] frame_loop_rest [of "pending @ data"]
  by (metis fst_conv snd_conv)

section \<open>Framing does not depend on the read boundaries\<close>

text \<open>
  A run of data may be cut at a read boundary, so frames are compared by what they carry: one atom per
  data byte, one per command and per escaped IAC.
\<close>

datatype atom = ADatum char | ACommand string | ALiteral

fun frame_atoms :: "inbound_frame \<Rightarrow> atom list" where
  "frame_atoms (FLiteral bs) = [ALiteral]"
| "frame_atoms (FParser bs) =
     (if IAC \<in> set bs then [ACommand bs] else map ADatum bs)"

definition next_atom :: "string \<Rightarrow> (atom \<times> nat) option" where
  "next_atom p =
     (case p of
        [] \<Rightarrow> None
      | b # _ \<Rightarrow>
          if b \<noteq> IAC then Some (ADatum b, 1)
          else map_option (\<lambda>(f, n). (hd (frame_atoms f), n)) (next_frame p))"

lemma next_frame_append:
  assumes "next_frame (IAC # p) = Some (f, n)"
  shows "next_frame (IAC # p @ q) = Some (f, n)"
proof (cases p)
  case (Cons c r)
  show ?thesis
  proof (cases "c = T_SB")
    case True
    have "n \<le> length (IAC # T_SB # r) \<Longrightarrow> take n ((IAC # T_SB # r) @ q) = take n (IAC # T_SB # r)"
      by (simp only: take_append) simp
    then show ?thesis
      using assms Cons True sub_scan_append [of r 2 n q] sub_scan_bounds [of r 2 n]
      by (auto simp: next_frame_command is_negotiation_def)
  next
    case False
    then show ?thesis
      using assms Cons by (cases r) (auto simp: next_frame_command split: if_splits)
  qed
qed (use assms in \<open>simp add: next_frame_command\<close>)

lemma next_atom_append: "next_atom p = Some (a, n) \<Longrightarrow> next_atom (p @ q) = Some (a, n)"
  by (cases p) (auto simp: next_atom_def next_frame_append split: if_splits)

lemma next_atom_bounds: "next_atom p = Some (a, n) \<Longrightarrow> 0 < n \<and> n \<le> length p"
  by (cases p) (auto simp: next_atom_def split: if_splits dest: next_frame_bounds)

function atom_loop :: "string \<Rightarrow> atom list \<times> string" where
  "atom_loop p =
     (case next_atom p of
        None \<Rightarrow> ([], p)
      | Some (a, n) \<Rightarrow> (case atom_loop (drop n p) of (as, rest) \<Rightarrow> (a # as, rest)))"
  by pat_completeness auto
termination
  by (relation "measure length") (auto dest: next_atom_bounds)

declare atom_loop.simps [simp del]

lemma atom_loop_append:
  "atom_loop (p @ q) =
     (fst (atom_loop p) @ fst (atom_loop (snd (atom_loop p) @ q)), snd (atom_loop (snd (atom_loop p) @ q)))"
proof (induction p rule: atom_loop.induct)
  case (1 p)
  show ?case
  proof (cases "next_atom p")
    case None
    then show ?thesis by (simp add: atom_loop.simps [of p])
  next
    case (Some x)
    then obtain a n where a: "next_atom p = Some (a, n)" by (cases x) auto
    then have "drop n (p @ q) = drop n p @ q" using next_atom_bounds by auto
    with a 1 next_atom_append [OF a, of q] show ?thesis
      by (simp add: atom_loop.simps [of p] atom_loop.simps [of "p @ q"] split: prod.splits)
  qed
qed

lemma atom_loop_data:
  "IAC \<notin> set d \<Longrightarrow> atom_loop (d @ p) = (map ADatum d @ fst (atom_loop p), snd (atom_loop p))"
proof (induction d)
  case (Cons b d)
  then have "b \<noteq> IAC" "atom_loop (d @ p) = (map ADatum d @ fst (atom_loop p), snd (atom_loop p))"
    by auto
  then show ?case
    by (simp add: atom_loop.simps [of "b # d @ p"] next_atom_def)
qed simp

lemma next_frame_command_atom:
  assumes "next_frame (IAC # p) = Some (f, n)"
  shows "frame_atoms f = [hd (frame_atoms f)]"
proof (cases f)
  case (FParser bs)
  have "0 < n" using next_frame_bounds [OF assms] by simp
  then have "IAC \<in> set (take n (IAC # p))" by (cases n) auto
  then show ?thesis
    using next_frame_wire_complete [OF assms] FParser by simp
qed simp

lemma frame_loop_atoms:
  "atom_loop p = (concat (map frame_atoms (fst (frame_loop p))), snd (frame_loop p))"
proof (induction p rule: frame_loop.induct)
  case (1 p)
  show ?case
  proof (cases "next_frame p")
    case None
    then have "next_atom p = None"
      by (cases p; cases "hd p = IAC") (auto simp: next_atom_def next_frame_data)
    with None show ?thesis by (simp add: frame_loop.simps [of p] atom_loop.simps [of p])
  next
    case (Some x)
    then obtain f n where a: "next_frame p = Some (f, n)" by (cases x) auto
    then obtain b q where p: "p = b # q" by (cases p) auto
    show ?thesis
    proof (cases "b = IAC")
      case True
      then have "next_atom p = Some (hd (frame_atoms f), n)"
        using a p by (simp add: next_atom_def)
      moreover obtain x where "frame_atoms f = [x]"
        using next_frame_command_atom [of q f n] a p True by blast
      ultimately show ?thesis
        using "1.IH" [OF a] a
        by (simp add: frame_loop.simps [of p] atom_loop.simps [of p] split: prod.splits)
    next
      case False
      let ?d = "b # takeWhile (\<lambda>x. x \<noteq> IAC) q"
      have f: "f = FParser ?d" "n = length ?d" using a p False by (auto simp: next_frame_data)
      have d: "IAC \<notin> set ?d" using False by (auto dest: set_takeWhileD)
      have "p = ?d @ drop n p"
        using p f by (simp add: dropWhile_eq_drop [symmetric])
      then have "atom_loop p = (map ADatum ?d @ fst (atom_loop (drop n p)), snd (atom_loop (drop n p)))"
        using atom_loop_data [OF d, of "drop n p"] by simp
      then show ?thesis
        using "1.IH" [OF a] a f d
        by (simp add: frame_loop.simps [of p] split: prod.splits)
    qed
  qed
qed

text \<open>
  C28. Framing does not depend on where the transport splits the stream: reading two chunks one after
  the other yields the same data bytes, commands and escaped IACs, in the same order, and the same
  pending bytes as reading them at once.
\<close>

theorem framing_split_independent:
  assumes "frame_receive pending xs = Some (fs, mid)" "frame_receive mid ys = Some (gs, rest)"
    and "frame_receive pending (xs @ ys) = Some (hs, rest')"
  shows "concat (map frame_atoms hs) = concat (map frame_atoms (fs @ gs)) \<and> rest' = rest"
proof -
  have e: "(fs, mid) = frame_loop (pending @ xs)" "(gs, rest) = frame_loop (mid @ ys)"
    "(hs, rest') = frame_loop (pending @ xs @ ys)"
    using frame_receive_Some assms by blast+
  have l: "atom_loop (pending @ xs) = (concat (map frame_atoms fs), mid)"
    "atom_loop (mid @ ys) = (concat (map frame_atoms gs), rest)"
    "atom_loop ((pending @ xs) @ ys) = (concat (map frame_atoms hs), rest')"
    using frame_loop_atoms e [symmetric] by simp_all
  then show ?thesis using atom_loop_append [of "pending @ xs" ys] by simp
qed

text \<open>A stream with data, an escaped IAC, a negotiation and a subnegotiation, read in two pieces.\<close>

lemma frame_example:
  "frame_receive [] (''a'' @ [IAC, IAC, IAC]) = Some ([FParser ''a'', FLiteral [IAC]], [IAC])"
  "frame_receive [IAC] [T_DO, O_NAWS, IAC, T_SB, O_TTYPE, T_SEND, IAC, T_SE, CHR ''b''] =
     Some ([FParser [IAC, T_DO, O_NAWS], FParser [IAC, T_SB, O_TTYPE, T_SEND, IAC, T_SE], FParser ''b''], [])"
  "frame_receive [] ((''a'' @ [IAC, IAC, IAC]) @
       [T_DO, O_NAWS, IAC, T_SB, O_TTYPE, T_SEND, IAC, T_SE, CHR ''b'']) =
     Some ([FParser ''a'', FLiteral [IAC], FParser [IAC, T_DO, O_NAWS],
            FParser [IAC, T_SB, O_TTYPE, T_SEND, IAC, T_SE], FParser ''b''], [])"
  by (simp_all add: frame_receive_def frame_loop.simps next_frame_def subnegotiation_frame_length_def
      is_negotiation_def telnet_codes O_NAWS_def O_TTYPE_def T_SEND_def usize_max_def
      MAX_PROTOCOL_FRAME_BYTES_def)

theorem framing_lossless_witness:
  "concat (map frame_wire [FParser ''a'', FLiteral [IAC]]) @ [IAC] = ''a'' @ [IAC, IAC, IAC] \<and>
   next_frame [IAC] = None"
  using framing_lossless [OF frame_example(1)] by simp

theorem framing_split_independent_witness:
  "frame_receive [] (''a'' @ [IAC, IAC, IAC]) = Some ([FParser ''a'', FLiteral [IAC]], [IAC]) \<and>
   concat (map frame_atoms [FParser ''a'', FLiteral [IAC], FParser [IAC, T_DO, O_NAWS],
       FParser [IAC, T_SB, O_TTYPE, T_SEND, IAC, T_SE], FParser ''b'']) =
   concat (map frame_atoms ([FParser ''a'', FLiteral [IAC]] @ [FParser [IAC, T_DO, O_NAWS],
       FParser [IAC, T_SB, O_TTYPE, T_SEND, IAC, T_SE], FParser ''b'']))"
  using framing_split_independent [OF frame_example] frame_example(1) by simp

section \<open>The session\<close>

definition MAX_OUTPUT_BATCH_BYTES :: nat where "MAX_OUTPUT_BATCH_BYTES = 16 * 1024"
definition TERMINAL_INPUT_CHUNK_BYTES :: nat where "TERMINAL_INPUT_CHUNK_BYTES = 16 * 1024"
definition TELNET_MAX_INPUT_BYTES :: nat where "TELNET_MAX_INPUT_BYTES = 16 * 1024"
definition MAX_ERROR_CHARS :: nat where "MAX_ERROR_CHARS = 512"
definition TELNET_TERMINAL_TYPE :: string where "TELNET_TERMINAL_TYPE = ''xterm-256color''"

datatype session_event = SConnected | SOutput string | SDisconnected | SFailed string

text \<open>Events of the option parser (\<^verbatim>\<open>TelnetEvents\<close>).\<close>

datatype telnet_event =
  EvData string | EvSend string | EvNegotiation char char | EvSub char string
| EvDecompress string | EvIac char

text \<open>
  The worker's state: the option parser, the negotiated NAWS flag, the output batch and the frame
  buffer. \<open>ts_sent\<close> and \<open>ts_written\<close> are what went to the event channel and to the socket. The
  environment may close either at any moment: \<open>ts_sends_left\<close> and \<open>ts_writes_left\<close> say how many more
  operations succeed (\<open>None\<close>: all of them).
\<close>

record 'p telnet =
  ts_parser :: 'p
  ts_naws_enabled :: bool
  ts_output :: string
  ts_pending :: string
  ts_sent :: "session_event list"
  ts_written :: "string list"
  ts_sends_left :: "nat option"
  ts_writes_left :: "nat option"
  ts_io_error :: string

definition telnet_bounded_error :: "string \<Rightarrow> string" where
  "telnet_bounded_error e = take_chars MAX_ERROR_CHARS e"

definition send_event :: "'p telnet \<Rightarrow> session_event \<Rightarrow> 'p telnet \<times> bool" where
  "send_event s e =
     (case ts_sends_left s of
        Some 0 \<Rightarrow> (s, False)
      | Some (Suc n) \<Rightarrow> (s\<lparr>ts_sent := ts_sent s @ [e], ts_sends_left := Some n\<rparr>, True)
      | None \<Rightarrow> (s\<lparr>ts_sent := ts_sent s @ [e]\<rparr>, True))"

definition write_all :: "'p telnet \<Rightarrow> string \<Rightarrow> 'p telnet \<times> bool" where
  "write_all s bs =
     (case ts_writes_left s of
        Some 0 \<Rightarrow> (s, False)
      | Some (Suc n) \<Rightarrow> (s\<lparr>ts_written := ts_written s @ [bs], ts_writes_left := Some n\<rparr>, True)
      | None \<Rightarrow> (s\<lparr>ts_written := ts_written s @ [bs]\<rparr>, True))"

definition flush_output :: "'p telnet \<Rightarrow> 'p telnet \<times> bool" where
  "flush_output s =
     (if ts_output s = [] then (s, True)
      else send_event (s\<lparr>ts_output := []\<rparr>) (SOutput (ts_output s)))"

lemma flush_output_empty: "flush_output s = (s', ok) \<Longrightarrow> ts_output s' = []"
  by (auto simp: flush_output_def send_event_def split: if_splits option.splits nat.splits)

text \<open>
  \<^verbatim>\<open>append_output\<close>. The source computes \<^verbatim>\<open>MAX_OUTPUT_BATCH_BYTES - output.len()\<close>, which would
  panic on a longer batch; the loop never builds one (\<open>append_output_spec\<close> below), and the model stops
  there.
\<close>

function append_output :: "'p telnet \<Rightarrow> string \<Rightarrow> 'p telnet \<times> bool" where
  "append_output s data =
     (if data = [] \<or> MAX_OUTPUT_BATCH_BYTES < length (ts_output s) then (s, True)
      else
        let len = min (MAX_OUTPUT_BATCH_BYTES - length (ts_output s)) (length data);
            s1 = s\<lparr>ts_output := ts_output s @ take len data\<rparr>
        in if length (ts_output s1) = MAX_OUTPUT_BATCH_BYTES then
             (case flush_output s1 of
                (s2, ok) \<Rightarrow> if ok then append_output s2 (drop len data) else (s2, False))
           else append_output s1 (drop len data))"
  by pat_completeness auto
termination
proof (relation "measures [\<lambda>(s, data). length data, \<lambda>(s, data). length (ts_output s)]", goal_cases)
  case (2 s data len s1 s2 ok)
  then have "ts_output s2 = []" using flush_output_empty [of s1 s2 ok] by simp
  with 2 show ?case by (auto simp: MAX_OUTPUT_BATCH_BYTES_def)
qed (auto simp: MAX_OUTPUT_BATCH_BYTES_def)

declare append_output.simps [simp del]

text \<open>\<^verbatim>\<open>u16::to_be_bytes\<close> of a dimension (\<^verbatim>\<open>as u16\<close> truncates).\<close>

definition be_bytes :: "nat \<Rightarrow> string" where
  "be_bytes n = (let k = n mod 65536 in [char_of (k div 256), char_of (k mod 256)])"

text \<open>
  The results of the fallible helpers: an error message (\<open>Inl\<close>) or a value, with the state.
  \<open>sub\<close> is the third-party \<^verbatim>\<open>Parser::subnegotiation\<close>.
\<close>

definition write_parser_event :: "'p telnet \<Rightarrow> telnet_event \<Rightarrow> 'p telnet \<times> (string + unit)" where
  "write_parser_event s e =
     (case e of
        EvSend bs \<Rightarrow>
          (case write_all s bs of
             (s', True) \<Rightarrow> (s', Inr ())
           | (s', False) \<Rightarrow> (s', Inl ''failed to send Telnet protocol data''))
      | _ \<Rightarrow> (s, Inl ''Telnet parser did not produce outbound data''))"

definition send_window_size ::
  "('p \<Rightarrow> char \<Rightarrow> string \<Rightarrow> 'p \<times> telnet_event option) \<Rightarrow> 'p telnet \<Rightarrow> terminal_size \<Rightarrow>
   'p telnet \<times> (string + unit)" where
  "send_window_size sub s dims =
     (case sub (ts_parser s) O_NAWS (be_bytes (ts_columns dims) @ be_bytes (ts_rows dims)) of
        (p, None) \<Rightarrow> (s\<lparr>ts_parser := p\<rparr>, Inl ''Telnet server has not enabled NAWS'')
      | (p, Some e) \<Rightarrow>
          (case write_parser_event (s\<lparr>ts_parser := p\<rparr>) e of
             (s', Inl _) \<Rightarrow> (s', Inl ''failed to send Telnet window dims'')
           | (s', Inr _) \<Rightarrow> (s', Inr ())))"

text \<open>
  One parsed event. \<open>Inr True\<close>: go on; \<open>Inr False\<close>: the event receiver is gone; \<open>Inl\<close>: an error.
\<close>

definition handle_event ::
  "('p \<Rightarrow> char \<Rightarrow> string \<Rightarrow> 'p \<times> telnet_event option) \<Rightarrow> terminal_size \<Rightarrow> 'p telnet \<Rightarrow>
   telnet_event \<Rightarrow> 'p telnet \<times> (string + bool)" where
  "handle_event sub dims s e =
     (case e of
        EvData data \<Rightarrow> (case append_output s data of (s', ok) \<Rightarrow> (s', Inr ok))
      | EvSend data \<Rightarrow>
          (case write_all s data of
             (s', True) \<Rightarrow> (s', Inr True)
           | (s', False) \<Rightarrow> (s', Inl ''failed to send Telnet negotiation response''))
      | EvNegotiation command option \<Rightarrow>
          if option = O_NAWS \<and> command = T_DO then
            (if \<not> ts_naws_enabled s then
               (case send_window_size sub (s\<lparr>ts_naws_enabled := True\<rparr>) dims of
                  (s', Inl m) \<Rightarrow> (s', Inl m)
                | (s', Inr _) \<Rightarrow> (s', Inr True))
             else (s, Inr True))
          else if option = O_NAWS \<and> command = T_DONT then
            (s\<lparr>ts_naws_enabled := False\<rparr>, Inr True)
          else (s, Inr True)
      | EvSub option buf \<Rightarrow>
          if option = O_TTYPE \<and> buf = [T_SEND] then
            (case sub (ts_parser s) O_TTYPE (T_IS # TELNET_TERMINAL_TYPE) of
               (p, None) \<Rightarrow> (s\<lparr>ts_parser := p\<rparr>, Inr True)
             | (p, Some ev) \<Rightarrow>
                 (case write_parser_event (s\<lparr>ts_parser := p\<rparr>) ev of
                    (s', Inl _) \<Rightarrow> (s', Inl ''failed to send Telnet terminal type'')
                  | (s', Inr _) \<Rightarrow> (s', Inr True)))
          else (s, Inr True)
      | EvDecompress _ \<Rightarrow> (s, Inl ''Telnet compression is not supported'')
      | EvIac _ \<Rightarrow> (s, Inr True))"

fun handle_events ::
  "('p \<Rightarrow> char \<Rightarrow> string \<Rightarrow> 'p \<times> telnet_event option) \<Rightarrow> terminal_size \<Rightarrow> 'p telnet \<Rightarrow>
   telnet_event list \<Rightarrow> 'p telnet \<times> (string + bool)" where
  "handle_events sub dims s [] = (s, Inr True)"
| "handle_events sub dims s (e # es) =
     (case handle_event sub dims s e of
        (s', Inr True) \<Rightarrow> handle_events sub dims s' es
      | r \<Rightarrow> r)"

text \<open>\<open>receive\<close> is the third-party \<^verbatim>\<open>Parser::receive\<close>.\<close>

fun handle_inbound_frames ::
  "('p \<Rightarrow> string \<Rightarrow> 'p \<times> telnet_event list) \<Rightarrow>
   ('p \<Rightarrow> char \<Rightarrow> string \<Rightarrow> 'p \<times> telnet_event option) \<Rightarrow> terminal_size \<Rightarrow> 'p telnet \<Rightarrow>
   inbound_frame list \<Rightarrow> 'p telnet \<times> (string + bool)" where
  "handle_inbound_frames receive sub dims s [] = (s, Inr True)"
| "handle_inbound_frames receive sub dims s (f # fs) =
     (case (case f of
              FParser bs \<Rightarrow> (case receive (ts_parser s) bs of (p, es) \<Rightarrow> (s\<lparr>ts_parser := p\<rparr>, es))
            | FLiteral bs \<Rightarrow> (s, [EvData bs])) of
        (s1, es) \<Rightarrow>
          (case handle_events sub dims s1 es of
             (s2, Inr True) \<Rightarrow> handle_inbound_frames receive sub dims s2 fs
           | r \<Rightarrow> r))"

text \<open>
  The session loop. One event of \<^verbatim>\<open>tokio::select!\<close>: a queued command (or its channel closed), a
  resize notification, bytes or the end or an error of the socket, or the flush timer, which is armed
  only while output is buffered.
\<close>

datatype loop_event =
  LSend string | LDisconnect | LResize terminal_size | LResizeClosed
| LRead string | LEof | LReadError string | LFlushTimer

datatype control = Continue | Break | BreakFailed

definition fail_with :: "'p telnet \<Rightarrow> string \<Rightarrow> 'p telnet \<times> control" where
  "fail_with s m = (fst (send_event s (SFailed (telnet_bounded_error m))), BreakFailed)"

fun write_chunks :: "(string \<Rightarrow> string) \<Rightarrow> 'p telnet \<Rightarrow> string list \<Rightarrow> 'p telnet \<times> bool" where
  "write_chunks escape_iac s [] = (s, True)"
| "write_chunks escape_iac s (c # cs) =
     (case write_all s (escape_iac c) of
        (s', True) \<Rightarrow> write_chunks escape_iac s' cs
      | (s', False) \<Rightarrow> (s', False))"

definition telnet_step ::
  "(string \<Rightarrow> string) \<Rightarrow> ('p \<Rightarrow> string \<Rightarrow> 'p \<times> telnet_event list) \<Rightarrow>
   ('p \<Rightarrow> char \<Rightarrow> string \<Rightarrow> 'p \<times> telnet_event option) \<Rightarrow> terminal_size \<Rightarrow> 'p telnet \<Rightarrow> loop_event \<Rightarrow>
   'p telnet \<times> control" where
  "telnet_step escape_iac receive sub dims s ev =
     (case ev of
        LSend data \<Rightarrow>
          (case write_chunks escape_iac s (chunks TERMINAL_INPUT_CHUNK_BYTES data) of
             (s', True) \<Rightarrow> (s', Continue)
           | (s', False) \<Rightarrow> fail_with s' (ts_io_error s'))
      | LDisconnect \<Rightarrow> (s, Break)
      | LResizeClosed \<Rightarrow> (s, Break)
      | LResize d \<Rightarrow>
          (if ts_naws_enabled s then
             (case send_window_size sub s d of
                (s', Inl m) \<Rightarrow> fail_with s' m
              | (s', Inr _) \<Rightarrow> (s', Continue))
           else (s, Continue))
      | LRead data \<Rightarrow>
          (if data = [] then (s, Break)
           else case frame_receive (ts_pending s) data of
             None \<Rightarrow> fail_with s ''Telnet protocol frame exceeds 65536 bytes''
           | Some (frames, rest) \<Rightarrow>
               (case handle_inbound_frames receive sub dims (s\<lparr>ts_pending := rest\<rparr>) frames of
                  (s', Inr True) \<Rightarrow> (s', Continue)
                | (s', Inr False) \<Rightarrow> (s', Break)
                | (s', Inl m) \<Rightarrow> fail_with s' m))
      | LEof \<Rightarrow> (s, Break)
      | LReadError m \<Rightarrow> fail_with s m
      | LFlushTimer \<Rightarrow>
          (if ts_output s = [] then (s, Continue)
           else case flush_output s of (s', ok) \<Rightarrow> (s', if ok then Continue else Break)))"

text \<open>
  The whole loop over the events that occur, with the size current at each event, and its end: the
  last flush, and \<^verbatim>\<open>Disconnected\<close> unless a failure was reported. An exhausted event list is a loop
  still waiting.
\<close>

fun telnet_loop ::
  "(string \<Rightarrow> string) \<Rightarrow> ('p \<Rightarrow> string \<Rightarrow> 'p \<times> telnet_event list) \<Rightarrow>
   ('p \<Rightarrow> char \<Rightarrow> string \<Rightarrow> 'p \<times> telnet_event option) \<Rightarrow> 'p telnet \<Rightarrow>
   (terminal_size \<times> loop_event) list \<Rightarrow> 'p telnet \<times> control" where
  "telnet_loop escape_iac receive sub s [] = (s, Continue)"
| "telnet_loop escape_iac receive sub s ((d, ev) # evs) =
     (case telnet_step escape_iac receive sub d s ev of
        (s', Continue) \<Rightarrow> telnet_loop escape_iac receive sub s' evs
      | r \<Rightarrow> r)"

definition telnet_finish :: "'p telnet \<times> control \<Rightarrow> 'p telnet" where
  "telnet_finish r =
     (case r of
        (s, BreakFailed) \<Rightarrow> fst (flush_output s)
      | (s, _) \<Rightarrow> fst (send_event (fst (flush_output s)) SDisconnected))"

section \<open>Output batching\<close>

fun output_of :: "session_event list \<Rightarrow> string" where
  "output_of [] = []"
| "output_of (SOutput bs # es) = bs @ output_of es"
| "output_of (_ # es) = output_of es"

lemma output_of_append [simp]: "output_of (xs @ ys) = output_of xs @ output_of ys"
  by (induction xs rule: output_of.induct) auto

text \<open>Every byte of output the session has produced: sent, then still buffered.\<close>

definition delivered :: "'p telnet \<Rightarrow> string" where
  "delivered s = output_of (ts_sent s) @ ts_output s"

definition batches_ok :: "'p telnet \<Rightarrow> bool" where [wf_defs]:
  "batches_ok s \<longleftrightarrow> length (ts_output s) < MAX_OUTPUT_BATCH_BYTES \<and>
     (\<forall>bs. SOutput bs \<in> set (ts_sent s) \<longrightarrow> bs \<noteq> [] \<and> length bs \<le> MAX_OUTPUT_BATCH_BYTES)"

lemma send_event_frame:
  "send_event s e = (s', ok) \<Longrightarrow>
     ts_output s' = ts_output s \<and> ts_written s' = ts_written s \<and> ts_parser s' = ts_parser s \<and>
     ts_sent s' = ts_sent s @ (if ok then [e] else [])"
  by (auto simp: send_event_def split: option.splits nat.splits)

lemma write_all_frame:
  "write_all s bs = (s', ok) \<Longrightarrow>
     ts_output s' = ts_output s \<and> ts_sent s' = ts_sent s \<and> ts_parser s' = ts_parser s \<and>
     ts_written s' = ts_written s @ (if ok then [bs] else [])"
  by (auto simp: write_all_def split: option.splits nat.splits)

lemma flush_output_spec:
  assumes "flush_output s = (s', ok)"
  shows "ts_output s' = [] \<and> ts_written s' = ts_written s \<and>
     ts_sent s' = ts_sent s @ (if ok \<and> ts_output s \<noteq> [] then [SOutput (ts_output s)] else [])"
  using assms by (auto simp: flush_output_def dest: send_event_frame split: if_splits)

lemma flush_output_ok:
  assumes "flush_output s = (s', ok)" "length (ts_output s) \<le> MAX_OUTPUT_BATCH_BYTES"
    "\<forall>bs. SOutput bs \<in> set (ts_sent s) \<longrightarrow> bs \<noteq> [] \<and> length bs \<le> MAX_OUTPUT_BATCH_BYTES"
  shows "batches_ok s' \<and> (ok \<longrightarrow> delivered s' = delivered s)"
  using flush_output_spec [OF assms(1)] assms(2,3)
  by (auto simp: wf_defs delivered_def MAX_OUTPUT_BATCH_BYTES_def)

lemma append_output_spec:
  "append_output s data = (s', ok) \<Longrightarrow> batches_ok s \<Longrightarrow>
     batches_ok s' \<and> ts_written s' = ts_written s \<and> (ok \<longrightarrow> delivered s' = delivered s @ data)"
proof (induction s data rule: append_output.induct)
  case (1 s data)
  show ?case
  proof (cases "data = []")
    case True
    with 1 show ?thesis by (simp add: append_output.simps [of s])
  next
    case False
    have lt: "\<not> (data = [] \<or> MAX_OUTPUT_BATCH_BYTES < length (ts_output s))"
      using False "1.prems" by (simp add: wf_defs)
    define len where "len = min (MAX_OUTPUT_BATCH_BYTES - length (ts_output s)) (length data)"
    define s1 where "s1 = s\<lparr>ts_output := ts_output s @ take len data\<rparr>"
    have len1: "length (ts_output s1) \<le> MAX_OUTPUT_BATCH_BYTES"
      using "1.prems" by (auto simp: s1_def len_def wf_defs)
    have d1: "delivered s1 @ drop len data = delivered s @ data"
      by (simp add: delivered_def s1_def)
    show ?thesis
    proof (cases "length (ts_output s1) = MAX_OUTPUT_BATCH_BYTES")
      case True
      obtain s2 ok2 where f: "flush_output s1 = (s2, ok2)" by (cases "flush_output s1")
      have s2: "batches_ok s2 \<and> (ok2 \<longrightarrow> delivered s2 = delivered s1) \<and> ts_written s2 = ts_written s"
        using flush_output_ok [OF f len1] flush_output_spec [OF f] "1.prems"
        by (simp add: s1_def wf_defs)
      have e: "append_output s data = (if ok2 then append_output s2 (drop len data) else (s2, False))"
        using lt True f by (simp add: append_output.simps [of s] len_def s1_def Let_def)
      show ?thesis
      proof (cases ok2)
        case ok: True
        have "batches_ok s' \<and> ts_written s' = ts_written s2 \<and>
            (ok \<longrightarrow> delivered s' = delivered s2 @ drop len data)"
          by (rule "1.IH"(1) [OF lt len_def s1_def True f [symmetric] ok])
            (use e ok "1.prems" s2 in auto)
        then show ?thesis using s2 ok d1 by auto
      next
        case False
        then show ?thesis using e "1.prems" s2 by auto
      qed
    next
      case False
      have b1: "batches_ok s1" using False len1 "1.prems" by (auto simp: wf_defs s1_def)
      have e: "append_output s data = append_output s1 (drop len data)"
        using lt False by (simp add: append_output.simps [of s] len_def s1_def Let_def)
      have "batches_ok s' \<and> ts_written s' = ts_written s1 \<and>
          (ok \<longrightarrow> delivered s' = delivered s1 @ drop len data)"
        by (rule "1.IH"(2) [OF lt len_def s1_def False]) (use e "1.prems" b1 in auto)
      then show ?thesis using d1 by (simp add: s1_def)
    qed
  qed
qed

lemma write_parser_event_frame:
  "write_parser_event s e = (s', r) \<Longrightarrow> ts_output s' = ts_output s \<and> ts_sent s' = ts_sent s"
  by (auto simp: write_parser_event_def split: telnet_event.splits prod.splits bool.splits
      dest: write_all_frame)

lemma send_window_size_frame:
  "send_window_size sub s d = (s', r) \<Longrightarrow> ts_output s' = ts_output s \<and> ts_sent s' = ts_sent s"
  by (auto simp: send_window_size_def split: prod.splits option.splits sum.splits
      dest!: write_parser_event_frame)

fun event_data :: "telnet_event \<Rightarrow> string" where
  "event_data (EvData d) = d"
| "event_data _ = []"

lemma delivered_frame:
  "ts_output s' = ts_output s \<and> ts_sent s' = ts_sent s \<Longrightarrow>
     delivered s' = delivered s \<and> batches_ok s' = batches_ok s"
  by (simp add: delivered_def wf_defs)

lemma handle_event_delivered:
  assumes "handle_event sub d s e = (s', r)" "batches_ok s"
  shows "batches_ok s' \<and> (r = Inr True \<longrightarrow> delivered s' = delivered s @ event_data e)"
proof (cases e)
  case (EvData data)
  then show ?thesis
    using assms append_output_spec [of s data] by (auto simp: handle_event_def split: prod.splits)
next
  case (EvSend x)
  then show ?thesis
    using assms delivered_frame [of s' s]
    by (auto simp: handle_event_def split: prod.splits bool.splits dest!: write_all_frame)
next
  case (EvNegotiation c opt)
  have "ts_output s' = ts_output s \<and> ts_sent s' = ts_sent s"
    using assms(1) EvNegotiation
    by (auto simp: handle_event_def split: if_splits prod.splits sum.splits
        dest!: send_window_size_frame)
  then show ?thesis using delivered_frame assms(2) EvNegotiation by auto
next
  case (EvSub opt buf)
  have "ts_output s' = ts_output s \<and> ts_sent s' = ts_sent s"
    using assms(1) EvSub
    by (auto simp: handle_event_def split: if_splits prod.splits sum.splits option.splits
        dest!: write_parser_event_frame)
  then show ?thesis using delivered_frame assms(2) EvSub by auto
qed (use assms in \<open>auto simp: handle_event_def\<close>)

text \<open>
  C30. Handling parsed events delivers exactly the data they carry, in order: output sent plus output
  still buffered grows by the payloads of the data events and nothing else; batches handed to the
  application are never empty and never exceed 16 KiB, and the buffer stays below a full batch.
\<close>

theorem telnet_output_exact:
  assumes "handle_events sub d s es = (s', Inr True)" "batches_ok s"
  shows "delivered s' = delivered s @ concat (map event_data es) \<and> batches_ok s'"
  using assms
proof (induction es arbitrary: s)
  case (Cons e es)
  obtain s1 r where h: "handle_event sub d s e = (s1, r)" by (cases "handle_event sub d s e")
  with Cons.prems have r: "r = Inr True" "handle_events sub d s1 es = (s', Inr True)"
    by (auto split: sum.splits bool.splits)
  with Cons handle_event_delivered [OF h] show ?case by simp
qed simp

definition telnet_start :: "'p \<Rightarrow> 'p telnet" where
  "telnet_start p = \<lparr>ts_parser = p, ts_naws_enabled = False, ts_output = [], ts_pending = [],
     ts_sent = [SConnected], ts_written = [], ts_sends_left = None, ts_writes_left = None,
     ts_io_error = ''connection reset''\<rparr>"

theorem telnet_output_exact_witness:
  "let s' = fst (handle_events (\<lambda>p _ _. (p, None)) (size_backend 80 24) (telnet_start ())
                   [EvData ''ls'', EvIac IAC, EvData ''-l'']) in
   delivered s' = ''ls-l'' \<and> batches_ok s'"
proof -
  let ?es = "[EvData ''ls'', EvIac IAC, EvData ''-l'']"
  let ?r = "handle_events (\<lambda>p _ _. (p, None)) (size_backend 80 24) (telnet_start ()) ?es"
  have run: "?r = (telnet_start ()\<lparr>ts_output := ''ls-l''\<rparr>, Inr True)"
    by (simp add: handle_event_def append_output.simps MAX_OUTPUT_BATCH_BYTES_def telnet_start_def)
  have ok: "batches_ok (telnet_start ())"
    by (simp add: wf_defs telnet_start_def MAX_OUTPUT_BATCH_BYTES_def)
  show ?thesis
    using telnet_output_exact [OF run ok] run by (simp add: delivered_def telnet_start_def)
qed

section \<open>One terminal event\<close>

definition is_terminal :: "session_event \<Rightarrow> bool" where
  "is_terminal e \<longleftrightarrow> (e = SDisconnected \<or> (\<exists>m. e = SFailed m))"

text \<open>Everything but the end of the session only sends output, and never un-closes a channel.\<close>

definition quiet :: "'p telnet \<Rightarrow> 'p telnet \<Rightarrow> bool" where
  "quiet s s' \<longleftrightarrow> (\<exists>es. ts_sent s' = ts_sent s @ es \<and> (\<forall>e \<in> set es. \<exists>bs. e = SOutput bs)) \<and>
     (ts_sends_left s = None \<longrightarrow> ts_sends_left s' = None)"

lemma quiet_refl [simp, intro]: "quiet s s"
  by (simp add: quiet_def)

lemma quiet_trans [trans]: "quiet a b \<Longrightarrow> quiet b c \<Longrightarrow> quiet a c"
  unfolding quiet_def by (auto simp: ball_Un)

lemma quiet_frame:
  "ts_sent s' = ts_sent s \<Longrightarrow> ts_sends_left s' = ts_sends_left s \<Longrightarrow> quiet s s'"
  by (simp add: quiet_def)

lemma flush_output_quiet: "flush_output s = (s', ok) \<Longrightarrow> quiet s s'"
  by (auto simp: flush_output_def send_event_def quiet_def split: if_splits option.splits nat.splits)

lemma write_all_quiet: "write_all s bs = (s', ok) \<Longrightarrow> quiet s s'"
  by (rule quiet_frame) (auto simp: write_all_def split: option.splits nat.splits)

lemma append_output_quiet: "append_output s data = (s', ok) \<Longrightarrow> quiet s s'"
proof (induction s data arbitrary: s' ok rule: append_output.induct)
  case (1 s data)
  show ?case
  proof (cases "data = [] \<or> MAX_OUTPUT_BATCH_BYTES < length (ts_output s)")
    case True
    with "1.prems" show ?thesis by (auto simp: append_output.simps [of s])
  next
    case False
    define len where "len = min (MAX_OUTPUT_BATCH_BYTES - length (ts_output s)) (length data)"
    define s1 where "s1 = s\<lparr>ts_output := ts_output s @ take len data\<rparr>"
    have q1: "quiet s s1" by (simp add: quiet_def s1_def)
    show ?thesis
    proof (cases "length (ts_output s1) = MAX_OUTPUT_BATCH_BYTES")
      case True
      obtain s2 ok2 where f: "flush_output s1 = (s2, ok2)" by (cases "flush_output s1")
      have e: "append_output s data = (if ok2 then append_output s2 (drop len data) else (s2, False))"
        using False True f by (simp add: append_output.simps [of s] len_def s1_def Let_def)
      have eq: "append_output s2 (drop len data) = (s', ok)" if ok2 using e "1.prems" that by simp
      have "quiet s2 s'" if ok2
        using "1.IH"(1) [OF False len_def s1_def True f [symmetric] that eq [OF that]] .
      then show ?thesis
        using e "1.prems" q1 flush_output_quiet [OF f] by (cases ok2) (auto intro: quiet_trans)
    next
      case neq: False
      have e: "append_output s data = append_output s1 (drop len data)"
        using False neq by (simp add: append_output.simps [of s] len_def s1_def Let_def)
      have eq: "append_output s1 (drop len data) = (s', ok)" using e "1.prems" by simp
      have "quiet s1 s'" by (rule "1.IH"(2) [OF False len_def s1_def neq eq])
      then show ?thesis using q1 quiet_trans by blast
    qed
  qed
qed

lemma quiet_parser [simp]: "quiet (s\<lparr>ts_parser := p\<rparr>) s' = quiet s s'"
  "quiet (s\<lparr>ts_naws_enabled := n\<rparr>) s' = quiet s s'" "quiet (s\<lparr>ts_pending := r\<rparr>) s' = quiet s s'"
  "quiet s (s'\<lparr>ts_parser := p\<rparr>) = quiet s s'" "quiet s (s'\<lparr>ts_naws_enabled := n\<rparr>) = quiet s s'"
  by (simp_all add: quiet_def)

lemma write_parser_event_quiet: "write_parser_event s e = (s', r) \<Longrightarrow> quiet s s'"
  by (auto simp: write_parser_event_def split: telnet_event.splits prod.splits bool.splits
      dest: write_all_quiet)

lemma send_window_size_quiet: "send_window_size sub s d = (s', r) \<Longrightarrow> quiet s s'"
  by (auto simp: send_window_size_def split: prod.splits option.splits sum.splits
      dest!: write_parser_event_quiet)

lemma handle_event_quiet: "handle_event sub d s e = (s', r) \<Longrightarrow> quiet s s'"
  by (cases e)
    (auto simp: handle_event_def split: if_splits prod.splits sum.splits option.splits bool.splits
      dest!: append_output_quiet write_all_quiet send_window_size_quiet write_parser_event_quiet)

lemma handle_events_quiet: "handle_events sub d s es = (s', r) \<Longrightarrow> quiet s s'"
proof (induction es arbitrary: s)
  case (Cons e es)
  obtain s1 r1 where h: "handle_event sub d s e = (s1, r1)" by (cases "handle_event sub d s e")
  with Cons handle_event_quiet [OF h] show ?case
    by (auto split: sum.splits bool.splits intro: quiet_trans)
qed simp

lemma handle_inbound_frames_quiet:
  "handle_inbound_frames receive sub d s fs = (s', r) \<Longrightarrow> quiet s s'"
proof (induction fs arbitrary: s)
  case (Cons f fs)
  obtain s1 es where f: "(case f of
        FParser bs \<Rightarrow> (case receive (ts_parser s) bs of (p, es) \<Rightarrow> (s\<lparr>ts_parser := p\<rparr>, es))
      | FLiteral bs \<Rightarrow> (s, [EvData bs])) = (s1, es)" by (metis surj_pair)
  have q1: "quiet s s1"
    using f by (auto split: inbound_frame.splits prod.splits)
  obtain s2 r2 where h: "handle_events sub d s1 es = (s2, r2)" by (cases "handle_events sub d s1 es")
  have "quiet s2 s'"
    using Cons f h by (auto split: sum.splits bool.splits)
  then show ?case using q1 handle_events_quiet [OF h] by (blast intro: quiet_trans)
qed simp

lemma write_chunks_quiet: "write_chunks esc s cs = (s', ok) \<Longrightarrow> quiet s s'"
proof (induction cs arbitrary: s)
  case (Cons c cs)
  obtain s1 ok1 where w: "write_all s (esc c) = (s1, ok1)" by (cases "write_all s (esc c)")
  with Cons write_all_quiet [OF w] show ?case
    by (auto split: bool.splits intro: quiet_trans)
qed simp

text \<open>
  A step that goes on or breaks is quiet; a failing one is quiet up to one \<^verbatim>\<open>Failed\<close> event, which
  is sent if the channel is still open.
\<close>

definition failed_after :: "'p telnet \<Rightarrow> 'p telnet \<Rightarrow> bool" where
  "failed_after s s' \<longleftrightarrow> (\<exists>u m. quiet s u \<and> fail_with u m = (s', BreakFailed))"

lemma fail_with_after: "quiet s u \<Longrightarrow> fail_with u m = (s', c) \<Longrightarrow> c = BreakFailed \<and> failed_after s s'"
  by (auto simp: failed_after_def fail_with_def)

lemma telnet_step_cases:
  assumes "telnet_step esc receive sub d s ev = (s', c)"
  shows "(c \<noteq> BreakFailed \<longrightarrow> quiet s s') \<and> (c = BreakFailed \<longrightarrow> failed_after s s')"
proof (cases ev)
  case (LSend data)
  obtain s1 ok where w: "write_chunks esc s (chunks TERMINAL_INPUT_CHUNK_BYTES data) = (s1, ok)"
    by (cases "write_chunks esc s (chunks TERMINAL_INPUT_CHUNK_BYTES data)")
  show ?thesis
    using assms LSend w write_chunks_quiet [OF w] fail_with_after [OF write_chunks_quiet [OF w]]
    by (cases ok) (auto simp: telnet_step_def)
next
  case (LResize x)
  show ?thesis
  proof (cases "ts_naws_enabled s")
    case True
    obtain s1 r where w: "send_window_size sub s x = (s1, r)" by (cases "send_window_size sub s x")
    show ?thesis
      using assms LResize True w send_window_size_quiet [OF w]
        fail_with_after [OF send_window_size_quiet [OF w]]
      by (cases r) (auto simp: telnet_step_def)
  qed (use assms LResize in \<open>auto simp: telnet_step_def\<close>)
next
  case (LRead data)
  show ?thesis
  proof (cases "data = [] \<or> frame_receive (ts_pending s) data = None")
    case True
    then show ?thesis
      using assms LRead fail_with_after [OF quiet_refl]
      by (cases "data = []") (auto simp: telnet_step_def)
  next
    case False
    then obtain fs rest where fr: "frame_receive (ts_pending s) data = Some (fs, rest)" by auto
    obtain s1 r where h: "handle_inbound_frames receive sub d (s\<lparr>ts_pending := rest\<rparr>) fs = (s1, r)"
      by (cases "handle_inbound_frames receive sub d (s\<lparr>ts_pending := rest\<rparr>) fs")
    have q: "quiet s s1" using handle_inbound_frames_quiet [OF h] by simp
    show ?thesis
      using assms LRead False fr h q fail_with_after [OF q]
      by (cases r) (auto simp: telnet_step_def split: bool.splits)
  qed
next
  case LFlushTimer
  then show ?thesis
    using assms flush_output_quiet
    by (auto simp: telnet_step_def split: if_splits prod.splits)
qed (use assms fail_with_after [OF quiet_refl] in \<open>auto simp: telnet_step_def\<close>)

lemma telnet_loop_cases:
  "telnet_loop esc receive sub s evs = (s', c) \<Longrightarrow>
     (c \<noteq> BreakFailed \<longrightarrow> quiet s s') \<and> (c = BreakFailed \<longrightarrow> failed_after s s')"
proof (induction evs arbitrary: s)
  case (Cons x evs)
  obtain d ev where x: "x = (d, ev)" by (cases x)
  obtain s1 c1 where st: "telnet_step esc receive sub d s ev = (s1, c1)"
    by (cases "telnet_step esc receive sub d s ev")
  show ?case
  proof (cases "c1 = Continue")
    case True
    then have "telnet_loop esc receive sub s1 evs = (s', c)" "quiet s s1"
      using Cons.prems x st telnet_step_cases [OF st] by auto
    then show ?thesis
      using Cons.IH [of s1] unfolding failed_after_def by (meson quiet_trans)
  next
    case False
    then have "(s', c) = (s1, c1)" using Cons.prems x st by (cases c1) auto
    then show ?thesis using telnet_step_cases [OF st] by simp
  qed
qed simp

lemma terminal_quiet:
  assumes "quiet s s'"
  shows "filter is_terminal (ts_sent s') = filter is_terminal (ts_sent s)"
proof -
  have "filter is_terminal es = []" if "\<forall>e \<in> set es. \<exists>bs. e = SOutput bs" for es
    using that by (auto simp: filter_empty_conv is_terminal_def)
  then show ?thesis using assms by (auto simp: quiet_def)
qed

text \<open>
  C29. Whatever happens on the socket, the command queue and the timer, a session reports its end once:
  while it runs it sends output only, after the loop has ended it has sent at most one of
  \<^verbatim>\<open>Disconnected\<close> and \<^verbatim>\<open>Failed\<close>, and if the application still listens it has sent exactly one,
  \<^verbatim>\<open>Disconnected\<close> as the very last event of an orderly end.
\<close>

theorem telnet_single_terminal_event:
  assumes "telnet_loop esc receive sub s evs = (s', c)" "filter is_terminal (ts_sent s) = []"
  shows "length (filter is_terminal (ts_sent (telnet_finish (s', c)))) \<le> 1 \<and>
    (c = Continue \<longrightarrow> filter is_terminal (ts_sent s') = []) \<and>
    (ts_sends_left s = None \<longrightarrow>
       length (filter is_terminal (ts_sent (telnet_finish (s', c)))) = 1 \<and>
       (c \<noteq> BreakFailed \<longrightarrow> last (ts_sent (telnet_finish (s', c))) = SDisconnected))"
proof -
  obtain s1 ok1 where f: "flush_output s' = (s1, ok1)" by (cases "flush_output s'")
  have t1: "filter is_terminal (ts_sent s1) = filter is_terminal (ts_sent s')"
    by (rule terminal_quiet [OF flush_output_quiet [OF f]])
  have l1: "ts_sends_left s' = None \<Longrightarrow> ts_sends_left s1 = None"
    using flush_output_quiet [OF f] by (simp add: quiet_def)
  show ?thesis
  proof (cases "c = BreakFailed")
    case True
    then obtain u m where u: "quiet s u" "fail_with u m = (s', BreakFailed)"
      using telnet_loop_cases [OF assms(1)] by (auto simp: failed_after_def)
    then have "filter is_terminal (ts_sent s') = [] \<or> filter is_terminal (ts_sent s') = [SFailed (telnet_bounded_error m)]"
      and "ts_sends_left u = None \<Longrightarrow> filter is_terminal (ts_sent s') = [SFailed (telnet_bounded_error m)]"
      using terminal_quiet [OF u(1)] assms(2)
      by (auto simp: fail_with_def send_event_def is_terminal_def split: option.splits nat.splits)
    then show ?thesis
      using True f t1 u(1) by (auto simp: telnet_finish_def quiet_def)
  next
    case False
    then have q: "quiet s s'" using telnet_loop_cases [OF assms(1)] by simp
    have fin: "telnet_finish (s', c) = fst (send_event s1 SDisconnected)"
      using False f by (cases c) (auto simp: telnet_finish_def)
    show ?thesis
      using False q t1 l1 terminal_quiet [OF q] assms(2) unfolding fin
      by (auto simp: send_event_def is_terminal_def quiet_def split: option.splits nat.splits)
  qed
qed

theorem telnet_single_terminal_event_witness:
  "let r = telnet_loop (\<lambda>c. c) (\<lambda>p bs. (p, [EvData bs])) (\<lambda>p _ _. (p, None)) (telnet_start ())
             [(size_backend 80 24, LRead ''hi''), (size_backend 80 24, LEof)] in
   ts_sent (telnet_finish r) = [SConnected, SOutput ''hi'', SDisconnected]"
proof -
  let ?r = "telnet_loop (\<lambda>c. c) (\<lambda>p bs. (p, [EvData bs])) (\<lambda>p _ _. (p, None)) (telnet_start ())
             [(size_backend 80 24, LRead ''hi''), (size_backend 80 24, LEof)]"
  have fr: "frame_receive [] ''hi'' = Some ([FParser ''hi''], [])"
    by (simp add: frame_receive_def frame_loop.simps next_frame_def IAC_def usize_max_def
        MAX_PROTOCOL_FRAME_BYTES_def)
  have run: "?r = (telnet_start ()\<lparr>ts_output := ''hi''\<rparr>, Break)"
    using fr by (simp add: telnet_step_def handle_event_def append_output.simps
        MAX_OUTPUT_BATCH_BYTES_def telnet_start_def)
  have "last (ts_sent (telnet_finish ?r)) = SDisconnected"
    using telnet_single_terminal_event [OF run] run by (simp add: telnet_start_def is_terminal_def)
  then show ?thesis
    using run by (simp add: telnet_finish_def flush_output_def send_event_def telnet_start_def)
qed

end
