(* ===== verification/Rust_Text.thy ===== *)
theory Rust_Text
  imports Prelude
begin

text \<open>
  The \<^verbatim>\<open>str\<close> operations of the Rust standard library that the components use, on UTF-8 bytes:
  splitting and joining at an ASCII separator, \<^verbatim>\<open>trim\<close> (Unicode \<^verbatim>\<open>White_Space\<close>),
  \<^verbatim>\<open>char::is_control\<close>, \<^verbatim>\<open>rsplit_once\<close>, and the bytewise order of \<^verbatim>\<open>str::cmp\<close>, with a
  theory of comparators for \<^verbatim>\<open>sort_by\<close>.
\<close>

section \<open>Splitting and joining\<close>

fun split_on :: "char \<Rightarrow> string \<Rightarrow> string list" where
  "split_on c [] = [[]]"
| "split_on c (x # xs) =
     (if x = c then [] # split_on c xs
      else (x # hd (split_on c xs)) # tl (split_on c xs))"

fun join_with :: "char \<Rightarrow> string list \<Rightarrow> string" where
  "join_with c [] = []"
| "join_with c [p] = p"
| "join_with c (p # ps) = p @ c # join_with c ps"

lemma split_on_nonempty [simp]: "split_on c s \<noteq> []"
  by (induction s) auto

lemma split_on_no_sep: "p \<in> set (split_on c s) \<Longrightarrow> c \<notin> set p"
proof (induction s arbitrary: p)
  case (Cons x xs)
  have "hd (split_on c xs) \<in> set (split_on c xs)"
    and "set (tl (split_on c xs)) \<subseteq> set (split_on c xs)"
    by (simp_all add: list.set_sel(2) subsetI)
  with Cons show ?case by (auto split: if_splits)
qed simp

lemma split_on_plain: "c \<notin> set p \<Longrightarrow> split_on c p = [p]"
  by (induction p) auto

lemma split_on_append: "c \<notin> set p \<Longrightarrow> split_on c (p @ c # s) = p # split_on c s"
  by (induction p) auto

lemma split_join: "ps \<noteq> [] \<Longrightarrow> \<forall>p \<in> set ps. c \<notin> set p \<Longrightarrow> split_on c (join_with c ps) = ps"
  by (induction c ps rule: join_with.induct) (auto simp: split_on_plain split_on_append)

lemma join_split: "join_with c (split_on c s) = s"
proof (induction s)
  case (Cons x xs)
  obtain p ps where p: "split_on c xs = p # ps" by (cases "split_on c xs") auto
  with Cons show ?case by (cases ps) auto
qed simp

definition strip_prefix :: "string \<Rightarrow> string \<Rightarrow> string option" where
  "strip_prefix p s = (if take (length p) s = p then Some (drop (length p) s) else None)"

definition starts_with :: "string \<Rightarrow> string \<Rightarrow> bool" where
  "starts_with p s \<longleftrightarrow> take (length p) s = p"

definition trim_end_matches :: "char \<Rightarrow> string \<Rightarrow> string" where
  "trim_end_matches c s = rev (dropWhile (\<lambda>x. x = c) (rev s))"

text \<open>\<^verbatim>\<open>s.rsplit_once(c)\<close>: what is before and after the last \<open>c\<close>.\<close>

definition rsplit_once :: "char \<Rightarrow> string \<Rightarrow> (string \<times> string) option" where
  "rsplit_once c s =
     (if c \<in> set s then
        Some (rev (tl (dropWhile (\<lambda>x. x \<noteq> c) (rev s))), rev (takeWhile (\<lambda>x. x \<noteq> c) (rev s)))
      else None)"

lemma rsplit_once_Some:
  assumes "rsplit_once c s = Some (a, b)"
  shows "s = a @ c # b \<and> c \<notin> set b"
proof -
  have c: "c \<in> set s" and ab: "a = rev (tl (dropWhile (\<lambda>x. x \<noteq> c) (rev s)))"
    "b = rev (takeWhile (\<lambda>x. x \<noteq> c) (rev s))"
    using assms by (auto simp: rsplit_once_def split: if_splits)
  let ?d = "dropWhile (\<lambda>x. x \<noteq> c) (rev s)"
  have "?d \<noteq> []" using c by (simp add: dropWhile_eq_Nil_conv)
  then have d: "?d = c # tl ?d" using hd_dropWhile [of "\<lambda>x. x \<noteq> c" "rev s"] by (metis list.collapse)
  have "rev s = takeWhile (\<lambda>x. x \<noteq> c) (rev s) @ c # tl ?d"
    using d takeWhile_dropWhile_id by metis
  then have "s = rev (c # tl ?d) @ rev (takeWhile (\<lambda>x. x \<noteq> c) (rev s))"
    by (metis rev_append rev_rev_ident)
  then show ?thesis using ab by (auto dest: set_takeWhileD)
qed

lemma rsplit_once_append: "c \<notin> set b \<Longrightarrow> rsplit_once c (a @ c # b) = Some (a, b)"
  by (simp add: rsplit_once_def takeWhile_append2 dropWhile_append2)
    (simp add: takeWhile_append dropWhile_append)

section \<open>White space and control characters\<close>

text \<open>The UTF-8 bytes of the \<^verbatim>\<open>White_Space\<close> characters.\<close>

definition space_codes :: "nat list list" where
  "space_codes =
     map (\<lambda>n. [n]) [9, 10, 11, 12, 13, 32] @
     [[0xC2, 0x85], [0xC2, 0xA0], [0xE1, 0x9A, 0x80]] @
     map (\<lambda>n. [0xE2, 0x80, n])
       [0x80, 0x81, 0x82, 0x83, 0x84, 0x85, 0x86, 0x87, 0x88, 0x89, 0x8A, 0xA8, 0xA9, 0xAF] @
     [[0xE2, 0x81, 0x9F], [0xE3, 0x80, 0x80]]"

definition is_space_char :: "string \<Rightarrow> bool" where
  "is_space_char s \<longleftrightarrow> map of_char s \<in> set space_codes"

definition leading_space :: "string \<Rightarrow> nat" where
  "leading_space s =
     (if is_space_char (take 1 s) then 1 else if is_space_char (take 2 s) then 2
      else if is_space_char (take 3 s) then 3 else 0)"

definition trailing_space :: "string \<Rightarrow> nat" where
  "trailing_space s =
     (let back = (\<lambda>k. drop (length s - k) s) in
      if is_space_char (back 1) then 1 else if is_space_char (back 2) then 2
      else if is_space_char (back 3) then 3 else 0)"

lemma not_space_Nil [simp]: "\<not> is_space_char []"
  by (simp add: is_space_char_def space_codes_def)

lemma leading_space_pos: "0 < leading_space s \<Longrightarrow> s \<noteq> []"
  by (auto simp: leading_space_def)

lemma trailing_space_pos: "0 < trailing_space s \<Longrightarrow> s \<noteq> []"
  by (auto simp: trailing_space_def Let_def)

function trim_start :: "string \<Rightarrow> string" where
  "trim_start s = (if leading_space s = 0 then s else trim_start (drop (leading_space s) s))"
  by pat_completeness auto
termination
  by (relation "measure length") (auto intro!: diff_less dest: leading_space_pos)

function trim_end :: "string \<Rightarrow> string" where
  "trim_end s =
     (if trailing_space s = 0 then s else trim_end (take (length s - trailing_space s) s))"
  by pat_completeness auto
termination
  by (relation "measure length") (auto intro!: diff_less dest: trailing_space_pos)

declare trim_start.simps [simp del] trim_end.simps [simp del]

definition trim :: "string \<Rightarrow> string" where
  "trim s = trim_end (trim_start s)"

text \<open>\<^verbatim>\<open>s.chars().any(char::is_control)\<close>: U+0000-1F, U+007F and U+0080-9F.\<close>

fun has_control :: "string \<Rightarrow> bool" where
  "has_control [] = False"
| "has_control (c # cs) =
     (let n = (of_char c :: nat) in
      n < 32 \<or> n = 127 \<or>
      (n = 0xC2 \<and> cs \<noteq> [] \<and> 0x80 \<le> (of_char (hd cs) :: nat) \<and> (of_char (hd cs) :: nat) \<le> 0x9F) \<or>
      has_control cs)"

section \<open>Comparisons\<close>

datatype ordering = Less | Equal | Greater

fun rev_ordering :: "ordering \<Rightarrow> ordering" where
  "rev_ordering Less = Greater"
| "rev_ordering Equal = Equal"
| "rev_ordering Greater = Less"

lemma rev_ordering_simps [simp]:
  "rev_ordering (rev_ordering x) = x" "rev_ordering x = Greater \<longleftrightarrow> x = Less"
  "rev_ordering x = Less \<longleftrightarrow> x = Greater" "rev_ordering x = Equal \<longleftrightarrow> x = Equal"
  by (cases x; simp)+

fun then_with :: "ordering \<Rightarrow> ordering \<Rightarrow> ordering" where
  "then_with Equal o2 = o2"
| "then_with o1 _ = o1"

definition cmp_ord :: "'a::linorder \<Rightarrow> 'a \<Rightarrow> ordering" where
  "cmp_ord a b = (if a < b then Less else if a = b then Equal else Greater)"

fun cmp_str :: "string \<Rightarrow> string \<Rightarrow> ordering" where
  "cmp_str [] [] = Equal"
| "cmp_str [] (y # ys) = Less"
| "cmp_str (x # xs) [] = Greater"
| "cmp_str (x # xs) (y # ys) =
     then_with (cmp_ord (of_char x :: nat) (of_char y)) (cmp_str xs ys)"

text \<open>What \<^verbatim>\<open>sort_by\<close> needs of a comparison, and what it then guarantees.\<close>

locale total_comparator =
  fixes cmp :: "'a \<Rightarrow> 'a \<Rightarrow> ordering"
  assumes cmp_refl: "cmp a a = Equal"
    and cmp_sym: "cmp b a = rev_ordering (cmp a b)"
    and cmp_trans: "cmp a b \<noteq> Greater \<Longrightarrow> cmp b c \<noteq> Greater \<Longrightarrow> cmp a c \<noteq> Greater"
begin

definition not_greater :: "'a \<Rightarrow> 'a \<Rightarrow> bool" where
  "not_greater a b \<longleftrightarrow> cmp a b \<noteq> Greater"

lemma not_greater_props: "totalp not_greater" "reflp not_greater" "transp not_greater"
proof -
  have "not_greater a b \<or> not_greater b a" for a b
    using cmp_sym [of a b] by (cases "cmp b a") (auto simp: not_greater_def)
  then show "totalp not_greater" by (simp add: totalp_on_def)
  show "reflp not_greater" by (simp add: reflp_on_def not_greater_def cmp_refl)
  show "transp not_greater" unfolding transp_def not_greater_def using cmp_trans by blast
qed

lemma sorted_by_cmp: "sorted_wrt (\<lambda>a b. cmp a b \<noteq> Greater) (sort_by (\<lambda>a b. cmp a b \<noteq> Greater) xs)"
  using sorted_sort_by [OF not_greater_props] by (simp add: not_greater_def [abs_def])

lemma cmp_Equal_left:
  assumes eq: "cmp a b = Equal"
  shows "cmp a c = cmp b c"
proof -
  have ba: "cmp b a = Equal" using cmp_sym [of b a] eq by simp
  have g: "cmp a c \<noteq> Greater \<longleftrightarrow> cmp b c \<noteq> Greater"
    using cmp_trans [of a b c] cmp_trans [of b a c] eq ba by auto
  have "cmp c a \<noteq> Greater \<longleftrightarrow> cmp c b \<noteq> Greater"
    using cmp_trans [of c a b] cmp_trans [of c b a] eq ba by auto
  then have l: "cmp a c \<noteq> Less \<longleftrightarrow> cmp b c \<noteq> Less"
    by (simp add: cmp_sym [of c a] cmp_sym [of c b])
  show ?thesis using g l by (cases "cmp a c"; cases "cmp b c") simp_all
qed

end

lemma comparator_ord: "total_comparator (cmp_ord :: 'a::linorder \<Rightarrow> 'a \<Rightarrow> ordering)"
  by unfold_locales (auto simp: cmp_ord_def split: if_splits)

interpretation nat_cmp: total_comparator "cmp_ord :: nat \<Rightarrow> nat \<Rightarrow> ordering"
  by (rule comparator_ord)

lemma comparator_image: "total_comparator f \<Longrightarrow> total_comparator (\<lambda>a b. f (h a) (h b))"
  unfolding total_comparator_def by blast

lemma comparator_reverse:
  assumes "total_comparator f"
  shows "total_comparator (\<lambda>a b. rev_ordering (f a b))"
proof
  fix a b c
  note sym = total_comparator.cmp_sym [OF assms]
  show "rev_ordering (f a a) = Equal" by (simp add: total_comparator.cmp_refl [OF assms])
  show "rev_ordering (f b a) = rev_ordering (rev_ordering (f a b))" by (subst sym) simp
  assume "rev_ordering (f a b) \<noteq> Greater" "rev_ordering (f b c) \<noteq> Greater"
  then have "f c b \<noteq> Greater" "f b a \<noteq> Greater" by (subst sym, simp)+
  then have "f c a \<noteq> Greater" by (rule total_comparator.cmp_trans [OF assms])
  then show "rev_ordering (f a c) \<noteq> Greater" by (simp add: sym [of a c])
qed

lemma comparator_then:
  assumes "total_comparator f" "total_comparator g"
  shows "total_comparator (\<lambda>a b. then_with (f a b) (g a b))"
proof
  fix a b c
  show "then_with (f a a) (g a a) = Equal"
    by (simp add: total_comparator.cmp_refl [OF assms(1)] total_comparator.cmp_refl [OF assms(2)])
  show "then_with (f b a) (g b a) = rev_ordering (then_with (f a b) (g a b))"
    using total_comparator.cmp_sym [OF assms(1), of b a] total_comparator.cmp_sym [OF assms(2), of b a]
    by (cases "f a b") auto
  assume ab: "then_with (f a b) (g a b) \<noteq> Greater" and bc: "then_with (f b c) (g b c) \<noteq> Greater"
  have fab: "f a b \<noteq> Greater" and fbc: "f b c \<noteq> Greater" using ab bc by (cases "f a b"; cases "f b c"; simp)+
  have fac: "f a c \<noteq> Greater" by (rule total_comparator.cmp_trans [OF assms(1) fab fbc])
  have e2: "f b c = Equal \<and> f a b = Equal" if ac: "f a c = Equal"
  proof -
    have "f a b = f c b" by (rule total_comparator.cmp_Equal_left [OF assms(1) ac])
    also have "f c b = rev_ordering (f b c)" by (rule total_comparator.cmp_sym [OF assms(1)])
    finally show ?thesis using fab fbc by (cases "f b c") auto
  qed
  show "then_with (f a c) (g a c) \<noteq> Greater"
  proof (cases "f a c")
    case Equal
    then have "f a b = Equal" "f b c = Equal"
      using e2 by blast+
    with ab bc have "g a b \<noteq> Greater" "g b c \<noteq> Greater" by auto
    then have "g a c \<noteq> Greater" by (rule total_comparator.cmp_trans [OF assms(2)])
    with Equal show ?thesis by simp
  qed (use fac in auto)
qed

lemma cmp_str_refl [simp]: "cmp_str a a = Equal"
  by (induction a) (auto simp: cmp_ord_def)

lemma cmp_str_sym: "cmp_str b a = rev_ordering (cmp_str a b)"
  by (induction a b rule: cmp_str.induct) (auto simp: cmp_ord_def)

lemma cmp_str_trans: "cmp_str a b \<noteq> Greater \<Longrightarrow> cmp_str b c \<noteq> Greater \<Longrightarrow> cmp_str a c \<noteq> Greater"
proof (induction a b arbitrary: c rule: cmp_str.induct)
  case (4 x xs y ys)
  show ?case
  proof (cases c)
    case (Cons z zs)
    then show ?thesis using 4 by (auto simp: cmp_ord_def split: if_splits)
  qed (use 4 in auto)
next
  case (2 y ys)
  then show ?case by (cases c) auto
qed auto

lemma cmp_str_Equal [simp]: "cmp_str a b = Equal \<longleftrightarrow> a = b"
proof (induction a b rule: cmp_str.induct)
  case (4 x xs y ys)
  then show ?case by (auto simp: cmp_ord_def)
qed auto

interpretation str_cmp: total_comparator cmp_str
  by unfold_locales (rule cmp_str_refl, rule cmp_str_sym, rule cmp_str_trans)

lemmas comparator_intros = comparator_ord comparator_reverse comparator_then comparator_image
  str_cmp.total_comparator_axioms

end
