(* ===== verification/Directory_History.thy ===== *)
theory Directory_History
  imports Rust_Text
begin

text \<open>
  What the remote and the local directory browser share (\<^verbatim>\<open>src/app/state.rs\<close> and
  \<^verbatim>\<open>src/app/state/sftp.rs\<close>): the sort state and the comparisons of directory entries, the back
  and forward history, and the contract of a browser that navigates with it. \<^verbatim>\<open>str::to_lowercase\<close>
  is the argument \<open>lower\<close>: no property depends on the Unicode tables.
\<close>

section \<open>Sort state\<close>

datatype sort_column = SortName | SortSize | SortModified

record sort_state =
  sort_column :: sort_column
  descending :: bool

definition sort_default :: sort_state where
  "sort_default = \<lparr>sort_column = SortModified, descending = True\<rparr>"

definition parse_column :: "string \<Rightarrow> sort_column option" where
  "parse_column column =
     (if column = ''name'' then Some SortName
      else if column = ''size'' then Some SortSize
      else if column = ''modified'' then Some SortModified
      else None)"

fun column_name :: "sort_column \<Rightarrow> string" where
  "column_name SortName = ''name''"
| "column_name SortSize = ''size''"
| "column_name SortModified = ''modified''"

definition toggle_column :: "sort_state \<Rightarrow> string \<Rightarrow> sort_state \<times> bool" where
  "toggle_column s column =
     (case parse_column column of
        None \<Rightarrow> (s, False)
      | Some c \<Rightarrow>
          (if sort_column s = c then (s\<lparr>descending := \<not> descending s\<rparr>, True)
           else (s\<lparr>sort_column := c, descending := (c \<noteq> SortName)\<rparr>, True)))"

lemma parse_column_name [simp]: "parse_column (column_name c) = Some c"
  by (cases c) (simp_all add: parse_column_def)

section \<open>Comparing entries\<close>

definition compare_text :: "(string \<Rightarrow> string) \<Rightarrow> string \<Rightarrow> string \<Rightarrow> bool \<Rightarrow> ordering" where
  "compare_text lower left right desc =
     (let ord = cmp_str (lower left) (lower right) in if desc then rev_ordering ord else ord)"

definition compare_numeric :: "'a::linorder \<Rightarrow> 'a \<Rightarrow> bool \<Rightarrow> ordering" where
  "compare_numeric left right desc =
     (let ord = cmp_ord left right in if desc then rev_ordering ord else ord)"

text \<open>Entries without a time come last in both directions.\<close>

fun compare_optional :: "'a::linorder option \<Rightarrow> 'a option \<Rightarrow> bool \<Rightarrow> ordering" where
  "compare_optional (Some left) (Some right) desc = compare_numeric left right desc"
| "compare_optional (Some _) None desc = Less"
| "compare_optional None (Some _) desc = Greater"
| "compare_optional None None desc = Equal"

lemma compare_text_total: "total_comparator (\<lambda>a b. compare_text lower a b desc)"
proof -
  have t: "total_comparator (\<lambda>a b. cmp_str (lower a) (lower b))"
    by (rule comparator_image [OF str_cmp.total_comparator_axioms])
  show ?thesis
    using t comparator_reverse [OF t] by (cases desc) (simp_all only: compare_text_def Let_def if_True if_False)
qed

lemma compare_numeric_total: "total_comparator (\<lambda>(a :: 'a::linorder) b. compare_numeric a b desc)"
proof -
  have t: "total_comparator (\<lambda>(a :: 'a) b. cmp_ord a b)" by (rule comparator_ord)
  show ?thesis
    using t comparator_reverse [OF t] by (cases desc) (simp_all only: compare_numeric_def Let_def if_True if_False)
qed

lemma compare_optional_total:
  "total_comparator (\<lambda>(a :: 'a::linorder option) b. compare_optional a b desc)"
proof
  fix a b c :: "'a option"
  have t: "total_comparator (\<lambda>(x :: 'a) y. compare_numeric x y desc)" by (rule compare_numeric_total)
  show "compare_optional a a desc = Equal"
    by (cases a) (simp_all add: total_comparator.cmp_refl [OF t])
  show "compare_optional b a desc = rev_ordering (compare_optional a b desc)"
    using total_comparator.cmp_sym [OF t, of "the b" "the a"] by (cases a; cases b) simp_all
  show "compare_optional a b desc \<noteq> Greater \<Longrightarrow> compare_optional b c desc \<noteq> Greater \<Longrightarrow>
      compare_optional a c desc \<noteq> Greater"
    using total_comparator.cmp_trans [OF t, of "the a" "the b" "the c"]
    by (cases a; cases b; cases c) simp_all
qed

text \<open>
  The comparison of \<^verbatim>\<open>sort_remote_entries\<close> and \<^verbatim>\<open>sort_local_entries\<close>, for entries seen through
  their name, path, size and modification time.
\<close>

definition compare_entries :: "(string \<Rightarrow> string) \<Rightarrow> ('e \<Rightarrow> string) \<Rightarrow> ('e \<Rightarrow> string) \<Rightarrow>
    ('e \<Rightarrow> 's::linorder) \<Rightarrow> ('e \<Rightarrow> 't::linorder option) \<Rightarrow> sort_state \<Rightarrow> 'e \<Rightarrow> 'e \<Rightarrow> ordering" where
  "compare_entries lower nm pt sz md s left right =
     then_with (then_with
       (case sort_column s of
          SortName \<Rightarrow> compare_text lower (nm left) (nm right) (descending s)
        | SortSize \<Rightarrow> compare_numeric (sz left) (sz right) (descending s)
        | SortModified \<Rightarrow> compare_optional (md left) (md right) (descending s))
       (cmp_str (lower (nm left)) (lower (nm right))))
       (cmp_str (pt left) (pt right))"

lemma compare_entries_total: "total_comparator (compare_entries lower nm pt sz md s)"
proof -
  let ?l = "\<lambda>a b. cmp_str (lower (nm a)) (lower (nm b))" and ?p = "\<lambda>a b. cmp_str (pt a) (pt b)"
  have l: "total_comparator ?l" and p: "total_comparator ?p"
    by (rule comparator_image [OF str_cmp.total_comparator_axioms])+
  have c: "total_comparator (\<lambda>left right. case sort_column s of
          SortName \<Rightarrow> compare_text lower (nm left) (nm right) (descending s)
        | SortSize \<Rightarrow> compare_numeric (sz left) (sz right) (descending s)
        | SortModified \<Rightarrow> compare_optional (md left) (md right) (descending s))"
    using comparator_image [OF compare_text_total, where h = nm]
      comparator_image [OF compare_numeric_total, where h = sz]
      comparator_image [OF compare_optional_total, where h = md]
    by (cases "sort_column s") (simp_all only: sort_column.case)
  show ?thesis
    unfolding compare_entries_def [abs_def] by (rule comparator_then [OF comparator_then [OF c l] p])
qed

lemma compare_entries_path:
  "compare_entries lower nm pt sz md s a b = Equal \<Longrightarrow> pt a = pt b"
  unfolding compare_entries_def by (metis cmp_str_Equal ordering.distinct then_with.elims)

section \<open>History\<close>

definition SFTP_HISTORY_LIMIT :: nat where "SFTP_HISTORY_LIMIT = 128"

datatype navigation = Direct | Back | Forward | Up

record pending_navigation =
  nav_kind :: navigation
  nav_from :: string
  nav_requested :: string

definition push_sftp_history :: "string list \<Rightarrow> string \<Rightarrow> string list" where
  "push_sftp_history history path =
     (if path = [] \<or> (history \<noteq> [] \<and> last history = path) then history
      else (if SFTP_HISTORY_LIMIT \<le> length history then tl history else history) @ [path])"

definition complete_directory_history :: "pending_navigation option \<Rightarrow> string \<Rightarrow>
    string list \<Rightarrow> string list \<Rightarrow> string list \<times> string list" where
  "complete_directory_history pend path back forward =
     (case pend of
        None \<Rightarrow> (back, forward)
      | Some p \<Rightarrow>
          (case nav_kind p of
             Back \<Rightarrow>
               (if back \<noteq> [] \<and> last back = nav_requested p then
                  (butlast back, push_sftp_history forward (nav_from p))
                else (back, forward))
           | Forward \<Rightarrow>
               (if forward \<noteq> [] \<and> last forward = nav_requested p then
                  (push_sftp_history back (nav_from p), butlast forward)
                else (back, forward))
           | _ \<Rightarrow>
               (if nav_from p \<noteq> path then (push_sftp_history back (nav_from p), [])
                else (back, forward))))"

definition remote_parent :: "string \<Rightarrow> string option" where
  "remote_parent path =
     (case rsplit_once CHR ''/'' path of
        None \<Rightarrow> None
      | Some (parent, name) \<Rightarrow>
          if name = [] then None else Some (if parent = [] then ''/'' else parent))"

definition remote_directory_parent :: "string \<Rightarrow> string option" where
  "remote_directory_parent path =
     (if \<not> starts_with ''/'' path then None
      else remote_parent (trim_end_matches CHR ''/'' path))"

text \<open>A history holds at most 128 directories, none empty and no two neighbours equal.\<close>

fun neighbours_differ :: "string list \<Rightarrow> bool" where
  "neighbours_differ (a # b # xs) = (a \<noteq> b \<and> neighbours_differ (b # xs))"
| "neighbours_differ _ = True"

definition history_ok :: "string list \<Rightarrow> bool" where
  "history_ok h \<longleftrightarrow> length h \<le> SFTP_HISTORY_LIMIT \<and> [] \<notin> set h \<and> neighbours_differ h"

lemma neighbours_tl: "neighbours_differ h \<Longrightarrow> neighbours_differ (tl h)"
  by (induction h rule: neighbours_differ.induct) auto

lemma neighbours_butlast: "neighbours_differ h \<Longrightarrow> neighbours_differ (butlast h)"
proof (induction h rule: neighbours_differ.induct)
  case (1 a b xs)
  then show ?case by (cases xs) auto
qed auto

lemma neighbours_snoc:
  "neighbours_differ h \<Longrightarrow> h = [] \<or> last h \<noteq> p \<Longrightarrow> neighbours_differ (h @ [p])"
  by (induction h rule: neighbours_differ.induct) auto

lemma history_ok_Nil [simp]: "history_ok []"
  by (simp add: history_ok_def)

lemma history_ok_butlast: "history_ok h \<Longrightarrow> history_ok (butlast h)"
  by (auto simp: history_ok_def neighbours_butlast dest: in_set_butlastD)

lemma history_ok_push: "history_ok h \<Longrightarrow> history_ok (push_sftp_history h p)"
proof -
  assume h: "history_ok h"
  have t: "tl h = [] \<or> last (tl h) = last h" by (cases h) auto
  have mem: "[] \<notin> set (tl h)" using h by (cases h) (auto simp: history_ok_def)
  show ?thesis
    using h t mem neighbours_snoc [of h p] neighbours_snoc [of "tl h" p] neighbours_tl [of h]
    by (auto simp: push_sftp_history_def history_ok_def SFTP_HISTORY_LIMIT_def)
qed

lemma complete_history_ok:
  "history_ok back \<Longrightarrow> history_ok forward \<Longrightarrow>
     complete_directory_history pend path back forward = (back', forward') \<Longrightarrow>
     history_ok back' \<and> history_ok forward'"
  by (auto simp: complete_directory_history_def history_ok_push history_ok_butlast
      split: option.splits navigation.splits if_splits)

text \<open>Going back over the last entry and forward again restores both histories.\<close>

lemma back_forward_history:
  assumes "history_ok bk" "history_ok fwd" "length fwd < SFTP_HISTORY_LIMIT"
    and "bk \<noteq> []" "here \<noteq> []" "here \<noteq> last bk" "fwd = [] \<or> last fwd \<noteq> here"
    and "complete_directory_history (Some \<lparr>nav_kind = Back, nav_from = here, nav_requested = last bk\<rparr>)
      (last bk) bk fwd = (back1, forward1)"
  shows "forward1 = fwd @ [here] \<and> back1 = butlast bk \<and>
    complete_directory_history (Some \<lparr>nav_kind = Forward, nav_from = last bk, nav_requested = here\<rparr>)
      here back1 forward1 = (bk, fwd)"
proof -
  have f1: "forward1 = fwd @ [here]" and b1: "back1 = butlast bk"
    using assms by (auto simp: complete_directory_history_def push_sftp_history_def)
  have lb: "last bk \<noteq> []" using assms(1) last_in_set [OF assms(4)] by (metis history_ok_def)
  have "length bk \<le> SFTP_HISTORY_LIMIT" using assms(1) by (simp add: history_ok_def)
  then have len: "length (butlast bk) < SFTP_HISTORY_LIMIT"
    by (simp add: SFTP_HISTORY_LIMIT_def)
  have nb: "butlast bk = [] \<or> last (butlast bk) \<noteq> last bk"
    using assms(1) unfolding history_ok_def
  proof (elim conjE)
    assume "neighbours_differ bk"
    then show ?thesis
    proof (induction bk rule: neighbours_differ.induct)
      case (1 a b xs)
      then show ?case by (cases xs) auto
    qed auto
  qed
  have "push_sftp_history (butlast bk) (last bk) = bk"
    using lb nb len assms(4) by (auto simp: push_sftp_history_def)
  then show ?thesis using f1 b1 by (simp add: complete_directory_history_def)
qed

section \<open>The contract of a directory browser\<close>

text \<open>
  A browser starts a navigation (nothing but the pending request, the loading flag and the request id
  change), is told the directory it has reached, and keeps two histories. \<open>view\<close> is what the laws
  speak of: back history, directory, forward history.
\<close>

locale directory_browser =
  fixes begin_nav :: "'s \<Rightarrow> navigation \<Rightarrow> string option \<Rightarrow> 'e + (u64 \<times> string) \<times> 's"
    and complete_nav :: "'s \<Rightarrow> string \<Rightarrow> 's"
    and busy :: "'s \<Rightarrow> bool"
    and pend :: "'s \<Rightarrow> pending_navigation option"
    and view :: "'s \<Rightarrow> string list \<times> string \<times> string list"
  assumes begin_back: "\<not> busy s \<Longrightarrow> view s = (bk, here, fwd) \<Longrightarrow> bk \<noteq> [] \<Longrightarrow> last bk \<noteq> [] \<Longrightarrow>
      \<exists>r s'. begin_nav s Back path = Inr ((r, last bk), s')"
    and begin_forward: "\<not> busy s \<Longrightarrow> view s = (bk, here, fwd) \<Longrightarrow> fwd \<noteq> [] \<Longrightarrow> last fwd \<noteq> [] \<Longrightarrow>
      \<exists>r s'. begin_nav s Forward path = Inr ((r, last fwd), s')"
    and begin_effect: "begin_nav s kind path = Inr ((r, req), s') \<Longrightarrow>
      \<not> busy s \<and> busy s' \<and> view s' = view s \<and> req \<noteq> [] \<and>
      pend s' = Some \<lparr>nav_kind = kind, nav_from = fst (snd (view s)), nav_requested = req\<rparr>"
    and complete_effect: "view s = (bk, here, fwd) \<Longrightarrow>
      complete_directory_history (pend s) reached bk fwd = (bk', fwd') \<Longrightarrow>
      view (complete_nav s reached) = (bk', reached, fwd') \<and> \<not> busy (complete_nav s reached)"
begin

definition histories_ok :: "'s \<Rightarrow> bool" where
  "histories_ok s \<longleftrightarrow> (case view s of (bk, here, fwd) \<Rightarrow> history_ok bk \<and> history_ok fwd)"

lemma complete_keeps_histories: "histories_ok s \<Longrightarrow> histories_ok (complete_nav s path)"
proof -
  assume h: "histories_ok s"
  obtain bk here fwd where v: "view s = (bk, here, fwd)" by (metis prod_cases3)
  obtain bk' fwd' where c: "complete_directory_history (pend s) path bk fwd = (bk', fwd')"
    by (meson surj_pair)
  have "history_ok bk' \<and> history_ok fwd'"
    by (rule complete_history_ok [OF _ _ c]) (use h v in \<open>simp_all add: histories_ok_def\<close>)
  then show ?thesis using complete_effect [OF v c] by (simp add: histories_ok_def)
qed

lemma begin_keeps_histories:
  "histories_ok s \<Longrightarrow> begin_nav s kind path = Inr (q, s') \<Longrightarrow> histories_ok s'"
  using begin_effect [of s kind path "fst q" "snd q" s'] by (simp add: histories_ok_def)

text \<open>Back and then forward, each reaching what it asked for, restores everything.\<close>

lemma back_then_forward:
  assumes ok: "histories_ok s" "\<not> busy s" and v: "view s = (bk, here, fwd)"
    and room: "length fwd < SFTP_HISTORY_LIMIT"
    and "bk \<noteq> []" "here \<noteq> []" "here \<noteq> last bk" "fwd = [] \<or> last fwd \<noteq> here"
  shows "\<exists>r1 s1 r2 s2. begin_nav s Back None = Inr ((r1, last bk), s1) \<and>
    view (complete_nav s1 (last bk)) = (butlast bk, last bk, fwd @ [here]) \<and>
    begin_nav (complete_nav s1 (last bk)) Forward None = Inr ((r2, here), s2) \<and>
    view (complete_nav s2 here) = (bk, here, fwd)"
proof -
  have h: "history_ok bk" "history_ok fwd" using ok(1) v by (simp_all add: histories_ok_def)
  have "last bk \<noteq> []" using h(1) last_in_set [OF assms(5)] by (metis history_ok_def)
  with begin_back [OF ok(2) v assms(5)] obtain r1 s1 where b: "begin_nav s Back None = Inr ((r1, last bk), s1)"
    by blast
  note e = begin_effect [OF b]
  let ?p1 = "\<lparr>nav_kind = Back, nav_from = here, nav_requested = last bk\<rparr>"
  obtain bk1 fwd1 where c1: "complete_directory_history (Some ?p1) (last bk) bk fwd = (bk1, fwd1)"
    by (meson surj_pair)
  note bf = back_forward_history [OF h room assms(5-8) c1]
  let ?s1 = "complete_nav s1 (last bk)"
  have s1: "view s1 = (bk, here, fwd)" "pend s1 = Some ?p1" using e v by simp_all
  with c1 bf have v1: "view ?s1 = (butlast bk, last bk, fwd @ [here])" "\<not> busy ?s1"
    using complete_effect [of s1 bk here fwd "last bk" bk1 fwd1] by simp_all
  from begin_forward [where path = None, OF v1(2,1)] assms(6) obtain r2 s2 where
    f: "begin_nav ?s1 Forward None = Inr ((r2, here), s2)" by auto
  note e2 = begin_effect [OF f]
  have "view (complete_nav s2 here) = (bk, here, fwd)"
    using complete_effect [of s2 "butlast bk" "last bk" "fwd @ [here]" here bk fwd] e2 v1 bf by force
  with b v1 f show ?thesis by blast
qed

end

end
