(* ===== verification/Local_Directory.thy ===== *)
theory Local_Directory
  imports Directory_History
begin

text \<open>
  The local side of an SFTP tab: \<^verbatim>\<open>LocalDirectoryState\<close> of \<^verbatim>\<open>src/app/state/sftp.rs\<close> and the
  path functions of \<^verbatim>\<open>std::path\<close> it uses (on a Unix target). A listing is kept sorted; its first
  250 entries are shown and the rest wait in \<open>pending_entries\<close>.
\<close>

section \<open>Paths of a Unix file system\<close>

text \<open>Drop separators and \<^verbatim>\<open>.\<close> components from the end of an absolute path, given reversed.\<close>

fun drop_trailing :: "string \<Rightarrow> string" where
  "drop_trailing [] = []"
| "drop_trailing [c] = (if c = CHR ''/'' then [] else [c])"
| "drop_trailing (c # d # r) =
     (if c = CHR ''/'' then drop_trailing (d # r)
      else if c = CHR ''.'' \<and> d = CHR ''/'' then drop_trailing r
      else c # d # r)"

text \<open>\<^verbatim>\<open>Path::parent\<close>, kept when it is absolute.\<close>

definition local_directory_parent :: "string \<Rightarrow> string option" where
  "local_directory_parent path =
     (if \<not> starts_with ''/'' path then None
      else let r = drop_trailing (rev path) in
        if r = [] then None
        else let q = drop_trailing (dropWhile (\<lambda>c. c \<noteq> CHR ''/'') r) in
          Some (if q = [] then ''/'' else rev q))"

text \<open>\<^verbatim>\<open>Path::components\<close>, and \<^verbatim>\<open>Path::starts_with\<close> on components.\<close>

definition path_components :: "string \<Rightarrow> string list" where
  "path_components s =
     (let parts = split_on CHR ''/'' s; named = filter (\<lambda>p. p \<noteq> [] \<and> p \<noteq> ''.'') parts in
      if starts_with ''/'' s then ''/'' # named
      else if hd parts = ''.'' then ''.'' # named
      else named)"

definition path_starts_with :: "string \<Rightarrow> string \<Rightarrow> bool" where
  "path_starts_with path base \<longleftrightarrow>
     take (length (path_components base)) (path_components path) = path_components base"

section \<open>State\<close>

record fingerprint =
  fp_length :: u64
  fp_modified :: "nat option"
  fp_created :: "nat option"
  fp_device :: u64
  fp_inode :: u64

record local_entry =
  local_name :: string
  local_path :: string
  local_is_dir :: bool
  local_is_symlink :: bool
  local_size :: u64
  local_modified :: "nat option"
  local_fingerprint :: "fingerprint option"

record local_directory =
  ld_loaded :: bool
  ld_loading :: bool
  ld_watcher_running :: bool
  ld_path :: string
  ld_entries :: "local_entry list"
  ld_has_more :: bool
  ld_truncated :: bool
  ld_skipped_entries :: nat
  ld_status :: string
  ld_request_id :: u64
  ld_selected :: "string set"
  ld_sort :: sort_state
  ld_back :: "string list"
  ld_forward :: "string list"
  ld_pending_navigation :: "pending_navigation option"
  ld_pending_auto_refresh :: "string option"
  ld_pending_entries :: "local_entry list"

definition local_directory_default :: local_directory where
  "local_directory_default =
     \<lparr>ld_loaded = False, ld_loading = False, ld_watcher_running = False, ld_path = [], ld_entries = [],
      ld_has_more = False, ld_truncated = False, ld_skipped_entries = 0, ld_status = [],
      ld_request_id = 0, ld_selected = {}, ld_sort = sort_default, ld_back = [], ld_forward = [],
      ld_pending_navigation = None, ld_pending_auto_refresh = None, ld_pending_entries = []\<rparr>"

definition LOCAL_DIRECTORY_PAGE_SIZE :: nat where "LOCAL_DIRECTORY_PAGE_SIZE = 250"

datatype nav_error =
  RequestInProgress
| PathMissing
| NoPrevious
| NoNext
| NoParent
| PathEmpty
| NoAdditional

section \<open>Operations\<close>

definition sort_local_entries :: "(string \<Rightarrow> string) \<Rightarrow> sort_state \<Rightarrow> local_entry list \<Rightarrow> local_entry list" where
  "sort_local_entries lower s es =
     sort_by (\<lambda>a b. compare_entries lower local_name local_path local_size local_modified s a b \<noteq> Greater) es"

definition mark_watcher_running :: "local_directory \<Rightarrow> local_directory \<times> bool" where
  "mark_watcher_running s =
     (if ld_watcher_running s \<or> \<not> ld_loaded s then (s, False)
      else (s\<lparr>ld_watcher_running := True\<rparr>, True))"

definition mark_watcher_stopped :: "local_directory \<Rightarrow> local_directory" where
  "mark_watcher_stopped s = s\<lparr>ld_watcher_running := False\<rparr>"

definition local_begin_navigation :: "local_directory \<Rightarrow> navigation \<Rightarrow> string option \<Rightarrow>
    nav_error + (u64 \<times> string) \<times> local_directory" where
  "local_begin_navigation s kind path =
     (if ld_loading s then Inl RequestInProgress
      else
        case (case kind of
            Direct \<Rightarrow> (case path of None \<Rightarrow> Inl PathMissing | Some p \<Rightarrow> Inr (trim p))
          | Back \<Rightarrow> if ld_back s = [] then Inl NoPrevious else Inr (last (ld_back s))
          | Forward \<Rightarrow> if ld_forward s = [] then Inl NoNext else Inr (last (ld_forward s))
          | Up \<Rightarrow> (case local_directory_parent (ld_path s) of None \<Rightarrow> Inl NoParent | Some p \<Rightarrow> Inr p)) of
          Inl e \<Rightarrow> Inl e
        | Inr requested \<Rightarrow>
            if requested = [] then Inl PathEmpty
            else
              (let request_id = ld_request_id s + 1 in
               Inr ((request_id, requested),
                 s\<lparr>ld_pending_navigation :=
                     Some \<lparr>nav_kind = kind, nav_from = ld_path s, nav_requested = requested\<rparr>,
                   ld_request_id := request_id, ld_loading := True,
                   ld_status := ''Loading local directory...''\<rparr>)))"

definition begin_refresh_after_local_change :: "local_directory \<Rightarrow> string \<Rightarrow>
    nav_error + (u64 \<times> string) option \<times> local_directory" where
  "begin_refresh_after_local_change s directory =
     (if (\<not> ld_loaded s \<and> \<not> ld_loading s) \<or> ld_path s \<noteq> directory then Inr (None, s)
      else if ld_loading s then Inr (None, s\<lparr>ld_pending_auto_refresh := Some directory\<rparr>)
      else
        case local_begin_navigation s Direct (Some directory) of
          Inl e \<Rightarrow> Inl e
        | Inr (r, s') \<Rightarrow> Inr (Some r, s'))"

definition begin_refresh_after_download :: "local_directory \<Rightarrow> string \<Rightarrow>
    nav_error + (u64 \<times> string) option \<times> local_directory" where
  "begin_refresh_after_download s path =
     (if (\<not> ld_loaded s \<and> \<not> ld_loading s) \<or> ld_path s = [] \<or> \<not> path_starts_with path (ld_path s)
      then Inr (None, s)
      else begin_refresh_after_local_change s (ld_path s))"

text \<open>The pending refresh is taken even when it is then not started.\<close>

definition begin_pending_auto_refresh :: "local_directory \<Rightarrow>
    (nav_error + (u64 \<times> string) option) \<times> local_directory" where
  "begin_pending_auto_refresh s =
     (if ld_loading s then (Inr None, s)
      else
        case ld_pending_auto_refresh s of
          None \<Rightarrow> (Inr None, s)
        | Some directory \<Rightarrow>
            (let s1 = s\<lparr>ld_pending_auto_refresh := None\<rparr> in
             if ld_path s \<noteq> directory then (Inr None, s1)
             else
               case local_begin_navigation s1 Direct (Some directory) of
                 Inl e \<Rightarrow> (Inl e, s1)
               | Inr (r, s') \<Rightarrow> (Inr (Some r), s')))"

definition local_status :: "local_directory \<Rightarrow> string" where
  "local_status s =
     (let n = show_nat (length (ld_entries s)); k = show_nat (ld_skipped_entries s) in
      if ld_has_more s then n @ '' items shown''
      else if ld_truncated s \<and> 0 < ld_skipped_entries s then
        n @ '' items ('' @ k @ '' unavailable; text budget reached)''
      else if ld_truncated s then ''Local directory text budget reached''
      else if 0 < ld_skipped_entries s then n @ '' items ('' @ k @ '' unavailable)''
      else n @ '' items'')"

definition update_status :: "local_directory \<Rightarrow> local_directory" where
  "update_status s = s\<lparr>ld_status := local_status s\<rparr>"

definition local_load_more :: "local_directory \<Rightarrow> local_directory \<times> bool" where
  "local_load_more s =
     (if ld_loading s \<or> ld_pending_entries s = [] then (s, False)
      else
        (let more = take LOCAL_DIRECTORY_PAGE_SIZE (ld_pending_entries s);
             rest = drop LOCAL_DIRECTORY_PAGE_SIZE (ld_pending_entries s) in
         (update_status (s\<lparr>ld_entries := ld_entries s @ more, ld_pending_entries := rest,
                           ld_has_more := (rest \<noteq> [])\<rparr>), True)))"

definition local_resort :: "(string \<Rightarrow> string) \<Rightarrow> local_directory \<Rightarrow> local_directory" where
  "local_resort lower s =
     fst (local_load_more
       (s\<lparr>ld_pending_entries := sort_local_entries lower (ld_sort s) (ld_entries s @ ld_pending_entries s),
          ld_entries := [], ld_has_more := False\<rparr>))"

definition toggle_local_sort :: "(string \<Rightarrow> string) \<Rightarrow> local_directory \<Rightarrow> string \<Rightarrow> local_directory \<times> bool" where
  "toggle_local_sort lower s column =
     (case toggle_column (ld_sort s) column of
        (_, False) \<Rightarrow> (s, False)
      | (srt, True) \<Rightarrow> (local_resort lower (s\<lparr>ld_sort := srt\<rparr>), True))"

definition local_complete :: "(string \<Rightarrow> string) \<Rightarrow> local_entry list \<Rightarrow> bool \<Rightarrow> nat \<Rightarrow>
    local_directory \<Rightarrow> string \<Rightarrow> local_directory" where
  "local_complete lower entries truncated skipped s path =
     (case complete_directory_history (ld_pending_navigation s) path (ld_back s) (ld_forward s) of
        (bk, fwd) \<Rightarrow>
          (let s1 = s\<lparr>ld_pending_navigation := None, ld_back := bk, ld_forward := fwd,
                     ld_selected := (if ld_path s \<noteq> path then {} else ld_selected s),
                     ld_loading := False, ld_loaded := True, ld_path := path, ld_entries := [],
                     ld_pending_entries := entries, ld_truncated := truncated,
                     ld_skipped_entries := skipped\<rparr>;
               s2 = local_resort lower s1;
               s3 = s2\<lparr>ld_selected := {p \<in> ld_selected s2.
                     (\<exists>e \<in> set (ld_entries s2). local_path e = p) \<or>
                     (\<exists>e \<in> set (ld_pending_entries s2). local_path e = p)}\<rparr> in
           update_status s3))"

definition local_fail :: "local_directory \<Rightarrow> string \<Rightarrow> local_directory" where
  "local_fail s message =
     s\<lparr>ld_pending_navigation := None, ld_loading := False, ld_status := message\<rparr>"

definition upload_selection_ready :: "local_directory \<Rightarrow> bool" where
  "upload_selection_ready s \<longleftrightarrow> ld_loaded s \<and>
     (case ld_pending_navigation s of None \<Rightarrow> True | Some p \<Rightarrow> nav_requested p = ld_path s)"

definition local_toggle_selection :: "local_directory \<Rightarrow> string \<Rightarrow> bool \<Rightarrow> local_directory \<times> bool" where
  "local_toggle_selection s path selected =
     (if \<not> (\<exists>e \<in> set (ld_entries s). local_path e = path) then (s, False)
      else (s\<lparr>ld_selected := (if selected then insert path (ld_selected s) else ld_selected s - {path})\<rparr>,
            True))"

definition local_select_all :: "local_directory \<Rightarrow> bool \<Rightarrow> local_directory" where
  "local_select_all s selected =
     s\<lparr>ld_selected := (if selected then ld_selected s \<union> local_path ` set (ld_entries s) else {})\<rparr>"

definition local_selected_count :: "local_directory \<Rightarrow> nat" where
  "local_selected_count s = card {p \<in> ld_selected s. p \<in> local_path ` set (ld_entries s)}"

definition local_all_selected :: "local_directory \<Rightarrow> bool" where
  "local_all_selected s \<longleftrightarrow> ld_entries s \<noteq> [] \<and> local_selected_count s = length (ld_entries s)"

text \<open>Part of \<^verbatim>\<open>SftpBrowserState::reset\<close>: requests of the old connection become stale.\<close>

definition local_detach :: "local_directory \<Rightarrow> local_directory" where
  "local_detach s =
     (let s1 = s\<lparr>ld_request_id := next_generation (ld_request_id s), ld_pending_navigation := None,
                ld_pending_auto_refresh := None\<rparr> in
      if ld_loading s1 then
        (let s2 = s1\<lparr>ld_loading := False\<rparr> in
         if ld_loaded s2 then update_status s2
         else s2\<lparr>ld_status := ''Local directory not loaded''\<rparr>)
      else s1)"

section \<open>Order of the listing\<close>

definition local_le :: "(string \<Rightarrow> string) \<Rightarrow> sort_state \<Rightarrow> local_entry \<Rightarrow> local_entry \<Rightarrow> bool" where
  "local_le lower srt a b \<longleftrightarrow>
     compare_entries lower local_name local_path local_size local_modified srt a b \<noteq> Greater"

lemma sort_local_entries_le: "sort_local_entries lower srt es = sort_by (local_le lower srt) es"
  by (simp add: sort_local_entries_def local_le_def [abs_def])

lemma sorted_local_entries: "sorted_wrt (local_le lower srt) (sort_local_entries lower srt es)"
  unfolding sort_local_entries_def local_le_def [abs_def]
  by (rule total_comparator.sorted_by_cmp [OF compare_entries_total])

lemma sort_local_entries_simps [simp]:
  "mset (sort_local_entries lower srt es) = mset es"
  "set (sort_local_entries lower srt es) = set es"
  "length (sort_local_entries lower srt es) = length es"
  by (simp_all add: sort_local_entries_def)

text \<open>What is shown and what waits, together.\<close>

definition local_listing :: "local_directory \<Rightarrow> local_entry list" where
  "local_listing s = ld_entries s @ ld_pending_entries s"

lemma update_status_fields [simp]:
  "ld_entries (update_status s) = ld_entries s" "ld_pending_entries (update_status s) = ld_pending_entries s"
  "ld_loading (update_status s) = ld_loading s" "ld_loaded (update_status s) = ld_loaded s"
  "ld_path (update_status s) = ld_path s" "ld_back (update_status s) = ld_back s"
  "ld_forward (update_status s) = ld_forward s" "ld_selected (update_status s) = ld_selected s"
  "ld_sort (update_status s) = ld_sort s" "ld_has_more (update_status s) = ld_has_more s"
  "ld_pending_navigation (update_status s) = ld_pending_navigation s"
  "ld_request_id (update_status s) = ld_request_id s"
  by (simp_all add: update_status_def)

lemma load_more_fields [simp]:
  "ld_loading (fst (local_load_more s)) = ld_loading s" "ld_loaded (fst (local_load_more s)) = ld_loaded s"
  "ld_path (fst (local_load_more s)) = ld_path s" "ld_back (fst (local_load_more s)) = ld_back s"
  "ld_forward (fst (local_load_more s)) = ld_forward s"
  "ld_selected (fst (local_load_more s)) = ld_selected s" "ld_sort (fst (local_load_more s)) = ld_sort s"
  "ld_pending_navigation (fst (local_load_more s)) = ld_pending_navigation s"
  "local_listing (fst (local_load_more s)) = local_listing s"
  by (simp_all add: local_load_more_def local_listing_def Let_def)

lemma load_more_has_more:
  "ld_has_more s \<longrightarrow> ld_pending_entries s \<noteq> [] \<Longrightarrow>
     ld_has_more (fst (local_load_more s)) \<longrightarrow> ld_pending_entries (fst (local_load_more s)) \<noteq> []"
  by (simp add: local_load_more_def Let_def)

lemma resort_fields [simp]:
  "ld_loading (local_resort lower s) = ld_loading s" "ld_loaded (local_resort lower s) = ld_loaded s"
  "ld_path (local_resort lower s) = ld_path s" "ld_back (local_resort lower s) = ld_back s"
  "ld_forward (local_resort lower s) = ld_forward s"
  "ld_selected (local_resort lower s) = ld_selected s" "ld_sort (local_resort lower s) = ld_sort s"
  "ld_pending_navigation (local_resort lower s) = ld_pending_navigation s"
  by (simp_all add: local_resort_def)

lemma resort_listing:
  "local_listing (local_resort lower s) = sort_local_entries lower (ld_sort s) (local_listing s)"
  by (simp add: local_resort_def) (simp add: local_listing_def)

lemma resort_shown:
  "ld_entries (local_resort lower s) =
     (if ld_loading s then []
      else take LOCAL_DIRECTORY_PAGE_SIZE (sort_local_entries lower (ld_sort s) (local_listing s)))"
  by (auto simp: local_resort_def local_load_more_def local_listing_def Let_def)

lemma resort_has_more:
  "ld_has_more (local_resort lower s) \<longrightarrow> ld_pending_entries (local_resort lower s) \<noteq> []"
  unfolding local_resort_def by (rule load_more_has_more) simp

section \<open>Invariant\<close>

definition local_ok :: "(string \<Rightarrow> string) \<Rightarrow> local_directory \<Rightarrow> bool" where
  "local_ok lower s \<longleftrightarrow> history_ok (ld_back s) \<and> history_ok (ld_forward s) \<and>
     sorted_wrt (local_le lower (ld_sort s)) (local_listing s) \<and>
     ld_selected s \<subseteq> local_path ` set (local_listing s) \<and>
     (ld_has_more s \<longrightarrow> ld_pending_entries s \<noteq> [])"

text \<open>Everything the application does to a local directory.\<close>

inductive local_step :: "(string \<Rightarrow> string) \<Rightarrow> local_directory \<Rightarrow> local_directory \<Rightarrow> bool"
  for lower :: "string \<Rightarrow> string" where
  begin_nav: "local_begin_navigation s kind path = Inr (r, s') \<Longrightarrow> local_step lower s s'"
| refresh: "begin_refresh_after_local_change s dir = Inr (r, s') \<Longrightarrow> local_step lower s s'"
| refresh_download: "begin_refresh_after_download s path = Inr (r, s') \<Longrightarrow> local_step lower s s'"
| pending_refresh: "begin_pending_auto_refresh s = (r, s') \<Longrightarrow> local_step lower s s'"
| complete: "local_step lower s (local_complete lower es truncated skipped s path)"
| fail: "local_step lower s (local_fail s message)"
| load_more: "local_step lower s (fst (local_load_more s))"
| sort: "local_step lower s (fst (toggle_local_sort lower s column))"
| toggle: "local_step lower s (fst (local_toggle_selection s path selected))"
| select_all: "local_step lower s (local_select_all s selected)"
| watcher_on: "local_step lower s (fst (mark_watcher_running s))"
| watcher_off: "local_step lower s (mark_watcher_stopped s)"
| detach: "local_step lower s (local_detach s)"

lemma begin_effect_local:
  assumes "local_begin_navigation s kind path = Inr ((r, req), s')"
  shows "\<not> ld_loading s \<and> req \<noteq> [] \<and>
    s' = s\<lparr>ld_pending_navigation :=
        Some \<lparr>nav_kind = kind, nav_from = ld_path s, nav_requested = req\<rparr>,
      ld_request_id := ld_request_id s + 1, ld_loading := True,
      ld_status := ''Loading local directory...''\<rparr> \<and> r = ld_request_id s + 1"
  using assms by (auto simp: local_begin_navigation_def Let_def split: if_splits sum.splits)

lemma local_ok_cong:
  "ld_back s' = ld_back s \<Longrightarrow> ld_forward s' = ld_forward s \<Longrightarrow> ld_entries s' = ld_entries s \<Longrightarrow>
   ld_pending_entries s' = ld_pending_entries s \<Longrightarrow> ld_selected s' = ld_selected s \<Longrightarrow>
   ld_sort s' = ld_sort s \<Longrightarrow> ld_has_more s' = ld_has_more s \<Longrightarrow> local_ok lower s \<Longrightarrow> local_ok lower s'"
  by (simp add: local_ok_def local_listing_def)

lemma local_ok_begin:
  "local_begin_navigation s kind path = Inr (q, s') \<Longrightarrow> local_ok lower s \<Longrightarrow> local_ok lower s'"
  using begin_effect_local [of s kind path "fst q" "snd q" s'] by (auto intro: local_ok_cong)

lemma local_ok_refresh:
  "begin_refresh_after_local_change s dir = Inr (r, s') \<Longrightarrow> local_ok lower s \<Longrightarrow> local_ok lower s'"
  unfolding begin_refresh_after_local_change_def
  by (auto split: if_splits sum.splits prod.splits elim: local_ok_begin intro: local_ok_cong)

lemma local_ok_complete:
  assumes "local_ok lower s"
  shows "local_ok lower (local_complete lower es tr sk s path)"
proof -
  obtain bk fwd where c: "complete_directory_history (ld_pending_navigation s) path (ld_back s) (ld_forward s) =
      (bk, fwd)" by (meson surj_pair)
  have h: "history_ok bk \<and> history_ok fwd"
    by (rule complete_history_ok [OF _ _ c]) (use assms in \<open>simp_all add: local_ok_def\<close>)
  define s1 where "s1 = s\<lparr>ld_pending_navigation := None, ld_back := bk, ld_forward := fwd,
                     ld_selected := (if ld_path s \<noteq> path then {} else ld_selected s),
                     ld_loading := False, ld_loaded := True, ld_path := path, ld_entries := [],
                     ld_pending_entries := es, ld_truncated := tr, ld_skipped_entries := sk\<rparr>"
  define s2 where "s2 = local_resort lower s1"
  have "local_complete lower es tr sk s path = update_status (s2\<lparr>ld_selected := {p \<in> ld_selected s2.
      (\<exists>e \<in> set (ld_entries s2). local_path e = p) \<or>
      (\<exists>e \<in> set (ld_pending_entries s2). local_path e = p)}\<rparr>)" (is "_ = ?r")
    by (simp add: local_complete_def c s1_def s2_def Let_def)
  moreover have "local_listing s2 = sort_local_entries lower (ld_sort s1) (local_listing s1)"
    by (simp add: s2_def resort_listing)
  then have "sorted_wrt (local_le lower (ld_sort s2)) (local_listing s2)"
    by (simp add: sorted_local_entries s2_def)
  then have "local_ok lower ?r"
    using h resort_has_more [of lower s1] by (auto simp: local_ok_def local_listing_def s2_def s1_def)
  ultimately show ?thesis by simp
qed

lemma local_ok_sort: "local_ok lower s \<Longrightarrow> local_ok lower (fst (toggle_local_sort lower s column))"
  using sorted_local_entries resort_has_more
  by (auto simp: toggle_local_sort_def local_ok_def resort_listing local_listing_def [of "s\<lparr>ld_sort := _\<rparr>"]
      local_listing_def [of s] split: prod.splits bool.splits)

lemma local_ok_step: "local_step lower s s' \<Longrightarrow> local_ok lower s \<Longrightarrow> local_ok lower s'"
proof (induction rule: local_step.induct)
  case (begin_nav s kind path r s')
  then show ?case by (rule local_ok_begin)
next
  case (refresh s dir r s')
  then show ?case by (rule local_ok_refresh)
next
  case (refresh_download s path r s')
  then show ?case
    by (auto simp: begin_refresh_after_download_def split: if_splits elim: local_ok_refresh)
next
  case (pending_refresh s r s')
  have "local_ok lower (s\<lparr>ld_pending_auto_refresh := None\<rparr>)"
    using pending_refresh(2) by (rule local_ok_cong [rotated -1]) simp_all
  with pending_refresh show ?case
    by (auto simp: begin_pending_auto_refresh_def Let_def split: if_splits option.splits sum.splits prod.splits
        elim: local_ok_begin)
next
  case (complete s es truncated skipped path)
  then show ?case by (rule local_ok_complete)
next
  case (load_more s)
  then show ?case using load_more_has_more [of s] by (simp add: local_ok_def)
next
  case (sort s column)
  then show ?case by (rule local_ok_sort)
next
  case (toggle s path selected)
  then show ?case by (auto simp: local_toggle_selection_def local_ok_def local_listing_def)
next
  case (select_all s selected)
  then show ?case by (auto simp: local_select_all_def local_ok_def local_listing_def)
next
  case (detach s)
  then show ?case
    by (auto simp: local_detach_def update_status_def Let_def intro: local_ok_cong)
qed (auto simp: local_fail_def mark_watcher_running_def mark_watcher_stopped_def intro: local_ok_cong)

section \<open>The local browser meets the contract\<close>

interpretation local_nav: directory_browser local_begin_navigation
  "local_complete lower es truncated skipped" ld_loading ld_pending_navigation
  "\<lambda>s. (ld_back s, ld_path s, ld_forward s)" for lower es truncated skipped
proof
  fix s :: local_directory and bk here fwd path
  assume "\<not> ld_loading s" "(ld_back s, ld_path s, ld_forward s) = (bk, here, fwd)"
  then show "bk \<noteq> [] \<Longrightarrow> last bk \<noteq> [] \<Longrightarrow>
      \<exists>r s'. local_begin_navigation s Back path = Inr ((r, last bk), s')"
    and "fwd \<noteq> [] \<Longrightarrow> last fwd \<noteq> [] \<Longrightarrow>
      \<exists>r s'. local_begin_navigation s Forward path = Inr ((r, last fwd), s')"
    by (simp_all add: local_begin_navigation_def Let_def)
next
  fix s s' :: local_directory and kind path r req
  assume "local_begin_navigation s kind path = Inr ((r, req), s')"
  from begin_effect_local [OF this]
  show "\<not> ld_loading s \<and> ld_loading s' \<and>
      (ld_back s', ld_path s', ld_forward s') = (ld_back s, ld_path s, ld_forward s) \<and> req \<noteq> [] \<and>
      ld_pending_navigation s' = Some \<lparr>nav_kind = kind,
        nav_from = fst (snd (ld_back s, ld_path s, ld_forward s)), nav_requested = req\<rparr>"
    by simp
next
  fix s :: local_directory and bk here fwd reached bk' fwd'
  assume "(ld_back s, ld_path s, ld_forward s) = (bk, here, fwd)"
    "complete_directory_history (ld_pending_navigation s) reached bk fwd = (bk', fwd')"
  then show "(ld_back (local_complete lower es truncated skipped s reached),
        ld_path (local_complete lower es truncated skipped s reached),
        ld_forward (local_complete lower es truncated skipped s reached)) = (bk', reached, fwd') \<and>
      \<not> ld_loading (local_complete lower es truncated skipped s reached)"
    by (simp add: local_complete_def Let_def)
qed

section \<open>Properties\<close>

text \<open>
  C38. Whatever sequence of operations the application performs on a local directory, its histories
  stay within 128 directories without empty or repeated neighbours, the listing (what is shown
  followed by what waits) is sorted by the current sort state, every selected path exists in the
  listing, and more entries are announced only when some wait.
\<close>

theorem local_reachable_ok:
  assumes "(local_step lower)\<^sup>*\<^sup>* local_directory_default s"
  shows "history_ok (ld_back s) \<and> history_ok (ld_forward s) \<and>
    sorted_wrt (local_le lower (ld_sort s)) (ld_entries s @ ld_pending_entries s) \<and>
    ld_selected s \<subseteq> local_path ` set (ld_entries s @ ld_pending_entries s) \<and>
    (ld_has_more s \<longrightarrow> ld_pending_entries s \<noteq> [])"
proof -
  have "local_ok lower local_directory_default"
    by (simp add: local_ok_def local_directory_default_def local_listing_def)
  with assms have "local_ok lower s"
    by (induction rule: rtranclp_induct) (auto intro: local_ok_step)
  then show ?thesis by (simp add: local_ok_def local_listing_def)
qed

theorem local_reachable_ok_witness:
  "\<exists>s :: local_directory. ld_path s = ''/tmp'' \<and> history_ok (ld_back s) \<and> history_ok (ld_forward s)"
proof -
  have "(local_step id)\<^sup>*\<^sup>* local_directory_default (local_complete id [] False 0 local_directory_default ''/tmp'')"
    by (rule r_into_rtranclp, rule local_step.complete)
  note r = local_reachable_ok [OF this]
  have "ld_path (local_complete id [] False 0 local_directory_default ''/tmp'') = ''/tmp''"
    by (simp add: local_complete_def Let_def split: prod.splits)
  with r show ?thesis by blast
qed

text \<open>
  In the local browser, going back and then forward again, each reaching the directory it asked
  for, restores the directory and both histories, and in between the old directory is the next one
  to go forward to.
\<close>

theorem local_back_then_forward:
  assumes "history_ok (ld_back s)" "history_ok (ld_forward s)" "\<not> ld_loading s"
    and "length (ld_forward s) < SFTP_HISTORY_LIMIT" "ld_back s \<noteq> []" "ld_path s \<noteq> []"
    and "ld_path s \<noteq> last (ld_back s)" "ld_forward s = [] \<or> last (ld_forward s) \<noteq> ld_path s"
  shows "\<exists>r1 s1 r2 s2. local_begin_navigation s Back None = Inr ((r1, last (ld_back s)), s1) \<and>
    (let t1 = local_complete lower es truncated skipped s1 (last (ld_back s));
         t2 = local_complete lower es truncated skipped s2 (ld_path s) in
     ld_path t1 = last (ld_back s) \<and> ld_back t1 = butlast (ld_back s) \<and>
     ld_forward t1 = ld_forward s @ [ld_path s] \<and>
     local_begin_navigation t1 Forward None = Inr ((r2, ld_path s), s2) \<and>
     ld_path t2 = ld_path s \<and> ld_back t2 = ld_back s \<and> ld_forward t2 = ld_forward s)"
  using local_nav.back_then_forward [of s "ld_back s" "ld_path s" "ld_forward s" lower es truncated skipped]
    assms
  by (simp add: local_nav.histories_ok_def Let_def) metis

definition local_example :: local_directory where
  "local_example = local_directory_default\<lparr>ld_loaded := True, ld_path := ''/b'', ld_back := [''/a'']\<rparr>"

theorem local_back_then_forward_witness:
  "\<exists>r1 s1. local_begin_navigation local_example Back None = Inr ((r1, ''/a''), s1) \<and>
    ld_forward (local_complete id [] False 0 s1 ''/a'') = [''/b'']"
proof -
  have "ld_back local_example = [''/a'']" "ld_path local_example = ''/b''" "ld_forward local_example = []"
    "\<not> ld_loading local_example"
    by (simp_all add: local_example_def local_directory_default_def)
  with local_back_then_forward [of local_example id "[]" False 0] show ?thesis
    by (auto simp: Let_def history_ok_def SFTP_HISTORY_LIMIT_def)
qed

text \<open>
  C39. Sorting the local listing by any column loses, adds and duplicates nothing, and leaves the
  whole listing sorted by the new state; the first 250 entries are shown, except that during a load
  none are and all of them wait.
\<close>

theorem local_sort_lossless:
  assumes "toggle_local_sort lower s column = (s', True)"
  shows "mset (ld_entries s' @ ld_pending_entries s') = mset (ld_entries s @ ld_pending_entries s) \<and>
    sorted_wrt (local_le lower (ld_sort s')) (ld_entries s' @ ld_pending_entries s') \<and>
    length (ld_entries s') =
      (if ld_loading s then 0
       else min LOCAL_DIRECTORY_PAGE_SIZE (length (ld_entries s) + length (ld_pending_entries s)))"
proof -
  obtain srt where s': "s' = local_resort lower (s\<lparr>ld_sort := srt\<rparr>)"
    using assms by (auto simp: toggle_local_sort_def split: prod.splits bool.splits)
  have l: "ld_entries s' @ ld_pending_entries s' =
      sort_local_entries lower srt (ld_entries s @ ld_pending_entries s)"
    using resort_listing [of lower "s\<lparr>ld_sort := srt\<rparr>"] by (simp add: s' local_listing_def)
  have "ld_sort s' = srt" by (simp add: s')
  moreover have "length (ld_entries s') = (if ld_loading s then 0
       else min LOCAL_DIRECTORY_PAGE_SIZE (length (ld_entries s) + length (ld_pending_entries s)))"
    using resort_shown [of lower "s\<lparr>ld_sort := srt\<rparr>"] by (simp add: s' local_listing_def min.commute)
  ultimately show ?thesis unfolding l by (simp add: sorted_local_entries)
qed

theorem local_sort_lossless_witness:
  "toggle_local_sort id local_example ''name'' =
     (local_resort id (local_example\<lparr>ld_sort := \<lparr>sort_column = SortName, descending = False\<rparr>\<rparr>), True) \<and>
   ld_entries (local_resort id (local_example\<lparr>ld_sort := \<lparr>sort_column = SortName, descending = False\<rparr>\<rparr>)) = []"
proof -
  have t: "toggle_local_sort id local_example ''name'' =
     (local_resort id (local_example\<lparr>ld_sort := \<lparr>sort_column = SortName, descending = False\<rparr>\<rparr>), True)"
    by (simp add: toggle_local_sort_def toggle_column_def parse_column_def local_example_def
        local_directory_default_def sort_default_def)
  from local_sort_lossless [OF t] show ?thesis
    by (simp add: t) (simp add: local_example_def local_directory_default_def)
qed

lemma load_more_shown:
  assumes "\<not> ld_loading t" "ld_entries t = take n (local_listing t)"
  shows "ld_entries (fst (local_load_more t)) = take (n + LOCAL_DIRECTORY_PAGE_SIZE) (local_listing t)"
proof -
  have p: "ld_pending_entries t = drop n (local_listing t)"
    using assms(2) append_take_drop_id [of n "local_listing t"] by (metis local_listing_def same_append_eq)
  have "ld_entries (fst (local_load_more t)) =
      ld_entries t @ take LOCAL_DIRECTORY_PAGE_SIZE (ld_pending_entries t)"
    using assms(1) by (simp add: local_load_more_def Let_def)
  then show ?thesis using assms(2) p by (simp only: take_add)
qed

text \<open>
  The pages of a local listing are its consecutive sections: after a listing of the reached
  directory arrives and more is loaded any number of times, exactly that many further blocks of 250
  of the sorted entries are shown.
\<close>

theorem local_pages_cover_listing:
  "local_listing (((\<lambda>s. fst (local_load_more s)) ^^ k) (local_complete lower es tr sk s path)) =
     sort_local_entries lower (ld_sort s) es \<and>
   ld_entries (((\<lambda>s. fst (local_load_more s)) ^^ k) (local_complete lower es tr sk s path)) =
     take (LOCAL_DIRECTORY_PAGE_SIZE * (k + 1)) (sort_local_entries lower (ld_sort s) es)"
proof -
  let ?sorted = "sort_local_entries lower (ld_sort s) es"
  obtain bk fwd where c: "complete_directory_history (ld_pending_navigation s) path (ld_back s) (ld_forward s) =
      (bk, fwd)" by (meson surj_pair)
  define s1 where "s1 = s\<lparr>ld_pending_navigation := None, ld_back := bk, ld_forward := fwd,
                     ld_selected := (if ld_path s \<noteq> path then {} else ld_selected s),
                     ld_loading := False, ld_loaded := True, ld_path := path, ld_entries := [],
                     ld_pending_entries := es, ld_truncated := tr, ld_skipped_entries := sk\<rparr>"
  let ?c = "local_complete lower es tr sk s path"
  have f: "ld_entries ?c = ld_entries (local_resort lower s1)"
    "ld_pending_entries ?c = ld_pending_entries (local_resort lower s1)" "\<not> ld_loading ?c"
    by (simp_all add: local_complete_def c s1_def Let_def)
  have "local_listing s1 = es" "ld_sort s1 = ld_sort s" "\<not> ld_loading s1"
    by (simp_all add: s1_def local_listing_def)
  then have base: "local_listing ?c = ?sorted" "ld_entries ?c = take LOCAL_DIRECTORY_PAGE_SIZE ?sorted"
    using f resort_listing [of lower s1] resort_shown [of lower s1] by (simp_all add: local_listing_def)
  have "local_listing (((\<lambda>s. fst (local_load_more s)) ^^ k) ?c) = ?sorted \<and>
    \<not> ld_loading (((\<lambda>s. fst (local_load_more s)) ^^ k) ?c) \<and>
    ld_entries (((\<lambda>s. fst (local_load_more s)) ^^ k) ?c) = take (LOCAL_DIRECTORY_PAGE_SIZE * (k + 1)) ?sorted"
  proof (induction k)
    case 0
    then show ?case using base f by simp
  next
    case (Suc k)
    let ?t = "((\<lambda>s. fst (local_load_more s)) ^^ k) ?c" and ?n = "LOCAL_DIRECTORY_PAGE_SIZE * (k + 1)"
    have n: "LOCAL_DIRECTORY_PAGE_SIZE * (Suc k + 1) = ?n + LOCAL_DIRECTORY_PAGE_SIZE" by simp
    show ?case
      unfolding n using Suc.IH load_more_shown [of ?t ?n] by simp
  qed
  then show ?thesis by blast
qed

end
