(* ===== verification/Remote_Path.thy ===== *)
theory Remote_Path
  imports Rust_Text
begin

text \<open>
  Remote paths of the SFTP client (\<^verbatim>\<open>src/sftp.rs\<close>): validation, joining, the lexical
  normalisation of \<^verbatim>\<open>normalize_remote_path\<close> and the resolution of what the user types against
  the current directory and the home directory.
\<close>

section \<open>Definitions\<close>

datatype path_error = ControlCharacters

definition validate_remote_path :: "string \<Rightarrow> path_error + unit" where
  "validate_remote_path path = (if has_control path then Inl ControlCharacters else Inr ())"

definition join_remote :: "string \<Rightarrow> string \<Rightarrow> string" where
  "join_remote parent child =
     (if parent = ''/'' then ''/'' @ child
      else trim_end_matches CHR ''/'' parent @ ''/'' @ child)"

definition push_part :: "string list \<Rightarrow> string \<Rightarrow> string list" where
  "push_part parts p =
     (if p = '''' \<or> p = ''.'' then parts
      else if p = ''..'' then butlast parts
      else parts @ [p])"

definition remote_parts :: "string \<Rightarrow> string list" where
  "remote_parts path = foldl push_part [] (split_on CHR ''/'' path)"

definition assemble_remote :: "bool \<Rightarrow> string list \<Rightarrow> string" where
  "assemble_remote absolute parts =
     (if absolute then ''/'' @ join_with CHR ''/'' parts
      else if parts = [] then ''.''
      else join_with CHR ''/'' parts)"

definition normalize_remote_path :: "string \<Rightarrow> path_error + string" where
  "normalize_remote_path path =
     (let normalized = assemble_remote (starts_with ''/'' path) (remote_parts path) in
      case validate_remote_path normalized of Inl e \<Rightarrow> Inl e | Inr _ \<Rightarrow> Inr normalized)"

definition resolve_candidate :: "string \<Rightarrow> string \<Rightarrow> string \<Rightarrow> string" where
  "resolve_candidate current home path =
     (if path = '''' \<or> path = ''.'' then current
      else if path = ''~'' then home
      else case strip_prefix ''~/'' path of
        Some rest \<Rightarrow> join_remote home rest
      | None \<Rightarrow> if starts_with ''/'' path then path else join_remote current path)"

definition resolve_remote_path :: "string \<Rightarrow> string \<Rightarrow> string \<Rightarrow> path_error + string" where
  "resolve_remote_path current home path =
     (case validate_remote_path path of
        Inl e \<Rightarrow> Inl e
      | Inr _ \<Rightarrow> normalize_remote_path (resolve_candidate current home path))"

definition MAX_ERROR_CHARS :: nat where "MAX_ERROR_CHARS = 512"

definition bounded_error :: "string \<Rightarrow> string" where
  "bounded_error message =
     (if char_count message \<le> MAX_ERROR_CHARS then message
      else take_chars MAX_ERROR_CHARS message @ ''...'')"

section \<open>Proper parts\<close>

text \<open>A part that normalisation keeps: not empty, not a dot name, without a separator.\<close>

definition proper_part :: "string \<Rightarrow> bool" where
  "proper_part p \<longleftrightarrow> p \<noteq> '''' \<and> p \<noteq> ''.'' \<and> p \<noteq> ''..'' \<and> CHR ''/'' \<notin> set p"

definition canonical_remote :: "string \<Rightarrow> bool" where
  "canonical_remote q \<longleftrightarrow>
     \<not> has_control q \<and>
     (let parts = split_on CHR ''/'' q in
      if starts_with ''/'' q then q = ''/'' \<or> list_all proper_part (tl parts)
      else q = ''.'' \<or> list_all proper_part parts)"

lemma remote_parts_fold:
  assumes "\<forall>p \<in> set ps. CHR ''/'' \<notin> set p" "\<forall>p \<in> set acc. proper_part p"
  shows "\<forall>p \<in> set (foldl push_part acc ps). proper_part p"
  using assms
proof (induction ps arbitrary: acc)
  case (Cons p ps)
  have "\<forall>q \<in> set (push_part acc p). proper_part q"
    using Cons.prems by (auto simp: push_part_def proper_part_def dest: in_set_butlastD)
  with Cons show ?case by simp
qed simp

lemma remote_parts_proper: "\<forall>p \<in> set (remote_parts path). proper_part p"
  unfolding remote_parts_def by (rule remote_parts_fold) (auto dest: split_on_no_sep)

lemma fold_proper: "\<forall>p \<in> set ps. proper_part p \<Longrightarrow> foldl push_part acc ps = acc @ ps"
  by (induction ps arbitrary: acc) (auto simp: push_part_def proper_part_def)

lemma starts_with_slash [simp]:
  "starts_with ''/'' (CHR ''/'' # s)" "\<not> starts_with ''/'' []"
  by (simp_all add: starts_with_def)

lemma starts_with_slash_Cons: "starts_with ''/'' (c # s) \<longleftrightarrow> c = CHR ''/''"
  by (simp add: starts_with_def)

lemma join_no_slash:
  assumes "\<forall>p \<in> set ps. proper_part p"
  shows "\<not> starts_with ''/'' (join_with CHR ''/'' ps)"
proof (cases ps)
  case (Cons p qs)
  with assms have "p \<noteq> []" "CHR ''/'' \<notin> set p" by (auto simp: proper_part_def)
  then obtain c cs where "p = c # cs" "c \<noteq> CHR ''/''" by (cases p) auto
  with Cons show ?thesis by (cases qs) (auto simp: starts_with_slash_Cons)
qed simp

lemma split_slash_Cons: "split_on CHR ''/'' (CHR ''/'' # s) = [] # split_on CHR ''/'' s"
  by simp

lemma proper_no_sep: "\<forall>p \<in> set ps. proper_part p \<Longrightarrow> \<forall>p \<in> set ps. CHR ''/'' \<notin> set p"
  by (auto simp: proper_part_def)

text \<open>What normalisation assembles is read back as the same parts.\<close>

lemma assemble_roundtrip:
  assumes ps: "\<forall>p \<in> set ps. proper_part p"
  shows "remote_parts (assemble_remote a ps) = ps"
    and "starts_with ''/'' (assemble_remote a ps) = a"
proof -
  have j: "ps \<noteq> [] \<Longrightarrow> split_on CHR ''/'' (join_with CHR ''/'' ps) = ps"
    using split_join [OF _ proper_no_sep [OF ps]] by simp
  show "remote_parts (assemble_remote a ps) = ps"
  proof (cases "ps = []")
    case True
    then show ?thesis by (simp add: assemble_remote_def remote_parts_def push_part_def)
  next
    case False
    then show ?thesis using ps
      by (simp add: assemble_remote_def remote_parts_def j push_part_def fold_proper)
  qed
  show "starts_with ''/'' (assemble_remote a ps) = a"
    using join_no_slash [OF ps] by (auto simp: assemble_remote_def starts_with_slash_Cons)
qed

lemma assemble_canonical:
  assumes ps: "\<forall>p \<in> set ps. proper_part p" and "\<not> has_control (assemble_remote a ps)"
  shows "canonical_remote (assemble_remote a ps)"
proof -
  have j: "ps \<noteq> [] \<Longrightarrow> split_on CHR ''/'' (join_with CHR ''/'' ps) = ps"
    using split_join [OF _ proper_no_sep [OF ps]] by simp
  have "list_all proper_part ps" using ps by (simp add: list_all_iff)
  moreover have "starts_with ''/'' (assemble_remote a ps) = a" by (rule assemble_roundtrip [OF ps])
  ultimately show ?thesis using assms(2) j
    by (cases "ps = []") (auto simp: canonical_remote_def assemble_remote_def Let_def)
qed

lemma normalize_Inr:
  "normalize_remote_path p = Inr q \<longleftrightarrow>
     q = assemble_remote (starts_with ''/'' p) (remote_parts p) \<and> \<not> has_control q"
proof -
  define n where "n = assemble_remote (starts_with ''/'' p) (remote_parts p)"
  have "normalize_remote_path p = (if has_control n then Inl ControlCharacters else Inr n)"
    by (simp add: normalize_remote_path_def validate_remote_path_def n_def)
  then show ?thesis unfolding n_def [symmetric] by (cases "has_control n") auto
qed

section \<open>Properties\<close>

text \<open>
  The normal form of a remote path is canonical: it has no control character, no empty part, no
  \<^verbatim>\<open>.\<close> and no \<^verbatim>\<open>..\<close>, it is absolute exactly when the path was, and normalising it again
  changes nothing.
\<close>

theorem normalize_canonical:
  assumes "normalize_remote_path p = Inr q"
  shows "canonical_remote q \<and> (starts_with ''/'' q \<longleftrightarrow> starts_with ''/'' p) \<and>
    normalize_remote_path q = Inr q"
proof -
  let ?a = "starts_with ''/'' p" and ?ps = "remote_parts p"
  have q: "q = assemble_remote ?a ?ps" "\<not> has_control q" using assms unfolding normalize_Inr by blast+
  have ps: "\<forall>x \<in> set ?ps. proper_part x" by (rule remote_parts_proper)
  have "canonical_remote q" using assemble_canonical [OF ps] q by simp
  moreover have "starts_with ''/'' q = ?a" "remote_parts q = ?ps"
    using assemble_roundtrip [OF ps] q(1) by simp_all
  moreover have "normalize_remote_path q = Inr q"
    unfolding normalize_Inr calculation using q by simp
  ultimately show ?thesis by blast
qed

theorem normalize_canonical_witness:
  "canonical_remote ''/srv/www'' \<and>
    (starts_with ''/'' ''/srv/www'' \<longleftrightarrow> starts_with ''/'' ''/srv/./log/..//www/'') \<and>
    normalize_remote_path ''/srv/www'' = Inr ''/srv/www''"
  by (rule normalize_canonical) code_simp

lemma trim_end_matches_id: "s = [] \<or> last s \<noteq> c \<Longrightarrow> trim_end_matches c s = s"
  by (cases s rule: rev_cases) (auto simp: trim_end_matches_def)

lemma join_with_snoc: "ps \<noteq> [] \<Longrightarrow> join_with c (ps @ [p]) = join_with c ps @ c # p"
  by (induction c ps rule: join_with.induct) auto

lemma last_join_proper:
  assumes "ps \<noteq> []" "\<forall>p \<in> set ps. proper_part p"
  shows "join_with CHR ''/'' ps \<noteq> [] \<and> last (join_with CHR ''/'' ps) \<noteq> CHR ''/''"
proof -
  obtain qs p where ps: "ps = qs @ [p]" using assms(1) by (cases ps rule: rev_cases) auto
  have p: "p \<noteq> []" "CHR ''/'' \<notin> set p" using assms(2) ps by (auto simp: proper_part_def)
  have "last p \<in> set p" using p(1) by simp
  then have "last p \<noteq> CHR ''/''" using p(2) by metis
  then show ?thesis using p(1) ps by (cases "qs = []") (auto simp: join_with_snoc)
qed

lemma join_remote_assemble:
  assumes "\<forall>p \<in> set ps. proper_part p"
  shows "join_remote (assemble_remote True ps) child = assemble_remote True (ps @ [child])"
proof (cases "ps = []")
  case False
  have l: "join_with CHR ''/'' ps \<noteq> []" "last (join_with CHR ''/'' ps) \<noteq> CHR ''/''"
    using last_join_proper [OF False assms] by auto
  have "trim_end_matches CHR ''/'' (CHR ''/'' # join_with CHR ''/'' ps) = CHR ''/'' # join_with CHR ''/'' ps"
    by (rule trim_end_matches_id) (use l in simp)
  with False l show ?thesis by (simp add: join_remote_def assemble_remote_def join_with_snoc)
qed (simp add: join_remote_def assemble_remote_def)

lemma remote_parts_absolute:
  "\<forall>p \<in> set ps. CHR ''/'' \<notin> set p \<Longrightarrow> ps \<noteq> [] \<Longrightarrow>
     remote_parts (assemble_remote True ps) = foldl push_part [] ps"
  by (simp add: remote_parts_def assemble_remote_def split_join push_part_def)

text \<open>
  Entering a directory by its name and then going to \<^verbatim>\<open>..\<close> returns to the directory one
  came from: with a canonical absolute current directory, a plain name resolves to the joined path
  and \<^verbatim>\<open>..\<close> from there resolves to the start.
\<close>

theorem resolve_enter_and_leave:
  assumes cur: "normalize_remote_path cur = Inr cur" "starts_with ''/'' cur"
    and name: "proper_part name" "name \<noteq> ''~''"
    and ctl: "\<not> has_control name" "\<not> has_control (join_remote cur name)"
  shows "resolve_remote_path cur home name = Inr (join_remote cur name) \<and>
    resolve_remote_path (join_remote cur name) home ''..'' = Inr cur"
proof -
  let ?ps = "remote_parts cur"
  have c: "cur = assemble_remote True ?ps" "\<not> has_control cur"
    using cur unfolding normalize_Inr by simp_all
  have ps: "\<forall>x \<in> set ?ps. proper_part x" by (rule remote_parts_proper)
  have psn: "\<forall>x \<in> set (?ps @ [name]). proper_part x" using ps name by simp
  have jn: "join_remote cur name = assemble_remote True (?ps @ [name])"
    using join_remote_assemble [OF ps, of name] c(1) by simp
  have nslash: "\<not> starts_with ''/'' name"
    using name(1) by (cases name) (auto simp: proper_part_def starts_with_slash_Cons)
  have "strip_prefix ''~/'' name = None"
  proof -
    have "CHR ''/'' \<in> set name" if "take 2 name = ''~/''"
      using in_set_takeD [of "CHR ''/''" 2 name] that by simp
    with name(1) show ?thesis by (auto simp: strip_prefix_def proper_part_def eval_nat_numeral)
  qed
  with name nslash have cand: "resolve_candidate cur home name = join_remote cur name"
    by (simp add: resolve_candidate_def proper_part_def)
  have "normalize_remote_path (join_remote cur name) = Inr (join_remote cur name)"
    using ctl(2) assemble_roundtrip [OF psn, of True] by (simp add: normalize_Inr jn)
  with cand ctl(1) have enter: "resolve_remote_path cur home name = Inr (join_remote cur name)"
    by (simp add: resolve_remote_path_def validate_remote_path_def)
  have cand2: "resolve_candidate (join_remote cur name) home ''..'' =
      assemble_remote True (?ps @ [name, ''..''])"
    using join_remote_assemble [OF psn, of "''..''"] jn
    by (simp add: resolve_candidate_def strip_prefix_def starts_with_def)
  have "remote_parts (assemble_remote True (?ps @ [name, ''..''])) = foldl push_part [] (?ps @ [name, ''..''])"
    by (rule remote_parts_absolute) (use psn in \<open>auto simp: proper_part_def\<close>)
  also have "\<dots> = push_part (foldl push_part [] (?ps @ [name])) ''..''" by simp
  also have "\<dots> = ?ps" by (simp only: fold_proper [OF psn]) (simp add: push_part_def)
  finally have parts: "remote_parts (assemble_remote True (?ps @ [name, ''..''])) = ?ps" .
  have "starts_with ''/'' (assemble_remote True (?ps @ [name, ''..'']))"
    by (simp add: assemble_remote_def)
  with parts c have "normalize_remote_path (assemble_remote True (?ps @ [name, ''..''])) = Inr cur"
    by (simp add: normalize_Inr)
  then have "resolve_remote_path (join_remote cur name) home ''..'' = Inr cur"
    using cand2 by (simp add: resolve_remote_path_def validate_remote_path_def)
  with enter show ?thesis by simp
qed

theorem resolve_enter_and_leave_witness:
  "resolve_remote_path ''/srv'' ''/root'' ''www'' = Inr (join_remote ''/srv'' ''www'') \<and>
    resolve_remote_path (join_remote ''/srv'' ''www'') ''/root'' ''..'' = Inr ''/srv''"
  by (rule resolve_enter_and_leave) code_simp+

lemma bounded_error_bounded: "char_count (bounded_error m) \<le> MAX_ERROR_CHARS + 3"
  using char_count_take_chars [of MAX_ERROR_CHARS m]
  by (simp add: bounded_error_def char_count_def is_continuation_def)

end
