(* ===== verification/Sftp_Stream.thy ===== *)
theory Sftp_Stream
  imports Prelude
begin

text \<open>
  The transport of the SFTP subsystem (\<^verbatim>\<open>src/sftp.rs\<close>): \<^verbatim>\<open>PacketLimitedStream\<close>, which
  hands a packet on only after the whole of it has arrived with a valid length, and
  \<^verbatim>\<open>BrowserObservedStream\<close>, which tells the browser that the channel has closed. The inner
  stream is the list of what its successive polls offer.
\<close>

section \<open>The inner stream\<close>

text \<open>An offered chunk that is empty is the end of the stream, as \<^verbatim>\<open>AsyncRead\<close> defines it.\<close>

datatype inner_event = Chunk "u8 list" | NotReady | ReadFailed

datatype inner_result = InnerPending | InnerErr | InnerData "u8 list"

text \<open>A poll with a buffer of \<open>cap\<close> bytes: what does not fit stays for the next poll.\<close>

fun inner_poll :: "nat \<Rightarrow> inner_event list \<Rightarrow> inner_result \<times> inner_event list" where
  "inner_poll cap [] = (InnerPending, [])"
| "inner_poll cap (NotReady # rest) = (InnerPending, rest)"
| "inner_poll cap (ReadFailed # rest) = (InnerErr, rest)"
| "inner_poll cap (Chunk bs # rest) =
     (InnerData (take cap bs), if length bs \<le> cap then rest else Chunk (drop cap bs) # rest)"

fun inner_bytes :: "inner_event list \<Rightarrow> u8 list" where
  "inner_bytes [] = []"
| "inner_bytes (Chunk bs # rest) = bs @ inner_bytes rest"
| "inner_bytes (_ # rest) = inner_bytes rest"

section \<open>The packet-limited stream\<close>

definition MAX_PACKET_BYTES :: nat where "MAX_PACKET_BYTES = 256 * 1024"

record packet_stream =
  packet :: "u8 list"
  packet_filled :: nat
  packet_emitted :: nat
  packet_target :: "nat option"
  failed :: bool

definition packet_stream_new :: packet_stream where
  "packet_stream_new =
     \<lparr>packet = [0, 0, 0, 0], packet_filled = 0, packet_emitted = 0, packet_target = None,
      failed = False\<rparr>"

datatype io_error =
  InnerError
| UnexpectedEof
| EmptyPacket
| PacketTooLong nat

datatype poll = Pending | Ready | Failed io_error

text \<open>\<^verbatim>\<open>u32::from_be_bytes\<close> of the first four bytes.\<close>

definition be32 :: "u8 list \<Rightarrow> nat" where
  "be32 p = unat (p ! 0) * 2 ^ 24 + unat (p ! 1) * 2 ^ 16 + unat (p ! 2) * 2 ^ 8 + unat (p ! 3)"

text \<open>\<^verbatim>\<open>Vec::resize(n, 0)\<close>.\<close>

definition resize :: "nat \<Rightarrow> u8 list \<Rightarrow> u8 list" where
  "resize n p = take n p @ replicate (n - length p) 0"

definition current_target :: "packet_stream \<Rightarrow> nat" where
  "current_target st = (case packet_target st of Some t \<Rightarrow> t | None \<Rightarrow> 4)"

text \<open>The reading part of an iteration: leave the loop, go round again, or the target is reached.\<close>

datatype fill = FillReturn poll packet_stream "inner_event list"
  | FillMore packet_stream "inner_event list"
  | FillDone packet_stream "inner_event list"

definition store_bytes :: "u8 list \<Rightarrow> packet_stream \<Rightarrow> packet_stream" where
  "store_bytes bs st =
     st\<lparr>packet := take (packet_filled st) (packet st) @ bs @
          drop (packet_filled st + length bs) (packet st),
        packet_filled := packet_filled st + length bs\<rparr>"

definition fill_packet :: "packet_stream \<Rightarrow> inner_event list \<Rightarrow> u8 list \<Rightarrow> fill" where
  "fill_packet st inner out =
     (let target = current_target st in
      if packet_filled st < target then
        (case inner_poll (target - packet_filled st) inner of
           (InnerPending, inner') \<Rightarrow> FillReturn (if out \<noteq> [] then Ready else Pending) st inner'
         | (InnerErr, inner') \<Rightarrow> FillReturn (Failed InnerError) (st\<lparr>failed := True\<rparr>) inner'
         | (InnerData bs, inner') \<Rightarrow>
             if bs = [] then
               (if packet_filled st = 0 \<and> packet_target st = None then FillReturn Ready st inner'
                else FillReturn (Failed UnexpectedEof) (st\<lparr>failed := True\<rparr>) inner')
             else
               (let st' = store_bytes bs st in
                if packet_filled st' < target then FillMore st' inner' else FillDone st' inner'))
      else FillDone st inner)"

text \<open>The header is complete: validate the length and make room for the payload.\<close>

definition begin_packet :: "packet_stream \<Rightarrow> io_error + packet_stream" where
  "begin_packet st =
     (let packet_len = be32 (packet st) in
      if packet_len = 0 then Inl EmptyPacket
      else if MAX_PACKET_BYTES < packet_len then Inl (PacketTooLong packet_len)
      else Inr (st\<lparr>packet := resize (4 + packet_len) (packet st),
                  packet_target := Some (4 + packet_len)\<rparr>))"

definition emit_packet :: "nat \<Rightarrow> nat \<Rightarrow> packet_stream \<Rightarrow> packet_stream" where
  "emit_packet target n st =
     (let end = packet_emitted st + n in
      if end = target then
        st\<lparr>packet := resize 4 (packet st), packet_filled := 0, packet_emitted := 0,
           packet_target := None\<rparr>
      else st\<lparr>packet_emitted := end\<rparr>)"

text \<open>
  The loop of \<^verbatim>\<open>poll_read\<close>; \<open>cap\<close> is what remains of the output buffer and \<open>out\<close> what this
  call has put there. Not returning would be \<open>None\<close>.
\<close>

partial_function (option) poll_loop ::
  "packet_stream \<Rightarrow> inner_event list \<Rightarrow> nat \<Rightarrow> u8 list \<Rightarrow>
     (poll \<times> u8 list \<times> packet_stream \<times> inner_event list) option" where
  "poll_loop st inner cap out =
     (if cap = 0 then Some (Ready, out, st, inner)
      else case fill_packet st inner out of
        FillReturn p st' inner' \<Rightarrow> Some (p, out, st', inner')
      | FillMore st' inner' \<Rightarrow> poll_loop st' inner' cap out
      | FillDone st' inner' \<Rightarrow>
          (case packet_target st' of
             None \<Rightarrow>
               (case begin_packet st' of
                  Inl e \<Rightarrow> Some (Failed e, out, st'\<lparr>failed := True\<rparr>, inner')
                | Inr st'' \<Rightarrow> poll_loop st'' inner' cap out)
           | Some target \<Rightarrow>
               (let n = min cap (target - packet_emitted st') in
                poll_loop (emit_packet target n st') inner' (cap - n)
                  (out @ take n (drop (packet_emitted st') (packet st'))))))"

definition poll_read :: "packet_stream \<Rightarrow> inner_event list \<Rightarrow> nat \<Rightarrow>
    (poll \<times> u8 list \<times> packet_stream \<times> inner_event list) option" where
  "poll_read st inner cap =
     (if failed st then Some (Ready, [], st, inner) else poll_loop st inner cap [])"

text \<open>A client that polls with buffers of the given sizes: everything it has read.\<close>

fun poll_run :: "packet_stream \<Rightarrow> inner_event list \<Rightarrow> nat list \<Rightarrow>
    (u8 list \<times> packet_stream \<times> inner_event list) option" where
  "poll_run st inner [] = Some ([], st, inner)"
| "poll_run st inner (cap # caps) =
     (case poll_read st inner cap of
        None \<Rightarrow> None
      | Some (p, out, st', inner') \<Rightarrow>
          (case poll_run st' inner' caps of
             None \<Rightarrow> None
           | Some (out', st'', inner'') \<Rightarrow> Some (out @ out', st'', inner'')))"

section \<open>The state between polls\<close>

definition valid_frame :: "u8 list \<Rightarrow> bool" where
  "valid_frame f \<longleftrightarrow> 4 \<le> length f \<and> length f = 4 + be32 f \<and> 0 < be32 f \<and> be32 f \<le> MAX_PACKET_BYTES"

definition stream_wf :: "packet_stream \<Rightarrow> bool" where
  "stream_wf st \<longleftrightarrow>
     length (packet st) = current_target st \<and> packet_filled st \<le> current_target st \<and>
     (case packet_target st of
        None \<Rightarrow> packet_emitted st = 0
      | Some t \<Rightarrow> valid_frame (packet st) \<and> 4 \<le> packet_filled st \<and> packet_emitted st < t \<and>
          (packet_emitted st \<noteq> 0 \<longrightarrow> packet_filled st = t))"

definition undelivered :: "packet_stream \<Rightarrow> u8 list" where
  "undelivered st = drop (packet_emitted st) (take (packet_filled st) (packet st))"

lemma stream_wf_new: "stream_wf packet_stream_new"
  by (simp add: stream_wf_def packet_stream_new_def current_target_def)

lemma stream_wf_length: "stream_wf st \<Longrightarrow> length (packet st) \<le> 4 + MAX_PACKET_BYTES"
  by (auto simp: stream_wf_def current_target_def valid_frame_def split: option.splits)

lemma be32_append: "4 \<le> length p \<Longrightarrow> be32 (p @ q) = be32 p"
  by (auto simp: be32_def nth_append)

lemma be32_take: "4 \<le> n \<Longrightarrow> 4 \<le> length p \<Longrightarrow> be32 (take n p) = be32 p"
  by (simp add: be32_def)

lemma inner_poll_bytes:
  "inner_poll cap inner = (InnerPending, inner') \<Longrightarrow> inner_bytes inner' = inner_bytes inner"
  "inner_poll cap inner = (InnerErr, inner') \<Longrightarrow> inner_bytes inner' = inner_bytes inner"
  "inner_poll cap inner = (InnerData bs, inner') \<Longrightarrow>
     bs @ inner_bytes inner' = inner_bytes inner \<and> length bs \<le> cap"
  by (cases "(cap, inner)" rule: inner_poll.cases; auto)+

lemma store_packet_length:
  "packet_filled st + length bs \<le> length (packet st) \<Longrightarrow>
     length (packet (store_bytes bs st)) = length (packet st)"
  by (simp add: store_bytes_def)

lemma store_take_filled:
  assumes "packet_filled st + length bs \<le> length (packet st)"
  shows "take (packet_filled st + length bs) (packet (store_bytes bs st)) =
    take (packet_filled st) (packet st) @ bs"
  using assms by (simp add: store_bytes_def)

lemma store_be32:
  assumes "4 \<le> packet_filled st" "packet_filled st + length bs \<le> length (packet st)"
  shows "be32 (packet (store_bytes bs st)) = be32 (packet st)"
  using assms by (simp add: store_bytes_def be32_append be32_take)

lemma store_fields [simp]:
  "packet_target (store_bytes bs st) = packet_target st"
  "packet_emitted (store_bytes bs st) = packet_emitted st"
  "failed (store_bytes bs st) = failed st"
  "packet_filled (store_bytes bs st) = packet_filled st + length bs"
  "current_target (store_bytes bs st) = current_target st"
  by (simp_all add: store_bytes_def current_target_def)

lemma store_wf:
  assumes wf: "stream_wf st" and fits: "packet_filled st + length bs \<le> current_target st"
    and part: "packet_filled st < current_target st"
  shows "stream_wf (store_bytes bs st)"
    and "undelivered (store_bytes bs st) = undelivered st @ bs"
proof -
  have len: "length (packet st) = current_target st" using wf by (simp add: stream_wf_def)
  have fit: "packet_filled st + length bs \<le> length (packet st)" using len fits by simp
  have em: "packet_emitted st = 0"
    using wf part by (auto simp: stream_wf_def current_target_def split: option.splits)
  show "stream_wf (store_bytes bs st)"
    using wf fits part em store_packet_length [OF fit] store_be32 [OF _ fit]
    by (cases "packet_target st") (auto simp: stream_wf_def valid_frame_def current_target_def)
  show "undelivered (store_bytes bs st) = undelivered st @ bs"
    using em store_take_filled [OF fit] by (simp add: undelivered_def)
qed

section \<open>One iteration\<close>

definition inner_weight :: "inner_event list \<Rightarrow> nat" where
  "inner_weight inner = length (inner_bytes inner)"

lemma fill_packet_facts:
  assumes wf: "stream_wf st"
  shows
    "fill_packet st inner out = FillReturn p st' inner' \<Longrightarrow>
       stream_wf st' \<and> packet st' = packet st \<and> packet_filled st' = packet_filled st \<and>
       packet_emitted st' = packet_emitted st \<and> inner_bytes inner' = inner_bytes inner"
    "fill_packet st inner out = FillMore st' inner' \<Longrightarrow>
       stream_wf st' \<and> undelivered st' @ inner_bytes inner' = undelivered st @ inner_bytes inner \<and>
       packet_emitted st' = packet_emitted st \<and> packet_target st' = packet_target st \<and>
       packet_emitted st = 0 \<and> inner_weight inner' < inner_weight inner"
    "fill_packet st inner out = FillDone st' inner' \<Longrightarrow>
       stream_wf st' \<and> undelivered st' @ inner_bytes inner' = undelivered st @ inner_bytes inner \<and>
       packet_emitted st' = packet_emitted st \<and> packet_target st' = packet_target st \<and>
       packet_filled st' = current_target st' \<and> inner_weight inner' \<le> inner_weight inner \<and>
       (packet_emitted st \<noteq> 0 \<longrightarrow> st' = st)"
proof -
  have em: "packet_filled st < current_target st \<Longrightarrow> packet_emitted st = 0"
    using wf by (auto simp: stream_wf_def current_target_def split: option.splits)
  have wff: "stream_wf (st\<lparr>failed := True\<rparr>)"
    using wf by (simp add: stream_wf_def current_target_def split: option.splits)
  { fix bs inner'
    assume lt: "packet_filled st < current_target st"
      and poll: "inner_poll (current_target st - packet_filled st) inner = (InnerData bs, inner')"
    have b: "bs @ inner_bytes inner' = inner_bytes inner"
      and l: "length bs \<le> current_target st - packet_filled st"
      using inner_poll_bytes(3) [OF poll] by simp_all
    have fits: "packet_filled st + length bs \<le> current_target st" using l lt by simp
    have "stream_wf (store_bytes bs st)"
      "undelivered (store_bytes bs st) @ inner_bytes inner' = undelivered st @ inner_bytes inner"
      using store_wf [OF wf fits lt] b by simp_all
    moreover have "bs \<noteq> [] \<Longrightarrow> inner_weight inner' < inner_weight inner"
      using arg_cong [OF b, of length] by (simp add: inner_weight_def) (cases bs; simp)
    ultimately have "stream_wf (store_bytes bs st) \<and>
       undelivered (store_bytes bs st) @ inner_bytes inner' = undelivered st @ inner_bytes inner \<and>
       packet_filled st + length bs \<le> current_target st \<and>
       (bs \<noteq> [] \<longrightarrow> inner_weight inner' < inner_weight inner)" using fits by simp }
  note data = this
  show "fill_packet st inner out = FillReturn p st' inner' \<Longrightarrow>
       stream_wf st' \<and> packet st' = packet st \<and> packet_filled st' = packet_filled st \<and>
       packet_emitted st' = packet_emitted st \<and> inner_bytes inner' = inner_bytes inner"
    using wf wff inner_poll_bytes
    by (fastforce simp: fill_packet_def Let_def split: if_splits prod.splits inner_result.splits)
  show "fill_packet st inner out = FillMore st' inner' \<Longrightarrow>
       stream_wf st' \<and> undelivered st' @ inner_bytes inner' = undelivered st @ inner_bytes inner \<and>
       packet_emitted st' = packet_emitted st \<and> packet_target st' = packet_target st \<and>
       packet_emitted st = 0 \<and> inner_weight inner' < inner_weight inner"
    using data em
    by (auto simp: fill_packet_def Let_def split: if_splits prod.splits inner_result.splits)
  show "fill_packet st inner out = FillDone st' inner' \<Longrightarrow>
       stream_wf st' \<and> undelivered st' @ inner_bytes inner' = undelivered st @ inner_bytes inner \<and>
       packet_emitted st' = packet_emitted st \<and> packet_target st' = packet_target st \<and>
       packet_filled st' = current_target st' \<and> inner_weight inner' \<le> inner_weight inner \<and>
       (packet_emitted st \<noteq> 0 \<longrightarrow> st' = st)"
    using data em wf
    by (fastforce simp: fill_packet_def Let_def stream_wf_def
        split: if_splits prod.splits inner_result.splits)
qed

lemma begin_packet_facts:
  assumes wf: "stream_wf st" and none: "packet_target st = None"
    and filled: "packet_filled st = current_target st" and b: "begin_packet st = Inr st'"
  shows "stream_wf st' \<and> undelivered st' = undelivered st \<and> packet_emitted st = 0 \<and>
    packet_emitted st' = 0 \<and> packet_target st' \<noteq> None"
proof -
  have len: "length (packet st) = 4" and em: "packet_emitted st = 0" and f4: "packet_filled st = 4"
    using wf none filled by (simp_all add: stream_wf_def current_target_def)
  have st': "st' = st\<lparr>packet := packet st @ replicate (be32 (packet st)) 0,
      packet_target := Some (4 + be32 (packet st))\<rparr>"
    and ok: "0 < be32 (packet st)" "be32 (packet st) \<le> MAX_PACKET_BYTES"
    using b len by (auto simp: begin_packet_def Let_def resize_def split: if_splits)
  have "valid_frame (packet st @ replicate (be32 (packet st)) 0)"
    using ok len by (simp add: valid_frame_def be32_append)
  then show ?thesis
    using len em f4 by (simp add: st' stream_wf_def current_target_def undelivered_def)
qed

text \<open>What has been delivered: whole valid frames, then the delivered part of the current one.\<close>

definition framed :: "u8 list \<Rightarrow> packet_stream \<Rightarrow> bool" where
  "framed delivered st \<longleftrightarrow>
     (\<exists>fs. list_all valid_frame fs \<and> delivered = concat fs @ take (packet_emitted st) (packet st))"

lemma emit_packet_facts:
  assumes wf: "stream_wf st" and some: "packet_target st = Some t"
    and filled: "packet_filled st = current_target st"
    and n: "n = min cap (t - packet_emitted st)" and cap: "0 < cap"
  shows "stream_wf (emit_packet t n st) \<and> 0 < n \<and> n \<le> cap \<and>
    take n (drop (packet_emitted st) (packet st)) @ undelivered (emit_packet t n st) = undelivered st"
    and "framed D st \<Longrightarrow>
      framed (D @ take n (drop (packet_emitted st) (packet st))) (emit_packet t n st)"
proof -
  let ?e = "packet_emitted st" and ?c = "take n (drop (packet_emitted st) (packet st))"
  have v: "valid_frame (packet st)" "?e < t" "length (packet st) = t" "packet_filled st = t"
    using wf some filled by (simp_all add: stream_wf_def current_target_def)
  have n0: "0 < n" "?e + n \<le> t" using n cap v(2) by auto
  have chunk: "take ?e (packet st) @ ?c = take (?e + n) (packet st)"
    by (simp add: take_add)
  have len4: "4 \<le> length (packet st)" using v(1) by (simp add: valid_frame_def)
  show "stream_wf (emit_packet t n st) \<and> 0 < n \<and> n \<le> cap \<and>
    ?c @ undelivered (emit_packet t n st) = undelivered st"
  proof (cases "?e + n = t")
    case True
    then have "?c = drop ?e (packet st)" using v(3) by simp
    with True n0 v len4 n show ?thesis
      by (simp add: emit_packet_def Let_def stream_wf_def current_target_def resize_def undelivered_def)
  next
    case False
    have "?c @ drop (?e + n) (packet st) = drop ?e (packet st)"
      by (metis append_take_drop_id drop_drop add.commute)
    with False n0 v n wf some show ?thesis
      by (simp add: emit_packet_def Let_def stream_wf_def current_target_def undelivered_def)
  qed
  assume "framed D st"
  then obtain fs where fs: "list_all valid_frame fs" "D = concat fs @ take ?e (packet st)"
    by (auto simp: framed_def)
  show "framed (D @ ?c) (emit_packet t n st)"
  proof (cases "?e + n = t")
    case True
    then have "D @ ?c = concat (fs @ [packet st])" using fs(2) chunk v(3) by simp
    moreover have "list_all valid_frame (fs @ [packet st])" using fs(1) v(1) by simp
    moreover have "packet_emitted (emit_packet t n st) = 0"
      using True by (simp add: emit_packet_def Let_def)
    ultimately show ?thesis by (metis append_Nil2 framed_def take_0)
  next
    case False
    then have e: "packet_emitted (emit_packet t n st) = ?e + n" "packet (emit_packet t n st) = packet st"
      by (simp_all add: emit_packet_def Let_def)
    have "D @ ?c = concat fs @ take (?e + n) (packet st)" using fs(2) chunk by simp
    with fs(1) e show ?thesis by (auto simp: framed_def)
  qed
qed

text \<open>One call of \<^verbatim>\<open>poll_read\<close> returns, keeps the state well formed, and moves bytes only forward.\<close>

definition poll_ok :: "u8 list \<Rightarrow> packet_stream \<Rightarrow> inner_event list \<Rightarrow> nat \<Rightarrow> u8 list \<Rightarrow>
    packet_stream \<Rightarrow> inner_event list \<Rightarrow> u8 list \<Rightarrow> bool" where
  "poll_ok D st inner cap out st' inner' out' \<longleftrightarrow>
     stream_wf st' \<and> framed (D @ out') st' \<and> length out' \<le> length out + cap \<and>
     out' @ undelivered st' @ inner_bytes inner' = out @ undelivered st @ inner_bytes inner"

lemma framed_cong:
  "packet_emitted st' = packet_emitted st \<Longrightarrow> packet_emitted st = 0 \<or> packet st' = packet st \<Longrightarrow>
     framed D st \<Longrightarrow> framed D st'"
  by (auto simp: framed_def)

lemma poll_loop_ok:
  assumes "stream_wf st" "framed (D @ out) st"
  shows "\<exists>p out' st' inner'. poll_loop st inner cap out = Some (p, out', st', inner') \<and>
    poll_ok D st inner cap out st' inner' out'"
  using assms
proof (induction "(cap, inner_weight inner, if packet_target st = None then 1 else 0 :: nat)"
    arbitrary: cap inner st out
    rule: wf_induct_rule [OF wf_lex_prod [OF wf_less_than wf_lex_prod [OF wf_less_than wf_less_than]]])
  case 1
  note IH = 1(1) and wf = 1(2) and fr = 1(3)
  show ?case
  proof (cases "cap = 0")
    case True
    then show ?thesis using wf fr by (simp add: poll_loop.simps poll_ok_def)
  next
    case cap: False
    show ?thesis
    proof (cases "fill_packet st inner out")
      case (FillReturn p st' inner')
      then have "poll_loop st inner cap out = Some (p, out, st', inner')"
        using cap by (simp add: poll_loop.simps [of st])
      moreover have "poll_ok D st inner cap out st' inner' out"
        using fill_packet_facts(1) [OF wf FillReturn] fr
        by (auto simp: poll_ok_def undelivered_def intro: framed_cong)
      ultimately show ?thesis by blast
    next
      case (FillMore st' inner')
      note f = fill_packet_facts(2) [OF wf FillMore]
      have eq: "poll_loop st inner cap out = poll_loop st' inner' cap out"
        using cap FillMore by (simp add: poll_loop.simps [of st])
      have "framed (D @ out) st'" using f fr by (auto intro: framed_cong)
      with f IH [of cap inner' st' out] show ?thesis
        unfolding eq by (auto simp: poll_ok_def)
    next
      case (FillDone st' inner')
      note f = fill_packet_facts(3) [OF wf FillDone]
      have fr': "framed (D @ out) st'"
        using fr f by (auto intro: framed_cong)
      show ?thesis
      proof (cases "packet_target st'")
        case None
        show ?thesis
        proof (cases "begin_packet st'")
          case (Inl e)
          then have "poll_loop st inner cap out =
              Some (Failed e, out, st'\<lparr>failed := True\<rparr>, inner')"
            using cap FillDone None by (simp add: poll_loop.simps [of st])
          moreover have "poll_ok D st inner cap out (st'\<lparr>failed := True\<rparr>) inner' out"
            using f fr' None
            by (auto simp: poll_ok_def undelivered_def stream_wf_def current_target_def framed_def)
          ultimately show ?thesis by blast
        next
          case (Inr st'')
          note b = begin_packet_facts [OF _ None _ Inr]
          have eq: "poll_loop st inner cap out = poll_loop st'' inner' cap out"
            using cap FillDone None Inr by (simp add: poll_loop.simps [of st])
          have "framed (D @ out) st''" using b f fr' by (auto intro: framed_cong)
          moreover have "inner_weight inner' < inner_weight inner \<or> inner_weight inner' = inner_weight inner"
            using f by auto
          ultimately show ?thesis
            using b f None IH [of cap inner' st'' out] unfolding eq by (auto simp: poll_ok_def)
        qed
      next
        case (Some t)
        let ?n = "min cap (t - packet_emitted st')"
        let ?c = "take ?n (drop (packet_emitted st') (packet st'))"
        note e = emit_packet_facts [OF _ Some _ refl, of cap]
        have eq: "poll_loop st inner cap out =
            poll_loop (emit_packet t ?n st') inner' (cap - ?n) (out @ ?c)"
          using cap FillDone Some by (simp add: poll_loop.simps [of st] Let_def)
        have e1: "stream_wf (emit_packet t ?n st')" "0 < ?n" "?n \<le> cap"
          "?c @ undelivered (emit_packet t ?n st') = undelivered st'"
          using e(1) f cap by auto
        have e2: "framed ((D @ out) @ ?c) (emit_packet t ?n st')" using e(2) f cap fr' by blast
        have "cap - ?n < cap" using e1(2) cap by simp
        then obtain p out' sf inf where
          r: "poll_loop (emit_packet t ?n st') inner' (cap - ?n) (out @ ?c) = Some (p, out', sf, inf)"
          and ok: "poll_ok D (emit_packet t ?n st') inner' (cap - ?n) (out @ ?c) sf inf out'"
          using IH [of "cap - ?n" inner' "emit_packet t ?n st'" "out @ ?c"] e1(1) e2 by auto
        have "length ?c \<le> ?n" unfolding length_take by (rule min.cobounded2)
        then have "length out + length ?c + (cap - ?n) \<le> length out + cap" using e1(3) by linarith
        moreover have "length out' \<le> length out + length ?c + (cap - ?n)"
          using ok unfolding poll_ok_def length_append by blast
        ultimately have l: "length out' \<le> length out + cap" by (rule order_trans [rotated])
        have "out @ ?c @ undelivered (emit_packet t ?n st') @ inner_bytes inner' =
            out @ undelivered st @ inner_bytes inner"
          using e1(4) f by (metis append.assoc)
        then have "poll_ok D st inner cap out sf inf out'"
          using ok l unfolding poll_ok_def append_assoc by simp
        with r show ?thesis unfolding eq by blast
      qed
    qed
  qed
qed

lemma poll_run_ok:
  assumes "stream_wf st" "framed D st"
  shows "\<exists>out st' inner'. poll_run st inner caps = Some (out, st', inner') \<and>
    stream_wf st' \<and> framed (D @ out) st' \<and>
    out @ undelivered st' @ inner_bytes inner' = undelivered st @ inner_bytes inner"
  using assms
proof (induction caps arbitrary: D st inner)
  case (Cons cap caps)
  have "\<exists>p out st' inner'. poll_read st inner cap = Some (p, out, st', inner') \<and>
      stream_wf st' \<and> framed (D @ out) st' \<and>
      out @ undelivered st' @ inner_bytes inner' = undelivered st @ inner_bytes inner"
    using Cons.prems poll_loop_ok [of st D "[]" inner cap] by (auto simp: poll_read_def poll_ok_def)
  then obtain p out st' inner' where r: "poll_read st inner cap = Some (p, out, st', inner')"
    "stream_wf st'" "framed (D @ out) st'"
    "out @ undelivered st' @ inner_bytes inner' = undelivered st @ inner_bytes inner" by blast
  from Cons.IH [OF r(2,3), of inner'] obtain out' st'' inner'' where
    r': "poll_run st' inner' caps = Some (out', st'', inner'')" "stream_wf st''"
    "framed (D @ out @ out') st''"
    "out' @ undelivered st'' @ inner_bytes inner'' = undelivered st' @ inner_bytes inner'" by auto
  show ?case using r r' by simp
qed simp

section \<open>A well-formed stream passes unchanged\<close>

definition clean :: "inner_event list \<Rightarrow> bool" where
  "clean inner \<longleftrightarrow>
     list_all (\<lambda>e. case e of Chunk bs \<Rightarrow> bs \<noteq> [] | NotReady \<Rightarrow> True | ReadFailed \<Rightarrow> False) inner"

definition on_stream :: "packet_stream \<Rightarrow> inner_event list \<Rightarrow> bool" where
  "on_stream st inner \<longleftrightarrow> stream_wf st \<and> clean inner \<and> \<not> failed st \<and>
     (\<exists>fs. list_all valid_frame fs \<and>
        take (packet_emitted st) (packet st) @ undelivered st @ inner_bytes inner = concat fs)"

lemma clean_poll:
  assumes "clean inner" "0 < cap" "inner_poll cap inner = (r, inner')"
  shows "clean inner' \<and> r \<noteq> InnerErr \<and> r \<noteq> InnerData []"
  using assms by (cases "(cap, inner)" rule: inner_poll.cases) (auto simp: clean_def)

lemma clean_fill:
  assumes "clean inner" "\<not> failed st"
  shows "fill_packet st inner out = FillReturn p st' inner' \<Longrightarrow> clean inner' \<and> st' = st"
    and "fill_packet st inner out = FillMore st' inner' \<Longrightarrow> clean inner' \<and> \<not> failed st'"
    and "fill_packet st inner out = FillDone st' inner' \<Longrightarrow> clean inner' \<and> \<not> failed st'"
  using assms clean_poll [of inner "current_target st - packet_filled st"]
  by (auto simp: fill_packet_def Let_def split: if_splits prod.splits inner_result.splits)

lemma frame_prefix:
  assumes "valid_frame f" "list_all valid_frame fs" "f @ r = concat fs"
  shows "\<exists>fs'. r = concat fs' \<and> list_all valid_frame fs'"
proof (cases fs)
  case Nil
  then show ?thesis using assms by (simp add: valid_frame_def)
next
  case (Cons g gs)
  have l: "4 \<le> length f" "4 \<le> length g" "length f = 4 + be32 f" "length g = 4 + be32 g"
    using assms Cons by (simp_all add: valid_frame_def)
  have eq: "f @ r = g @ concat gs" using assms(3) Cons by simp
  then have "be32 f = be32 g" using be32_append [OF l(1), of r] be32_append [OF l(2), of "concat gs"] by simp
  with l eq have "r = concat gs" by simp
  then show ?thesis using assms(2) Cons by auto
qed

lemma header_on_stream:
  assumes "on_stream st inner" "packet_target st = None" "packet_filled st = 4"
  shows "\<exists>st'. begin_packet st = Inr st'"
proof -
  have wf: "packet_emitted st = 0" "length (packet st) = 4"
    using assms by (auto simp: on_stream_def stream_wf_def current_target_def)
  obtain fs where fs: "list_all valid_frame fs" "packet st @ inner_bytes inner = concat fs"
    using assms wf by (auto simp: on_stream_def undelivered_def)
  then obtain g gs where g: "fs = g # gs" using wf(2) by (cases fs) auto
  then have v: "valid_frame g" "packet st @ inner_bytes inner = g @ concat gs" using fs by simp_all
  have l: "4 \<le> length g" "4 \<le> length (packet st)" using v(1) wf(2) by (simp_all add: valid_frame_def)
  have "be32 (packet st) = be32 g"
    using be32_append [OF l(1), of "concat gs"] be32_append [OF l(2), of "inner_bytes inner"] v(2) by simp
  then show ?thesis using v(1) by (auto simp: begin_packet_def valid_frame_def Let_def)
qed

lemma emit_on_stream:
  assumes s: "on_stream st inner" and some: "packet_target st = Some t"
    and filled: "packet_filled st = current_target st"
    and n: "n = min cap (t - packet_emitted st)" and cap: "0 < cap"
  shows "on_stream (emit_packet t n st) inner"
proof -
  have wf: "stream_wf st" using s by (simp add: on_stream_def)
  note e = emit_packet_facts(1) [OF wf some filled n cap]
  have v: "valid_frame (packet st)" "length (packet st) = t" "packet_filled st = t" "packet_emitted st < t"
    using wf some filled by (simp_all add: stream_wf_def current_target_def)
  have nf: "\<not> failed (emit_packet t n st)" "clean inner"
    using s by (auto simp: on_stream_def emit_packet_def Let_def)
  obtain fs where fs: "list_all valid_frame fs"
    "take (packet_emitted st) (packet st) @ undelivered st @ inner_bytes inner = concat fs"
    using s by (auto simp: on_stream_def)
  have all: "packet st @ inner_bytes inner = concat fs"
    using fs(2) v by (simp add: undelivered_def append_assoc [symmetric] del: append_assoc)
  show ?thesis
  proof (cases "packet_emitted st + n = t")
    case True
    then have "packet_emitted (emit_packet t n st) = 0" "undelivered (emit_packet t n st) = []"
      by (simp_all add: emit_packet_def Let_def undelivered_def)
    moreover have "\<exists>fs'. inner_bytes inner = concat fs' \<and> list_all valid_frame fs'"
      by (rule frame_prefix [OF v(1) fs(1) all])
    ultimately show ?thesis using e nf by (auto simp: on_stream_def)
  next
    case False
    then have "take (packet_emitted (emit_packet t n st)) (packet (emit_packet t n st)) @
        undelivered (emit_packet t n st) @ inner_bytes inner = concat fs"
      using all v
      by (simp add: emit_packet_def Let_def undelivered_def append_assoc [symmetric] del: append_assoc)
    then show ?thesis using e nf fs(1) by (auto simp: on_stream_def)
  qed
qed

lemma on_stream_move:
  assumes "on_stream st inner" "stream_wf st'" "clean inner'" "\<not> failed st'"
    "packet_emitted st = 0 \<and> packet_emitted st' = 0 \<or> st' = st"
    "undelivered st' @ inner_bytes inner' = undelivered st @ inner_bytes inner"
  shows "on_stream st' inner'"
  using assms by (auto simp: on_stream_def)

lemma poll_loop_on_stream:
  "poll_loop st inner cap out = Some (p, out', st', inner') \<Longrightarrow> on_stream st inner \<Longrightarrow>
     on_stream st' inner'"
proof (induction st inner cap out "(p, out', st', inner')"
    rule: poll_loop.raw_induct [rotated 1, consumes 1, case_names step])
  case (step rec st inner cap out)
  note IH = step(1) and body = step(2) and s = step(3)
  have wf: "stream_wf st" and cl: "clean inner" and nf: "\<not> failed st"
    using s by (simp_all add: on_stream_def)
  show ?case
  proof (cases "cap = 0")
    case True
    with body s show ?thesis by simp
  next
    case cap: False
    show ?thesis
    proof (cases "fill_packet st inner out")
      case (FillReturn q st1 inner1)
      then have "on_stream st1 inner1"
        using clean_fill(1) [OF cl nf FillReturn] fill_packet_facts(1) [OF wf FillReturn] nf
        by (intro on_stream_move [OF s]) auto
      with body cap FillReturn show ?thesis by simp
    next
      case (FillMore st1 inner1)
      have "on_stream st1 inner1"
        using clean_fill(2) [OF cl nf FillMore] fill_packet_facts(2) [OF wf FillMore]
        by (intro on_stream_move [OF s]) auto
      with body cap FillMore show ?thesis by (auto intro: IH)
    next
      case (FillDone st1 inner1)
      note f = fill_packet_facts(3) [OF wf FillDone]
      have s1: "on_stream st1 inner1"
        using clean_fill(3) [OF cl nf FillDone] f by (intro on_stream_move [OF s]) auto
      show ?thesis
      proof (cases "packet_target st1")
        case None
        with f have f4: "packet_filled st1 = 4" by (simp add: current_target_def)
        obtain st2 where b: "begin_packet st1 = Inr st2" using header_on_stream [OF s1 None f4] by blast
        have "failed st2 = failed st1" using b by (auto simp: begin_packet_def Let_def split: if_splits)
        then have "on_stream st2 inner1"
          using begin_packet_facts [OF _ None _ b] f s1
          by (intro on_stream_move [OF s1]) (auto simp: on_stream_def)
        with body cap FillDone None b show ?thesis by (auto intro: IH)
      next
        case (Some t)
        have "on_stream (emit_packet t (min cap (t - packet_emitted st1)) st1) inner1"
          using emit_on_stream [OF s1 Some _ refl, of cap] f cap by simp
        with body cap FillDone Some show ?thesis by (auto simp: Let_def intro: IH)
      qed
    qed
  qed
qed

lemma poll_run_on_stream:
  "poll_run st inner caps = Some (out, st', inner') \<Longrightarrow> on_stream st inner \<Longrightarrow> on_stream st' inner'"
proof (induction caps arbitrary: st inner out)
  case (Cons cap caps)
  then obtain p out1 st1 inner1 out2 where
    r: "poll_read st inner cap = Some (p, out1, st1, inner1)"
    "poll_run st1 inner1 caps = Some (out2, st', inner')"
    by (auto split: option.splits prod.splits)
  have "on_stream st1 inner1"
    using r(1) Cons.prems(2) poll_loop_on_stream by (auto simp: poll_read_def on_stream_def split: if_splits)
  with Cons.IH r(2) show ?case by blast
qed simp

section \<open>Properties\<close>

text \<open>
  C31. Whatever the server sends and however the transport splits it, every poll returns, the
  buffer never exceeds one packet of 256 KiB with its header, no byte is lost, duplicated or
  reordered, and all that the client has been given is a sequence of complete frames with a valid
  length and a prefix of one more frame that has arrived completely.
\<close>

theorem packets_delivered_whole:
  "\<exists>out st inner'. poll_run packet_stream_new inner caps = Some (out, st, inner') \<and>
     length (packet st) \<le> 4 + MAX_PACKET_BYTES \<and>
     out @ undelivered st @ inner_bytes inner' = inner_bytes inner \<and>
     (\<exists>frames part. out = concat frames @ part \<and> list_all valid_frame frames \<and>
        (part = [] \<or> valid_frame (part @ undelivered st)))"
proof -
  have f: "framed [] packet_stream_new" by (auto simp: framed_def packet_stream_new_def intro: exI [of _ "[]"])
  from poll_run_ok [OF stream_wf_new f, of inner caps]
  obtain out st inner' where r: "poll_run packet_stream_new inner caps = Some (out, st, inner')"
    "stream_wf st" "framed out st"
    "out @ undelivered st @ inner_bytes inner' = inner_bytes inner"
    by (auto simp: packet_stream_new_def undelivered_def)
  let ?part = "take (packet_emitted st) (packet st)"
  from r(3) obtain frames where fs: "list_all valid_frame frames" "out = concat frames @ ?part"
    by (auto simp: framed_def)
  have "valid_frame (?part @ undelivered st)" if "?part \<noteq> []"
  proof -
    have "packet_emitted st \<noteq> 0" using that by auto
    then have "valid_frame (packet st)" "packet_filled st = length (packet st)"
      using r(2) by (auto simp: stream_wf_def current_target_def split: option.splits)
    then show ?thesis by (simp add: undelivered_def)
  qed
  with fs r stream_wf_length [OF r(2)] show ?thesis by blast
qed

text \<open>
  A stream of valid packets is not disturbed: as long as the transport neither fails nor ends,
  no poll marks the stream failed, whatever the chunk sizes and the buffers of the client.
\<close>

theorem valid_packets_accepted:
  assumes "list_all valid_frame frames" "inner_bytes inner = concat frames" "clean inner"
    and "poll_run packet_stream_new inner caps = Some (out, st, inner')"
  shows "\<not> failed st"
proof -
  have "on_stream packet_stream_new inner"
    using assms(1-3) stream_wf_new
    by (auto simp: on_stream_def packet_stream_new_def undelivered_def)
  with poll_run_on_stream [OF assms(4)] show ?thesis by (simp add: on_stream_def)
qed

theorem valid_packets_accepted_witness:
  "\<not> failed (\<lparr>packet = [0, 0, 0, 2, 9, 8], packet_filled = 6, packet_emitted = 5,
      packet_target = Some 6, failed = False\<rparr>)"
  by (rule valid_packets_accepted
      [of "[[0, 0, 0, 2, 9, 8]]" "[Chunk [0, 0], NotReady, Chunk [0, 2, 9], Chunk [8]]" "[3, 5]"
        "[0, 0, 0, 2, 9]" _ "[]"])
    (simp_all add: valid_frame_def be32_def MAX_PACKET_BYTES_def clean_def poll_read_def
      poll_loop.simps packet_stream_new_def fill_packet_def current_target_def store_bytes_def
      begin_packet_def resize_def emit_packet_def Let_def take_Cons' drop_Cons' nth_Cons')

end
