(* ===== verification/Sftp_Browser.thy ===== *)
theory Sftp_Browser
  imports Remote_Path Sftp_Stream
begin

text \<open>
  The SFTP browser task (\<^verbatim>\<open>src/sftp.rs\<close>, \<^verbatim>\<open>run_browser\<close>): the directory cursor, pages
  of at most 250 entries, the filter on what a server may name a file, and the command loop. The
  SFTP client library is the script of its answers; an exhausted script is a request timeout. The
  receiver of the events may go away after a given number of them.
\<close>

section \<open>Server answers, events and the world of the task\<close>

datatype status_code = NoConnection | ConnectionLost | Eof | OtherStatus

datatype client_error = StatusError status_code | Limited | OtherClientError

datatype browser_error =
  Elapsed
| Client client_error
| PathControlCharacters
| EmptyRealpath
| ReceiverDropped
| NoAdditionalPage
| DirectoryNotOpen
| ChannelClosedUnexpectedly
| CloseSessionFailed

record dir_file =
  filename :: string
  type_is_dir :: bool
  type_is_symlink :: bool
  attr_size :: "u64 option"
  attr_mtime :: "32 word option"

record sftp_entry =
  entry_name :: string
  entry_path :: string
  is_dir :: bool
  is_symlink :: bool
  entry_size :: u64
  modified :: "32 word option"

datatype browser_event =
  Opened string
| DirectoryPage "u64 option" string "sftp_entry list" bool bool bool
| BrowserFailed "u64 option" string
| BrowserClosed

datatype server_call =
  CallRealpath string
| CallOpendir string
| CallReaddir string
| CallClose string

record browser_world =
  realpath_replies :: "(browser_error + string list) list"
  opendir_replies :: "(browser_error + string) list"
  readdir_replies :: "(browser_error + dir_file list) list"
  server_calls :: "server_call list"
  browser_events :: "browser_event list"
  receiver_left :: "nat option"

definition pop_reply :: "(browser_error + 'a) list \<Rightarrow> browser_error + 'a" where
  "pop_reply rs = (case rs of [] \<Rightarrow> Inl Elapsed | r # _ \<Rightarrow> r)"

definition send_browser_event :: "browser_world \<Rightarrow> browser_event \<Rightarrow> bool \<times> browser_world" where
  "send_browser_event w e =
     (case receiver_left w of
        None \<Rightarrow> (True, w\<lparr>browser_events := browser_events w @ [e]\<rparr>)
      | Some 0 \<Rightarrow> (False, w)
      | Some (Suc n) \<Rightarrow> (True, w\<lparr>browser_events := browser_events w @ [e], receiver_left := Some n\<rparr>))"

section \<open>Entries and pages\<close>

definition MAX_PAGE_ENTRIES :: nat where "MAX_PAGE_ENTRIES = 250"

record directory_cursor =
  cursor_dir :: string
  cursor_handle :: string
  pending_files :: "dir_file list"
  cursor_done :: bool
  cursor_truncated :: bool

definition bounded_entry :: "string \<Rightarrow> dir_file \<Rightarrow> sftp_entry option" where
  "bounded_entry parent file =
     (let name = filename file in
      if name = ''.'' \<or> name = ''..'' \<or> name = '''' \<or> has_control name \<or> CHR ''/'' \<in> set name
      then None
      else let path = join_remote parent name in
        case validate_remote_path path of
          Inl _ \<Rightarrow> None
        | Inr _ \<Rightarrow> Some \<lparr>entry_name = name, entry_path = path, is_dir = type_is_dir file,
            is_symlink = type_is_symlink file,
            entry_size = (case attr_size file of None \<Rightarrow> 0 | Some n \<Rightarrow> n),
            modified = attr_mtime file\<rparr>)"

fun take_entries :: "string \<Rightarrow> sftp_entry list \<Rightarrow> dir_file list \<Rightarrow> sftp_entry list \<times> dir_file list" where
  "take_entries parent page [] = (page, [])"
| "take_entries parent page (f # fs) =
     (if length page < MAX_PAGE_ENTRIES then
        take_entries parent
          (case bounded_entry parent f of Some e \<Rightarrow> page @ [e] | None \<Rightarrow> page) fs
      else (page, f # fs))"

definition readdir :: "browser_world \<Rightarrow> string \<Rightarrow> (browser_error + dir_file list) \<times> browser_world" where
  "readdir w h =
     (pop_reply (readdir_replies w),
      w\<lparr>readdir_replies := tl (readdir_replies w), server_calls := server_calls w @ [CallReaddir h]\<rparr>)"

lemma take_entries_shorter:
  "length (snd (take_entries parent page files)) \<le> length files"
  "files \<noteq> [] \<Longrightarrow> length page < MAX_PAGE_ENTRIES \<Longrightarrow>
     length (snd (take_entries parent page files)) < length files"
proof -
  show le: "length (snd (take_entries parent page files)) \<le> length files" for page files
    by (induction parent page files rule: take_entries.induct) (auto simp: le_SucI)
  assume "files \<noteq> []" "length page < MAX_PAGE_ENTRIES"
  then show "length (snd (take_entries parent page files)) < length files"
    by (cases files) (auto simp: less_Suc_eq_le le)
qed

text \<open>The loop of \<^verbatim>\<open>read_page\<close>: take what is pending, ask the server only while the page is empty.\<close>

function read_loop :: "browser_world \<Rightarrow> directory_cursor \<Rightarrow> sftp_entry list \<Rightarrow>
    (browser_error + sftp_entry list) \<times> directory_cursor \<times> browser_world" where
  "read_loop w cur page =
     (if \<not> (length page < MAX_PAGE_ENTRIES \<and> \<not> cursor_done cur) then (Inr page, cur, w)
      else if pending_files cur = [] then
        (if page \<noteq> [] then (Inr page, cur, w)
         else if readdir_replies w = [] then (Inl Elapsed, cur, snd (readdir w (cursor_handle cur)))
         else
           (case readdir w (cursor_handle cur) of
              (Inr [], w') \<Rightarrow> (Inr page, cur\<lparr>cursor_done := True\<rparr>, w')
            | (Inr files, w') \<Rightarrow>
                (case take_entries (cursor_dir cur) page files of
                   (page', rest) \<Rightarrow> read_loop w' (cur\<lparr>pending_files := rest\<rparr>) page')
            | (Inl e, w') \<Rightarrow>
                (if e = Client (StatusError Eof) then (Inr page, cur\<lparr>cursor_done := True\<rparr>, w')
                 else (Inl e, cur, w'))))
      else
        (case take_entries (cursor_dir cur) page (pending_files cur) of
           (page', rest) \<Rightarrow> read_loop w (cur\<lparr>pending_files := rest\<rparr>) page'))"
  by pat_completeness auto
termination
proof (relation "measures [\<lambda>(w, cur, page). length (readdir_replies w), \<lambda>(w, cur, page). length (pending_files cur)]",
    goal_cases)
  case 1
  show ?case by simp
next
  case (2 w cur page)
  then show ?case by (auto simp: readdir_def neq_Nil_conv)
next
  case (3 w cur page page' rest)
  then have "rest = snd (take_entries (cursor_dir cur) page (pending_files cur))" by (metis snd_conv)
  with 3 show ?case
    using take_entries_shorter(2) [of "pending_files cur" page "cursor_dir cur"] by auto
qed

declare read_loop.simps [simp del]

definition read_page :: "browser_world \<Rightarrow> directory_cursor \<Rightarrow>
    (browser_error + sftp_entry list) \<times> directory_cursor \<times> browser_world" where
  "read_page w cur = read_loop w cur []"

definition close_handle :: "browser_world \<Rightarrow> string \<Rightarrow> browser_world" where
  "close_handle w h = w\<lparr>server_calls := server_calls w @ [CallClose h]\<rparr>"

definition emit_page :: "browser_world \<Rightarrow> directory_cursor \<Rightarrow> u64 option \<Rightarrow> bool \<Rightarrow>
    (browser_error + unit) \<times> directory_cursor \<times> browser_world" where
  "emit_page w cur request_id is_append =
     (case read_page w cur of
        (Inl e, cur', w') \<Rightarrow> (Inl e, cur', w')
      | (Inr entries, cur', w') \<Rightarrow>
          (case send_browser_event w' (DirectoryPage request_id (cursor_dir cur') entries is_append
                  (\<not> cursor_done cur') (cursor_truncated cur')) of
             (False, w'') \<Rightarrow> (Inl ReceiverDropped, cur', w'')
           | (True, w'') \<Rightarrow>
               if cursor_done cur' then
                 (Inr (), cur'\<lparr>cursor_handle := []\<rparr>,
                  if cursor_handle cur' \<noteq> [] then close_handle w'' (cursor_handle cur') else w'')
               else (Inr (), cur', w'')))"

definition close_cursor :: "browser_world \<Rightarrow> directory_cursor \<Rightarrow> browser_world" where
  "close_cursor w cur =
     (if cursor_handle cur \<noteq> [] then close_handle w (cursor_handle cur) else w)"

section \<open>Opening a directory\<close>

definition canonicalize :: "browser_world \<Rightarrow> string \<Rightarrow> (browser_error + string) \<times> browser_world" where
  "canonicalize w path =
     (case validate_remote_path path of
        Inl _ \<Rightarrow> (Inl PathControlCharacters, w)
      | Inr _ \<Rightarrow>
          (let w' = w\<lparr>realpath_replies := tl (realpath_replies w),
                      server_calls := server_calls w @ [CallRealpath path]\<rparr> in
           case pop_reply (realpath_replies w) of
             Inl e \<Rightarrow> (Inl e, w')
           | Inr [] \<Rightarrow> (Inl EmptyRealpath, w')
           | Inr (name # _) \<Rightarrow>
               (case validate_remote_path name of
                  Inl _ \<Rightarrow> (Inl PathControlCharacters, w')
                | Inr _ \<Rightarrow> (Inr name, w'))))"

definition open_directory :: "browser_world \<Rightarrow> string \<Rightarrow>
    (browser_error + directory_cursor) \<times> browser_world" where
  "open_directory w path =
     (case validate_remote_path path of
        Inl _ \<Rightarrow> (Inl PathControlCharacters, w)
      | Inr _ \<Rightarrow>
          (let w' = w\<lparr>opendir_replies := tl (opendir_replies w),
                      server_calls := server_calls w @ [CallOpendir path]\<rparr> in
           case pop_reply (opendir_replies w) of
             Inl e \<Rightarrow> (Inl e, w')
           | Inr h \<Rightarrow> (Inr \<lparr>cursor_dir = path, cursor_handle = h, pending_files = [],
               cursor_done = False, cursor_truncated = False\<rparr>, w')))"

section \<open>The command loop\<close>

datatype browser_command = ListDir "u64 option" string | LoadMore u64 | Close

text \<open>What the biased \<^verbatim>\<open>select!\<close> sees next; the end of the list is a closed command channel.\<close>

datatype browser_input = ChannelClosed | Command browser_command

definition browser_transport_failed :: "browser_error \<Rightarrow> bool" where
  "browser_transport_failed e =
     (case e of
        Elapsed \<Rightarrow> True
      | Client (StatusError s) \<Rightarrow> s = NoConnection \<or> s = ConnectionLost
      | Client Limited \<Rightarrow> False
      | Client OtherClientError \<Rightarrow> True
      | _ \<Rightarrow> False)"

definition send_request_error :: "(browser_error \<Rightarrow> string) \<Rightarrow> browser_world \<Rightarrow> u64 option \<Rightarrow>
    browser_error \<Rightarrow> browser_world" where
  "send_request_error describe w request_id e =
     snd (send_browser_event w (BrowserFailed request_id (bounded_error (describe e))))"

text \<open>The \<^verbatim>\<open>async\<close> block of a \<^verbatim>\<open>List\<close> command: the new cursor, or the first error.\<close>

definition open_listing :: "browser_world \<Rightarrow> string \<Rightarrow> string \<Rightarrow> u64 option \<Rightarrow> string \<Rightarrow>
    (browser_error + directory_cursor) \<times> browser_world" where
  "open_listing w current home request_id path =
     (case resolve_remote_path current home path of
        Inl _ \<Rightarrow> (Inl PathControlCharacters, w)
      | Inr resolved \<Rightarrow>
          (case canonicalize w resolved of
             (Inl e, w1) \<Rightarrow> (Inl e, w1)
           | (Inr canonical, w1) \<Rightarrow>
               (case open_directory w1 canonical of
                  (Inl e, w2) \<Rightarrow> (Inl e, w2)
                | (Inr cur, w2) \<Rightarrow>
                    (case emit_page w2 cur request_id False of
                       (Inl e, _, w3) \<Rightarrow> (Inl e, w3)
                     | (Inr _, cur', w3) \<Rightarrow> (Inr cur', w3)))))"

datatype browser_flow = Continue | Break | Abort browser_error

definition browser_command_step :: "(browser_error \<Rightarrow> string) \<Rightarrow> string \<Rightarrow> browser_world \<Rightarrow>
    directory_cursor option \<Rightarrow> browser_command \<Rightarrow>
    browser_flow \<times> directory_cursor option \<times> browser_world" where
  "browser_command_step describe home w cursor command =
     (case command of
        ListDir request_id path \<Rightarrow>
          (let current = (case cursor of Some cur \<Rightarrow> cursor_dir cur | None \<Rightarrow> home) in
           case open_listing w current home request_id path of
             (Inr next, w') \<Rightarrow>
               (Continue, Some next,
                case cursor of Some previous \<Rightarrow> close_cursor w' previous | None \<Rightarrow> w')
           | (Inl e, w') \<Rightarrow>
               (if browser_transport_failed e then (Abort e, cursor, w')
                else (Continue, cursor, send_request_error describe w' request_id e)))
      | LoadMore request_id \<Rightarrow>
          (case cursor of
             None \<Rightarrow>
               (Continue, None, send_request_error describe w (Some request_id) DirectoryNotOpen)
           | Some cur \<Rightarrow>
               if \<not> cursor_done cur then
                 (case emit_page w cur (Some request_id) True of
                    (Inr _, cur', w') \<Rightarrow> (Continue, Some cur', w')
                  | (Inl e, cur', w') \<Rightarrow>
                      (if browser_transport_failed e then (Abort e, Some cur', w')
                       else (Continue, Some cur', send_request_error describe w' (Some request_id) e)))
               else
                 (Continue, Some cur, send_request_error describe w (Some request_id) NoAdditionalPage))
      | Close \<Rightarrow> (Break, cursor, w))"

fun browser_loop :: "(browser_error \<Rightarrow> string) \<Rightarrow> string \<Rightarrow> browser_world \<Rightarrow>
    directory_cursor option \<Rightarrow> browser_input list \<Rightarrow>
    (browser_error + directory_cursor option) \<times> browser_world" where
  "browser_loop describe home w cursor [] = (Inr cursor, w)"
| "browser_loop describe home w cursor (ChannelClosed # _) = (Inl ChannelClosedUnexpectedly, w)"
| "browser_loop describe home w cursor (Command c # inputs) =
     (case browser_command_step describe home w cursor c of
        (Continue, cursor', w') \<Rightarrow> browser_loop describe home w' cursor' inputs
      | (Break, cursor', w') \<Rightarrow> (Inr cursor', w')
      | (Abort e, _, w') \<Rightarrow> (Inl e, w'))"

text \<open>
  \<open>handshake\<close> is the outcome of the SFTP handshake, \<open>closing\<close> that of closing the session.
\<close>

definition run_browser_inner :: "(browser_error \<Rightarrow> string) \<Rightarrow> (browser_error + unit) \<Rightarrow>
    (browser_error + unit) \<Rightarrow> browser_world \<Rightarrow> string \<Rightarrow> browser_input list \<Rightarrow>
    (browser_error + unit) \<times> browser_world" where
  "run_browser_inner describe handshake closing w initial_path inputs =
     (case handshake of
        Inl e \<Rightarrow> (Inl e, w)
      | Inr _ \<Rightarrow>
     (case canonicalize w ''.'' of
        (Inl e, w1) \<Rightarrow> (Inl e, w1)
      | (Inr home, w1) \<Rightarrow>
     (case send_browser_event w1 (Opened home) of
        (False, w2) \<Rightarrow> (Inl ReceiverDropped, w2)
      | (True, w2) \<Rightarrow>
     (case resolve_remote_path home home initial_path of
        Inl _ \<Rightarrow> (Inl PathControlCharacters, w2)
      | Inr initial \<Rightarrow>
     (case open_directory w2 initial of
        (Inl e, w3) \<Rightarrow> (Inl e, w3)
      | (Inr cur, w3) \<Rightarrow>
     (case emit_page w3 cur None False of
        (Inl e, _, w4) \<Rightarrow> (Inl e, w4)
      | (Inr _, cur', w4) \<Rightarrow>
     (case browser_loop describe home w4 (Some cur') inputs of
        (Inl e, w5) \<Rightarrow> (Inl e, w5)
      | (Inr cursor, w5) \<Rightarrow>
          (case closing of Inl _ \<Rightarrow> Inl CloseSessionFailed | Inr _ \<Rightarrow> Inr (),
           case cursor of Some c \<Rightarrow> close_cursor w5 c | None \<Rightarrow> w5))))))))"

definition run_browser :: "(browser_error \<Rightarrow> string) \<Rightarrow> (browser_error + unit) \<Rightarrow>
    (browser_error + unit) \<Rightarrow> browser_world \<Rightarrow> string \<Rightarrow> browser_input list \<Rightarrow> browser_world" where
  "run_browser describe handshake closing w initial_path inputs =
     (case run_browser_inner describe handshake closing w initial_path inputs of
        (r, w') \<Rightarrow>
          (let w'' = (case r of
               Inl e \<Rightarrow> snd (send_browser_event w' (BrowserFailed None (bounded_error (describe e))))
             | Inr _ \<Rightarrow> w') in
           snd (send_browser_event w'' BrowserClosed)))"

section \<open>Paging\<close>

definition accepted :: "string \<Rightarrow> dir_file list \<Rightarrow> sftp_entry list" where
  "accepted parent files = List.map_filter (bounded_entry parent) files"

definition answered_files :: "(browser_error + dir_file list) list \<Rightarrow> dir_file list" where
  "answered_files rs = concat (map (\<lambda>r. case r of Inl _ \<Rightarrow> [] | Inr fs \<Rightarrow> fs) rs)"

lemma accepted_simps [simp]:
  "accepted parent [] = []"
  "accepted parent (f # fs) =
     (case bounded_entry parent f of None \<Rightarrow> accepted parent fs | Some e \<Rightarrow> e # accepted parent fs)"
  "accepted parent (fs @ gs) = accepted parent fs @ accepted parent gs"
  by (simp_all add: accepted_def map_filter_simps map_filter_def split: option.splits)

lemma take_entries_spec:
  "take_entries parent page files = (page', rest) \<Longrightarrow>
     page' @ accepted parent rest = page @ accepted parent files \<and>
     (length page \<le> MAX_PAGE_ENTRIES \<longrightarrow> length page' \<le> MAX_PAGE_ENTRIES) \<and>
     (rest = [] \<or> length page' \<ge> MAX_PAGE_ENTRIES)"
proof (induction parent page files arbitrary: page' rest rule: take_entries.induct)
  case (2 parent page f fs)
  show ?case
  proof (cases "length page < MAX_PAGE_ENTRIES")
    case True
    let ?p = "case bounded_entry parent f of Some e \<Rightarrow> page @ [e] | None \<Rightarrow> page"
    have "take_entries parent ?p fs = (page', rest)" using 2(2) True by simp
    note ih = 2(1) [OF True this]
    have "length ?p \<le> MAX_PAGE_ENTRIES" using True by (simp split: option.splits)
    with ih show ?thesis by (auto split: option.splits)
  next
    case False
    with 2(2) show ?thesis by auto
  qed
qed simp

text \<open>What a read of one page does with the files it has and the answers it uses.\<close>

definition page_read :: "browser_world \<Rightarrow> directory_cursor \<Rightarrow> sftp_entry list \<Rightarrow>
    (browser_error + sftp_entry list) \<Rightarrow> directory_cursor \<Rightarrow> browser_world \<Rightarrow> bool" where
  "page_read w cur page r cur' w' \<longleftrightarrow>
     (\<exists>used. readdir_replies w = used @ readdir_replies w' \<and>
        (\<forall>entries. r = Inr entries \<longrightarrow>
           entries @ accepted (cursor_dir cur) (pending_files cur') =
             page @ accepted (cursor_dir cur) (pending_files cur @ answered_files used) \<and>
           length entries \<le> MAX_PAGE_ENTRIES \<and> (entries = [] \<longrightarrow> cursor_done cur'))) \<and>
     cursor_dir cur' = cursor_dir cur \<and> cursor_handle cur' = cursor_handle cur \<and>
     cursor_truncated cur' = cursor_truncated cur \<and>
     (cursor_done cur' \<longrightarrow> pending_files cur' = []) \<and>
     browser_events w' = browser_events w \<and> receiver_left w' = receiver_left w"

lemma page_read_stop:
  assumes "length page \<le> MAX_PAGE_ENTRIES" "cursor_done cur \<longrightarrow> pending_files cur = []"
    "page = [] \<longrightarrow> cursor_done cur"
  shows "page_read w cur page (Inr page) cur w"
  using assms by (auto simp: page_read_def answered_files_def)

lemma page_read_trans:
  assumes "take_entries (cursor_dir cur) page files = (page', rest)"
    and "readdir_replies w = used @ readdir_replies w1"
    and "files = pending_files cur @ answered_files used"
    and "browser_events w1 = browser_events w" "receiver_left w1 = receiver_left w"
    and "page_read w1 (cur\<lparr>pending_files := rest\<rparr>) page' r cur' w'"
  shows "page_read w cur page r cur' w'"
proof -
  have t: "page' @ accepted (cursor_dir cur) rest = page @ accepted (cursor_dir cur) files"
    using take_entries_spec [OF assms(1)] by simp
  from assms(6) obtain used' where u: "readdir_replies w1 = used' @ readdir_replies w'"
    "\<forall>entries. r = Inr entries \<longrightarrow>
       entries @ accepted (cursor_dir cur) (pending_files cur') =
         page' @ accepted (cursor_dir cur) (rest @ answered_files used') \<and>
       length entries \<le> MAX_PAGE_ENTRIES \<and> (entries = [] \<longrightarrow> cursor_done cur')"
    by (auto simp: page_read_def)
  have "page' @ accepted (cursor_dir cur) (rest @ answered_files used') =
      page @ accepted (cursor_dir cur) (pending_files cur @ answered_files (used @ used'))"
    using t assms(3) by (simp add: answered_files_def)
  then show ?thesis
    unfolding page_read_def
    using assms u by (intro conjI exI [of _ "used @ used'"]) (simp_all add: page_read_def)
qed

lemma read_loop_spec:
  assumes "length page \<le> MAX_PAGE_ENTRIES" "cursor_done cur \<longrightarrow> pending_files cur = []"
    "page = [] \<longrightarrow> \<not> cursor_done cur" "read_loop w cur page = (r, cur', w')"
  shows "page_read w cur page r cur' w'"
  using assms
proof (induction w cur page arbitrary: r cur' w' rule: read_loop.induct)
  case (1 w cur page)
  have max0: "0 < MAX_PAGE_ENTRIES" by (simp add: MAX_PAGE_ENTRIES_def)
  show ?case
  proof (cases "length page < MAX_PAGE_ENTRIES \<and> \<not> cursor_done cur")
    case False
    then have "page \<noteq> []" using 1(5) max0 by auto
    with False 1 show ?thesis by (auto simp: read_loop.simps [of w] intro: page_read_stop)
  next
    case go: True
    show ?thesis
    proof (cases "pending_files cur = []")
      case none: True
      show ?thesis
      proof (cases "page = []")
        case False
        with go none 1 show ?thesis by (auto simp: read_loop.simps [of w] intro: page_read_stop)
      next
        case nil: True
        show ?thesis
        proof (cases "readdir_replies w")
          case Nil
          with go none nil 1(6) show ?thesis
            by (auto simp: read_loop.simps [of w] page_read_def readdir_def)
        next
          case (Cons a rs)
          obtain w1 where w1: "readdir w (cursor_handle cur) = (a, w1)" "readdir_replies w1 = rs"
            "browser_events w1 = browser_events w" "receiver_left w1 = receiver_left w"
            using Cons by (simp add: readdir_def pop_reply_def)
          show ?thesis
          proof (cases "(\<exists>e. a = Inl e) \<or> a = Inr []")
            case True
            with go none nil 1(6) Cons w1 show ?thesis
              by (auto simp: read_loop.simps [of w] page_read_def answered_files_def split: if_splits)
          next
            case False
            then obtain f fs where a: "a = Inr (f # fs)" by (cases a) (auto simp: neq_Nil_conv)
            obtain page' rest where t: "take_entries (cursor_dir cur) page (f # fs) = (page', rest)"
              by (meson surj_pair)
            have eq: "read_loop w cur page = read_loop w1 (cur\<lparr>pending_files := rest\<rparr>) page'"
              using go none nil Cons w1 a t by (simp add: read_loop.simps [of w])
            have ih: "page_read w1 (cur\<lparr>pending_files := rest\<rparr>) page' r cur' w'"
              by (rule 1(1) [OF _ none _ _ w1(1) [symmetric] a refl t [symmetric]])
                (use go none nil Cons t 1(6) eq take_entries_spec [OF t] in auto)
            show ?thesis
              by (rule page_read_trans [OF t, of _ "[a]" w1])
                (use Cons w1 a none ih in \<open>auto simp: answered_files_def\<close>)
          qed
        qed
      qed
    next
      case some: False
      obtain page' rest where t: "take_entries (cursor_dir cur) page (pending_files cur) = (page', rest)"
        by (meson surj_pair)
      have eq: "read_loop w cur page = read_loop w (cur\<lparr>pending_files := rest\<rparr>) page'"
        using go some t by (simp add: read_loop.simps [of w])
      have ih: "page_read w (cur\<lparr>pending_files := rest\<rparr>) page' r cur' w'"
        by (rule 1(2) [OF _ some t [symmetric]])
          (use go some t 1(6) eq take_entries_spec [OF t] 1(3) in auto)
      show ?thesis
        by (rule page_read_trans [OF t, of w "[]" w]) (use ih in \<open>auto simp: answered_files_def\<close>)
    qed
  qed
qed

lemma read_page_spec:
  "\<not> cursor_done cur \<Longrightarrow> read_page w cur = (r, cur', w') \<Longrightarrow> page_read w cur [] r cur' w'"
  unfolding read_page_def by (rule read_loop_spec) auto

text \<open>
  Paging loses nothing: the entries of a page, followed by what the cursor still holds, are
  exactly the acceptable files among those it held and those the server has answered, in order;
  a page has at most 250 entries and only the last page of a directory can be empty.
\<close>

theorem page_lossless:
  assumes "\<not> cursor_done cur" "read_page w cur = (Inr entries, cur', w')"
  shows "\<exists>used. readdir_replies w = used @ readdir_replies w' \<and>
    entries @ accepted (cursor_dir cur) (pending_files cur') =
      accepted (cursor_dir cur) (pending_files cur @ answered_files used) \<and>
    length entries \<le> MAX_PAGE_ENTRIES \<and> (entries = [] \<longrightarrow> cursor_done cur' \<and> pending_files cur' = [])"
proof -
  have p: "page_read w cur [] (Inr entries) cur' w'" by (rule read_page_spec [OF assms])
  then obtain used where u: "readdir_replies w = used @ readdir_replies w'"
    "entries @ accepted (cursor_dir cur) (pending_files cur') =
      accepted (cursor_dir cur) (pending_files cur @ answered_files used)"
    "length entries \<le> MAX_PAGE_ENTRIES" "entries = [] \<longrightarrow> cursor_done cur'"
    by (auto simp: page_read_def)
  from p have "cursor_done cur' \<longrightarrow> pending_files cur' = []" by (simp add: page_read_def)
  with u show ?thesis by blast
qed

definition example_file :: "string \<Rightarrow> dir_file" where
  "example_file name = \<lparr>filename = name, type_is_dir = False, type_is_symlink = False,
     attr_size = Some 3, attr_mtime = None\<rparr>"

definition example_world :: browser_world where
  "example_world = \<lparr>realpath_replies = [Inr [''/srv'']], opendir_replies = [Inr ''h1''],
     readdir_replies = [Inr [example_file ''.'', example_file ''..''],
        Inr [example_file ''a'', example_file ''../x'']], server_calls = [], browser_events = [],
     receiver_left = None\<rparr>"

definition example_cursor :: directory_cursor where
  "example_cursor = \<lparr>cursor_dir = ''/srv'', cursor_handle = ''h1'', pending_files = [],
     cursor_done = False, cursor_truncated = False\<rparr>"

lemma bounded_entry_example:
  "bounded_entry ''/srv'' (example_file ''.'') = None"
  "bounded_entry ''/srv'' (example_file ''..'') = None"
  "bounded_entry ''/srv'' (example_file ''../x'') = None"
  "bounded_entry ''/srv'' (example_file ''a'') =
     Some \<lparr>entry_name = ''a'', entry_path = ''/srv/a'', is_dir = False, is_symlink = False,
       entry_size = 3, modified = None\<rparr>"
  by (simp_all add: bounded_entry_def example_file_def Let_def validate_remote_path_def join_remote_def
      trim_end_matches_def)

lemma read_page_example:
  "read_page example_world example_cursor =
     (Inr [\<lparr>entry_name = ''a'', entry_path = ''/srv/a'', is_dir = False, is_symlink = False,
       entry_size = 3, modified = None\<rparr>], example_cursor,
      example_world\<lparr>readdir_replies := [], server_calls := [CallReaddir ''h1'', CallReaddir ''h1'']\<rparr>)"
  by (simp add: read_page_def read_loop.simps example_world_def example_cursor_def readdir_def
      pop_reply_def bounded_entry_example MAX_PAGE_ENTRIES_def)

theorem page_lossless_witness:
  "\<exists>used. readdir_replies example_world = used @ [] \<and>
    [\<lparr>entry_name = ''a'', entry_path = ''/srv/a'', is_dir = False, is_symlink = False,
       entry_size = 3, modified = None\<rparr>] @ accepted ''/srv'' [] =
      accepted ''/srv'' ([] @ answered_files used)"
  using page_lossless [OF _ read_page_example] by (auto simp: example_cursor_def)

section \<open>What the receiver of the events can rely on\<close>

definition entry_ok :: "string \<Rightarrow> sftp_entry \<Rightarrow> bool" where
  "entry_ok dir e \<longleftrightarrow> proper_part (entry_name e) \<and> \<not> has_control (entry_name e) \<and>
     entry_path e = join_remote dir (entry_name e) \<and> \<not> has_control (entry_path e)"

definition event_ok :: "browser_event \<Rightarrow> bool" where
  "event_ok e \<longleftrightarrow>
     (case e of
        DirectoryPage _ dir entries _ _ _ \<Rightarrow>
          length entries \<le> MAX_PAGE_ENTRIES \<and> list_all (entry_ok dir) entries
      | BrowserFailed _ m \<Rightarrow> char_count m \<le> MAX_ERROR_CHARS + 3
      | _ \<Rightarrow> True)"

lemma bounded_entry_ok: "bounded_entry dir f = Some e \<Longrightarrow> entry_ok dir e"
  by (auto simp: bounded_entry_def entry_ok_def proper_part_def validate_remote_path_def Let_def
      split: if_splits)

lemma accepted_ok: "list_all (entry_ok dir) (accepted dir files)"
  by (induction files) (auto split: option.splits dest: bounded_entry_ok)

text \<open>Steps that only add events, none of them the final one.\<close>

definition extends :: "browser_world \<Rightarrow> browser_world \<Rightarrow> bool" where
  "extends w w' \<longleftrightarrow>
     (\<exists>es. browser_events w' = browser_events w @ es \<and> (\<forall>e \<in> set es. event_ok e \<and> e \<noteq> BrowserClosed)) \<and>
     (receiver_left w = None \<longrightarrow> receiver_left w' = None)"

lemma extends_refl [simp, intro]: "extends w w"
  by (auto simp: extends_def)

lemma extends_trans [trans]: "extends w w' \<Longrightarrow> extends w' w'' \<Longrightarrow> extends w w''"
  unfolding extends_def by (metis UnE append.assoc set_append)

lemma extends_same:
  "browser_events w' = browser_events w \<Longrightarrow> receiver_left w' = receiver_left w \<Longrightarrow> extends w w'"
  by (simp add: extends_def)

lemma extends_send:
  "send_browser_event w e = (b, w') \<Longrightarrow> event_ok e \<Longrightarrow> e \<noteq> BrowserClosed \<Longrightarrow> extends w w'"
  by (auto simp: send_browser_event_def extends_def split: option.splits nat.splits)

lemma extends_close [simp]: "extends w (close_handle w h)" "extends w (close_cursor w cur)"
  by (simp_all add: close_cursor_def close_handle_def extends_same)

lemma extends_error: "extends w (send_request_error describe w r e)"
  unfolding send_request_error_def
  by (rule extends_send [OF prod.collapse [symmetric]])
    (simp_all add: event_ok_def bounded_error_bounded)

lemma extends_readdir: "\<not> cursor_done cur \<Longrightarrow> read_page w cur = (r, cur', w') \<Longrightarrow> extends w w'"
  using read_page_spec [of cur w r cur' w'] by (simp add: page_read_def extends_same)

lemma page_event_ok:
  assumes "\<not> cursor_done cur" "pending_files cur = fs" "read_page w cur = (Inr entries, cur', w')"
  shows "event_ok (DirectoryPage req (cursor_dir cur') entries a b c)"
proof -
  obtain used where u: "entries @ accepted (cursor_dir cur) (pending_files cur') =
      accepted (cursor_dir cur) (pending_files cur @ answered_files used)"
    "length entries \<le> MAX_PAGE_ENTRIES" "cursor_dir cur' = cursor_dir cur"
    using read_page_spec [OF assms(1,3)] by (auto simp: page_read_def)
  have "list_all (entry_ok (cursor_dir cur)) (entries @ accepted (cursor_dir cur) (pending_files cur'))"
    unfolding u(1) by (rule accepted_ok)
  with u(2,3) show ?thesis by (simp add: event_ok_def)
qed

lemma extends_emit:
  assumes "\<not> cursor_done cur" "emit_page w cur req app = (r, cur', w')"
  shows "extends w w'"
proof -
  obtain r1 cur1 w1 where p: "read_page w cur = (r1, cur1, w1)" by (metis prod_cases3)
  have e1: "extends w w1" by (rule extends_readdir [OF assms(1) p])
  show ?thesis
  proof (cases r1)
    case (Inl e)
    then show ?thesis using assms(2) p e1 by (simp add: emit_page_def)
  next
    case (Inr entries)
    let ?ev = "DirectoryPage req (cursor_dir cur1) entries app (\<not> cursor_done cur1) (cursor_truncated cur1)"
    obtain b w2 where s: "send_browser_event w1 ?ev = (b, w2)" by (meson surj_pair)
    have e2: "extends w1 w2"
      by (rule extends_send [OF s]) (use page_event_ok [OF assms(1) refl] p Inr in auto)
    have "w' = w2 \<or> (\<exists>h. w' = close_handle w2 h)"
      using assms(2) p Inr s by (auto simp: emit_page_def split: bool.splits if_splits)
    with e1 e2 show ?thesis by (auto intro: extends_trans)
  qed
qed

lemma extends_canonicalize: "canonicalize w p = (r, w') \<Longrightarrow> extends w w'"
  by (auto simp: canonicalize_def Let_def split: sum.splits list.splits intro!: extends_same)

lemma open_directory_facts:
  "open_directory w p = (r, w') \<Longrightarrow>
     extends w w' \<and> (\<forall>cur. r = Inr cur \<longrightarrow> \<not> cursor_done cur \<and> pending_files cur = [])"
  by (auto simp: open_directory_def Let_def split: sum.splits intro!: extends_same)

lemma extends_listing: "open_listing w current home req path = (r, w') \<Longrightarrow> extends w w'"
  by (auto simp: open_listing_def split: sum.splits prod.splits
      dest!: extends_canonicalize open_directory_facts extends_emit intro: extends_trans)

lemma extends_command:
  "browser_command_step describe home w cursor c = (fl, cursor', w') \<Longrightarrow> extends w w'"
  by (cases c) (auto simp: browser_command_step_def Let_def
      split: sum.splits prod.splits if_splits option.splits
      dest!: extends_listing extends_emit intro: extends_trans extends_error)

lemma extends_loop: "browser_loop describe home w cursor inputs = (r, w') \<Longrightarrow> extends w w'"
proof (induction inputs arbitrary: w cursor)
  case (Cons i inputs)
  then show ?case
    by (cases i) (auto split: prod.splits browser_flow.splits dest!: extends_command intro: extends_trans)
qed simp

lemma extends_opened: "send_browser_event u (Opened h) = (b, u') \<Longrightarrow> extends u u'"
  by (erule extends_send) (simp_all add: event_ok_def)

text \<open>The same facts as backward steps along a run.\<close>

lemma extends_steps:
  "canonicalize u p = (r1, v) \<Longrightarrow> extends w u \<Longrightarrow> extends w v"
  "send_browser_event u (Opened h) = (b, v) \<Longrightarrow> extends w u \<Longrightarrow> extends w v"
  "open_directory u p = (r2, v) \<Longrightarrow> extends w u \<Longrightarrow> extends w v"
  "emit_page v cur req app = (r3, cur', v') \<Longrightarrow> open_directory u p = (Inr cur, v) \<Longrightarrow>
     extends w u \<Longrightarrow> extends w v'"
  "browser_loop describe home u cursor inputs = (r4, v) \<Longrightarrow> extends w u \<Longrightarrow> extends w v"
  "extends w u \<Longrightarrow> extends w (close_cursor u c)"
proof -
  note t = extends_trans [of w u]
  show "canonicalize u p = (r1, v) \<Longrightarrow> extends w u \<Longrightarrow> extends w v"
    by (rule t [OF _ extends_canonicalize])
  show "send_browser_event u (Opened h) = (b, v) \<Longrightarrow> extends w u \<Longrightarrow> extends w v"
    by (rule t [OF _ extends_opened])
  show "open_directory u p = (r2, v) \<Longrightarrow> extends w u \<Longrightarrow> extends w v"
    by (rule t) (simp_all add: open_directory_facts)
  assume e: "emit_page v cur req app = (r3, cur', v')" and o: "open_directory u p = (Inr cur, v)"
    and "extends w u"
  have "extends u v" "\<not> cursor_done cur" using open_directory_facts [OF o] by simp_all
  with extends_emit [OF _ e] have "extends u v'" by (auto intro: extends_trans [of u v v'])
  with \<open>extends w u\<close> show "extends w v'" by (rule extends_trans)
next
  show "browser_loop describe home u cursor inputs = (r4, v) \<Longrightarrow> extends w u \<Longrightarrow> extends w v"
    by (rule extends_trans [OF _ extends_loop])
  show "extends w u \<Longrightarrow> extends w (close_cursor u c)"
    by (rule extends_trans [OF _ extends_close(2)])
qed

lemma extends_inner:
  "run_browser_inner describe handshake closing w initial inputs = (r, w') \<Longrightarrow> extends w w'"
  unfolding run_browser_inner_def
  by (auto split: sum.splits prod.splits bool.splits option.splits;
      ((erule extends_steps(4), assumption) | erule extends_steps(1) extends_steps(2)
        extends_steps(3) extends_steps(5) | rule extends_steps(6) | rule extends_refl)+)

text \<open>
  Whatever the server answers, the browser reports its end exactly once and last, every page has
  at most 250 entries, and every entry has a proper file name (no separator, no dot name, no control
  character) and lies directly in the directory of its page; error texts stay bounded.
\<close>

theorem browser_events_wellformed:
  assumes "receiver_left w = None" "browser_events w = []"
  shows "\<exists>es. browser_events (run_browser describe handshake closing w initial inputs) =
      es @ [BrowserClosed] \<and> BrowserClosed \<notin> set es \<and> list_all event_ok es"
proof -
  obtain r w1 where i: "run_browser_inner describe handshake closing w initial inputs = (r, w1)"
    by (meson surj_pair)
  note e1 = extends_inner [OF i]
  define w2 where "w2 = (case r of
     Inl e \<Rightarrow> snd (send_browser_event w1 (BrowserFailed None (bounded_error (describe e))))
   | Inr _ \<Rightarrow> w1)"
  have "extends w1 w2"
    using extends_error [of w1 describe None]
    by (auto simp: w2_def send_request_error_def split: sum.splits)
  with e1 have e: "extends w w2" by (rule extends_trans)
  then obtain es where es: "browser_events w2 = es" "\<forall>e \<in> set es. event_ok e \<and> e \<noteq> BrowserClosed"
    and left: "receiver_left w2 = None" using assms by (auto simp: extends_def)
  have "run_browser describe handshake closing w initial inputs = snd (send_browser_event w2 BrowserClosed)"
    by (simp add: run_browser_def i w2_def Let_def)
  with es left show ?thesis by (auto simp: send_browser_event_def list_all_iff)
qed

theorem browser_events_wellformed_witness:
  "\<exists>es. browser_events (run_browser (\<lambda>_. ''error'') (Inr ()) (Inr ()) example_world ''.'' []) =
      es @ [BrowserClosed] \<and> BrowserClosed \<notin> set es \<and> list_all event_ok es"
  by (rule browser_events_wellformed) (simp_all add: example_world_def)

section \<open>Answers to requests\<close>

fun event_request :: "browser_event \<Rightarrow> u64 option option" where
  "event_request (DirectoryPage r _ _ _ _ _) = Some r"
| "event_request (BrowserFailed r _) = Some r"
| "event_request _ = None"

fun command_request :: "browser_command \<Rightarrow> u64 option option" where
  "command_request (ListDir r _) = Some r"
| "command_request (LoadMore r) = Some (Some r)"
| "command_request Close = None"

definition silent :: "browser_world \<Rightarrow> browser_world \<Rightarrow> bool" where
  "silent w w' \<longleftrightarrow> browser_events w' = browser_events w \<and> receiver_left w' = receiver_left w"

lemma silent_trans: "silent w w' \<Longrightarrow> silent w' w'' \<Longrightarrow> silent w w''"
  by (simp add: silent_def)

lemma silent_open:
  "canonicalize w p = (r, w') \<Longrightarrow> silent w w'"
  "open_directory w p = (r', w') \<Longrightarrow> silent w w'"
  "silent w (close_cursor w cur)"
  by (auto simp: canonicalize_def open_directory_def close_cursor_def close_handle_def silent_def Let_def
      split: sum.splits list.splits)

lemma emit_page_answer:
  assumes "receiver_left w = None" "\<not> cursor_done cur" "emit_page w cur req app = (r, cur', w')"
  shows "case r of
      Inl _ \<Rightarrow> silent w w'
    | Inr _ \<Rightarrow> receiver_left w' = None \<and>
        (\<exists>d es m t. browser_events w' = browser_events w @ [DirectoryPage req d es app m t])"
proof -
  obtain r1 cur1 w1 where p: "read_page w cur = (r1, cur1, w1)" by (metis prod_cases3)
  have e: "browser_events w1 = browser_events w" "receiver_left w1 = receiver_left w"
    using read_page_spec [OF assms(2) p] by (simp_all add: page_read_def)
  show ?thesis
    using assms(1,3) p e
    by (cases r1) (auto simp: emit_page_def silent_def send_browser_event_def close_handle_def split: if_splits)
qed

lemma open_listing_answer:
  assumes "receiver_left w = None" "open_listing w current home req path = (r, w')"
  shows "case r of
      Inl _ \<Rightarrow> silent w w'
    | Inr _ \<Rightarrow> receiver_left w' = None \<and>
        (\<exists>d es m t. browser_events w' = browser_events w @ [DirectoryPage req d es False m t])"
proof (cases "resolve_remote_path current home path")
  case (Inl e)
  then show ?thesis using assms by (auto simp: open_listing_def silent_def)
next
  case (Inr resolved)
  obtain r1 w1 where c: "canonicalize w resolved = (r1, w1)" by (meson surj_pair)
  have s1: "silent w w1" by (rule silent_open(1) [OF c])
  show ?thesis
  proof (cases r1)
    case (Inl e)
    then show ?thesis using assms Inr c s1 Inl \<open>resolve_remote_path _ _ _ = _\<close>
      by (auto simp: open_listing_def)
  next
    case can: (Inr canonical)
    obtain r2 w2 where o: "open_directory w1 canonical = (r2, w2)" by (meson surj_pair)
    have s2: "silent w w2" using s1 silent_open(2) [OF o] by (rule silent_trans)
    show ?thesis
    proof (cases r2)
      case (Inl e)
      then show ?thesis using assms Inr c can o s2 by (auto simp: open_listing_def)
    next
      case cur: (Inr cur)
      obtain r3 cur' w3 where e: "emit_page w2 cur req False = (r3, cur', w3)" by (metis prod_cases3)
      have nd: "\<not> cursor_done cur" using open_directory_facts [OF o] cur by simp
      have "receiver_left w2 = None" using s2 assms(1) by (simp add: silent_def)
      note a = emit_page_answer [OF this nd e]
      show ?thesis
      proof (cases r3)
        case (Inl x)
        then show ?thesis using assms Inr c can o cur e a s2
          by (auto simp: open_listing_def intro: silent_trans)
      next
        case (Inr x)
        then show ?thesis using assms \<open>resolve_remote_path _ _ _ = _\<close> c can o cur e a s2
          by (auto simp: open_listing_def silent_def)
      qed
    qed
  qed
qed

text \<open>
  C35. Every directory request is answered exactly once and under its own request id (with its page or
  with its error), unless the connection itself has failed, in which case it is not answered at all
  and the browser stops.
\<close>

theorem request_answered_once:
  assumes "receiver_left w = None" "command_request c = Some req"
    and "browser_command_step describe home w cursor c = (flow, cursor', w')"
  shows "case flow of
      Continue \<Rightarrow> \<exists>e. browser_events w' = browser_events w @ [e] \<and> event_request e = Some req
    | Break \<Rightarrow> False
    | Abort e \<Rightarrow> browser_transport_failed e \<and> browser_events w' = browser_events w"
proof -
  have err: "browser_events (send_request_error describe u q e) =
      browser_events u @ [BrowserFailed q (bounded_error (describe e))]"
    if "receiver_left u = None" for u q e
    using that by (simp add: send_request_error_def send_browser_event_def)
  show ?thesis
  proof (cases c)
    case (ListDir q path)
    let ?cur = "case cursor of Some cur \<Rightarrow> cursor_dir cur | None \<Rightarrow> home"
    obtain r w1 where l: "open_listing w ?cur home q path = (r, w1)" by (meson surj_pair)
    note a = open_listing_answer [OF assms(1) l]
    show ?thesis
    proof (cases r)
      case (Inl e)
      have s: "silent w w1" using a Inl by simp
      then show ?thesis using assms ListDir l Inl err [of w1]
        by (cases "browser_transport_failed e") (auto simp: browser_command_step_def silent_def)
    next
      case (Inr nxt)
      then show ?thesis using assms ListDir l a silent_open(3) [of w1]
        by (cases cursor) (auto simp: browser_command_step_def silent_def)
    qed
  next
    case (LoadMore q)
    show ?thesis
    proof (cases "cursor = None \<or> (\<exists>cur. cursor = Some cur \<and> cursor_done cur)")
      case True
      then show ?thesis using assms LoadMore err [of w]
        by (auto simp: browser_command_step_def)
    next
      case False
      then obtain cur where cur: "cursor = Some cur" "\<not> cursor_done cur" by auto
      obtain r cur1 w1 where e: "emit_page w cur (Some q) True = (r, cur1, w1)" by (metis prod_cases3)
      note a = emit_page_answer [OF assms(1) cur(2) e]
      show ?thesis
      proof (cases r)
        case (Inl x)
        have s: "silent w w1" using a Inl by simp
        then show ?thesis using assms LoadMore cur e Inl err [of w1]
          by (cases "browser_transport_failed x") (auto simp: browser_command_step_def silent_def)
      next
        case (Inr x)
        then show ?thesis using assms LoadMore cur e a by (auto simp: browser_command_step_def)
      qed
    qed
  next
    case Close
    then show ?thesis using assms by simp
  qed
qed

theorem request_answered_once_witness:
  "\<exists>e. browser_events (send_request_error (\<lambda>_. ''no'') example_world (Some 7) DirectoryNotOpen) =
      browser_events example_world @ [e] \<and> event_request e = Some (Some 7)"
  using request_answered_once [of example_world "LoadMore 7" "Some 7" "\<lambda>_. ''no''" "''/''" None Continue None
      "send_request_error (\<lambda>_. ''no'') example_world (Some 7) DirectoryNotOpen"]
  by (simp add: browser_command_step_def example_world_def)

section \<open>Directory handles\<close>

definition closed_handles :: "browser_world \<Rightarrow> string list" where
  "closed_handles w = List.map_filter (\<lambda>c. case c of CallClose h \<Rightarrow> Some h | _ \<Rightarrow> None) (server_calls w)"

lemma closed_handles_more [simp]:
  "closed_handles (w\<lparr>server_calls := server_calls w @ [c]\<rparr>) =
     closed_handles w @ (case c of CallClose h \<Rightarrow> [h] | _ \<Rightarrow> [])"
  by (simp add: closed_handles_def map_filter_def split: server_call.splits)

text \<open>
  A listing whose first page cannot be read leaves its new handle open on the server: the command
  closes no handle at all, although \<^verbatim>\<open>opendir\<close> has succeeded.
\<close>

lemma failed_listing_keeps_handle:
  "let w = \<lparr>realpath_replies = [Inr [''/srv'']], opendir_replies = [Inr ''h1''],
       readdir_replies = [Inl (Client (StatusError OtherStatus))], server_calls = [],
       browser_events = [], receiver_left = None\<rparr> in
   case browser_command_step (\<lambda>_. ''denied'') ''/'' w None (ListDir (Some 1) ''/srv'') of
     (flow, cursor, w') \<Rightarrow> flow = Continue \<and> cursor = None \<and>
       CallOpendir ''/srv'' \<in> set (server_calls w') \<and> closed_handles w' = []"
  by (simp add: browser_command_step_def open_listing_def resolve_remote_path_def
      validate_remote_path_def resolve_candidate_def strip_prefix_def starts_with_def
      normalize_remote_path_def remote_parts_def push_part_def assemble_remote_def canonicalize_def
      pop_reply_def open_directory_def emit_page_def read_page_def read_loop.simps readdir_def
      MAX_PAGE_ENTRIES_def browser_transport_failed_def send_request_error_def
      send_browser_event_def closed_handles_def map_filter_def Let_def)

end
