(* ===== verification/Sftp_Navigation.thy ===== *)
theory Sftp_Navigation
  imports Local_Directory Sftp_Browser
begin

text \<open>
  The remote side of an SFTP tab: the navigation, selection and sorting part of
  \<^verbatim>\<open>SftpBrowserState\<close> (\<^verbatim>\<open>src/app/state/sftp.rs\<close>) and the handler that applies the browser
  task's events to it (\<^verbatim>\<open>apply_sftp_event\<close> of \<^verbatim>\<open>src/app/connection_monitor.rs\<close>). The state of
  files being edited outside (\<^verbatim>\<open>RemoteEdits\<close>) is a type parameter \<open>'x\<close>; its default value is an
  argument where the code resets it.
\<close>

section \<open>State\<close>

record 'x sftp_nav =
  sb_open :: bool
  sb_loading :: bool
  sb_home :: string
  sb_path :: string
  sb_entries :: "sftp_entry list"
  sb_has_more :: bool
  sb_truncated :: bool
  sb_status :: string
  sb_request_id :: u64
  sb_selected :: "string set"
  sb_sort :: sort_state
  sb_back :: "string list"
  sb_forward :: "string list"
  sb_pending_navigation :: "pending_navigation option"
  sb_pending_auto_refresh :: "string option"
  sb_local :: local_directory
  sb_rename_name :: string
  sb_external_edits :: 'x

section \<open>Operations\<close>

definition sort_remote_entries :: "(string \<Rightarrow> string) \<Rightarrow> sort_state \<Rightarrow> sftp_entry list \<Rightarrow> sftp_entry list" where
  "sort_remote_entries lower srt es =
     sort_by (\<lambda>a b. compare_entries lower entry_name entry_path entry_size modified srt a b \<noteq> Greater) es"

definition toggle_sort :: "(string \<Rightarrow> string) \<Rightarrow> ('x, 'm) sftp_nav_scheme \<Rightarrow> string \<Rightarrow>
    ('x, 'm) sftp_nav_scheme \<times> bool" where
  "toggle_sort lower s column =
     (case toggle_column (sb_sort s) column of
        (_, False) \<Rightarrow> (s, False)
      | (srt, True) \<Rightarrow>
          (s\<lparr>sb_sort := srt, sb_entries := sort_remote_entries lower srt (sb_entries s)\<rparr>, True))"

definition begin_navigation :: "('x, 'm) sftp_nav_scheme \<Rightarrow> navigation \<Rightarrow> string option \<Rightarrow>
    nav_error + (u64 \<times> string) \<times> ('x, 'm) sftp_nav_scheme" where
  "begin_navigation s kind path =
     (if sb_loading s then Inl RequestInProgress
      else
        case (case kind of
            Direct \<Rightarrow> (case path of None \<Rightarrow> Inl PathMissing | Some p \<Rightarrow> Inr (trim p))
          | Back \<Rightarrow> if sb_back s = [] then Inl NoPrevious else Inr (last (sb_back s))
          | Forward \<Rightarrow> if sb_forward s = [] then Inl NoNext else Inr (last (sb_forward s))
          | Up \<Rightarrow> (case remote_directory_parent (sb_path s) of None \<Rightarrow> Inl NoParent | Some p \<Rightarrow> Inr p)) of
          Inl e \<Rightarrow> Inl e
        | Inr requested \<Rightarrow>
            if requested = [] then Inl PathEmpty
            else
              (let request_id = next_generation (sb_request_id s) in
               Inr ((request_id, requested),
                 s\<lparr>sb_pending_navigation :=
                     Some \<lparr>nav_kind = kind, nav_from = sb_path s, nav_requested = requested\<rparr>,
                   sb_loading := True, sb_request_id := request_id,
                   sb_status := ''Loading directory...''\<rparr>)))"

definition begin_load_more :: "('x, 'm) sftp_nav_scheme \<Rightarrow> nav_error + u64 \<times> ('x, 'm) sftp_nav_scheme" where
  "begin_load_more s =
     (if sb_loading s then Inl RequestInProgress
      else if \<not> sb_has_more s then Inl NoAdditional
      else
        (let request_id = next_generation (sb_request_id s) in
         Inr (request_id,
           s\<lparr>sb_loading := True, sb_request_id := request_id, sb_status := ''Loading more files...''\<rparr>)))"

definition cancel_navigation :: "('x, 'm) sftp_nav_scheme \<Rightarrow> ('x, 'm) sftp_nav_scheme" where
  "cancel_navigation s = s\<lparr>sb_pending_navigation := None, sb_loading := False\<rparr>"

definition accepts_request :: "('x, 'm) sftp_nav_scheme \<Rightarrow> u64 option \<Rightarrow> bool" where
  "accepts_request s request_id =
     (case request_id of None \<Rightarrow> True | Some r \<Rightarrow> r = sb_request_id s)"

definition reset_navigation :: "'x \<Rightarrow> ('x, 'm) sftp_nav_scheme \<Rightarrow> ('x, 'm) sftp_nav_scheme" where
  "reset_navigation default_edits s =
     s\<lparr>sb_request_id := next_generation (sb_request_id s), sb_path := [], sb_entries := [],
       sb_has_more := False, sb_truncated := False, sb_selected := {},
       sb_external_edits := default_edits, sb_rename_name := [], sb_back := [], sb_forward := [],
       sb_pending_navigation := None, sb_pending_auto_refresh := None\<rparr>"

definition complete_navigation :: "('x, 'm) sftp_nav_scheme \<Rightarrow> string \<Rightarrow> ('x, 'm) sftp_nav_scheme" where
  "complete_navigation s path =
     (case complete_directory_history (sb_pending_navigation s) path (sb_back s) (sb_forward s) of
        (bk, fwd) \<Rightarrow>
          s\<lparr>sb_pending_navigation := None, sb_back := bk, sb_forward := fwd, sb_loading := False,
            sb_path := path\<rparr>)"

definition selected_count :: "('x, 'm) sftp_nav_scheme \<Rightarrow> nat" where
  "selected_count s = card {p \<in> sb_selected s. p \<in> entry_path ` set (sb_entries s)}"

definition all_selected :: "('x, 'm) sftp_nav_scheme \<Rightarrow> bool" where
  "all_selected s \<longleftrightarrow> sb_entries s \<noteq> [] \<and> selected_count s = length (sb_entries s)"

definition toggle_selection :: "('x, 'm) sftp_nav_scheme \<Rightarrow> string \<Rightarrow> bool \<Rightarrow>
    ('x, 'm) sftp_nav_scheme \<times> bool" where
  "toggle_selection s path selected =
     (if \<not> (\<exists>e \<in> set (sb_entries s). entry_path e = path) then (s, False)
      else
        (let s1 = s\<lparr>sb_selected :=
               (if selected then insert path (sb_selected s) else sb_selected s - {path})\<rparr> in
         (s1\<lparr>sb_rename_name :=
            (if selected_count s1 = 1 then
               (case find (\<lambda>e. entry_path e \<in> sb_selected s1) (sb_entries s1) of
                  Some e \<Rightarrow> entry_name e | None \<Rightarrow> [])
             else [])\<rparr>, True)))"

definition select_all :: "('x, 'm) sftp_nav_scheme \<Rightarrow> bool \<Rightarrow> ('x, 'm) sftp_nav_scheme" where
  "select_all s selected =
     (let s1 = s\<lparr>sb_selected :=
            (if selected then sb_selected s \<union> entry_path ` set (sb_entries s) else {})\<rparr> in
      s1\<lparr>sb_rename_name :=
         (if selected_count s1 = 1 then
            (case sb_entries s1 of e # _ \<Rightarrow> entry_name e | [] \<Rightarrow> [])
          else [])\<rparr>)"

definition visible_remote_directory_for_file :: "('x, 'm) sftp_nav_scheme \<Rightarrow> string \<Rightarrow> string option" where
  "visible_remote_directory_for_file s path =
     (if \<not> sb_open s then None
      else
        case remote_parent path of
          None \<Rightarrow> None
        | Some directory \<Rightarrow>
            if sb_path s = directory \<or> (sb_path s = ''/'' \<and> starts_with ''/'' directory) \<or>
               (sb_path s \<noteq> [] \<and>
                starts_with (trim_end_matches CHR ''/'' (sb_path s) @ ''/'') directory)
            then Some (sb_path s)
            else None)"

definition begin_refresh_after_remote_change :: "('x, 'm) sftp_nav_scheme \<Rightarrow> string \<Rightarrow>
    nav_error + (u64 \<times> string) option \<times> ('x, 'm) sftp_nav_scheme" where
  "begin_refresh_after_remote_change s directory =
     (if \<not> sb_open s \<or> sb_path s \<noteq> directory then Inr (None, s)
      else if sb_loading s then Inr (None, s\<lparr>sb_pending_auto_refresh := Some directory\<rparr>)
      else
        case begin_navigation s Direct (Some directory) of
          Inl e \<Rightarrow> Inl e
        | Inr (r, s') \<Rightarrow> Inr (Some r, s'))"

definition begin_pending_remote_refresh :: "('x, 'm) sftp_nav_scheme \<Rightarrow>
    (nav_error + (u64 \<times> string) option) \<times> ('x, 'm) sftp_nav_scheme" where
  "begin_pending_remote_refresh s =
     (if sb_loading s then (Inr None, s)
      else if \<not> sb_open s then (Inr None, s\<lparr>sb_pending_auto_refresh := None\<rparr>)
      else
        case sb_pending_auto_refresh s of
          None \<Rightarrow> (Inr None, s)
        | Some directory \<Rightarrow>
            (let s1 = s\<lparr>sb_pending_auto_refresh := None\<rparr> in
             case begin_refresh_after_remote_change s1 directory of
               Inl e \<Rightarrow> (Inl e, s1)
             | Inr (r, s') \<Rightarrow> (Inr r, s')))"

definition upload_directory :: "('x, 'm) sftp_nav_scheme \<Rightarrow> string option" where
  "upload_directory s =
     (if \<not> sb_open s \<or> trim (sb_path s) = [] then None
      else
        case sb_pending_navigation s of
          Some p \<Rightarrow> if nav_requested p \<noteq> sb_path s then None else Some (sb_path s)
        | None \<Rightarrow> Some (sb_path s))"

section \<open>Applying the events of the browser task\<close>

definition apply_directory_page :: "(string \<Rightarrow> string) \<Rightarrow> ('x, 'm) sftp_nav_scheme \<Rightarrow> string \<Rightarrow>
    sftp_entry list \<Rightarrow> bool \<Rightarrow> bool \<Rightarrow> bool \<Rightarrow> ('x, 'm) sftp_nav_scheme" where
  "apply_directory_page lower s path entries is_append has_more truncated =
     (let s1 = s\<lparr>sb_open := True, sb_loading := False\<rparr>;
          s2 = (if \<not> is_append then complete_navigation s1 path else s1\<lparr>sb_path := path\<rparr>);
          s3 = s2\<lparr>sb_entries := (if is_append then sb_entries s2 @ entries else entries)\<rparr>;
          s4 = s3\<lparr>sb_entries := sort_remote_entries lower (sb_sort s3) (sb_entries s3)\<rparr>;
          s5 = s4\<lparr>sb_selected :=
                 {p \<in> sb_selected s4. \<exists>e \<in> set (sb_entries s4). entry_path e = p}\<rparr> in
      s5\<lparr>sb_has_more := has_more, sb_truncated := truncated,
         sb_status := (if truncated then ''Directory text budget reached''
                       else show_nat (length (sb_entries s5)) @ '' items'')\<rparr>)"

definition apply_sftp_event :: "(string \<Rightarrow> string) \<Rightarrow> 'x \<Rightarrow> ('x, 'm) sftp_nav_scheme \<Rightarrow>
    browser_event \<Rightarrow> ('x, 'm) sftp_nav_scheme" where
  "apply_sftp_event lower default_edits s event =
     (case event of
        Opened home \<Rightarrow>
          (reset_navigation default_edits s)\<lparr>sb_open := True, sb_loading := True, sb_home := home,
             sb_status := ''Loading directory...''\<rparr>
      | DirectoryPage request_id path entries is_append has_more truncated \<Rightarrow>
          (if accepts_request s request_id then
             apply_directory_page lower s path entries is_append has_more truncated
           else s)
      | BrowserFailed request_id message \<Rightarrow>
          (if accepts_request s request_id then (cancel_navigation s)\<lparr>sb_status := message\<rparr> else s)
      | BrowserClosed \<Rightarrow> s\<lparr>sb_open := False, sb_loading := False, sb_has_more := False\<rparr>)"

section \<open>Invariant\<close>

definition remote_le :: "(string \<Rightarrow> string) \<Rightarrow> sort_state \<Rightarrow> sftp_entry \<Rightarrow> sftp_entry \<Rightarrow> bool" where
  "remote_le lower srt a b \<longleftrightarrow>
     compare_entries lower entry_name entry_path entry_size modified srt a b \<noteq> Greater"

lemma sorted_remote_entries: "sorted_wrt (remote_le lower srt) (sort_remote_entries lower srt es)"
  unfolding sort_remote_entries_def remote_le_def [abs_def]
  by (rule total_comparator.sorted_by_cmp [OF compare_entries_total])

lemma sort_remote_entries_simps [simp]:
  "mset (sort_remote_entries lower srt es) = mset es"
  "set (sort_remote_entries lower srt es) = set es"
  "length (sort_remote_entries lower srt es) = length es"
  by (simp_all add: sort_remote_entries_def)

definition nav_ok :: "(string \<Rightarrow> string) \<Rightarrow> ('x, 'm) sftp_nav_scheme \<Rightarrow> bool" where
  "nav_ok lower s \<longleftrightarrow> history_ok (sb_back s) \<and> history_ok (sb_forward s) \<and>
     sorted_wrt (remote_le lower (sb_sort s)) (sb_entries s) \<and>
     sb_selected s \<subseteq> entry_path ` set (sb_entries s)"

lemma nav_ok_cong:
  "sb_back s' = sb_back s \<Longrightarrow> sb_forward s' = sb_forward s \<Longrightarrow> sb_entries s' = sb_entries s \<Longrightarrow>
   sb_selected s' = sb_selected s \<Longrightarrow> sb_sort s' = sb_sort s \<Longrightarrow> nav_ok lower s \<Longrightarrow> nav_ok lower s'"
  by (simp add: nav_ok_def)

text \<open>Everything that happens to the remote side of a tab.\<close>

inductive nav_step :: "(string \<Rightarrow> string) \<Rightarrow> 'x \<Rightarrow> ('x, 'm) sftp_nav_scheme \<Rightarrow>
    ('x, 'm) sftp_nav_scheme \<Rightarrow> bool"
  for lower :: "string \<Rightarrow> string" and default_edits :: 'x where
  begin_nav: "begin_navigation s kind path = Inr (r, s') \<Longrightarrow> nav_step lower default_edits s s'"
| load_more: "begin_load_more s = Inr (r, s') \<Longrightarrow> nav_step lower default_edits s s'"
| cancel: "nav_step lower default_edits s (cancel_navigation s)"
| refresh: "begin_refresh_after_remote_change s dir = Inr (r, s') \<Longrightarrow> nav_step lower default_edits s s'"
| pending_refresh: "begin_pending_remote_refresh s = (r, s') \<Longrightarrow> nav_step lower default_edits s s'"
| event: "nav_step lower default_edits s (apply_sftp_event lower default_edits s e)"
| reset: "nav_step lower default_edits s (reset_navigation default_edits s)"
| sort: "nav_step lower default_edits s (fst (toggle_sort lower s column))"
| toggle: "nav_step lower default_edits s (fst (toggle_selection s path selected))"
| select_all: "nav_step lower default_edits s (select_all s selected)"

lemma begin_effect_remote:
  assumes "begin_navigation s kind path = Inr ((r, req), s')"
  shows "\<not> sb_loading s \<and> req \<noteq> [] \<and> r = next_generation (sb_request_id s) \<and>
    s' = s\<lparr>sb_pending_navigation :=
        Some \<lparr>nav_kind = kind, nav_from = sb_path s, nav_requested = req\<rparr>,
      sb_loading := True, sb_request_id := next_generation (sb_request_id s),
      sb_status := ''Loading directory...''\<rparr>"
  using assms by (auto simp: begin_navigation_def Let_def split: if_splits sum.splits)

lemma nav_ok_begin:
  "begin_navigation s kind path = Inr (q, s') \<Longrightarrow> nav_ok lower s \<Longrightarrow> nav_ok lower s'"
  using begin_effect_remote [of s kind path "fst q" "snd q" s'] by (auto intro: nav_ok_cong)

lemma nav_ok_refresh:
  "begin_refresh_after_remote_change s dir = Inr (r, s') \<Longrightarrow> nav_ok lower s \<Longrightarrow> nav_ok lower s'"
  unfolding begin_refresh_after_remote_change_def
  by (auto split: if_splits sum.splits prod.splits elim: nav_ok_begin intro: nav_ok_cong)

lemma complete_navigation_fields [simp]:
  "sb_entries (complete_navigation s p) = sb_entries s" "sb_selected (complete_navigation s p) = sb_selected s"
  "sb_sort (complete_navigation s p) = sb_sort s" "sb_path (complete_navigation s p) = p"
  "sb_loading (complete_navigation s p) = False" "sb_open (complete_navigation s p) = sb_open s"
  "sb_request_id (complete_navigation s p) = sb_request_id s"
  by (simp_all add: complete_navigation_def split: prod.splits)

lemma complete_navigation_histories:
  "history_ok (sb_back s) \<Longrightarrow> history_ok (sb_forward s) \<Longrightarrow>
     history_ok (sb_back (complete_navigation s p)) \<and> history_ok (sb_forward (complete_navigation s p))"
proof -
  assume h: "history_ok (sb_back s)" "history_ok (sb_forward s)"
  obtain bk fwd where c: "complete_directory_history (sb_pending_navigation s) p (sb_back s) (sb_forward s) =
      (bk, fwd)" by (meson surj_pair)
  from complete_history_ok [OF h c] show ?thesis by (simp add: complete_navigation_def c)
qed

lemma nav_ok_page:
  "nav_ok lower s \<Longrightarrow> nav_ok lower (apply_directory_page lower s path es app hm tr)"
  using complete_navigation_histories [of "s\<lparr>sb_open := True, sb_loading := False\<rparr>" path]
  by (auto simp: nav_ok_def apply_directory_page_def Let_def sorted_remote_entries)

lemma nav_ok_event: "nav_ok lower s \<Longrightarrow> nav_ok lower (apply_sftp_event lower d s e)"
proof (cases e)
  case (DirectoryPage r p es a h t)
  assume "nav_ok lower s"
  then show ?thesis by (simp add: apply_sftp_event_def DirectoryPage nav_ok_page)
qed (auto simp: apply_sftp_event_def cancel_navigation_def reset_navigation_def nav_ok_def)

lemma nav_ok_step: "nav_step lower d s s' \<Longrightarrow> nav_ok lower s \<Longrightarrow> nav_ok lower s'"
proof (induction rule: nav_step.induct)
  case (begin_nav s kind path r s')
  then show ?case by (rule nav_ok_begin)
next
  case (load_more s r s')
  then show ?case by (auto simp: begin_load_more_def Let_def split: if_splits intro: nav_ok_cong)
next
  case (refresh s dir r s')
  then show ?case by (rule nav_ok_refresh)
next
  case (pending_refresh s r s')
  have "nav_ok lower (s\<lparr>sb_pending_auto_refresh := None\<rparr>)"
    using pending_refresh(2) by (rule nav_ok_cong [rotated -1]) simp_all
  with pending_refresh show ?case
    by (auto simp: begin_pending_remote_refresh_def Let_def
        split: if_splits option.splits sum.splits prod.splits elim: nav_ok_refresh)
next
  case (event s e)
  then show ?case by (rule nav_ok_event)
next
  case (sort s column)
  then show ?case
    by (auto simp: toggle_sort_def nav_ok_def sorted_remote_entries split: prod.splits bool.splits)
next
  case (toggle s path selected)
  then show ?case by (auto simp: toggle_selection_def nav_ok_def Let_def)
next
  case (select_all s selected)
  then show ?case by (auto simp: select_all_def nav_ok_def Let_def)
qed (auto simp: cancel_navigation_def reset_navigation_def nav_ok_def intro: nav_ok_cong)

section \<open>The remote browser meets the contract\<close>

interpretation remote_nav: directory_browser begin_navigation complete_navigation sb_loading
  sb_pending_navigation "\<lambda>s. (sb_back s, sb_path s, sb_forward s)"
proof
  fix s :: "('x, 'm) sftp_nav_scheme" and bk here fwd path
  assume "\<not> sb_loading s" "(sb_back s, sb_path s, sb_forward s) = (bk, here, fwd)"
  then show "bk \<noteq> [] \<Longrightarrow> last bk \<noteq> [] \<Longrightarrow> \<exists>r s'. begin_navigation s Back path = Inr ((r, last bk), s')"
    and "fwd \<noteq> [] \<Longrightarrow> last fwd \<noteq> [] \<Longrightarrow>
      \<exists>r s'. begin_navigation s Forward path = Inr ((r, last fwd), s')"
    by (simp_all add: begin_navigation_def Let_def)
next
  fix s s' :: "('x, 'm) sftp_nav_scheme" and kind path r req
  assume "begin_navigation s kind path = Inr ((r, req), s')"
  from begin_effect_remote [OF this]
  show "\<not> sb_loading s \<and> sb_loading s' \<and>
      (sb_back s', sb_path s', sb_forward s') = (sb_back s, sb_path s, sb_forward s) \<and> req \<noteq> [] \<and>
      sb_pending_navigation s' = Some \<lparr>nav_kind = kind,
        nav_from = fst (snd (sb_back s, sb_path s, sb_forward s)), nav_requested = req\<rparr>"
    by simp
next
  fix s :: "('x, 'm) sftp_nav_scheme" and bk here fwd reached bk' fwd'
  assume "(sb_back s, sb_path s, sb_forward s) = (bk, here, fwd)"
    "complete_directory_history (sb_pending_navigation s) reached bk fwd = (bk', fwd')"
  then show "(sb_back (complete_navigation s reached), sb_path (complete_navigation s reached),
        sb_forward (complete_navigation s reached)) = (bk', reached, fwd') \<and>
      \<not> sb_loading (complete_navigation s reached)"
    by (simp add: complete_navigation_def)
qed

section \<open>Properties\<close>

text \<open>An empty tab, as \<^verbatim>\<open>SftpBrowserState::default\<close> makes it.\<close>

definition sftp_nav_default :: "'x \<Rightarrow> 'x sftp_nav" where
  "sftp_nav_default default_edits =
     \<lparr>sb_open = False, sb_loading = False, sb_home = [], sb_path = [], sb_entries = [],
      sb_has_more = False, sb_truncated = False, sb_status = [], sb_request_id = 0, sb_selected = {},
      sb_sort = sort_default, sb_back = [], sb_forward = [], sb_pending_navigation = None,
      sb_pending_auto_refresh = None, sb_local = local_directory_default, sb_rename_name = [],
      sb_external_edits = default_edits\<rparr>"

text \<open>
  C37. Whatever the user and the browser task do, in any order, the histories of the remote side stay
  within 128 directories without empty or repeated neighbours, the entries stay sorted by the current
  sort state, and only listed entries are selected (so no file operation can act on a file that is
  not shown).
\<close>

theorem remote_reachable_ok:
  assumes "(nav_step lower d)\<^sup>*\<^sup>* (sftp_nav_default d) s"
  shows "history_ok (sb_back s) \<and> history_ok (sb_forward s) \<and>
    sorted_wrt (remote_le lower (sb_sort s)) (sb_entries s) \<and>
    sb_selected s \<subseteq> entry_path ` set (sb_entries s)"
proof -
  have "nav_ok lower (sftp_nav_default d)" by (simp add: nav_ok_def sftp_nav_default_def)
  with assms have "nav_ok lower s"
    by (induction rule: rtranclp_induct) (auto intro: nav_ok_step)
  then show ?thesis by (simp add: nav_ok_def)
qed

theorem remote_reachable_ok_witness:
  "\<exists>s :: unit sftp_nav. sb_open s \<and> sb_home s = ''/root'' \<and> history_ok (sb_back s) \<and>
    sb_selected s \<subseteq> entry_path ` set (sb_entries s)"
proof -
  let ?s = "apply_sftp_event id () (sftp_nav_default ()) (Opened ''/root'')"
  have "(nav_step id ())\<^sup>*\<^sup>* (sftp_nav_default ()) ?s"
    by (rule r_into_rtranclp, rule nav_step.event)
  from remote_reachable_ok [OF this] have "history_ok (sb_back ?s)"
    "sb_selected ?s \<subseteq> entry_path ` set (sb_entries ?s)" by blast+
  moreover have "sb_open ?s" "sb_home ?s = ''/root''" by (simp_all add: apply_sftp_event_def)
  ultimately show ?thesis by blast
qed

text \<open>
  In the remote browser, going back and then forward again, each reaching the directory it asked
  for, restores the directory and both histories.
\<close>

theorem remote_back_then_forward:
  assumes "history_ok (sb_back s)" "history_ok (sb_forward s)" "\<not> sb_loading s"
    and "length (sb_forward s) < SFTP_HISTORY_LIMIT" "sb_back s \<noteq> []" "sb_path s \<noteq> []"
    and "sb_path s \<noteq> last (sb_back s)" "sb_forward s = [] \<or> last (sb_forward s) \<noteq> sb_path s"
  shows "\<exists>r1 s1 r2 s2. begin_navigation s Back None = Inr ((r1, last (sb_back s)), s1) \<and>
    (let t1 = complete_navigation s1 (last (sb_back s)); t2 = complete_navigation s2 (sb_path s) in
     sb_path t1 = last (sb_back s) \<and> sb_forward t1 = sb_forward s @ [sb_path s] \<and>
     begin_navigation t1 Forward None = Inr ((r2, sb_path s), s2) \<and>
     sb_path t2 = sb_path s \<and> sb_back t2 = sb_back s \<and> sb_forward t2 = sb_forward s)"
  using remote_nav.back_then_forward [of s "sb_back s" "sb_path s" "sb_forward s"] assms
  by (simp add: remote_nav.histories_ok_def Let_def) metis

theorem remote_back_then_forward_witness:
  "\<exists>r1 s1. begin_navigation ((sftp_nav_default ())\<lparr>sb_path := ''/b'', sb_back := [''/a'']\<rparr>) Back None =
      Inr ((r1, ''/a''), s1) \<and> sb_forward (complete_navigation s1 ''/a'') = [''/b'']"
  using remote_back_then_forward [of "(sftp_nav_default ())\<lparr>sb_path := ''/b'', sb_back := [''/a'']\<rparr>"]
  by (auto simp: Let_def history_ok_def SFTP_HISTORY_LIMIT_def sftp_nav_default_def)

text \<open>
  Answers to superseded requests are dropped: once \<open>k\<close> further request ids have been handed out
  (by navigations, further pages, reconnections), a page or a failure that carries the old id leaves
  the state as it is, for every \<open>k\<close> up to 2 to the 64 less 2.
\<close>

theorem stale_answer_ignored:
  assumes "0 < k" "k < 2 ^ 64 - 1" "sb_request_id s = (next_generation ^^ k) old"
  shows "apply_sftp_event lower d s (DirectoryPage (Some old) path entries app hm tr) = s \<and>
    apply_sftp_event lower d s (BrowserFailed (Some old) message) = s"
proof -
  have "sb_request_id s \<noteq> old" using next_generation_pow_neq [OF assms(1,2)] assms(3) by simp
  then show ?thesis by (simp add: apply_sftp_event_def accepts_request_def)
qed

theorem stale_answer_ignored_witness:
  "apply_sftp_event id () ((sftp_nav_default ())\<lparr>sb_request_id := 2\<rparr>) (BrowserFailed (Some 1) ''late'') =
    (sftp_nav_default ())\<lparr>sb_request_id := 2\<rparr>"
  using stale_answer_ignored [of 1 "(sftp_nav_default ())\<lparr>sb_request_id := 2\<rparr>" 1 id "()" _ _ _ _ _ "''late''"]
  by (simp add: next_generation_def)

text \<open>
  An accepted page is applied exactly: a first page replaces the entries, a further page adds to
  them, nothing is lost or duplicated, the result is sorted, the loading state ends, and the selection
  keeps exactly the selected paths that still exist.
\<close>

theorem page_applied_exactly:
  assumes "accepts_request s r"
  shows "let s' = apply_sftp_event lower d s (DirectoryPage r path entries app hm tr) in
    mset (sb_entries s') = mset entries + (if app then mset (sb_entries s) else {#}) \<and>
    sorted_wrt (remote_le lower (sb_sort s)) (sb_entries s') \<and> sb_path s' = path \<and>
    \<not> sb_loading s' \<and> sb_has_more s' = hm \<and>
    sb_selected s' = sb_selected s \<inter> entry_path ` set (sb_entries s')"
  using assms
  by (auto simp: apply_sftp_event_def apply_directory_page_def Let_def sorted_remote_entries)

theorem page_applied_exactly_witness:
  "sb_path (apply_sftp_event id () (sftp_nav_default ()) (DirectoryPage None ''/srv'' [] False True False))
     = ''/srv''"
  using page_applied_exactly [of "sftp_nav_default ()" None id "()" "''/srv''" "[]" False True False]
  by (simp add: accepts_request_def Let_def)

lemma card_one_find:
  assumes "card {p \<in> S. p \<in> f ` set xs} = 1"
  shows "\<exists>e \<in> set xs. find (\<lambda>x. f x \<in> S) xs = Some e \<and> {p \<in> S. p \<in> f ` set xs} = {f e}"
proof -
  from assms obtain p where p: "{p \<in> S. p \<in> f ` set xs} = {p}" by (auto simp: card_1_singleton_iff)
  then have "p \<in> {p \<in> S. p \<in> f ` set xs}" by simp
  then obtain x where x: "x \<in> set xs" "f x = p" "p \<in> S" by auto
  then obtain e where e: "find (\<lambda>x. f x \<in> S) xs = Some e"
    using find_NoneD [of "\<lambda>x. f x \<in> S" xs x] by (cases "find (\<lambda>x. f x \<in> S) xs") auto
  with find_SomeD [OF e] p show ?thesis by auto
qed

text \<open>
  Renaming is offered for exactly one file: after a selection is toggled, the name in the rename
  box is the name of the only selected entry, and it is empty when none or several are selected.
\<close>

theorem rename_name_follows_selection:
  assumes "toggle_selection s path selected = (s', True)"
  shows "if selected_count s' = 1
    then \<exists>e \<in> set (sb_entries s'). {p \<in> sb_selected s'. p \<in> entry_path ` set (sb_entries s')} = {entry_path e} \<and>
      sb_rename_name s' = entry_name e
    else sb_rename_name s' = []"
proof -
  define s1 where "s1 = s\<lparr>sb_selected :=
       (if selected then insert path (sb_selected s) else sb_selected s - {path})\<rparr>"
  have s': "s' = s1\<lparr>sb_rename_name := (if selected_count s1 = 1 then
       (case find (\<lambda>e. entry_path e \<in> sb_selected s1) (sb_entries s1) of
          Some e \<Rightarrow> entry_name e | None \<Rightarrow> []) else [])\<rparr>"
    using assms by (simp add: toggle_selection_def s1_def Let_def split: if_splits)
  have eq: "selected_count s' = selected_count s1" "sb_entries s' = sb_entries s1"
    "sb_selected s' = sb_selected s1" by (simp_all add: s' selected_count_def)
  show ?thesis
  proof (cases "selected_count s1 = 1")
    case True
    from card_one_find [OF True [unfolded selected_count_def]] True show ?thesis
      unfolding eq by (auto simp: s')
  next
    case False
    then show ?thesis unfolding eq by (simp add: s')
  qed
qed

theorem rename_name_follows_selection_witness:
  "sb_rename_name (fst (toggle_selection ((sftp_nav_default ())\<lparr>sb_entries :=
     [\<lparr>entry_name = ''a'', entry_path = ''/a'', is_dir = False, is_symlink = False, entry_size = 0,
       modified = None\<rparr>]\<rparr>) ''/a'' False)) = []"
proof -
  let ?s = "(sftp_nav_default ())\<lparr>sb_entries := [\<lparr>entry_name = ''a'', entry_path = ''/a'',
    is_dir = False, is_symlink = False, entry_size = 0, modified = None\<rparr>]\<rparr>"
  obtain s' where t: "toggle_selection ?s ''/a'' False = (s', True)"
    by (simp add: toggle_selection_def Let_def)
  have "sb_selected s' = {}"
    using t by (auto simp: toggle_selection_def sftp_nav_default_def Let_def)
  then have "selected_count s' = 0" by (simp add: selected_count_def)
  with rename_name_follows_selection [OF t] t show ?thesis by simp
qed

text \<open>
  Going up asks for the directory that \<^verbatim>\<open>..\<close> resolves to: for a normalised absolute directory
  below the root, \<^verbatim>\<open>remote_directory_parent\<close> and the path resolution of the browser task agree.
\<close>

theorem up_is_dot_dot:
  assumes "normalize_remote_path cur = Inr cur" "starts_with ''/'' cur" "remote_parts cur \<noteq> []"
    and "resolve_remote_path cur home ''..'' = Inr parent"
  shows "remote_directory_parent cur = Some parent"
proof -
  define ps where "ps = remote_parts cur"
  have c: "cur = assemble_remote True ps" using assms(1,2) unfolding normalize_Inr ps_def by simp
  have pp: "\<forall>x \<in> set ps. proper_part x" unfolding ps_def by (rule remote_parts_proper)
  obtain qs p where ps: "ps = qs @ [p]" using assms(3) unfolding ps_def by (cases "remote_parts cur" rule: rev_cases) auto
  have pq: "\<forall>x \<in> set qs. proper_part x" and p: "proper_part p" using pp ps by simp_all
  have cand: "resolve_candidate cur home ''..'' = assemble_remote True (ps @ [''..''])"
    using join_remote_assemble [OF pp, of "''..''"] c
    by (simp add: resolve_candidate_def strip_prefix_def starts_with_def)
  have "remote_parts (assemble_remote True (ps @ [''..''])) = foldl push_part [] (ps @ [''..''])"
    by (rule remote_parts_absolute) (use pp in \<open>auto simp: proper_part_def\<close>)
  also have "\<dots> = push_part (foldl push_part [] ps) ''..''" by simp
  also have "\<dots> = qs" by (simp only: fold_proper [OF pp]) (simp add: push_part_def ps)
  finally have parts: "remote_parts (assemble_remote True (ps @ [''..''])) = qs" .
  have "starts_with ''/'' (assemble_remote True (ps @ [''..'']))" by (simp add: assemble_remote_def)
  with assms(4) cand parts have par: "parent = assemble_remote True qs"
    by (auto simp: resolve_remote_path_def validate_remote_path_def normalize_Inr split: if_splits)
  have cq: "cur = (if qs = [] then [] else CHR ''/'' # join_with CHR ''/'' qs) @ CHR ''/'' # p"
    unfolding c ps by (simp add: assemble_remote_def join_with_snoc)
  have lp: "last p \<noteq> CHR ''/''" "p \<noteq> []" "CHR ''/'' \<notin> set p"
    using p last_in_set [of p] unfolding proper_part_def by metis+
  have "last cur \<noteq> CHR ''/''" "cur \<noteq> []" using lp by (simp_all add: cq)
  then have "trim_end_matches CHR ''/'' cur = cur" by (intro trim_end_matches_id) simp
  moreover have "rsplit_once CHR ''/'' cur =
      Some (if qs = [] then [] else CHR ''/'' # join_with CHR ''/'' qs, p)"
    unfolding cq by (rule rsplit_once_append [OF lp(3)])
  ultimately show ?thesis
    using assms(2) lp(2) by (simp add: remote_directory_parent_def remote_parent_def par assemble_remote_def)
qed

theorem up_is_dot_dot_witness: "remote_directory_parent ''/srv/www'' = Some ''/srv''"
  by (rule up_is_dot_dot [of _ "''/root''"]) code_simp+

end
