(* ===== verification/Rust_Float.thy ===== *)
theory Rust_Float
  imports Prelude "HOL-Library.Log_Nat"
begin

text \<open>
  The IEEE 754 arithmetic the components use, on rationals: a finite \<^verbatim>\<open>f32\<close> or \<^verbatim>\<open>f64\<close> is the
  rational it denotes, and every operation rounds its exact result to 24 or 53 significant bits,
  to nearest with ties to even. Values stay far from overflow and underflow, so exponents are not
  bounded.
\<close>

definition pow2 :: "int \<Rightarrow> rat" where
  "pow2 e = (if 0 \<le> e then 2 ^ nat e else 1 / 2 ^ nat (- e))"

definition round_half_even :: "rat \<Rightarrow> int" where
  "round_half_even x =
     (let f = \<lfloor>x\<rfloor>; r = x - of_int f in
      if r < 1 / 2 then f else if 1 / 2 < r then f + 1 else if even f then f else f + 1)"

text \<open>The exponent \<open>e\<close> with \<open>2 ^ e \<le> x < 2 ^ (e + 1)\<close>, for \<open>x > 0\<close>.\<close>

definition float_exponent :: "rat \<Rightarrow> int" where
  "float_exponent x =
     (case quotient_of x of (a, b) \<Rightarrow>
        let k = int (floorlog 2 (nat a)) - int (floorlog 2 (nat b)) in
        if pow2 k \<le> x then k else k - 1)"

definition fl :: "nat \<Rightarrow> rat \<Rightarrow> rat" where
  "fl p x =
     (if x = 0 then 0
      else let ulp = pow2 (float_exponent \<bar>x\<bar> - int p + 1) in of_int (round_half_even (x / ulp)) * ulp)"

definition f64_of_u64 :: "u64 \<Rightarrow> rat" where
  "f64_of_u64 n = fl 53 (of_nat (unat n))"

text \<open>\<^verbatim>\<open>Duration::as_secs_f64\<close> of a duration in nanoseconds.\<close>

definition as_secs_f64 :: "nat \<Rightarrow> rat" where
  "as_secs_f64 ns =
     fl 53 (fl 53 (of_nat (ns div 1000000000)) + fl 53 (fl 53 (of_nat (ns mod 1000000000)) / 1000000000))"

text \<open>\<^verbatim>\<open>x as u64\<close>: towards zero, saturating.\<close>

definition u64_of_f64 :: "rat \<Rightarrow> u64" where
  "u64_of_f64 x = of_nat (min (2 ^ 64 - 1) (nat \<lfloor>x\<rfloor>))"

text \<open>\<^verbatim>\<open>format!("{:.0}", x)\<close> of a value that is not negative.\<close>

definition show_rounded :: "rat \<Rightarrow> string" where
  "show_rounded x = show_nat (nat (round_half_even x))"

lemma round_half_even_of_int [simp]: "round_half_even (of_int n) = n"
  by (simp add: round_half_even_def)

lemma round_half_even_nonneg: "0 \<le> x \<Longrightarrow> 0 \<le> round_half_even x"
  by (simp add: round_half_even_def Let_def)

lemma pow2_pos [simp]: "0 < pow2 e"
  by (simp add: pow2_def)

lemma fl_nonneg: "0 \<le> x \<Longrightarrow> 0 \<le> fl p x"
  by (auto simp: fl_def Let_def less_imp_le intro!: mult_nonneg_nonneg round_half_even_nonneg)

section \<open>The rounding error\<close>

lemma round_half_even_error: "\<bar>of_int (round_half_even y) - y\<bar> \<le> 1 / 2"
proof -
  define f where "f = \<lfloor>y\<rfloor>"
  have f: "of_int f \<le> y" "y < of_int f + 1" unfolding f_def by (rule of_int_floor_le, rule floor_correct [THEN conjunct2, simplified])
  then show ?thesis
    unfolding round_half_even_def Let_def f_def [symmetric]
    by (auto simp: abs_le_iff)
qed

lemma pow2_nat: "pow2 (int n) = 2 ^ n"
  by (simp add: pow2_def)

lemma pow2_powi: "pow2 e = power_int 2 e"
  by (simp add: pow2_def power_int_def field_simps)

lemma pow2_add: "pow2 (a + b) = pow2 a * pow2 b"
  by (simp add: pow2_powi power_int_add)

lemma pow2_diff: "pow2 (a - b) = pow2 a / pow2 b"
  by (simp add: pow2_powi power_int_diff)

lemma floorlog_bounds:
  assumes "0 < n"
  shows "2 ^ (floorlog 2 n - 1) \<le> n \<and> n < 2 ^ floorlog 2 n \<and> 0 < floorlog 2 n"
  using assms floorlog_bounds [of n 2] by (auto simp: floorlog_def)

text \<open>The exponent is at most the one of \<open>x\<close>, so half an ulp is at most \<open>2 ^ - p\<close> of \<open>x\<close>.\<close>

lemma pow2_exponent_le:
  assumes "0 < x"
  shows "pow2 (float_exponent x) \<le> x"
proof -
  obtain a b where q: "quotient_of x = (a, b)" by (cases "quotient_of x")
  then have b: "0 < b" "x = of_int a / of_int b"
    using quotient_of_denom_pos quotient_of_div by blast+
  then have a: "0 < a" using assms by (simp add: zero_less_divide_iff)
  let ?fa = "floorlog 2 (nat a)" and ?fb = "floorlog 2 (nat b)"
  have fa: "2 ^ (?fa - 1) \<le> nat a" "0 < ?fa" and fb: "nat b < 2 ^ ?fb"
    using floorlog_bounds [of "nat a"] floorlog_bounds [of "nat b"] a b(1) by auto
  have "rat_of_nat (2 ^ (?fa - 1)) \<le> of_nat (nat a)" "rat_of_nat (nat b) \<le> of_nat (2 ^ ?fb)"
    using fa(1) fb by (simp_all only: of_nat_le_iff less_imp_le)
  then have ab: "2 ^ (?fa - 1) \<le> rat_of_int a" "rat_of_int b \<le> 2 ^ ?fb"
    using a b(1) by simp_all
  have "pow2 (int ?fa - int ?fb - 1) = 2 ^ (?fa - 1) / 2 ^ ?fb"
  proof -
    have "int ?fa - int ?fb - 1 = int (?fa - 1) - int ?fb" using fa(2) by simp
    then show ?thesis unfolding \<open>int ?fa - int ?fb - 1 = _\<close> by (simp only: pow2_diff pow2_nat)
  qed
  also have "\<dots> \<le> of_int a / of_int b"
    using ab a b(1) by (intro frac_le) simp_all
  finally show ?thesis using q b(2) by (auto simp: float_exponent_def Let_def)
qed

lemma pow2_exponent_gt:
  assumes "0 < x"
  shows "x < pow2 (float_exponent x + 1)"
proof -
  obtain a b where q: "quotient_of x = (a, b)" by (cases "quotient_of x")
  then have b: "0 < b" "x = of_int a / of_int b"
    using quotient_of_denom_pos quotient_of_div by blast+
  then have a: "0 < a" using assms by (simp add: zero_less_divide_iff)
  let ?fa = "floorlog 2 (nat a)" and ?fb = "floorlog 2 (nat b)"
  have fa: "nat a < 2 ^ ?fa" and fb: "2 ^ (?fb - 1) \<le> nat b" "0 < ?fb"
    using floorlog_bounds [of "nat a"] floorlog_bounds [of "nat b"] a b(1) by auto
  have "rat_of_nat (nat a) < of_nat (2 ^ ?fa)" "rat_of_nat (2 ^ (?fb - 1)) \<le> of_nat (nat b)"
    using fa fb(1) by (simp_all only: of_nat_less_iff of_nat_le_iff)
  then have ab: "rat_of_int a < 2 ^ ?fa" "2 ^ (?fb - 1) \<le> rat_of_int b"
    using a b(1) by simp_all
  have "x < 2 ^ ?fa / 2 ^ (?fb - 1)"
    unfolding b(2) using ab a b(1) by (intro frac_less) simp_all
  also have "\<dots> = pow2 (int ?fa - int ?fb + 1)"
  proof -
    have "int ?fa - int ?fb + 1 = int ?fa - int (?fb - 1)" using fb(2) by simp
    then show ?thesis by (simp only: pow2_diff pow2_nat)
  qed
  finally show ?thesis using q by (auto simp: float_exponent_def Let_def)
qed

lemma pow2_less_imp: "pow2 a < pow2 b \<Longrightarrow> a < b"
proof (rule ccontr)
  assume "\<not> a < b" and less: "pow2 a < pow2 b"
  then have "pow2 a = pow2 b * pow2 (int (nat (a - b)))" using pow2_add [of b "a - b"] by simp
  also have "\<dots> \<ge> pow2 b * 1" unfolding pow2_nat by (intro mult_left_mono) (simp_all add: less_imp_le)
  finally show False using less by simp
qed

text \<open>The exponent of a number is determined by the powers of two around it.\<close>

lemma float_exponent_eq:
  assumes "pow2 e \<le> x" "x < pow2 (e + 1)"
  shows "float_exponent x = e"
proof -
  have x: "0 < x" using assms(1) pow2_pos [of e] by linarith
  have "pow2 e < pow2 (float_exponent x + 1)" "pow2 (float_exponent x) < pow2 (e + 1)"
    using assms pow2_exponent_le [OF x] pow2_exponent_gt [OF x] by linarith+
  from this [THEN pow2_less_imp] show ?thesis by simp
qed

lemma fl_error:
  assumes "0 \<le> x"
  shows "\<bar>fl p x - x\<bar> \<le> x * pow2 (- int p)"
proof (cases "x = 0")
  case False
  then have x: "0 < x" using assms by simp
  let ?e = "float_exponent x"
  define ulp where "ulp = pow2 (?e - int p + 1)"
  have u: "0 < ulp" by (simp add: ulp_def)
  have "fl p x = of_int (round_half_even (x / ulp)) * ulp"
    using x by (simp add: fl_def ulp_def Let_def)
  then have "fl p x - x = (of_int (round_half_even (x / ulp)) - x / ulp) * ulp"
    using u by (simp add: left_diff_distrib)
  then have "\<bar>fl p x - x\<bar> = \<bar>of_int (round_half_even (x / ulp)) - x / ulp\<bar> * ulp"
    using u by (simp add: abs_mult)
  also have "\<dots> \<le> 1 / 2 * ulp" using round_half_even_error u by (intro mult_right_mono) simp_all
  also have "\<dots> = pow2 ?e * pow2 (- int p)"
  proof -
    have "?e - int p + 1 = ?e + - int p + 1" by simp
    then have "ulp = pow2 ?e * pow2 (- int p) * pow2 1" unfolding ulp_def by (simp only: pow2_add)
    moreover have "pow2 1 = 2" by (simp add: pow2_def)
    ultimately show ?thesis by simp
  qed
  also have "\<dots> \<le> x * pow2 (- int p)" using pow2_exponent_le [OF x] by (intro mult_right_mono) (simp_all add: less_imp_le)
  finally show ?thesis .
qed (simp add: fl_def)

end
