(* ===== verification/Sftp_Transfers.thy ===== *)
theory Sftp_Transfers
  imports Sftp_Navigation Rust_Float "HOL-Library.Mapping"
begin

text \<open>
  The transfer part of \<^verbatim>\<open>SftpBrowserState\<close> (\<^verbatim>\<open>src/app/state/sftp.rs\<close>): the list of transfers
  with their phases, the intents that are replayed after a reconnection, the upload conflicts, and the
  handler that applies the worker's transfer events (\<^verbatim>\<open>src/app/connection_monitor.rs\<close>). The state
  extends that of the remote browser. \<^verbatim>\<open>Instant::now()\<close> is the argument \<open>now\<close>, in nanoseconds.
\<close>

section \<open>State\<close>

datatype direction = Download | Upload

datatype phase =
  Queued
| AwaitingConflict
| Skipped
| Downloading
| Uploading
| Pausing
| Paused
| Resuming
| Cancelling
| Completed
| Cancelled
| TransferFailed

fun phase_name :: "phase \<Rightarrow> string" where
  "phase_name Queued = ''queued''"
| "phase_name AwaitingConflict = ''awaiting-conflict''"
| "phase_name Skipped = ''skipped''"
| "phase_name Downloading = ''downloading''"
| "phase_name Uploading = ''uploading''"
| "phase_name Pausing = ''pausing''"
| "phase_name Paused = ''paused''"
| "phase_name Resuming = ''resuming''"
| "phase_name Cancelling = ''cancelling''"
| "phase_name Completed = ''completed''"
| "phase_name Cancelled = ''cancelled''"
| "phase_name TransferFailed = ''failed''"

definition cancellable :: "phase \<Rightarrow> bool" where
  "cancellable p \<longleftrightarrow> p \<in> {Queued, AwaitingConflict, Downloading, Uploading, Pausing, Paused, Resuming}"

definition phase_pausable :: "phase \<Rightarrow> bool" where
  "phase_pausable p \<longleftrightarrow> p = Downloading"

definition phase_resumable :: "phase \<Rightarrow> bool" where
  "phase_resumable p \<longleftrightarrow> p = Paused"

definition active :: "phase \<Rightarrow> bool" where
  "active p \<longleftrightarrow>
     p \<in> {Queued, AwaitingConflict, Downloading, Uploading, Pausing, Paused, Resuming, Cancelling}"

definition can_request_cancel :: "phase \<Rightarrow> bool" where
  "can_request_cancel p \<longleftrightarrow>
     p \<in> {Queued, AwaitingConflict, Downloading, Uploading, Pausing, Paused, Resuming}"

fun active_phase :: "direction \<Rightarrow> phase" where
  "active_phase Download = Downloading"
| "active_phase Upload = Uploading"

fun active_status :: "direction \<Rightarrow> string" where
  "active_status Download = ''Downloading''"
| "active_status Upload = ''Uploading''"

fun direction_name :: "direction \<Rightarrow> string" where
  "direction_name Download = ''Download''"
| "direction_name Upload = ''Upload''"

record transfer =
  tr_id :: uuid
  tr_name :: string
  tr_direction :: direction
  tr_phase :: phase
  tr_pausable :: bool
  tr_downloaded_bytes :: u64
  tr_total_bytes :: u64
  tr_bytes_per_second :: u64
  tr_started_at :: "nat option"
  tr_status :: string
  tr_local_path :: "string option"
  tr_remote_path :: "string option"

record upload_conflict =
  uc_transfer_id :: uuid
  uc_batch_id :: uuid
  uc_name :: string
  uc_remote_size :: "u64 option"
  uc_remote_modified :: "32 word option"

datatype transfer_intent =
  DownloadRoot (intent_id: uuid) (root_remote: string) (root_directory: string)
    (root_filters: "string list") (root_expected_directory: bool) (root_completed: "string set")
| DownloadFile (intent_id: uuid) (file_remote: string) (file_local: string) (file_total: u64)
    (file_replay: bool)
| UploadIntent (intent_id: uuid) (upload_batch: uuid) (upload_remote: string) (upload_local: string)
    (upload_total: u64) (upload_directories: "string list")

record 'x sftp_browser = "'x sftp_nav" +
  sb_transfers :: "transfer list"
  sb_pending_roots :: "uuid set"
  sb_scanning_roots :: "uuid set"
  sb_conflicts :: "upload_conflict list"
  sb_selected_transfers :: "uuid set"
  sb_intents :: "(uuid, transfer_intent) mapping"
  sb_intent_order :: "uuid list"
  sb_intent_revision :: u64
  sb_children :: "(uuid, uuid) mapping"
  sb_replay_pending :: bool

section \<open>One transfer\<close>

definition find_transfer :: "uuid \<Rightarrow> 'x sftp_browser \<Rightarrow> transfer option" where
  "find_transfer tid s = find (\<lambda>t. tr_id t = tid) (sb_transfers s)"

text \<open>
  \<^verbatim>\<open>let Some(transfer) = transfers.iter_mut().find(..) else { return false }\<close>, a guard that may
  refuse, and the update.
\<close>

definition modify_transfer :: "uuid \<Rightarrow> (transfer \<Rightarrow> transfer option) \<Rightarrow> 'x sftp_browser \<Rightarrow>
    'x sftp_browser \<times> bool" where
  "modify_transfer tid f s =
     (case find_transfer tid s of
        None \<Rightarrow> (s, False)
      | Some t \<Rightarrow>
          (case f t of
             None \<Rightarrow> (s, False)
           | Some t' \<Rightarrow>
               (s\<lparr>sb_transfers := update_first (\<lambda>u. tr_id u = tid) (\<lambda>_. t') (sb_transfers s)\<rparr>, True)))"

definition new_transfer :: "uuid \<Rightarrow> string \<Rightarrow> u64 \<Rightarrow> direction \<Rightarrow> string option \<Rightarrow> string option \<Rightarrow> transfer" where
  "new_transfer tid name total_bytes dir local_file remote_path =
     \<lparr>tr_id = tid, tr_name = name, tr_direction = dir, tr_phase = Queued,
      tr_pausable = (dir = Download), tr_downloaded_bytes = 0, tr_total_bytes = total_bytes,
      tr_bytes_per_second = 0, tr_started_at = None, tr_status = ''Queued'',
      tr_local_path = local_file, tr_remote_path = remote_path\<rparr>"

definition requeue :: "string \<Rightarrow> u64 \<Rightarrow> string option \<Rightarrow> string option \<Rightarrow> transfer \<Rightarrow> transfer option" where
  "requeue name total_bytes local_file remote_path t =
     (if tr_phase t = Queued \<or>
         (tr_direction t = Upload \<and> (tr_phase t = AwaitingConflict \<or> tr_phase t = Uploading)) then
        Some (t\<lparr>tr_phase := Queued, tr_status := ''Queued'', tr_name := name, tr_total_bytes := total_bytes,
          tr_local_path := (if local_file \<noteq> None then local_file else tr_local_path t),
          tr_remote_path := (if remote_path \<noteq> None then remote_path else tr_remote_path t)\<rparr>)
      else None)"

definition queue_transfer_with_pause :: "uuid \<Rightarrow> string \<Rightarrow> u64 \<Rightarrow> direction \<Rightarrow> string option \<Rightarrow>
    string option \<Rightarrow> 'x sftp_browser \<Rightarrow> 'x sftp_browser" where
  "queue_transfer_with_pause tid name total_bytes dir local_file remote_path s =
     (let s1 = s\<lparr>sb_conflicts := filter (\<lambda>c. uc_transfer_id c \<noteq> tid) (sb_conflicts s)\<rparr> in
      if find_transfer tid s1 \<noteq> None then fst (modify_transfer tid (requeue name total_bytes local_file remote_path) s1)
      else s1\<lparr>sb_transfers := sb_transfers s1 @ [new_transfer tid name total_bytes dir local_file remote_path]\<rparr>)"

definition queue_transfer :: "uuid \<Rightarrow> string \<Rightarrow> u64 \<Rightarrow> 'x sftp_browser \<Rightarrow> 'x sftp_browser" where
  "queue_transfer tid name total_bytes = queue_transfer_with_pause tid name total_bytes Download None None"

definition queue_upload_transfer :: "uuid \<Rightarrow> string \<Rightarrow> u64 \<Rightarrow> string \<Rightarrow> string \<Rightarrow>
    'x sftp_browser \<Rightarrow> 'x sftp_browser" where
  "queue_upload_transfer tid name total_bytes local_file remote_path =
     queue_transfer_with_pause tid name total_bytes Upload (Some local_file) (Some remote_path)"

definition queue_transfer_event :: "uuid \<Rightarrow> string \<Rightarrow> u64 \<Rightarrow> bool \<Rightarrow> string option \<Rightarrow> string option \<Rightarrow>
    'x sftp_browser \<Rightarrow> 'x sftp_browser" where
  "queue_transfer_event tid name total_bytes upload =
     queue_transfer_with_pause tid name total_bytes (if upload then Upload else Download)"

definition set_transfer_status :: "uuid \<Rightarrow> string \<Rightarrow> 'x sftp_browser \<Rightarrow> 'x sftp_browser" where
  "set_transfer_status tid status s = fst (modify_transfer tid (\<lambda>t. Some (t\<lparr>tr_status := status\<rparr>)) s)"

definition start_guarded :: "nat \<Rightarrow> string \<Rightarrow> string \<Rightarrow> u64 \<Rightarrow> transfer \<Rightarrow> transfer option" where
  "start_guarded now remote_path name total_bytes t =
     (if tr_phase t \<notin> {Queued, AwaitingConflict, Resuming} then None
      else Some (t\<lparr>tr_name := name,
        tr_remote_path := (if remote_path \<noteq> [] then Some remote_path else tr_remote_path t),
        tr_phase := active_phase (tr_direction t), tr_total_bytes := total_bytes,
        tr_started_at := Some now, tr_status := active_status (tr_direction t)\<rparr>))"

definition start_transfer :: "nat \<Rightarrow> uuid \<Rightarrow> string \<Rightarrow> string \<Rightarrow> u64 \<Rightarrow> 'x sftp_browser \<Rightarrow> 'x sftp_browser" where
  "start_transfer now tid remote_path name total_bytes s =
     fst (modify_transfer tid (start_guarded now remote_path name total_bytes) s)"

definition progress_guarded :: "nat \<Rightarrow> u64 \<Rightarrow> u64 \<Rightarrow> transfer \<Rightarrow> transfer option" where
  "progress_guarded now downloaded total_bytes t =
     (if tr_phase t \<noteq> active_phase (tr_direction t) \<and> tr_phase t \<noteq> Pausing then None
      else
        (let done_bytes = min downloaded total_bytes;
             rate = (case tr_started_at t of
                 None \<Rightarrow> tr_bytes_per_second t
               | Some started \<Rightarrow>
                   (let elapsed = as_secs_f64 (now - started) in
                    if 0 < elapsed then
                      u64_of_f64 (min (fl 53 (f64_of_u64 done_bytes / elapsed)) (fl 53 (2 ^ 64 - 1)))
                    else tr_bytes_per_second t)) in
         Some (t\<lparr>tr_phase := active_phase (tr_direction t), tr_downloaded_bytes := done_bytes,
           tr_total_bytes := total_bytes, tr_bytes_per_second := rate,
           tr_status := (if total_bytes = 0 then active_status (tr_direction t)
             else show_rounded (fl 53 (fl 53 (100 * f64_of_u64 done_bytes) / f64_of_u64 total_bytes)) @ ''%'')\<rparr>)))"

definition update_transfer_progress :: "nat \<Rightarrow> uuid \<Rightarrow> u64 \<Rightarrow> u64 \<Rightarrow> 'x sftp_browser \<Rightarrow> 'x sftp_browser" where
  "update_transfer_progress now tid downloaded total_bytes s =
     fst (modify_transfer tid (progress_guarded now downloaded total_bytes) s)"

definition request_transfer_pause :: "uuid \<Rightarrow> 'x sftp_browser \<Rightarrow> 'x sftp_browser \<times> bool" where
  "request_transfer_pause tid =
     modify_transfer tid (\<lambda>t.
       if \<not> tr_pausable t \<or> tr_phase t \<noteq> Downloading then None
       else Some (t\<lparr>tr_phase := Pausing, tr_status := ''Pausing''\<rparr>))"

definition pause_transfer :: "uuid \<Rightarrow> 'x sftp_browser \<Rightarrow> 'x sftp_browser \<times> bool" where
  "pause_transfer tid =
     modify_transfer tid (\<lambda>t.
       if \<not> tr_pausable t \<or> tr_phase t \<notin> {Downloading, Pausing} then None
       else Some (t\<lparr>tr_phase := Paused, tr_bytes_per_second := 0, tr_status := ''Paused''\<rparr>))"

definition request_transfer_resume :: "uuid \<Rightarrow> 'x sftp_browser \<Rightarrow> 'x sftp_browser \<times> bool" where
  "request_transfer_resume tid =
     modify_transfer tid (\<lambda>t.
       if \<not> tr_pausable t \<or> tr_phase t \<noteq> Paused then None
       else Some (t\<lparr>tr_phase := Resuming, tr_status := ''Resuming''\<rparr>))"

definition resume_guarded :: "nat \<Rightarrow> u64 \<Rightarrow> u64 \<Rightarrow> transfer \<Rightarrow> transfer option" where
  "resume_guarded now downloaded total_bytes t =
     (if tr_phase t \<noteq> Resuming then None
      else Some (t\<lparr>tr_phase := active_phase (tr_direction t),
        tr_downloaded_bytes := min downloaded total_bytes, tr_total_bytes := total_bytes,
        tr_started_at := Some now, tr_status := active_status (tr_direction t)\<rparr>))"

definition resume_transfer :: "nat \<Rightarrow> uuid \<Rightarrow> u64 \<Rightarrow> u64 \<Rightarrow> 'x sftp_browser \<Rightarrow> 'x sftp_browser \<times> bool" where
  "resume_transfer now tid downloaded total_bytes s =
     modify_transfer tid (resume_guarded now downloaded total_bytes) s"

section \<open>Intents\<close>

definition register_intent :: "transfer_intent \<Rightarrow> 'x sftp_browser \<Rightarrow> 'x sftp_browser" where
  "register_intent i s =
     s\<lparr>sb_intent_order :=
         (if Mapping.lookup (sb_intents s) (intent_id i) = None then sb_intent_order s @ [intent_id i]
          else sb_intent_order s),
       sb_intents := Mapping.update (intent_id i) i (sb_intents s),
       sb_intent_revision := sb_intent_revision s + 1\<rparr>"

definition register_download_root_intent :: "uuid \<Rightarrow> string \<Rightarrow> string \<Rightarrow> string list \<Rightarrow> bool \<Rightarrow>
    'x sftp_browser \<Rightarrow> 'x sftp_browser" where
  "register_download_root_intent tid remote_path directory filters expected_directory =
     register_intent (DownloadRoot tid remote_path directory filters expected_directory {})"

definition register_download_file_intent :: "uuid \<Rightarrow> string \<Rightarrow> string \<Rightarrow> u64 \<Rightarrow> bool \<Rightarrow>
    'x sftp_browser \<Rightarrow> 'x sftp_browser" where
  "register_download_file_intent tid remote_path local_file total_bytes replay =
     register_intent (DownloadFile tid remote_path local_file total_bytes replay)"

definition register_upload_intent :: "uuid \<Rightarrow> uuid \<Rightarrow> string \<Rightarrow> string \<Rightarrow> u64 \<Rightarrow> string list \<Rightarrow>
    'x sftp_browser \<Rightarrow> 'x sftp_browser" where
  "register_upload_intent tid batch remote_path local_file total_bytes directories =
     register_intent (UploadIntent tid batch remote_path local_file total_bytes directories)"

definition remove_transfer_intent :: "uuid \<Rightarrow> 'x sftp_browser \<Rightarrow> 'x sftp_browser" where
  "remove_transfer_intent tid s =
     s\<lparr>sb_intents := Mapping.delete tid (sb_intents s),
       sb_intent_order := filter (\<lambda>i. i \<noteq> tid) (sb_intent_order s),
       sb_children := Mapping.filter (\<lambda>_ root_tid. root_tid \<noteq> tid) (Mapping.delete tid (sb_children s)),
       sb_intent_revision :=
         (if Mapping.lookup (sb_intents s) tid \<noteq> None then sb_intent_revision s + 1
          else sb_intent_revision s)\<rparr>"

definition mark_directory_child_completed :: "uuid \<Rightarrow> 'x sftp_browser \<Rightarrow> 'x sftp_browser" where
  "mark_directory_child_completed tid s =
     (case Mapping.lookup (sb_children s) tid of
        None \<Rightarrow> s
      | Some root_tid \<Rightarrow>
          (case Option.bind (find_transfer tid s) tr_remote_path of
             None \<Rightarrow> s
           | Some remote_path \<Rightarrow>
               (case Mapping.lookup (sb_intents s) root_tid of
                  Some (DownloadRoot i r d f e completed) \<Rightarrow>
                    s\<lparr>sb_intents := Mapping.update root_tid
                        (DownloadRoot i r d f e (insert remote_path completed)) (sb_intents s),
                      sb_intent_revision := sb_intent_revision s + 1\<rparr>
                | _ \<Rightarrow> s)))"

definition transfer_intents :: "'x sftp_browser \<Rightarrow> transfer_intent list" where
  "transfer_intents s = List.map_filter (Mapping.lookup (sb_intents s)) (sb_intent_order s)"

definition transfer_intents_with_revision :: "'x sftp_browser \<Rightarrow> u64 \<times> transfer_intent list" where
  "transfer_intents_with_revision s = (sb_intent_revision s, transfer_intents s)"

definition has_transfer_intent :: "transfer_intent \<Rightarrow> 'x sftp_browser \<Rightarrow> bool" where
  "has_transfer_intent i s \<longleftrightarrow> Mapping.lookup (sb_intents s) (intent_id i) = Some i"

definition completed_directory_child_paths :: "uuid \<Rightarrow> 'x sftp_browser \<Rightarrow> string set" where
  "completed_directory_child_paths root_tid s =
     (case Mapping.lookup (sb_intents s) root_tid of
        Some (DownloadRoot _ _ _ _ _ completed) \<Rightarrow> completed
      | _ \<Rightarrow> {})"

definition register_discovered_download_intent :: "uuid \<Rightarrow> uuid \<Rightarrow> 'x sftp_browser \<Rightarrow> 'x sftp_browser" where
  "register_discovered_download_intent root_tid tid s =
     (if Mapping.lookup (sb_intents s) root_tid \<noteq> None then
        s\<lparr>sb_children := Mapping.update tid root_tid (sb_children s)\<rparr>
      else s)"

section \<open>Finishing\<close>

definition finish_allowed :: "phase \<Rightarrow> phase \<Rightarrow> bool" where
  "finish_allowed current next_phase \<longleftrightarrow> (current, next_phase) \<in>
     {(Queued, Completed), (Queued, Cancelled), (Queued, TransferFailed), (Queued, Skipped),
      (AwaitingConflict, Cancelled), (AwaitingConflict, TransferFailed),
      (Downloading, Cancelled), (Downloading, TransferFailed),
      (Uploading, Cancelled), (Uploading, TransferFailed), (Uploading, Skipped),
      (Pausing, Cancelled), (Pausing, TransferFailed), (Paused, Cancelled), (Paused, TransferFailed),
      (Resuming, Cancelled), (Resuming, TransferFailed),
      (Cancelling, Cancelled), (Cancelling, TransferFailed),
      (Downloading, Completed), (Uploading, Completed), (Pausing, Completed), (Resuming, Completed)}"

definition finish_guarded :: "phase \<Rightarrow> string \<Rightarrow> transfer \<Rightarrow> transfer option" where
  "finish_guarded ph status t =
     (if \<not> finish_allowed (tr_phase t) ph then None
      else Some (t\<lparr>tr_phase := ph,
        tr_downloaded_bytes := (if ph = Completed then tr_total_bytes t else tr_downloaded_bytes t),
        tr_status := status\<rparr>))"

definition transfer_is_active :: "uuid \<Rightarrow> 'x sftp_browser \<Rightarrow> bool" where
  "transfer_is_active tid s \<longleftrightarrow> (\<exists>t \<in> set (sb_transfers s). tr_id t = tid \<and> active (tr_phase t))"

definition forget_root :: "uuid \<Rightarrow> 'x sftp_browser \<Rightarrow> 'x sftp_browser" where
  "forget_root tid s =
     s\<lparr>sb_pending_roots := sb_pending_roots s - {tid}, sb_scanning_roots := sb_scanning_roots s - {tid}\<rparr>"

definition drop_conflicts :: "uuid \<Rightarrow> 'x sftp_browser \<Rightarrow> 'x sftp_browser" where
  "drop_conflicts tid s =
     s\<lparr>sb_conflicts := filter (\<lambda>c. uc_transfer_id c \<noteq> tid) (sb_conflicts s)\<rparr>"

definition deselect_transfer :: "uuid \<Rightarrow> 'x sftp_browser \<Rightarrow> 'x sftp_browser" where
  "deselect_transfer tid s = s\<lparr>sb_selected_transfers := sb_selected_transfers s - {tid}\<rparr>"

definition finish_transfer :: "uuid \<Rightarrow> phase \<Rightarrow> string \<Rightarrow> 'x sftp_browser \<Rightarrow> 'x sftp_browser" where
  "finish_transfer tid ph status s =
     (case modify_transfer tid (finish_guarded ph status) (drop_conflicts tid (forget_root tid s)) of
        (s1, False) \<Rightarrow> s1
      | (s1, True) \<Rightarrow>
          (let s2 = (if \<not> active ph \<and> ph = Completed then mark_directory_child_completed tid s1 else s1) in
           if \<not> transfer_is_active tid s2 then remove_transfer_intent tid (deselect_transfer tid s2)
           else s2))"

definition downloaded_guarded :: "u64 \<Rightarrow> string \<Rightarrow> transfer \<Rightarrow> transfer option" where
  "downloaded_guarded total_bytes local_file t =
     (if tr_direction t \<noteq> Download \<or> tr_phase t \<notin> {Downloading, Pausing, Resuming} then None
      else Some (t\<lparr>tr_phase := Completed, tr_downloaded_bytes := total_bytes,
        tr_total_bytes := total_bytes, tr_bytes_per_second := 0, tr_status := ''Downloaded'',
        tr_local_path := Some local_file\<rparr>))"

definition finish_downloaded_transfer :: "uuid \<Rightarrow> u64 \<Rightarrow> string \<Rightarrow> 'x sftp_browser \<Rightarrow>
    'x sftp_browser \<times> bool" where
  "finish_downloaded_transfer tid total_bytes local_file s =
     (case modify_transfer tid (downloaded_guarded total_bytes local_file) s of
        (s1, False) \<Rightarrow> (s1, False)
      | (s1, True) \<Rightarrow>
          (remove_transfer_intent tid (deselect_transfer tid (mark_directory_child_completed tid s1)), True))"

definition finish_uploaded_transfer :: "uuid \<Rightarrow> 'x sftp_browser \<Rightarrow> 'x sftp_browser \<times> string option" where
  "finish_uploaded_transfer tid s =
     (finish_transfer tid Completed ''Uploaded'' s,
      case find (\<lambda>t. tr_id t = tid \<and> tr_direction t = Upload \<and>
          tr_phase t \<in> {Uploading, Pausing, Resuming}) (sb_transfers s) of
        None \<Rightarrow> None
      | Some t \<Rightarrow> Option.bind (tr_remote_path t) (visible_remote_directory_for_file s))"

definition record_transfer_failure :: "uuid \<Rightarrow> string \<Rightarrow> string \<Rightarrow> 'x sftp_browser \<Rightarrow> 'x sftp_browser" where
  "record_transfer_failure tid name message s =
     (if find_transfer tid s \<noteq> None then finish_transfer tid TransferFailed message s
      else finish_transfer tid TransferFailed message (queue_transfer tid name 0 s))"

definition fail_download_root :: "uuid \<Rightarrow> string \<Rightarrow> string \<Rightarrow> 'x sftp_browser \<Rightarrow> 'x sftp_browser" where
  "fail_download_root tid name message s =
     record_transfer_failure tid name message (remove_transfer_intent tid (forget_root tid s))"

fun join_details :: "string list \<Rightarrow> string" where
  "join_details [] = []"
| "join_details [d] = d"
| "join_details (d # ds) = d @ ''; '' @ join_details ds"

definition root_details :: "nat \<Rightarrow> nat \<Rightarrow> nat \<Rightarrow> bool \<Rightarrow> string option \<Rightarrow> string list" where
  "root_details discovered skipped failed_files cancelled message =
     (if cancelled then [''Cancelled''] else []) @
     [''Scanned '' @ show_nat discovered @ '' files''] @
     (if 0 < failed_files then [show_nat failed_files @ '' failed''] else []) @
     (if 0 < skipped then [show_nat skipped @ '' skipped''] else []) @
     (case message of
        Some m \<Rightarrow> [m]
      | None \<Rightarrow>
          if discovered = 0 \<and> \<not> cancelled \<and> failed_files = 0
          then [''No regular files were eligible for download''] else [])"

definition root_phase :: "nat \<Rightarrow> nat \<Rightarrow> bool \<Rightarrow> phase" where
  "root_phase skipped failed_files cancelled =
     (if cancelled then Cancelled
      else if skipped = 0 \<and> failed_files = 0 then Completed
      else TransferFailed)"

definition finish_download_root :: "uuid \<Rightarrow> nat \<Rightarrow> nat \<Rightarrow> nat \<Rightarrow> bool \<Rightarrow> string option \<Rightarrow>
    'x sftp_browser \<Rightarrow> 'x sftp_browser" where
  "finish_download_root tid discovered skipped failed_files cancelled message s =
     (let s1 = s\<lparr>sb_pending_roots := sb_pending_roots s - {tid}\<rparr> in
      if tid \<notin> sb_scanning_roots s1 then s1
      else
        finish_transfer tid (root_phase skipped failed_files cancelled)
          (join_details (root_details discovered skipped failed_files cancelled message))
          (s1\<lparr>sb_scanning_roots := sb_scanning_roots s1 - {tid}\<rparr>))"

definition back_to_queue :: "string \<Rightarrow> transfer \<Rightarrow> transfer" where
  "back_to_queue status t =
     t\<lparr>tr_phase := Queued, tr_downloaded_bytes := 0, tr_bytes_per_second := 0, tr_started_at := None,
       tr_status := status\<rparr>"

definition defer_recoverable_failure :: "uuid \<Rightarrow> string \<Rightarrow> 'x sftp_browser \<Rightarrow> 'x sftp_browser" where
  "defer_recoverable_failure tid message s =
     fst (modify_transfer tid (\<lambda>t. Some (back_to_queue (''Waiting for reconnection: '' @ message) t))
       (forget_root tid s))"

definition request_transfer_cancel :: "uuid \<Rightarrow> 'x sftp_browser \<Rightarrow> 'x sftp_browser \<times> bool" where
  "request_transfer_cancel tid s =
     (case modify_transfer tid (\<lambda>t.
         if \<not> can_request_cancel (tr_phase t) then None
         else Some (t\<lparr>tr_phase := Cancelling, tr_status := ''Cancelling''\<rparr>)) s of
        (s1, False) \<Rightarrow> (s1, False)
      | (s1, True) \<Rightarrow> (remove_transfer_intent tid s1, True))"

definition remove_finished_transfer :: "uuid \<Rightarrow> 'x sftp_browser \<Rightarrow> 'x sftp_browser \<times> bool" where
  "remove_finished_transfer tid s =
     (case find (\<lambda>t. tr_id t = tid \<and> \<not> active (tr_phase t)) (sb_transfers s) of
        None \<Rightarrow> (s, False)
      | Some t \<Rightarrow> (deselect_transfer tid (s\<lparr>sb_transfers := remove1 t (sb_transfers s)\<rparr>), True))"

section \<open>Download roots, conflicts, selection\<close>

definition reserve_download_root :: "uuid \<Rightarrow> 'x sftp_browser \<Rightarrow> 'x sftp_browser \<times> bool" where
  "reserve_download_root tid s =
     (if tid \<in> sb_pending_roots s then (s, False)
      else (s\<lparr>sb_pending_roots := insert tid (sb_pending_roots s)\<rparr>, True))"

definition begin_download_discovery :: "uuid \<Rightarrow> string \<Rightarrow> string \<Rightarrow> string \<Rightarrow>
    'x sftp_browser \<Rightarrow> 'x sftp_browser" where
  "begin_download_discovery tid name local_file remote_path s =
     (let s1 = queue_transfer_event tid name 0 False (Some local_file) (Some remote_path) s in
      set_transfer_status tid (''Scanning directory'' @ [CHR 0xE2, CHR 0x80, CHR 0xA6])
        (s1\<lparr>sb_scanning_roots := insert tid (sb_scanning_roots s1)\<rparr>))"

definition record_upload_conflict :: "upload_conflict \<Rightarrow> 'x sftp_browser \<Rightarrow> 'x sftp_browser" where
  "record_upload_conflict c s =
     (case modify_transfer (uc_transfer_id c) (\<lambda>t.
         if tr_direction t \<noteq> Upload \<or> tr_phase t \<notin> {Queued, Uploading} then None
         else Some (t\<lparr>tr_phase := AwaitingConflict,
           tr_status := ''Waiting for file conflict decision''\<rparr>)) s of
        (s1, False) \<Rightarrow> s1
      | (s1, True) \<Rightarrow> s1\<lparr>sb_conflicts := sb_conflicts s1 @ [c]\<rparr>)"

definition resolved_transfers :: "uuid \<Rightarrow> bool \<Rightarrow> upload_conflict list \<Rightarrow> uuid set" where
  "resolved_transfers tid apply_to_batch conflicts =
     (let batch = map_option uc_batch_id (find (\<lambda>c. uc_transfer_id c = tid) conflicts) in
      uc_transfer_id ` set (filter (\<lambda>c. uc_transfer_id c = tid \<or>
        (apply_to_batch \<and> Some (uc_batch_id c) = batch)) conflicts))"

definition resolve_upload_conflict :: "uuid \<Rightarrow> bool \<Rightarrow> 'x sftp_browser \<Rightarrow> 'x sftp_browser" where
  "resolve_upload_conflict tid apply_to_batch s =
     (let resolved = resolved_transfers tid apply_to_batch (sb_conflicts s) in
      s\<lparr>sb_conflicts := filter (\<lambda>c. uc_transfer_id c \<notin> resolved) (sb_conflicts s),
        sb_transfers := map (\<lambda>t.
          if tr_id t \<in> resolved \<and> tr_phase t = AwaitingConflict
          then t\<lparr>tr_phase := Queued, tr_status := ''Queued''\<rparr> else t) (sb_transfers s)\<rparr>)"

definition toggle_transfer_selection :: "uuid \<Rightarrow> bool \<Rightarrow> 'x sftp_browser \<Rightarrow> 'x sftp_browser \<times> bool" where
  "toggle_transfer_selection tid selected s =
     (if \<not> transfer_is_active tid s then (s, False)
      else (s\<lparr>sb_selected_transfers :=
              (if selected then insert tid (sb_selected_transfers s)
               else sb_selected_transfers s - {tid})\<rparr>, True))"

definition selected_transfer_ids :: "(phase \<Rightarrow> bool) \<Rightarrow> 'x sftp_browser \<Rightarrow> uuid list" where
  "selected_transfer_ids p s =
     map tr_id (filter (\<lambda>t. tr_id t \<in> sb_selected_transfers s \<and> p (tr_phase t)) (sb_transfers s))"

definition selected_transfer_ids_for_active_page :: "'x sftp_browser \<Rightarrow> uuid list" where
  "selected_transfer_ids_for_active_page = selected_transfer_ids active"

definition transfer_satisfies :: "(transfer \<Rightarrow> bool) \<Rightarrow> uuid \<Rightarrow> 'x sftp_browser \<Rightarrow> bool" where
  "transfer_satisfies p tid s = (case find_transfer tid s of None \<Rightarrow> False | Some t \<Rightarrow> p t)"

definition transfer_is_cancellable :: "uuid \<Rightarrow> 'x sftp_browser \<Rightarrow> bool" where
  "transfer_is_cancellable = transfer_satisfies (\<lambda>t. can_request_cancel (tr_phase t))"

definition transfer_is_pausable :: "uuid \<Rightarrow> 'x sftp_browser \<Rightarrow> bool" where
  "transfer_is_pausable = transfer_satisfies (\<lambda>t. tr_pausable t \<and> tr_phase t = Downloading)"

definition transfer_is_resumable :: "uuid \<Rightarrow> 'x sftp_browser \<Rightarrow> bool" where
  "transfer_is_resumable = transfer_satisfies (\<lambda>t. tr_pausable t \<and> tr_phase t = Paused)"

definition completed_transfer_local_path :: "uuid \<Rightarrow> 'x sftp_browser \<Rightarrow> string option" where
  "completed_transfer_local_path tid s =
     Option.bind (find (\<lambda>t. tr_id t = tid \<and> \<not> active (tr_phase t)) (sb_transfers s)) tr_local_path"

section \<open>Reconnection\<close>

fun replayed :: "transfer_intent \<Rightarrow> bool" where
  "replayed (DownloadFile _ _ _ _ replay) = replay"
| "replayed _ = True"

definition prepare_for_reconnect :: "'x \<Rightarrow> 'x sftp_browser \<Rightarrow> 'x sftp_browser" where
  "prepare_for_reconnect default_edits s =
     (let s0 = reset_navigation default_edits s;
          intents = Mapping.filter (\<lambda>_ i. replayed i) (sb_intents s0);
          kept = filter (\<lambda>t. \<not> active (tr_phase t) \<or> Mapping.lookup intents (tr_id t) \<noteq> None)
            (sb_transfers s0) in
      s0\<lparr>sb_open := False, sb_loading := False,
         sb_pending_roots := {intent_id i | i k. Mapping.lookup intents k = Some i \<and> is_DownloadRoot i},
         sb_scanning_roots := {intent_id i | i k. Mapping.lookup intents k = Some i \<and>
            is_DownloadRoot i \<and> root_expected_directory i},
         sb_conflicts := [], sb_selected_transfers := {}, sb_replay_pending := True,
         sb_intents := intents,
         sb_intent_order := filter (\<lambda>i. Mapping.lookup intents i \<noteq> None) (sb_intent_order s0),
         sb_intent_revision :=
           (if Mapping.size intents \<noteq> Mapping.size (sb_intents s0) then sb_intent_revision s0 + 1
            else sb_intent_revision s0),
         sb_transfers := map (\<lambda>t. if active (tr_phase t) then back_to_queue ''Waiting for reconnection'' t
            else t) kept\<rparr>)"

definition clear_transfer_intents :: "'x sftp_browser \<Rightarrow> 'x sftp_browser" where
  "clear_transfer_intents s =
     s\<lparr>sb_intent_revision :=
         (if \<not> Mapping.is_empty (sb_intents s) then sb_intent_revision s + 1 else sb_intent_revision s),
       sb_intents := Mapping.empty, sb_intent_order := [], sb_children := Mapping.empty,
       sb_replay_pending := False, sb_transfers := [], sb_pending_roots := {}, sb_scanning_roots := {},
       sb_conflicts := [], sb_selected_transfers := {}\<rparr>"

definition sftp_browser_default :: "'x \<Rightarrow> 'x sftp_browser" where
  "sftp_browser_default default_edits =
     sftp_nav.extend (sftp_nav_default default_edits)
       \<lparr>sb_transfers = [], sb_pending_roots = {}, sb_scanning_roots = {}, sb_conflicts = [],
        sb_selected_transfers = {}, sb_intents = Mapping.empty, sb_intent_order = [],
        sb_intent_revision = 0, sb_children = Mapping.empty, sb_replay_pending = False\<rparr>"

definition reset_browser :: "'x \<Rightarrow> 'x sftp_browser \<Rightarrow> 'x sftp_browser" where
  "reset_browser default_edits s =
     (sftp_browser_default default_edits)\<lparr>sb_local := local_detach (sb_local s)\<rparr>"

section \<open>Worker events\<close>

datatype transfer_event =
  EvQueued uuid "uuid option" string "string option" bool string u64
| EvStarted uuid string string u64
| EvProgress uuid u64 u64
| EvPaused uuid u64 u64
| EvResumed uuid u64 u64
| EvDiscoveryFailed uuid string string bool
| EvDiscoveryFinished uuid nat nat nat bool "string option"
| EvUploadConflict upload_conflict
| EvSkipped uuid
| EvCompleted uuid string u64
| EvCancelled uuid
| EvFailed uuid string bool

text \<open>What the handler asks for afterwards: a refresh of the remote or of the local directory.\<close>

record refresh_request =
  refresh_after_upload :: "string option"
  refresh_after_download :: "(u64 \<times> string) option"
  refresh_error :: "nav_error option"

definition no_refresh :: refresh_request where
  "no_refresh = \<lparr>refresh_after_upload = None, refresh_after_download = None, refresh_error = None\<rparr>"

definition apply_transfer_event :: "nat \<Rightarrow> bool \<Rightarrow> transfer_event \<Rightarrow> 'x sftp_browser \<Rightarrow>
    'x sftp_browser \<times> refresh_request" where
  "apply_transfer_event now reconnect_enabled event s =
     (case event of
        EvQueued tid root_tid remote_path local_file upload name total_bytes \<Rightarrow>
          (let s1 = queue_transfer_event tid name total_bytes upload local_file (Some remote_path) s in
           (case root_tid of None \<Rightarrow> s1 | Some r \<Rightarrow> register_discovered_download_intent r tid s1, no_refresh))
      | EvStarted tid remote_path name total_bytes \<Rightarrow>
          (start_transfer now tid remote_path name total_bytes s, no_refresh)
      | EvProgress tid downloaded total_bytes \<Rightarrow>
          (update_transfer_progress now tid downloaded total_bytes s, no_refresh)
      | EvPaused tid downloaded total_bytes \<Rightarrow>
          (fst (pause_transfer tid (update_transfer_progress now tid downloaded total_bytes s)), no_refresh)
      | EvResumed tid downloaded total_bytes \<Rightarrow>
          (fst (resume_transfer now tid downloaded total_bytes s), no_refresh)
      | EvDiscoveryFailed tid name message recoverable \<Rightarrow>
          (if recoverable \<and> reconnect_enabled then defer_recoverable_failure tid message s
           else fail_download_root tid name message s, no_refresh)
      | EvDiscoveryFinished tid discovered skipped failed_files cancelled message \<Rightarrow>
          (finish_download_root tid discovered skipped failed_files cancelled message s, no_refresh)
      | EvUploadConflict c \<Rightarrow> (record_upload_conflict c s, no_refresh)
      | EvSkipped tid \<Rightarrow> (finish_transfer tid Skipped ''Skipped'' s, no_refresh)
      | EvCompleted tid local_file total_bytes \<Rightarrow>
          (if local_file = [] then
             (case finish_uploaded_transfer tid s of
                (s1, refresh) \<Rightarrow> (s1, no_refresh\<lparr>refresh_after_upload := refresh\<rparr>))
           else
             (case finish_downloaded_transfer tid total_bytes local_file s of
                (s1, False) \<Rightarrow> (s1, no_refresh)
              | (s1, True) \<Rightarrow>
                  (case begin_refresh_after_download (sb_local s1) local_file of
                     Inl e \<Rightarrow> (s1, no_refresh\<lparr>refresh_error := Some e\<rparr>)
                   | Inr (request, loc) \<Rightarrow>
                       (s1\<lparr>sb_local := loc\<rparr>, no_refresh\<lparr>refresh_after_download := request\<rparr>))))
      | EvCancelled tid \<Rightarrow> (finish_transfer tid Cancelled ''Cancelled'' s, no_refresh)
      | EvFailed tid message recoverable \<Rightarrow>
          (if recoverable \<and> reconnect_enabled then defer_recoverable_failure tid message s
           else finish_transfer tid TransferFailed message s, no_refresh))"

section \<open>Well-formed transfer lists\<close>

definition tr_ok :: "transfer \<Rightarrow> bool" where
  "tr_ok t \<longleftrightarrow> tr_pausable t = (tr_direction t = Download) \<and>
     (tr_phase t \<in> {Uploading, AwaitingConflict} \<longrightarrow> tr_direction t = Upload) \<and>
     (tr_phase t \<in> {Downloading, Pausing, Paused, Resuming} \<longrightarrow> tr_direction t = Download)"

definition active_ids :: "transfer list \<Rightarrow> uuid set" where
  "active_ids ts = {tr_id t | t. t \<in> set ts \<and> active (tr_phase t)}"

definition list_ok :: "uuid set \<Rightarrow> 'x sftp_browser \<Rightarrow> bool" where
  "list_ok X s \<longleftrightarrow> distinct (map tr_id (sb_transfers s)) \<and> list_all tr_ok (sb_transfers s) \<and>
     sb_selected_transfers s - X \<subseteq> active_ids (sb_transfers s)"

definition intents_ok :: "'x sftp_browser \<Rightarrow> bool" where
  "intents_ok s \<longleftrightarrow> distinct (sb_intent_order s) \<and>
     (\<forall>k. k \<in> set (sb_intent_order s) \<longleftrightarrow> Mapping.lookup (sb_intents s) k \<noteq> None) \<and>
     (\<forall>k i. Mapping.lookup (sb_intents s) k = Some i \<longrightarrow> intent_id i = k)"

definition transfers_ok :: "'x sftp_browser \<Rightarrow> bool" where
  "transfers_ok s \<longleftrightarrow> list_ok {} s \<and> intents_ok s"

lemma active_simps [simp]:
  "active Queued" "active AwaitingConflict" "active Downloading" "active Uploading" "active Pausing"
  "active Paused" "active Resuming" "active Cancelling"
  "\<not> active Skipped" "\<not> active Completed" "\<not> active Cancelled" "\<not> active TransferFailed"
  by (simp_all add: active_def)

lemma active_phase_active [simp]: "active (active_phase d)"
  by (cases d) simp_all

lemma find_transfer_Some: "find_transfer tid s = Some t \<Longrightarrow> tr_id t = tid \<and> t \<in> set (sb_transfers s)"
  unfolding find_transfer_def by (rule find_SomeD)

lemma modify_cases:
  obtains (refused) "modify_transfer tid f s = (s, False)"
  | (updated) t t' where "find_transfer tid s = Some t" "f t = Some t'"
      "modify_transfer tid f s =
         (s\<lparr>sb_transfers := update_first (\<lambda>u. tr_id u = tid) (\<lambda>_. t') (sb_transfers s)\<rparr>, True)"
proof (cases "find_transfer tid s")
  case None
  then show thesis by (intro refused) (simp add: modify_transfer_def)
next
  case (Some t)
  show thesis
  proof (cases "f t")
    case None
    with Some show thesis by (intro refused) (simp add: modify_transfer_def)
  next
    case (Some t')
    with \<open>find_transfer tid s = Some t\<close> show thesis by (intro updated) (simp_all add: modify_transfer_def)
  qed
qed

lemma set_update_first_key:
  assumes "distinct (map tr_id ts)" "find (\<lambda>u. tr_id u = tid) ts = Some t"
  shows "set (update_first (\<lambda>u. tr_id u = tid) (\<lambda>_. t') ts) = insert t' (set ts - {t})"
  using assms
proof (induction ts)
  case (Cons u us)
  then show ?case by (cases "tr_id u = tid") (auto dest: find_SomeD)
qed simp

lemma map_update_first_key:
  "tr_id t' = tid \<Longrightarrow> map tr_id (update_first (\<lambda>u. tr_id u = tid) (\<lambda>_. t') ts) = map tr_id ts"
  by (rule update_first_map) simp

text \<open>What a guarded update of one transfer keeps of the list.\<close>

lemma modify_list_ok:
  assumes ok: "list_ok X s"
    and f: "\<And>t t'. f t = Some t' \<Longrightarrow> tr_id t = tid \<Longrightarrow> tr_ok t \<Longrightarrow>
      tr_id t' = tid \<and> tr_ok t' \<and> (tid \<in> Y \<or> active (tr_phase t') \<or> \<not> active (tr_phase t))"
  shows "list_ok (X \<union> Y) (fst (modify_transfer tid f s))"
proof (cases rule: modify_cases [of tid f s])
  case refused
  then show ?thesis using ok by (auto simp: list_ok_def)
next
  case (updated t t')
  let ?ts = "sb_transfers s"
  have d: "distinct (map tr_id ?ts)" and all: "\<forall>u \<in> set ?ts. tr_ok u"
    and sel: "sb_selected_transfers s - X \<subseteq> active_ids ?ts"
    using ok by (auto simp: list_ok_def list_all_iff)
  have t: "tr_id t = tid" "t \<in> set ?ts" using find_transfer_Some [OF updated(1)] by auto
  have t': "tr_id t' = tid" "tr_ok t'" "tid \<in> Y \<or> active (tr_phase t') \<or> \<not> active (tr_phase t)"
    using f [OF updated(2) t(1)] all t(2) by auto
  have st: "set (update_first (\<lambda>u. tr_id u = tid) (\<lambda>_. t') ?ts) = insert t' (set ?ts - {t})"
    by (rule set_update_first_key [OF d]) (use updated(1) in \<open>simp add: find_transfer_def\<close>)
  have "active_ids ?ts - Y \<subseteq> active_ids (update_first (\<lambda>u. tr_id u = tid) (\<lambda>_. t') ?ts)"
  proof
    fix k assume k: "k \<in> active_ids ?ts - Y"
    then obtain u where u: "u \<in> set ?ts" "active (tr_phase u)" "k = tr_id u" by (auto simp: active_ids_def)
    show "k \<in> active_ids (update_first (\<lambda>u. tr_id u = tid) (\<lambda>_. t') ?ts)"
      unfolding active_ids_def st
    proof (rule CollectI, cases "u = t")
      case True
      then show "\<exists>v. k = tr_id v \<and> v \<in> insert t' (set ?ts - {t}) \<and> active (tr_phase v)"
        using u k t t' by (intro exI [of _ t']) auto
    next
      case False
      then show "\<exists>v. k = tr_id v \<and> v \<in> insert t' (set ?ts - {t}) \<and> active (tr_phase v)"
        using u by (intro exI [of _ u]) auto
    qed
  qed
  with sel have "sb_selected_transfers s - (X \<union> Y) \<subseteq>
      active_ids (update_first (\<lambda>u. tr_id u = tid) (\<lambda>_. t') ?ts)" by blast
  then show ?thesis
    using updated(3) d all st t' map_update_first_key [OF t'(1), of ?ts]
    by (auto simp: list_ok_def list_all_iff)
qed

lemmas modify_list_ok_active = modify_list_ok [where Y = "{}", simplified]

lemma modify_intents [simp]:
  "sb_intents (fst (modify_transfer tid f s)) = sb_intents s"
  "sb_intent_order (fst (modify_transfer tid f s)) = sb_intent_order s"
  "sb_selected_transfers (fst (modify_transfer tid f s)) = sb_selected_transfers s"
  by (cases rule: modify_cases [of tid f s]; simp)+

lemma intents_ok_cong:
  "sb_intents s' = sb_intents s \<Longrightarrow> sb_intent_order s' = sb_intent_order s \<Longrightarrow> intents_ok s \<Longrightarrow> intents_ok s'"
  by (simp add: intents_ok_def)

lemma list_ok_cong:
  "sb_transfers s' = sb_transfers s \<Longrightarrow> sb_selected_transfers s' = sb_selected_transfers s \<Longrightarrow>
     list_ok X s \<Longrightarrow> list_ok X s'"
  by (simp add: list_ok_def)

lemma modify_ok:
  assumes "transfers_ok s"
    and "\<And>t t'. f t = Some t' \<Longrightarrow> tr_id t = tid \<Longrightarrow> tr_ok t \<Longrightarrow>
      tr_id t' = tid \<and> tr_ok t' \<and> (active (tr_phase t') \<or> \<not> active (tr_phase t))"
  shows "transfers_ok (fst (modify_transfer tid f s))"
  using assms modify_list_ok_active [of "{}" s f tid] intents_ok_cong [of "fst (modify_transfer tid f s)" s]
  by (auto simp: transfers_ok_def)

lemma active_phase_tr_ok: "tr_phase t = active_phase (tr_direction t) \<Longrightarrow> tr_pausable t = (tr_direction t = Download) \<Longrightarrow> tr_ok t"
  by (cases "tr_direction t") (auto simp: tr_ok_def)

lemma start_guarded_Some:
  "start_guarded now r n tb t = Some t' \<Longrightarrow>
     tr_phase t \<in> {Queued, AwaitingConflict, Resuming} \<and> tr_id t' = tr_id t \<and>
     tr_phase t' = active_phase (tr_direction t) \<and> tr_direction t' = tr_direction t \<and>
     tr_pausable t' = tr_pausable t"
  by (auto simp: start_guarded_def split: if_splits)

lemma progress_guarded_Some:
  "progress_guarded now d tb t = Some t' \<Longrightarrow>
     tr_phase t \<in> {active_phase (tr_direction t), Pausing} \<and> tr_id t' = tr_id t \<and>
     tr_phase t' = active_phase (tr_direction t) \<and> tr_direction t' = tr_direction t \<and>
     tr_pausable t' = tr_pausable t"
  by (auto simp: progress_guarded_def Let_def split: if_splits)

lemma resume_guarded_Some:
  "resume_guarded now d tb t = Some t' \<Longrightarrow>
     tr_phase t = Resuming \<and> tr_id t' = tr_id t \<and>
     tr_phase t' = active_phase (tr_direction t) \<and> tr_direction t' = tr_direction t \<and>
     tr_pausable t' = tr_pausable t"
  by (auto simp: resume_guarded_def split: if_splits)

lemma requeue_Some:
  "requeue n tb l r t = Some t' \<Longrightarrow>
     (tr_phase t = Queued \<or> tr_direction t = Upload \<and> tr_phase t \<in> {AwaitingConflict, Uploading}) \<and>
     tr_id t' = tr_id t \<and> tr_phase t' = Queued \<and> tr_direction t' = tr_direction t \<and>
     tr_pausable t' = tr_pausable t"
  by (auto simp: requeue_def split: if_splits)

lemma finish_guarded_Some:
  "finish_guarded ph st t = Some t' \<Longrightarrow>
     finish_allowed (tr_phase t) ph \<and> tr_id t' = tr_id t \<and> tr_phase t' = ph \<and>
     tr_direction t' = tr_direction t \<and> tr_pausable t' = tr_pausable t"
  by (auto simp: finish_guarded_def split: if_splits)

lemma downloaded_guarded_Some:
  "downloaded_guarded tb l t = Some t' \<Longrightarrow>
     tr_phase t \<in> {Downloading, Pausing, Resuming} \<and> tr_id t' = tr_id t \<and> tr_phase t' = Completed \<and>
     tr_direction t' = tr_direction t \<and> tr_pausable t' = tr_pausable t"
  by (auto simp: downloaded_guarded_def split: if_splits)

lemma tr_ok_pausable: "tr_ok t \<Longrightarrow> tr_pausable t = (tr_direction t = Download)"
  by (simp add: tr_ok_def)

lemma tr_ok_simple: "tr_ok t \<Longrightarrow> tr_direction t' = tr_direction t \<Longrightarrow> tr_pausable t' = tr_pausable t \<Longrightarrow>
    tr_phase t' \<in> {Queued, Cancelling, Completed, Cancelled, Skipped, TransferFailed} \<Longrightarrow> tr_ok t'"
  by (auto simp: tr_ok_def)

lemma tr_ok_active: "tr_ok t \<Longrightarrow> tr_direction t' = tr_direction t \<Longrightarrow> tr_pausable t' = tr_pausable t \<Longrightarrow>
    tr_phase t' = active_phase (tr_direction t) \<Longrightarrow> tr_ok t'"
  using active_phase_tr_ok [of t'] by (simp add: tr_ok_pausable)

lemma tr_ok_download: "tr_ok t \<Longrightarrow> tr_pausable t \<Longrightarrow> tr_direction t' = tr_direction t \<Longrightarrow>
    tr_pausable t' = tr_pausable t \<Longrightarrow> tr_phase t' \<in> {Downloading, Pausing, Paused, Resuming} \<Longrightarrow> tr_ok t'"
  by (auto simp: tr_ok_def)

lemma start_ok: "transfers_ok s \<Longrightarrow> transfers_ok (start_transfer now tid r n tb s)"
  unfolding start_transfer_def
  by (erule modify_ok) (auto dest!: start_guarded_Some intro: tr_ok_active)

lemma progress_ok: "transfers_ok s \<Longrightarrow> transfers_ok (update_transfer_progress now tid d tb s)"
  unfolding update_transfer_progress_def
  by (erule modify_ok) (auto dest!: progress_guarded_Some intro: tr_ok_active)

lemma request_pause_ok: "transfers_ok s \<Longrightarrow> transfers_ok (fst (request_transfer_pause tid s))"
  unfolding request_transfer_pause_def by (erule modify_ok) (auto split: if_splits intro: tr_ok_download)

lemma pause_ok: "transfers_ok s \<Longrightarrow> transfers_ok (fst (pause_transfer tid s))"
  unfolding pause_transfer_def by (erule modify_ok) (auto split: if_splits intro: tr_ok_download)

lemma request_resume_ok: "transfers_ok s \<Longrightarrow> transfers_ok (fst (request_transfer_resume tid s))"
  unfolding request_transfer_resume_def by (erule modify_ok) (auto split: if_splits intro: tr_ok_download)

lemma resume_ok: "transfers_ok s \<Longrightarrow> transfers_ok (fst (resume_transfer now tid d tb s))"
  unfolding resume_transfer_def by (erule modify_ok) (auto dest!: resume_guarded_Some intro: tr_ok_active)

lemma status_ok: "transfers_ok s \<Longrightarrow> transfers_ok (set_transfer_status tid st s)"
  unfolding set_transfer_status_def by (erule modify_ok) (auto simp: tr_ok_def)

section \<open>Every operation keeps the list well formed\<close>

lemma transfers_ok_cong:
  "sb_transfers s' = sb_transfers s \<Longrightarrow> sb_selected_transfers s' = sb_selected_transfers s \<Longrightarrow>
   sb_intents s' = sb_intents s \<Longrightarrow> sb_intent_order s' = sb_intent_order s \<Longrightarrow>
   transfers_ok s \<Longrightarrow> transfers_ok s'"
  by (simp add: transfers_ok_def list_ok_def intents_ok_def)

lemma back_to_queue_fields [simp]:
  "tr_id (back_to_queue st t) = tr_id t" "tr_phase (back_to_queue st t) = Queued"
  "tr_direction (back_to_queue st t) = tr_direction t" "tr_pausable (back_to_queue st t) = tr_pausable t"
  "tr_downloaded_bytes (back_to_queue st t) = 0"
  by (simp_all add: back_to_queue_def)

lemma side_ok [intro]:
  "transfers_ok s \<Longrightarrow> transfers_ok (forget_root tid s)"
  "transfers_ok s \<Longrightarrow> transfers_ok (drop_conflicts tid s)"
  "transfers_ok s \<Longrightarrow> transfers_ok (s\<lparr>sb_conflicts := cs\<rparr>)"
  "transfers_ok s \<Longrightarrow> transfers_ok (s\<lparr>sb_pending_roots := r\<rparr>)"
  "transfers_ok s \<Longrightarrow> transfers_ok (s\<lparr>sb_scanning_roots := r\<rparr>)"
  "transfers_ok s \<Longrightarrow> transfers_ok (s\<lparr>sb_children := ch\<rparr>)"
  "transfers_ok s \<Longrightarrow> transfers_ok (s\<lparr>sb_local := l\<rparr>)"
  by (auto simp: forget_root_def drop_conflicts_def intro: transfers_ok_cong)

lemma deselect_ok: "list_ok {tid} s \<Longrightarrow> intents_ok s \<Longrightarrow> transfers_ok (deselect_transfer tid s)"
  by (auto simp: transfers_ok_def deselect_transfer_def list_ok_def intents_ok_def)

lemma register_intent_ok: "transfers_ok s \<Longrightarrow> transfers_ok (register_intent i s)"
  by (auto simp: transfers_ok_def register_intent_def list_ok_def intents_ok_def lookup_update')

lemma lookup_delete': "Mapping.lookup (Mapping.delete k m) j = (if j = k then None else Mapping.lookup m j)"
  by (simp add: lookup_delete)

lemma remove_intent_ok: "transfers_ok s \<Longrightarrow> transfers_ok (remove_transfer_intent tid s)"
  by (auto simp: transfers_ok_def remove_transfer_intent_def list_ok_def intents_ok_def lookup_delete'
      split: if_splits)

lemma mark_child_fields [simp]:
  "sb_transfers (mark_directory_child_completed tid s) = sb_transfers s"
  "sb_selected_transfers (mark_directory_child_completed tid s) = sb_selected_transfers s"
  "sb_intent_order (mark_directory_child_completed tid s) = sb_intent_order s"
  "sb_conflicts (mark_directory_child_completed tid s) = sb_conflicts s"
  by (simp_all add: mark_directory_child_completed_def split: option.splits transfer_intent.splits)

lemma mark_child_intents: "intents_ok s \<Longrightarrow> intents_ok (mark_directory_child_completed tid s)"
proof -
  assume ok: "intents_ok s"
  have "Mapping.lookup (sb_intents (mark_directory_child_completed tid s)) k = None \<longleftrightarrow>
        Mapping.lookup (sb_intents s) k = None" for k
    by (auto simp: mark_directory_child_completed_def lookup_update'
        split: option.splits transfer_intent.splits if_splits)
  moreover have "Mapping.lookup (sb_intents (mark_directory_child_completed tid s)) k = Some i \<Longrightarrow>
        \<exists>j. Mapping.lookup (sb_intents s) k = Some j \<and> intent_id i = intent_id j" for k i
    by (auto simp: mark_directory_child_completed_def lookup_update'
        split: option.splits transfer_intent.splits if_splits)
  ultimately show ?thesis using ok unfolding intents_ok_def mark_child_fields by metis
qed

lemma list_ok_insert: "list_ok X s \<Longrightarrow> list_ok (insert tid X) s"
  by (auto simp: list_ok_def)

lemma finish_ok:
  assumes ok: "transfers_ok s" and fin: "\<not> active ph"
  shows "transfers_ok (finish_transfer tid ph st s)"
proof -
  let ?s0 = "drop_conflicts tid (forget_root tid s)"
  have ok0: "transfers_ok ?s0" using ok by auto
  show ?thesis
  proof (cases rule: modify_cases [of tid "finish_guarded ph st" ?s0])
    case refused
    then show ?thesis using ok0 by (simp add: finish_transfer_def)
  next
    case (updated t t')
    define s1 where "s1 = fst (modify_transfer tid (finish_guarded ph st) ?s0)"
    have m: "modify_transfer tid (finish_guarded ph st) ?s0 = (s1, True)" using updated(3) by (simp add: s1_def)
    have ph: "ph \<in> {Queued, Cancelling, Completed, Cancelled, Skipped, TransferFailed}"
      using fin by (cases ph) simp_all
    have "list_ok ({} \<union> {tid}) s1" unfolding s1_def
    proof (rule modify_list_ok)
      show "list_ok {} ?s0" using ok0 by (simp add: transfers_ok_def)
      fix u u' assume "finish_guarded ph st u = Some u'" "tr_id u = tid" "tr_ok u"
      then show "tr_id u' = tid \<and> tr_ok u' \<and> (tid \<in> {tid} \<or> active (tr_phase u') \<or> \<not> active (tr_phase u))"
        using ph by (auto dest!: finish_guarded_Some intro: tr_ok_simple)
    qed
    then have l1: "list_ok {tid} s1" by simp
    have i1: "intents_ok s1" using ok0 by (auto simp: s1_def transfers_ok_def intro: intents_ok_cong)
    define s2 where "s2 = (if ph = Completed then mark_directory_child_completed tid s1 else s1)"
    have l2: "list_ok {tid} s2" using l1 list_ok_cong [of s2 s1] by (simp add: s2_def)
    have i2: "intents_ok s2" using i1 by (simp add: s2_def mark_child_intents)
    have eq: "finish_transfer tid ph st s =
        (if \<not> transfer_is_active tid s2 then remove_transfer_intent tid (deselect_transfer tid s2) else s2)"
      using fin by (simp add: finish_transfer_def m s2_def Let_def)
    show ?thesis
    proof (cases "transfer_is_active tid s2")
      case True
      then have "tid \<in> active_ids (sb_transfers s2)" by (auto simp: transfer_is_active_def active_ids_def)
      with l2 i2 True show ?thesis by (auto simp: eq transfers_ok_def list_ok_def)
    next
      case False
      then show ?thesis using remove_intent_ok [OF deselect_ok [OF l2 i2]] by (simp add: eq)
    qed
  qed
qed

lemma queue_ok: "transfers_ok s \<Longrightarrow> transfers_ok (queue_transfer_with_pause tid n tb dir l r s)"
proof -
  assume "transfers_ok s"
  then have ok: "transfers_ok (s\<lparr>sb_conflicts := filter (\<lambda>c. uc_transfer_id c \<noteq> tid) (sb_conflicts s)\<rparr>)"
    (is "transfers_ok ?s1") by auto
  show ?thesis
  proof (cases "find_transfer tid ?s1")
    case None
    then have "tid \<notin> tr_id ` set (sb_transfers s)"
      by (auto simp: find_transfer_def dest: find_NoneD)
    with ok None show ?thesis
      by (auto simp: queue_transfer_with_pause_def Let_def transfers_ok_def list_ok_def intents_ok_def
          new_transfer_def tr_ok_def active_ids_def)
  next
    case (Some t)
    then have "queue_transfer_with_pause tid n tb dir l r s = fst (modify_transfer tid (requeue n tb l r) ?s1)"
      by (simp add: queue_transfer_with_pause_def Let_def)
    moreover have "transfers_ok (fst (modify_transfer tid (requeue n tb l r) ?s1))"
      by (rule modify_ok [OF ok]) (auto dest!: requeue_Some intro: tr_ok_simple)
    ultimately show ?thesis by simp
  qed
qed

lemma finish_downloaded_ok: "transfers_ok s \<Longrightarrow> transfers_ok (fst (finish_downloaded_transfer tid tb l s))"
proof -
  assume ok: "transfers_ok s"
  let ?f = "downloaded_guarded tb l"
  define s1 where "s1 = fst (modify_transfer tid ?f s)"
  have "list_ok ({} \<union> {tid}) s1" unfolding s1_def
  proof (rule modify_list_ok)
    show "list_ok {} s" using ok by (simp add: transfers_ok_def)
    fix u u' assume "downloaded_guarded tb l u = Some u'" "tr_id u = tid" "tr_ok u"
    then show "tr_id u' = tid \<and> tr_ok u' \<and> (tid \<in> {tid} \<or> active (tr_phase u') \<or> \<not> active (tr_phase u))"
      using downloaded_guarded_Some [of tb l u u'] tr_ok_simple [of u u'] by auto
  qed
  moreover have "intents_ok s1" using ok by (auto simp: s1_def transfers_ok_def intro: intents_ok_cong)
  ultimately have "transfers_ok (remove_transfer_intent tid
      (deselect_transfer tid (mark_directory_child_completed tid s1)))"
    using list_ok_cong [of "mark_directory_child_completed tid s1" s1 "{tid}"]
    by (auto intro!: remove_intent_ok deselect_ok mark_child_intents)
  then show ?thesis
    using ok by (cases rule: modify_cases [of tid ?f s]) (simp_all add: finish_downloaded_transfer_def s1_def)
qed

lemma queue_transfer_ok: "transfers_ok s \<Longrightarrow> transfers_ok (queue_transfer tid n tb s)"
  by (simp add: queue_transfer_def queue_ok)

lemma record_failure_ok: "transfers_ok s \<Longrightarrow> transfers_ok (record_transfer_failure tid n m s)"
  by (simp add: record_transfer_failure_def finish_ok queue_transfer_ok)

lemma fail_root_ok: "transfers_ok s \<Longrightarrow> transfers_ok (fail_download_root tid n m s)"
  by (auto simp: fail_download_root_def intro!: record_failure_ok remove_intent_ok)

lemma finish_root_ok: "transfers_ok s \<Longrightarrow> transfers_ok (finish_download_root tid d sk f c m s)"
  by (auto simp: finish_download_root_def root_phase_def Let_def intro!: finish_ok)

lemma defer_ok: "transfers_ok s \<Longrightarrow> transfers_ok (defer_recoverable_failure tid m s)"
  unfolding defer_recoverable_failure_def
proof (rule modify_ok)
  show "transfers_ok s \<Longrightarrow> transfers_ok (forget_root tid s)" by (rule side_ok)
  fix t t' assume "Some (back_to_queue (''Waiting for reconnection: '' @ m) t) = Some t'" "tr_id t = tid" "tr_ok t"
  then show "tr_id t' = tid \<and> tr_ok t' \<and> (active (tr_phase t') \<or> \<not> active (tr_phase t))"
    using back_to_queue_fields [of "''Waiting for reconnection: '' @ m" t] tr_ok_simple [of t t'] by auto
qed

lemma cancel_ok: "transfers_ok s \<Longrightarrow> transfers_ok (fst (request_transfer_cancel tid s))"
proof -
  assume ok: "transfers_ok s"
  let ?f = "\<lambda>t. if \<not> can_request_cancel (tr_phase t) then None
         else Some (t\<lparr>tr_phase := Cancelling, tr_status := ''Cancelling''\<rparr>)"
  have "transfers_ok (fst (modify_transfer tid ?f s))"
    by (rule modify_ok [OF ok]) (auto split: if_splits intro: tr_ok_simple)
  with ok remove_intent_ok show ?thesis
    by (cases rule: modify_cases [of tid ?f s]) (auto simp: request_transfer_cancel_def)
qed

lemma remove_finished_ok: "transfers_ok s \<Longrightarrow> transfers_ok (fst (remove_finished_transfer tid s))"
proof (cases "find (\<lambda>t. tr_id t = tid \<and> \<not> active (tr_phase t)) (sb_transfers s)")
  case (Some t)
  assume ok: "transfers_ok s"
  have t: "tr_id t = tid" "\<not> active (tr_phase t)" "t \<in> set (sb_transfers s)"
    using find_SomeD [OF Some] by auto
  have d: "distinct (map tr_id (sb_transfers s))" using ok by (simp add: transfers_ok_def list_ok_def)
  then have "set (remove1 t (sb_transfers s)) = set (sb_transfers s) - {t}"
    by (simp add: distinct_map)
  moreover have "distinct (map tr_id (remove1 t (sb_transfers s)))"
    using d set_remove1_subset [of t "sb_transfers s"] by (auto simp: distinct_map intro: inj_on_subset)
  ultimately show ?thesis using ok t
    by (auto simp: remove_finished_transfer_def Some transfers_ok_def deselect_transfer_def list_ok_def
        list_all_iff active_ids_def intents_ok_def)
qed (simp add: remove_finished_transfer_def)

lemma reserve_ok: "transfers_ok s \<Longrightarrow> transfers_ok (fst (reserve_download_root tid s))"
  by (auto simp: reserve_download_root_def)

lemma discovery_ok: "transfers_ok s \<Longrightarrow> transfers_ok (begin_download_discovery tid n l r s)"
  by (auto simp: begin_download_discovery_def Let_def queue_transfer_event_def intro!: status_ok queue_ok)

lemma discovered_ok: "transfers_ok s \<Longrightarrow> transfers_ok (register_discovered_download_intent r tid s)"
  by (auto simp: register_discovered_download_intent_def)

lemma conflict_ok: "transfers_ok s \<Longrightarrow> transfers_ok (record_upload_conflict c s)"
proof -
  assume ok: "transfers_ok s"
  let ?f = "\<lambda>t. if tr_direction t \<noteq> Upload \<or> tr_phase t \<notin> {Queued, Uploading} then None
         else Some (t\<lparr>tr_phase := AwaitingConflict, tr_status := ''Waiting for file conflict decision''\<rparr>)"
  have "transfers_ok (fst (modify_transfer (uc_transfer_id c) ?f s))"
    by (rule modify_ok [OF ok]) (auto split: if_splits simp: tr_ok_def)
  with ok show ?thesis
    by (cases rule: modify_cases [of "uc_transfer_id c" ?f s]) (auto simp: record_upload_conflict_def)
qed

lemma resolve_ok: "transfers_ok s \<Longrightarrow> transfers_ok (resolve_upload_conflict tid b s)"
proof -
  assume ok: "transfers_ok s"
  let ?r = "resolved_transfers tid b (sb_conflicts s)"
  let ?g = "\<lambda>t. if tr_id t \<in> ?r \<and> tr_phase t = AwaitingConflict
          then t\<lparr>tr_phase := Queued, tr_status := ''Queued''\<rparr> else t"
  have "map tr_id (map ?g (sb_transfers s)) = map tr_id (sb_transfers s)" by (simp add: comp_def)
  moreover have "list_all tr_ok (map ?g (sb_transfers s))"
    using ok by (auto simp: transfers_ok_def list_ok_def list_all_iff tr_ok_def)
  moreover have "active_ids (sb_transfers s) \<subseteq> active_ids (map ?g (sb_transfers s))"
  proof
    fix k assume "k \<in> active_ids (sb_transfers s)"
    then obtain t where "t \<in> set (sb_transfers s)" "active (tr_phase t)" "k = tr_id t"
      by (auto simp: active_ids_def)
    then show "k \<in> active_ids (map ?g (sb_transfers s))"
      unfolding active_ids_def by (intro CollectI exI [of _ "?g t"]) auto
  qed
  ultimately show ?thesis
    using ok by (auto simp: resolve_upload_conflict_def Let_def transfers_ok_def list_ok_def intents_ok_def
        simp del: map_map)
qed

lemma toggle_transfer_ok: "transfers_ok s \<Longrightarrow> transfers_ok (fst (toggle_transfer_selection tid b s))"
  by (auto simp: toggle_transfer_selection_def transfer_is_active_def transfers_ok_def list_ok_def
      active_ids_def intents_ok_def)

lemma nav_fields_reset [simp]:
  "sb_transfers (reset_navigation d s) = sb_transfers s"
  "sb_selected_transfers (reset_navigation d s) = sb_selected_transfers s"
  "sb_intents (reset_navigation d s) = sb_intents s"
  "sb_intent_order (reset_navigation d s) = sb_intent_order s"
  by (simp_all add: reset_navigation_def)

lemma reconnect_ok: "transfers_ok s \<Longrightarrow> transfers_ok (prepare_for_reconnect d s)"
proof -
  assume ok: "transfers_ok s"
  let ?i = "Mapping.filter (\<lambda>_ i. replayed i) (sb_intents s)"
  let ?kept = "filter (\<lambda>t. \<not> active (tr_phase t) \<or> Mapping.lookup ?i (tr_id t) \<noteq> None) (sb_transfers s)"
  let ?g = "\<lambda>t. if active (tr_phase t) then back_to_queue ''Waiting for reconnection'' t else t"
  have "map tr_id (map ?g ?kept) = map tr_id ?kept" by (simp add: comp_def back_to_queue_def)
  moreover have "distinct (map tr_id ?kept)"
    using ok by (simp add: transfers_ok_def list_ok_def distinct_map_filter)
  moreover have "list_all tr_ok (map ?g ?kept)"
    using ok by (auto simp: transfers_ok_def list_ok_def list_all_iff tr_ok_def back_to_queue_def)
  moreover have "Mapping.lookup ?i k \<noteq> None \<Longrightarrow> Mapping.lookup (sb_intents s) k \<noteq> None" for k
    by (auto simp: lookup_filter split: option.splits)
  moreover have "Mapping.lookup ?i k = Some i \<Longrightarrow> Mapping.lookup (sb_intents s) k = Some i" for k i
    by (auto simp: lookup_filter split: option.splits if_splits)
  ultimately show ?thesis
    using ok by (auto simp: prepare_for_reconnect_def Let_def transfers_ok_def list_ok_def intents_ok_def
        simp del: map_map)
qed

lemma clear_ok: "transfers_ok (clear_transfer_intents s)"
  by (simp add: clear_transfer_intents_def transfers_ok_def list_ok_def intents_ok_def)

lemma default_ok: "transfers_ok (sftp_browser_default d)"
  by (simp add: sftp_browser_default_def sftp_nav.defs transfers_ok_def list_ok_def intents_ok_def)

lemma reset_browser_ok: "transfers_ok (reset_browser d s)"
  using default_ok [of d] by (auto simp: reset_browser_def)

lemma event_ok': "transfers_ok s \<Longrightarrow> transfers_ok (fst (apply_transfer_event now r e s))"
proof (cases e)
  case (EvCompleted tid l tb)
  assume ok: "transfers_ok s"
  show ?thesis
  proof (cases "l = []")
    case True
    then show ?thesis using ok EvCompleted
      by (simp add: apply_transfer_event_def finish_uploaded_transfer_def finish_ok)
  next
    case False
    then show ?thesis using finish_downloaded_ok [OF ok, of tid tb l] EvCompleted
      by (auto simp: apply_transfer_event_def split: prod.splits bool.splits sum.splits)
  qed
qed (auto simp: apply_transfer_event_def queue_transfer_event_def Let_def split: option.splits
      intro!: queue_ok discovered_ok start_ok progress_ok pause_ok resume_ok defer_ok fail_root_ok
        finish_root_ok conflict_ok finish_ok)

section \<open>Steps of a tab\<close>

text \<open>A failure that is put back into the queue to wait for a reconnection.\<close>

fun deferred :: "bool \<Rightarrow> transfer_event \<Rightarrow> bool" where
  "deferred reconnect_enabled (EvFailed _ _ recoverable) = (recoverable \<and> reconnect_enabled)"
| "deferred reconnect_enabled (EvDiscoveryFailed _ _ _ recoverable) = (recoverable \<and> reconnect_enabled)"
| "deferred reconnect_enabled _ = False"

text \<open>Worker events and requests of the user that concern transfers.\<close>

inductive transfer_step :: "'x sftp_browser \<Rightarrow> 'x sftp_browser \<Rightarrow> bool" where
  event: "\<not> deferred r e \<Longrightarrow> transfer_step s (fst (apply_transfer_event now r e s))"
| queue: "transfer_step s (queue_transfer_with_pause tid name tb dir l rp s)"
| request_pause: "transfer_step s (fst (request_transfer_pause tid s))"
| request_resume: "transfer_step s (fst (request_transfer_resume tid s))"
| request_cancel: "transfer_step s (fst (request_transfer_cancel tid s))"
| finish: "\<not> active ph \<Longrightarrow> transfer_step s (finish_transfer tid ph st s)"
| failure: "transfer_step s (record_transfer_failure tid name m s)"
| status: "transfer_step s (set_transfer_status tid st s)"
| discovery: "transfer_step s (begin_download_discovery tid name l rp s)"
| reserve: "transfer_step s (fst (reserve_download_root tid s))"
| register: "transfer_step s (register_intent i s)"
| forget: "transfer_step s (remove_transfer_intent tid s)"
| resolve: "transfer_step s (resolve_upload_conflict tid b s)"
| select: "transfer_step s (fst (toggle_transfer_selection tid b s))"

text \<open>Everything that happens to a tab.\<close>

inductive tab_step :: "(string \<Rightarrow> string) \<Rightarrow> 'x \<Rightarrow> 'x sftp_browser \<Rightarrow> 'x sftp_browser \<Rightarrow> bool"
  for lower :: "string \<Rightarrow> string" and d :: 'x where
  transfer: "transfer_step s s' \<Longrightarrow> tab_step lower d s s'"
| nav: "nav_step lower d s s' \<Longrightarrow> tab_step lower d s s'"
| local_side: "local_step lower (sb_local s) l \<Longrightarrow> tab_step lower d s (s\<lparr>sb_local := l\<rparr>)"
| defer_event: "tab_step lower d s (fst (apply_transfer_event now r e s))"
| remove: "tab_step lower d s (fst (remove_finished_transfer tid s))"
| reconnect: "tab_step lower d s (prepare_for_reconnect d s)"
| clear: "tab_step lower d s (clear_transfer_intents s)"
| reset: "tab_step lower d s (reset_browser d s)"

lemma transfer_step_ok: "transfer_step s s' \<Longrightarrow> transfers_ok s \<Longrightarrow> transfers_ok s'"
  by (induction rule: transfer_step.induct)
    (simp_all add: event_ok' queue_ok request_pause_ok request_resume_ok cancel_ok finish_ok
      record_failure_ok status_ok discovery_ok reserve_ok register_intent_ok remove_intent_ok resolve_ok
      toggle_transfer_ok)

text \<open>A navigation step does not touch what extends the navigation state.\<close>

lemma begin_nav_more: "begin_navigation s kind path = Inr (q, s') \<Longrightarrow> sftp_nav.more s' = sftp_nav.more s"
  using begin_effect_remote [of s kind path "fst q" "snd q" s'] by simp

lemma refresh_more:
  "begin_refresh_after_remote_change s dir = Inr (q, s') \<Longrightarrow> sftp_nav.more s' = sftp_nav.more s"
  by (auto simp: begin_refresh_after_remote_change_def split: if_splits sum.splits dest: begin_nav_more)

lemma complete_navigation_more [simp]: "sftp_nav.more (complete_navigation s p) = sftp_nav.more s"
  by (simp add: complete_navigation_def split: prod.splits)

lemma nav_step_more: "nav_step lower d s s' \<Longrightarrow> sftp_nav.more s' = sftp_nav.more s"
proof (induction rule: nav_step.induct)
  case (begin_nav s kind path r s')
  then show ?case by (rule begin_nav_more)
next
  case (refresh s dir r s')
  then show ?case by (rule refresh_more)
next
  case (pending_refresh s r s')
  then show ?case
    by (auto simp: begin_pending_remote_refresh_def Let_def split: if_splits option.splits sum.splits
        dest: refresh_more)
next
  case (event s e)
  show ?case
    by (cases e) (simp_all add: apply_sftp_event_def reset_navigation_def cancel_navigation_def
        apply_directory_page_def Let_def)
qed (auto simp: begin_load_more_def cancel_navigation_def reset_navigation_def toggle_sort_def
      toggle_selection_def select_all_def Let_def split: if_splits prod.splits bool.splits)

lemma more_fields:
  assumes "sftp_nav.more s' = sftp_nav.more (s :: 'x sftp_browser)"
  shows "sb_transfers s' = sb_transfers s" "sb_selected_transfers s' = sb_selected_transfers s"
    "sb_intents s' = sb_intents s" "sb_intent_order s' = sb_intent_order s"
  using assms by (cases s; cases s'; simp)+

lemma tab_step_ok: "tab_step lower d s s' \<Longrightarrow> transfers_ok s \<Longrightarrow> transfers_ok s'"
proof (induction rule: tab_step.induct)
  case (transfer s s')
  then show ?case by (rule transfer_step_ok)
next
  case (nav s s')
  from more_fields [OF nav_step_more [OF nav(1)]] nav(2) show ?case by (auto intro: transfers_ok_cong)
next
  case (local_side s l)
  then show ?case by auto
qed (simp_all add: event_ok' remove_finished_ok reconnect_ok clear_ok reset_browser_ok)

section \<open>Phases\<close>

text \<open>The table of phase changes: what may follow a phase in one step.\<close>

fun next_phases :: "phase \<Rightarrow> phase list" where
  "next_phases Queued =
     [AwaitingConflict, Downloading, Uploading, Cancelling, Completed, Cancelled, TransferFailed, Skipped]"
| "next_phases AwaitingConflict = [Queued, Uploading, Cancelling, Cancelled, TransferFailed]"
| "next_phases Downloading = [Pausing, Paused, Cancelling, Completed, Cancelled, TransferFailed]"
| "next_phases Uploading =
     [Queued, AwaitingConflict, Cancelling, Completed, Cancelled, TransferFailed, Skipped]"
| "next_phases Pausing = [Downloading, Paused, Cancelling, Completed, Cancelled, TransferFailed]"
| "next_phases Paused = [Resuming, Cancelling, Cancelled, TransferFailed]"
| "next_phases Resuming = [Downloading, Cancelling, Completed, Cancelled, TransferFailed]"
| "next_phases Cancelling = [Cancelled, TransferFailed]"
| "next_phases _ = []"

definition phase_path :: "phase \<Rightarrow> phase \<Rightarrow> bool" where
  "phase_path = (\<lambda>p q. q \<in> set (next_phases p))\<^sup>*\<^sup>*"

lemma phase_path_refl [simp, intro]: "phase_path p p"
  by (simp add: phase_path_def)

lemma phase_path_step: "q \<in> set (next_phases p) \<Longrightarrow> phase_path p q"
  by (simp add: phase_path_def r_into_rtranclp)

lemma phase_path_trans: "phase_path p q \<Longrightarrow> phase_path q r \<Longrightarrow> phase_path p r"
  unfolding phase_path_def by (rule rtranclp_trans)

lemma finished_no_next: "\<not> active p \<Longrightarrow> next_phases p = []"
  by (cases p) simp_all

lemma phase_path_finished: "phase_path p q \<Longrightarrow> \<not> active p \<Longrightarrow> q = p"
  unfolding phase_path_def by (induction rule: converse_rtranclp_induct) (auto simp: finished_no_next)

definition evolves :: "'x sftp_browser \<Rightarrow> 'x sftp_browser \<Rightarrow> bool" where
  "evolves s s' \<longleftrightarrow> (\<forall>tid t. find_transfer tid s = Some t \<longrightarrow>
     (\<exists>t'. find_transfer tid s' = Some t' \<and> tr_direction t' = tr_direction t \<and>
        phase_path (tr_phase t) (tr_phase t')))"

lemma evolves_refl [simp, intro]: "evolves s s"
  by (auto simp: evolves_def)

lemma evolves_trans: "evolves s s' \<Longrightarrow> evolves s' s'' \<Longrightarrow> evolves s s''"
proof -
  assume a: "evolves s s'" and b: "evolves s' s''"
  show "evolves s s''" unfolding evolves_def
  proof (intro allI impI)
    fix tid t assume "find_transfer tid s = Some t"
    with a obtain t' where t': "find_transfer tid s' = Some t'" "tr_direction t' = tr_direction t"
      "phase_path (tr_phase t) (tr_phase t')" unfolding evolves_def by blast
    with b obtain t'' where "find_transfer tid s'' = Some t''" "tr_direction t'' = tr_direction t'"
      "phase_path (tr_phase t') (tr_phase t'')" unfolding evolves_def by blast
    with t' show "\<exists>t'. find_transfer tid s'' = Some t' \<and> tr_direction t' = tr_direction t \<and>
        phase_path (tr_phase t) (tr_phase t')" by (auto intro: phase_path_trans)
  qed
qed

lemma evolves_same: "sb_transfers s' = sb_transfers s \<Longrightarrow> evolves s s'"
  by (auto simp: evolves_def find_transfer_def)

lemma evolves_modify:
  assumes "list_ok X s"
    and "\<And>t t'. f t = Some t' \<Longrightarrow> tr_id t = tid \<Longrightarrow> tr_ok t \<Longrightarrow> tr_id t' = tid \<and>
      tr_direction t' = tr_direction t \<and> (tr_phase t' = tr_phase t \<or> tr_phase t' \<in> set (next_phases (tr_phase t)))"
  shows "evolves s (fst (modify_transfer tid f s))"
proof (cases rule: modify_cases [of tid f s])
  case refused
  then show ?thesis by simp
next
  case (updated t t')
  let ?ts = "sb_transfers s" and ?us = "update_first (\<lambda>u. tr_id u = tid) (\<lambda>_. t') (sb_transfers s)"
  have t: "tr_id t = tid" "tr_ok t"
    using find_transfer_Some [OF updated(1)] assms(1) by (auto simp: list_ok_def list_all_iff)
  note t' = assms(2) [OF updated(2) t]
  have same: "find (\<lambda>u. tr_id u = tid) ?us = Some t'"
    using updated(1) t' find_update_first [of "\<lambda>u. tr_id u = tid" "\<lambda>_. t'" ?ts] by (simp add: find_transfer_def)
  have other: "find (\<lambda>u. tr_id u = k) ?us = find (\<lambda>u. tr_id u = k) ?ts" if "k \<noteq> tid" for k
    by (rule find_update_first_other) (use that t' in auto)
  show ?thesis
    unfolding evolves_def
  proof (intro allI impI)
    fix k u assume u: "find_transfer k s = Some u"
    show "\<exists>u'. find_transfer k (fst (modify_transfer tid f s)) = Some u' \<and>
        tr_direction u' = tr_direction u \<and> phase_path (tr_phase u) (tr_phase u')"
    proof (cases "k = tid")
      case True
      then show ?thesis using u updated same t' by (auto simp: find_transfer_def intro: phase_path_step)
    next
      case False
      then show ?thesis using u updated other by (auto simp: find_transfer_def)
    qed
  qed
qed

lemma list_ok_transfers: "transfers_ok s \<Longrightarrow> list_ok {} s"
  by (simp add: transfers_ok_def)

lemma active_phase_next:
  "tr_ok t \<Longrightarrow> tr_phase t \<in> {Queued, AwaitingConflict, Resuming, Pausing} \<Longrightarrow>
     active_phase (tr_direction t) \<in> set (next_phases (tr_phase t))"
  by (cases "tr_direction t") (auto simp: tr_ok_def)

lemma finish_allowed_next: "finish_allowed p q \<Longrightarrow> q \<in> set (next_phases p) \<and> \<not> active q"
  by (cases p; cases q; simp add: finish_allowed_def)

lemma evolves_simple:
  assumes "transfers_ok s"
  shows "evolves s (start_transfer now tid r n tb s)"
    and "evolves s (update_transfer_progress now tid d tb s)"
    and "evolves s (fst (resume_transfer now tid d tb s))"
    and "evolves s (set_transfer_status tid st s)"
    and "evolves s (fst (request_transfer_pause tid s))"
    and "evolves s (fst (pause_transfer tid s))"
    and "evolves s (fst (request_transfer_resume tid s))"
proof -
  note m = evolves_modify [OF list_ok_transfers [OF assms]]
  show "evolves s (start_transfer now tid r n tb s)" unfolding start_transfer_def
  proof (rule m)
    fix t t' assume a: "start_guarded now r n tb t = Some t'" "tr_id t = tid" "tr_ok t"
    show "tr_id t' = tid \<and> tr_direction t' = tr_direction t \<and>
        (tr_phase t' = tr_phase t \<or> tr_phase t' \<in> set (next_phases (tr_phase t)))"
      using start_guarded_Some [OF a(1)] active_phase_next [OF a(3)] a(2) by auto
  qed
  show "evolves s (update_transfer_progress now tid d tb s)" unfolding update_transfer_progress_def
  proof (rule m)
    fix t t' assume a: "progress_guarded now d tb t = Some t'" "tr_id t = tid" "tr_ok t"
    show "tr_id t' = tid \<and> tr_direction t' = tr_direction t \<and>
        (tr_phase t' = tr_phase t \<or> tr_phase t' \<in> set (next_phases (tr_phase t)))"
      using progress_guarded_Some [OF a(1)] active_phase_next [OF a(3)] a(2) by auto
  qed
  show "evolves s (fst (resume_transfer now tid d tb s))" unfolding resume_transfer_def
  proof (rule m)
    fix t t' assume a: "resume_guarded now d tb t = Some t'" "tr_id t = tid" "tr_ok t"
    show "tr_id t' = tid \<and> tr_direction t' = tr_direction t \<and>
        (tr_phase t' = tr_phase t \<or> tr_phase t' \<in> set (next_phases (tr_phase t)))"
      using resume_guarded_Some [OF a(1)] active_phase_next [OF a(3)] a(2) by auto
  qed
  show "evolves s (set_transfer_status tid st s)" unfolding set_transfer_status_def by (rule m) auto
  show "evolves s (fst (request_transfer_pause tid s))" unfolding request_transfer_pause_def
    by (rule m) (auto split: if_splits)
  show "evolves s (fst (pause_transfer tid s))" unfolding pause_transfer_def
    by (rule m) (auto split: if_splits)
  show "evolves s (fst (request_transfer_resume tid s))" unfolding request_transfer_resume_def
    by (rule m) (auto split: if_splits)
qed

lemma remove_intent_fields [simp]:
  "sb_transfers (remove_transfer_intent tid s) = sb_transfers s"
  "sb_selected_transfers (remove_transfer_intent tid s) = sb_selected_transfers s"
  "sb_transfers (deselect_transfer tid s) = sb_transfers s"
  "sb_transfers (drop_conflicts tid s) = sb_transfers s"
  "sb_transfers (forget_root tid s) = sb_transfers s"
  by (simp_all add: remove_transfer_intent_def deselect_transfer_def drop_conflicts_def forget_root_def)

lemma evolves_via: "evolves s u \<Longrightarrow> sb_transfers s' = sb_transfers u \<Longrightarrow> evolves s s'"
  by (rule evolves_trans [OF _ evolves_same])

lemma evolves_from: "sb_transfers u = sb_transfers s \<Longrightarrow> evolves u s' \<Longrightarrow> evolves s s'"
  by (rule evolves_trans [OF evolves_same])

lemma evolves_finish: "transfers_ok s \<Longrightarrow> evolves s (finish_transfer tid ph st s)"
proof -
  assume ok: "transfers_ok s"
  let ?s0 = "drop_conflicts tid (forget_root tid s)"
  have "evolves ?s0 (fst (modify_transfer tid (finish_guarded ph st) ?s0))"
    by (rule evolves_modify [of "{}"])
      (use ok in \<open>auto dest!: finish_guarded_Some finish_allowed_next intro!: list_ok_transfers\<close>)
  then have e: "evolves s (fst (modify_transfer tid (finish_guarded ph st) ?s0))"
    by (rule evolves_from [rotated]) simp
  have "sb_transfers (finish_transfer tid ph st s) =
      sb_transfers (fst (modify_transfer tid (finish_guarded ph st) ?s0))"
    by (cases rule: modify_cases [of tid "finish_guarded ph st" ?s0])
      (simp_all add: finish_transfer_def Let_def)
  with e show ?thesis by (rule evolves_via)
qed

lemma evolves_downloaded: "transfers_ok s \<Longrightarrow> evolves s (fst (finish_downloaded_transfer tid tb l s))"
proof -
  assume ok: "transfers_ok s"
  have e: "evolves s (fst (modify_transfer tid (downloaded_guarded tb l) s))"
    by (rule evolves_modify [OF list_ok_transfers [OF ok]]) (auto dest!: downloaded_guarded_Some)
  have "sb_transfers (fst (finish_downloaded_transfer tid tb l s)) =
      sb_transfers (fst (modify_transfer tid (downloaded_guarded tb l) s))"
    by (cases rule: modify_cases [of tid "downloaded_guarded tb l" s])
      (simp_all add: finish_downloaded_transfer_def)
  with e show ?thesis by (rule evolves_via)
qed

lemma find_append: "find p (xs @ ys) = (case find p xs of None \<Rightarrow> find p ys | Some x \<Rightarrow> Some x)"
  by (induction xs) auto

lemma evolves_queue: "transfers_ok s \<Longrightarrow> evolves s (queue_transfer_with_pause tid n tb dir l r s)"
proof -
  assume ok: "transfers_ok s"
  let ?s1 = "s\<lparr>sb_conflicts := filter (\<lambda>c. uc_transfer_id c \<noteq> tid) (sb_conflicts s)\<rparr>"
  have ok1: "transfers_ok ?s1" using ok by auto
  show ?thesis
  proof (cases "find_transfer tid ?s1")
    case None
    then have "queue_transfer_with_pause tid n tb dir l r s =
        ?s1\<lparr>sb_transfers := sb_transfers s @ [new_transfer tid n tb dir l r]\<rparr>"
      by (simp add: queue_transfer_with_pause_def Let_def)
    then show ?thesis by (auto simp: evolves_def find_transfer_def find_append)
  next
    case (Some t)
    then have "queue_transfer_with_pause tid n tb dir l r s = fst (modify_transfer tid (requeue n tb l r) ?s1)"
      by (simp add: queue_transfer_with_pause_def Let_def)
    moreover have "evolves ?s1 (fst (modify_transfer tid (requeue n tb l r) ?s1))"
      by (rule evolves_modify [OF list_ok_transfers [OF ok1]]) (auto dest!: requeue_Some)
    ultimately show ?thesis using evolves_from [of ?s1 s] by simp
  qed
qed

lemma evolves_failure: "transfers_ok s \<Longrightarrow> evolves s (record_transfer_failure tid n m s)"
  by (auto simp: record_transfer_failure_def queue_transfer_def intro: evolves_finish
      evolves_trans [OF evolves_queue evolves_finish] queue_ok)

lemma evolves_cancel: "transfers_ok s \<Longrightarrow> evolves s (fst (request_transfer_cancel tid s))"
proof -
  assume ok: "transfers_ok s"
  let ?f = "\<lambda>t. if \<not> can_request_cancel (tr_phase t) then None
         else Some (t\<lparr>tr_phase := Cancelling, tr_status := ''Cancelling''\<rparr>)"
  have e: "evolves s (fst (modify_transfer tid ?f s))"
    by (rule evolves_modify [OF list_ok_transfers [OF ok]])
      (auto simp: can_request_cancel_def split: if_splits)
  have "sb_transfers (fst (request_transfer_cancel tid s)) = sb_transfers (fst (modify_transfer tid ?f s))"
    by (cases rule: modify_cases [of tid ?f s]) (simp_all add: request_transfer_cancel_def)
  with e show ?thesis by (rule evolves_via)
qed

lemma evolves_conflict: "transfers_ok s \<Longrightarrow> evolves s (record_upload_conflict c s)"
proof -
  assume ok: "transfers_ok s"
  let ?f = "\<lambda>t. if tr_direction t \<noteq> Upload \<or> tr_phase t \<notin> {Queued, Uploading} then None
         else Some (t\<lparr>tr_phase := AwaitingConflict, tr_status := ''Waiting for file conflict decision''\<rparr>)"
  have e: "evolves s (fst (modify_transfer (uc_transfer_id c) ?f s))"
    by (rule evolves_modify [OF list_ok_transfers [OF ok]]) (auto split: if_splits)
  have "sb_transfers (record_upload_conflict c s) =
      sb_transfers (fst (modify_transfer (uc_transfer_id c) ?f s))"
    by (cases rule: modify_cases [of "uc_transfer_id c" ?f s]) (simp_all add: record_upload_conflict_def)
  with e show ?thesis by (rule evolves_via)
qed

lemma find_map_key: "(\<And>x. h (g x) = h x) \<Longrightarrow> find (\<lambda>y. h y = k) (map g xs) = map_option g (find (\<lambda>y. h y = k) xs)"
  by (induction xs) auto

lemma evolves_resolve: "evolves s (resolve_upload_conflict tid b s)"
proof -
  let ?r = "resolved_transfers tid b (sb_conflicts s)"
  let ?g = "\<lambda>t. if tr_id t \<in> ?r \<and> tr_phase t = AwaitingConflict
          then t\<lparr>tr_phase := Queued, tr_status := ''Queued''\<rparr> else t"
  have f: "find_transfer k (resolve_upload_conflict tid b s) = map_option ?g (find_transfer k s)" for k
    unfolding find_transfer_def resolve_upload_conflict_def Let_def
    by (simp add: find_map_key [of tr_id ?g])
  show ?thesis unfolding evolves_def f by (auto intro!: phase_path_step)
qed

lemma evolves_root: "transfers_ok s \<Longrightarrow> evolves s (finish_download_root tid d sk f c m s)"
proof -
  assume ok: "transfers_ok s"
  let ?u = "s\<lparr>sb_pending_roots := sb_pending_roots s - {tid}, sb_scanning_roots := sb_scanning_roots s - {tid}\<rparr>"
  have "transfers_ok ?u" using ok by auto
  then have "evolves s (finish_transfer tid ph st ?u)" for ph st
    by (rule evolves_from [OF _ evolves_finish, rotated]) simp
  then show ?thesis by (simp add: finish_download_root_def Let_def evolves_same)
qed

lemma evolves_fail_root: "transfers_ok s \<Longrightarrow> evolves s (fail_download_root tid n m s)"
  unfolding fail_download_root_def
  by (rule evolves_from [OF _ evolves_failure]) (auto intro: remove_intent_ok)

lemma evolves_discovery: "transfers_ok s \<Longrightarrow> evolves s (begin_download_discovery tid n l r s)"
proof -
  assume ok: "transfers_ok s"
  let ?q = "queue_transfer_event tid n 0 False (Some l) (Some r) s"
  let ?q' = "?q\<lparr>sb_scanning_roots := insert tid (sb_scanning_roots ?q)\<rparr>"
  have q: "transfers_ok ?q" "evolves s ?q"
    using ok by (simp_all add: queue_transfer_event_def queue_ok evolves_queue)
  then have "transfers_ok ?q'" "evolves s ?q'" by (auto intro: evolves_via)
  then show ?thesis
    using evolves_simple(4) [of ?q' tid] by (auto simp: begin_download_discovery_def Let_def intro: evolves_trans)
qed

lemma evolves_event: "transfers_ok s \<Longrightarrow> \<not> deferred r e \<Longrightarrow> evolves s (fst (apply_transfer_event now r e s))"
proof (cases e)
  case (EvQueued tid rt rp l up n tb)
  assume ok: "transfers_ok s"
  then have "evolves s (queue_transfer_event tid n tb up l (Some rp) s)"
    by (simp add: queue_transfer_event_def evolves_queue)
  then show ?thesis
    by (rule evolves_via)
      (simp add: EvQueued apply_transfer_event_def register_discovered_download_intent_def Let_def split: option.splits)
next
  case (EvPaused tid db tb)
  assume ok: "transfers_ok s"
  show ?thesis
    using evolves_trans [OF evolves_simple(2) [OF ok] evolves_simple(6) [OF progress_ok [OF ok]]]
    by (simp add: EvPaused apply_transfer_event_def)
next
  case (EvCompleted tid l tb)
  assume ok: "transfers_ok s"
  show ?thesis
  proof (cases "l = []")
    case True
    then show ?thesis using ok EvCompleted
      by (simp add: apply_transfer_event_def finish_uploaded_transfer_def evolves_finish)
  next
    case False
    have "sb_transfers (fst (apply_transfer_event now r e s)) =
        sb_transfers (fst (finish_downloaded_transfer tid tb l s))"
      using False EvCompleted by (simp add: apply_transfer_event_def split: prod.splits bool.splits sum.splits)
    then show ?thesis by (rule evolves_via [OF evolves_downloaded [OF ok]])
  qed
qed (auto simp: apply_transfer_event_def evolves_simple evolves_fail_root evolves_root evolves_conflict evolves_finish)

lemma evolves_step: "transfer_step s s' \<Longrightarrow> transfers_ok s \<Longrightarrow> evolves s s'"
proof (induction rule: transfer_step.induct)
  case (reserve s tid)
  show ?case by (rule evolves_same) (simp add: reserve_download_root_def)
next
  case (register s i)
  show ?case by (rule evolves_same) (simp add: register_intent_def)
next
  case (forget s tid)
  show ?case by (rule evolves_same) simp
next
  case (select s tid b)
  show ?case by (rule evolves_same) (simp add: toggle_transfer_selection_def)
qed (auto simp: evolves_event evolves_queue evolves_simple evolves_cancel evolves_finish evolves_failure
      evolves_discovery evolves_resolve)

lemma evolves_steps:
  "transfer_step\<^sup>*\<^sup>* s s' \<Longrightarrow> transfers_ok s \<Longrightarrow> evolves s s' \<and> transfers_ok s'"
proof (induction rule: rtranclp_induct)
  case (step s' s'')
  then show ?case using evolves_step [OF step(2)] transfer_step_ok [OF step(2)] by (auto intro: evolves_trans)
qed simp

section \<open>Properties\<close>

definition upload_example :: transfer where
  "upload_example = new_transfer 7 ''a'' 10 Upload (Some ''/l/a'') (Some ''/r/a'')"

definition example_tab :: "unit sftp_browser" where
  "example_tab = queue_upload_transfer 7 ''a'' 10 ''/l/a'' ''/r/a'' (sftp_browser_default ())"

lemma example_tab_transfers: "sb_transfers example_tab = [upload_example]"
  by (simp add: example_tab_def queue_upload_transfer_def queue_transfer_with_pause_def Let_def
      sftp_browser_default_def sftp_nav.defs find_transfer_def upload_example_def)

lemma example_tab_ok: "transfers_ok example_tab"
  by (simp add: example_tab_def queue_upload_transfer_def queue_ok default_ok)

lemma example_tab_find: "find_transfer 7 example_tab = Some upload_example"
  by (simp add: find_transfer_def example_tab_transfers) (simp add: upload_example_def new_transfer_def)



text \<open>
  C33. Over any sequence of worker events and user requests, as long as no failure is deferred to a
  reconnection, no transfer is lost, none changes its direction, every change of its phase goes along
  the table \<open>next_phases\<close>, and a transfer that has finished (completed, cancelled, skipped or failed)
  never changes its phase again.
\<close>

theorem phases_follow_table:
  assumes "transfer_step\<^sup>*\<^sup>* s s'" "transfers_ok s" "find_transfer tid s = Some t"
  shows "\<exists>t'. find_transfer tid s' = Some t' \<and> tr_direction t' = tr_direction t \<and>
    (\<lambda>p q. q \<in> set (next_phases p))\<^sup>*\<^sup>* (tr_phase t) (tr_phase t') \<and>
    (\<not> active (tr_phase t) \<longrightarrow> tr_phase t' = tr_phase t)"
proof -
  have "evolves s s'" using evolves_steps [OF assms(1,2)] by blast
  with assms(3) obtain t' where t': "find_transfer tid s' = Some t'" "tr_direction t' = tr_direction t"
    "phase_path (tr_phase t) (tr_phase t')" by (auto simp: evolves_def)
  with phase_path_finished [OF t'(3)] show ?thesis by (auto simp: phase_path_def)
qed

theorem phases_follow_table_witness:
  "\<exists>t'. find_transfer 7 (finish_transfer 7 Skipped ''Skipped'' example_tab) = Some t' \<and>
    tr_direction t' = Upload"
proof -
  have "transfer_step\<^sup>*\<^sup>* example_tab (finish_transfer 7 Skipped ''Skipped'' example_tab)"
    by (rule r_into_rtranclp, rule transfer_step.finish) simp
  from phases_follow_table [OF this example_tab_ok example_tab_find] show ?thesis
    by (auto simp: upload_example_def new_transfer_def)
qed

text \<open>
  C34. After a lost connection a tab is ready to replay: every transfer that is still active waits in
  the queue with nothing transferred and has an intent, every replayable intent is kept and every other
  one is gone, the download roots to be scanned again are pending, and nothing is selected or waits for
  a conflict decision. Finished transfers keep their phase.
\<close>

theorem reconnect_requeues:
  assumes "transfers_ok s"
  shows "let s' = prepare_for_reconnect d s in
    (\<forall>t \<in> set (sb_transfers s'). active (tr_phase t) \<longrightarrow>
       tr_phase t = Queued \<and> tr_downloaded_bytes t = 0 \<and> Mapping.lookup (sb_intents s') (tr_id t) \<noteq> None) \<and>
    (\<forall>k i. Mapping.lookup (sb_intents s') k = Some i \<longleftrightarrow> Mapping.lookup (sb_intents s) k = Some i \<and> replayed i) \<and>
    sb_pending_roots s' = {k. \<exists>i. Mapping.lookup (sb_intents s) k = Some i \<and> is_DownloadRoot i} \<and>
    sb_conflicts s' = [] \<and> sb_selected_transfers s' = {} \<and> sb_replay_pending s' \<and> \<not> sb_open s' \<and>
    filter (\<lambda>t. \<not> active (tr_phase t)) (sb_transfers s') = filter (\<lambda>t. \<not> active (tr_phase t)) (sb_transfers s)"
proof -
  let ?i = "Mapping.filter (\<lambda>_ i. replayed i) (sb_intents s)"
  let ?g = "\<lambda>t. if active (tr_phase t) then back_to_queue ''Waiting for reconnection'' t else t"
  have lk: "Mapping.lookup ?i k = Some i \<longleftrightarrow> Mapping.lookup (sb_intents s) k = Some i \<and> replayed i" for k i
    by (auto simp: lookup_filter split: option.splits if_splits)
  have root: "is_DownloadRoot i \<Longrightarrow> replayed i" for i by (cases i) simp_all
  have key: "Mapping.lookup (sb_intents s) k = Some i \<Longrightarrow> intent_id i = k" for k i
    using assms by (simp add: transfers_ok_def intents_ok_def)
  have roots: "{intent_id i | i k. Mapping.lookup ?i k = Some i \<and> is_DownloadRoot i} =
      {k. \<exists>i. Mapping.lookup (sb_intents s) k = Some i \<and> is_DownloadRoot i}"
    using root key unfolding lk by (auto dest: key)
  have fin: "filter (\<lambda>t. \<not> active (tr_phase t)) (map ?g (filter (\<lambda>t. \<not> active (tr_phase t) \<or> P t) ts)) =
      filter (\<lambda>t. \<not> active (tr_phase t)) ts" for P ts
    by (induction ts) auto
  show ?thesis
    unfolding Let_def
  proof (intro conjI)
    show "\<forall>t \<in> set (sb_transfers (prepare_for_reconnect d s)). active (tr_phase t) \<longrightarrow>
       tr_phase t = Queued \<and> tr_downloaded_bytes t = 0 \<and>
       Mapping.lookup (sb_intents (prepare_for_reconnect d s)) (tr_id t) \<noteq> None"
      by (auto simp: prepare_for_reconnect_def Let_def)
    show "\<forall>k i. Mapping.lookup (sb_intents (prepare_for_reconnect d s)) k = Some i \<longleftrightarrow>
        Mapping.lookup (sb_intents s) k = Some i \<and> replayed i"
      using lk by (simp add: prepare_for_reconnect_def Let_def)
    show "sb_pending_roots (prepare_for_reconnect d s) =
        {k. \<exists>i. Mapping.lookup (sb_intents s) k = Some i \<and> is_DownloadRoot i}"
      using roots by (simp add: prepare_for_reconnect_def Let_def)
    show "filter (\<lambda>t. \<not> active (tr_phase t)) (sb_transfers (prepare_for_reconnect d s)) =
        filter (\<lambda>t. \<not> active (tr_phase t)) (sb_transfers s)"
      using fin by (simp add: prepare_for_reconnect_def Let_def)
  qed (simp_all add: prepare_for_reconnect_def Let_def)
qed

theorem reconnect_requeues_witness: "sb_replay_pending (prepare_for_reconnect () example_tab)"
  using reconnect_requeues [OF example_tab_ok, of "()"] by (simp add: Let_def)

text \<open>
  A decision applied to the whole batch answers every conflict of that batch and no other: exactly
  the conflicts of other batches remain queued, and exactly the waiting transfers of the batch go back
  to the queue.
\<close>

theorem resolve_answers_batch:
  assumes "find (\<lambda>c. uc_transfer_id c = tid) (sb_conflicts s) = Some c0"
    and "\<And>c c'. c \<in> set (sb_conflicts s) \<Longrightarrow> c' \<in> set (sb_conflicts s) \<Longrightarrow>
      uc_transfer_id c = uc_transfer_id c' \<Longrightarrow> uc_batch_id c = uc_batch_id c'"
  shows "sb_conflicts (resolve_upload_conflict tid True s) =
      filter (\<lambda>c. uc_batch_id c \<noteq> uc_batch_id c0) (sb_conflicts s) \<and>
    (\<forall>k t. find_transfer k s = Some t \<longrightarrow>
       (\<exists>t'. find_transfer k (resolve_upload_conflict tid True s) = Some t' \<and>
          tr_phase t' = (if tr_phase t = AwaitingConflict \<and>
              (\<exists>c \<in> set (sb_conflicts s). uc_transfer_id c = k \<and> uc_batch_id c = uc_batch_id c0)
            then Queued else tr_phase t)))"
proof -
  let ?cs = "sb_conflicts s" and ?r = "resolved_transfers tid True (sb_conflicts s)"
  have c0: "c0 \<in> set ?cs" "uc_transfer_id c0 = tid" using find_SomeD [OF assms(1)] by auto
  have mem: "k \<in> ?r \<longleftrightarrow> (\<exists>c \<in> set ?cs. uc_transfer_id c = k \<and> uc_batch_id c = uc_batch_id c0)" for k
  proof -
    have "uc_batch_id c = uc_batch_id c0" if "c \<in> set ?cs" "uc_transfer_id c = tid" for c
      using assms(2) [OF that(1) c0(1)] that(2) c0(2) by simp
    then have "filter (\<lambda>c. uc_transfer_id c = tid \<or> True \<and> Some (uc_batch_id c) = Some (uc_batch_id c0)) ?cs =
        filter (\<lambda>c. uc_batch_id c = uc_batch_id c0) ?cs"
      by (intro filter_cong refl) auto
    then have "?r = uc_transfer_id ` set (filter (\<lambda>c. uc_batch_id c = uc_batch_id c0) ?cs)"
      by (simp only: resolved_transfers_def assms(1) Let_def option.map)
    then show ?thesis by (simp add: image_iff) blast
  qed
  have conf: "uc_transfer_id c \<notin> ?r \<longleftrightarrow> uc_batch_id c \<noteq> uc_batch_id c0" if "c \<in> set ?cs" for c
    using mem [of "uc_transfer_id c"] assms(2) [OF that] that by metis
  let ?g = "\<lambda>t. if tr_id t \<in> ?r \<and> tr_phase t = AwaitingConflict
          then t\<lparr>tr_phase := Queued, tr_status := ''Queued''\<rparr> else t"
  have f: "find_transfer k (resolve_upload_conflict tid True s) = map_option ?g (find_transfer k s)" for k
    unfolding find_transfer_def resolve_upload_conflict_def Let_def by (simp add: find_map_key [of tr_id ?g])
  have "filter (\<lambda>c. uc_transfer_id c \<notin> ?r) ?cs = filter (\<lambda>c. uc_batch_id c \<noteq> uc_batch_id c0) ?cs"
    by (rule filter_cong [OF refl conf])
  then have confs: "sb_conflicts (resolve_upload_conflict tid True s) =
      filter (\<lambda>c. uc_batch_id c \<noteq> uc_batch_id c0) ?cs"
    by (simp add: resolve_upload_conflict_def Let_def)
  have "\<exists>t'. find_transfer k (resolve_upload_conflict tid True s) = Some t' \<and>
          tr_phase t' = (if tr_phase t = AwaitingConflict \<and>
              (\<exists>c \<in> set ?cs. uc_transfer_id c = k \<and> uc_batch_id c = uc_batch_id c0)
            then Queued else tr_phase t)"
    if t: "find_transfer k s = Some t" for k t
  proof -
    have "tr_id t = k" using find_transfer_Some [OF t] by simp
    then have "tr_phase (?g t) = (if tr_phase t = AwaitingConflict \<and> k \<in> ?r then Queued else tr_phase t)"
      by simp
    then show ?thesis unfolding f t mem [symmetric] by simp
  qed
  with confs show ?thesis by blast
qed

definition example_conflict :: upload_conflict where
  "example_conflict = \<lparr>uc_transfer_id = 7, uc_batch_id = 1, uc_name = ''a'', uc_remote_size = None,
     uc_remote_modified = None\<rparr>"

theorem resolve_answers_batch_witness:
  "sb_conflicts (resolve_upload_conflict 7 True (record_upload_conflict example_conflict example_tab)) = []"
proof -
  have "sb_conflicts example_tab = []"
    by (simp add: example_tab_def queue_upload_transfer_def queue_transfer_with_pause_def Let_def
      sftp_browser_default_def sftp_nav.defs find_transfer_def)
  then have c: "sb_conflicts (record_upload_conflict example_conflict example_tab) = [example_conflict]"
    by (simp add: record_upload_conflict_def modify_transfer_def example_conflict_def example_tab_find
        upload_example_def new_transfer_def)
  show ?thesis
    using resolve_answers_batch [of 7 "record_upload_conflict example_conflict example_tab" example_conflict]
    by (simp add: c) (simp add: example_conflict_def)
qed

text \<open>
  C36. A cancel request is not final: when the worker then reports a recoverable failure (the usual
  answer when the connection drops), the transfer is put back into the queue as waiting for the
  reconnection, with its intent already gone.
\<close>

theorem deferred_failure_undoes_cancel:
  assumes "find_transfer tid s = Some t" "can_request_cancel (tr_phase t)"
  shows "let s1 = fst (request_transfer_cancel tid s);
             s2 = fst (apply_transfer_event now True (EvFailed tid m True) s1) in
    (\<exists>t1. find_transfer tid s1 = Some t1 \<and> tr_phase t1 = Cancelling) \<and>
    (\<exists>t2. find_transfer tid s2 = Some t2 \<and> tr_phase t2 = Queued) \<and>
    Mapping.lookup (sb_intents s2) tid = None"
proof -
  let ?f = "\<lambda>t. if \<not> can_request_cancel (tr_phase t) then None
         else Some (t\<lparr>tr_phase := Cancelling, tr_status := ''Cancelling''\<rparr>)"
  let ?t1 = "t\<lparr>tr_phase := Cancelling, tr_status := ''Cancelling''\<rparr>"
  have tid: "tr_id t = tid" using find_transfer_Some [OF assms(1)] by simp
  define s1 where "s1 = fst (request_transfer_cancel tid s)"
  have upd: "modify_transfer tid ?f s =
      (s\<lparr>sb_transfers := update_first (\<lambda>u. tr_id u = tid) (\<lambda>_. ?t1) (sb_transfers s)\<rparr>, True)"
    using assms by (simp add: modify_transfer_def)
  have f1: "find_transfer tid s1 = Some ?t1"
    using assms(1) tid find_update_first [of "\<lambda>u. tr_id u = tid" "\<lambda>_. ?t1" "sb_transfers s"]
    by (simp add: s1_def request_transfer_cancel_def upd find_transfer_def)
  have i1: "Mapping.lookup (sb_intents s1) tid = None"
    by (simp add: s1_def request_transfer_cancel_def upd remove_transfer_intent_def lookup_delete')
  let ?t2 = "back_to_queue (''Waiting for reconnection: '' @ m) ?t1"
  have "find_transfer tid (defer_recoverable_failure tid m s1) = Some ?t2"
    using f1 tid find_update_first [of "\<lambda>u. tr_id u = tid" "\<lambda>_. ?t2" "sb_transfers s1"]
    by (simp add: defer_recoverable_failure_def modify_transfer_def find_transfer_def)
  moreover have "Mapping.lookup (sb_intents (defer_recoverable_failure tid m s1)) tid = None"
    using i1 by (simp add: defer_recoverable_failure_def) (simp add: forget_root_def)
  moreover have "fst (apply_transfer_event now True (EvFailed tid m True) s1) = defer_recoverable_failure tid m s1"
    by (simp add: apply_transfer_event_def)
  ultimately show ?thesis
    unfolding Let_def s1_def [symmetric] using f1 by (simp add: back_to_queue_def)
qed

theorem deferred_failure_undoes_cancel_witness:
  "\<exists>t. find_transfer 7 (fst (apply_transfer_event 0 True (EvFailed 7 ''lost'' True)
      (fst (request_transfer_cancel 7 example_tab)))) = Some t \<and> tr_phase t = Queued"
  using deferred_failure_undoes_cancel [OF example_tab_find, of 0 "''lost''"]
  by (simp add: Let_def upload_example_def new_transfer_def can_request_cancel_def)

end
