(* ===== verification/Rust_Lines.thy ===== *)
theory Rust_Lines
  imports Rust_Text
begin

text \<open>
  More of \<^verbatim>\<open>str\<close>: \<^verbatim>\<open>lines\<close>, \<^verbatim>\<open>split_whitespace\<close> and \<^verbatim>\<open>split_once\<close>, with the facts
  that connect them: what is white space at an end of a line does not change its fields.
\<close>

section \<open>Lines and fields\<close>

text \<open>\<^verbatim>\<open>str::lines\<close>: a line ends at LF or CR LF; there is no empty line after the last LF.\<close>

definition strip_cr :: "string \<Rightarrow> string" where
  "strip_cr l = (if l \<noteq> [] \<and> last l = CHR 0x0D then butlast l else l)"

fun text_lines :: "string \<Rightarrow> string \<Rightarrow> string list" where
  "text_lines cur [] = (if cur = [] then [] else [cur])"
| "text_lines cur (c # cs) =
     (if c = CHR 0x0A then strip_cr cur # text_lines [] cs else text_lines (cur @ [c]) cs)"

definition str_lines :: "string \<Rightarrow> string list" where
  "str_lines s = text_lines [] s"

text \<open>\<^verbatim>\<open>str::split_whitespace\<close>.\<close>

function fields_from :: "string \<Rightarrow> string \<Rightarrow> string list" where
  "fields_from cur s =
     (if s = [] then (if cur = [] then [] else [cur])
      else if leading_space s = 0 then fields_from (cur @ [hd s]) (tl s)
      else (if cur = [] then [] else [cur]) @ fields_from [] (drop (leading_space s) s))"
  by pat_completeness auto
termination
  by (relation "measure (\<lambda>(cur, s). length s)") auto

declare fields_from.simps [simp del]

definition split_whitespace :: "string \<Rightarrow> string list" where
  "split_whitespace s = fields_from [] s"

definition split_once :: "char \<Rightarrow> string \<Rightarrow> (string \<times> string) option" where
  "split_once c s =
     (if c \<in> set s then Some (takeWhile (\<lambda>x. x \<noteq> c) s, tl (dropWhile (\<lambda>x. x \<noteq> c) s)) else None)"

section \<open>White space at the ends\<close>

text \<open>No encoding of a white space character is a prefix of another one.\<close>

lemma space_codes_shape:
  "\<forall>u \<in> set space_codes. u \<noteq> [] \<and> length u \<le> 3 \<and> hd u \<notin> {128..<192} \<and> (\<forall>x \<in> set (tl u). 128 \<le> x \<and> x < 192)"
  "\<forall>u \<in> set space_codes. take 1 u \<in> set space_codes \<longrightarrow> length u = 1"
  "\<forall>u \<in> set space_codes. take 2 u \<in> set space_codes \<longrightarrow> length u \<le> 2"
  by (simp_all add: space_codes_def)

lemma space_char_tail:
  assumes "is_space_char u" "x \<in> set (tl u)"
  shows "is_continuation x"
proof -
  have "of_char x \<in> set (tl (map of_char u :: nat list))"
    using assms(2) by (simp add: map_tl [symmetric])
  then show ?thesis using assms(1) space_codes_shape(1) by (auto simp: is_space_char_def is_continuation_def)
qed

lemma leading_space_le: "leading_space s \<le> length s"
proof -
  have "is_space_char (take k s) \<Longrightarrow> k \<le> length s \<or> (\<exists>j < k. is_space_char (take j s) \<and> j \<le> length s)" for k
    by (metis nat_le_linear not_less take_all order_refl le_less)
  then show ?thesis
    unfolding leading_space_def
    by (auto simp: not_less numeral_2_eq_2 numeral_3_eq_3 less_Suc_eq) (metis take_all not_space_Nil le_SucE take0 le_0_eq not_less_eq_eq)+
qed

text \<open>White space characters are not prefixes of other ones: more text does not change the first one.\<close>

lemma leading_space_append:
  assumes "s \<noteq> []" "w = [] \<or> \<not> is_continuation (hd w)"
  shows "leading_space (s @ w) = leading_space s"
proof (cases "w = []")
  case False
  then have hd: "\<not> is_continuation (hd w)" using assms(2) by simp
  have beyond: "\<not> is_space_char (take k (s @ w))" if "length s < k" for k
  proof
    assume sp: "is_space_char (take k (s @ w))"
    have "hd w \<in> set (take (k - length s) w)" using that False by (cases w) (auto simp: take_Cons')
    then have "hd w \<in> set (tl (take k (s @ w)))" using that assms(1) by (cases s) (auto simp: take_Cons')
    with space_char_tail [OF sp] hd show False by blast
  qed
  have within: "take k (s @ w) = take k s" if "k \<le> length s" for k using that by simp
  have over: "take k s = s" if "length s \<le> k" for k using that by simp
  have "length s \<noteq> 0" using assms(1) by simp
  then consider "length s = 1" | "length s = 2" | "3 \<le> length s" by linarith
  then show ?thesis
  proof cases
    case 1
    then show ?thesis using beyond [of 2] beyond [of 3] within [of 1] over [of 1] over [of 2] over [of 3]
      by (simp add: leading_space_def)
  next
    case 2
    then show ?thesis using beyond [of 3] within [of 1] within [of 2] over [of 2] over [of 3]
      by (simp add: leading_space_def)
  next
    case 3
    then show ?thesis using within [of 1] within [of 2] within [of 3] by (simp add: leading_space_def)
  qed
qed simp

lemma space_char_length:
  assumes "is_space_char w"
  shows "leading_space w = length w \<and> w \<noteq> [] \<and> \<not> is_continuation (hd w)"
proof -
  let ?u = "map of_char w :: nat list"
  have u: "?u \<in> set space_codes" using assms by (simp add: is_space_char_def)
  have w: "w \<noteq> []" "length w \<le> 3" using space_codes_shape(1) u by auto
  have "hd ?u \<notin> {128..<192}" using space_codes_shape(1) u by blast
  then have hd: "\<not> is_continuation (hd w)" using w by (simp add: is_continuation_def hd_map)
  have "is_space_char (take 1 w) \<Longrightarrow> length w = 1" "is_space_char (take 2 w) \<Longrightarrow> length w \<le> 2"
    using space_codes_shape(2,3) u by (auto simp: is_space_char_def take_map)
  moreover have "length w = 1 \<or> length w = 2 \<or> length w = 3" using w by (cases "length w") auto
  ultimately show ?thesis using w hd assms by (auto simp: leading_space_def)
qed

lemma fields_from_space:
  assumes "is_space_char w"
  shows "fields_from cur (s @ w) = fields_from cur s"
proof (induction cur s rule: fields_from.induct)
  case (1 cur s)
  note w = space_char_length [OF assms]
  show ?case
  proof (cases "s = []")
    case True
    have "fields_from cur w = (if cur = [] then [] else [cur]) @ fields_from [] []"
      using w by (subst fields_from.simps) simp
    with True show ?thesis by (simp add: fields_from.simps [of _ "[]"])
  next
    case False
    have l: "leading_space (s @ w) = leading_space s" using leading_space_append [OF False] w by blast
    show ?thesis
    proof (cases "leading_space s = 0")
      case True
      then show ?thesis using 1(1) [OF False True] False
        by (subst (1 2) fields_from.simps) (simp add: l)
    next
      case sp: False
      have "leading_space s \<le> length s" by (rule leading_space_le)
      then show ?thesis using 1(2) [OF False sp] False sp
        by (subst (1 2) fields_from.simps) (simp add: l)
    qed
  qed
qed

lemma split_whitespace_trim_start: "split_whitespace (trim_start s) = split_whitespace s"
proof (induction s rule: trim_start.induct)
  case (1 s)
  show ?case
  proof (cases "leading_space s = 0")
    case False
    have "split_whitespace s = split_whitespace (drop (leading_space s) s)"
      using False leading_space_pos [of s]
      unfolding split_whitespace_def by (subst fields_from.simps) auto
    with False 1 show ?thesis by (simp add: trim_start.simps [of s])
  qed (simp add: trim_start.simps [of s])
qed

lemma trailing_space_char:
  assumes "trailing_space s \<noteq> 0"
  shows "is_space_char (drop (length s - trailing_space s) s)"
  using assms by (auto simp: trailing_space_def Let_def split: if_splits)

lemma split_whitespace_trim_end: "split_whitespace (trim_end s) = split_whitespace s"
proof (induction s rule: trim_end.induct)
  case (1 s)
  show ?case
  proof (cases "trailing_space s = 0")
    case False
    let ?k = "length s - trailing_space s"
    have "split_whitespace (take ?k s @ drop ?k s) = split_whitespace (take ?k s)"
      unfolding split_whitespace_def by (rule fields_from_space [OF trailing_space_char [OF False]])
    with False 1 show ?thesis by (simp add: trim_end.simps [of s])
  qed (simp add: trim_end.simps [of s])
qed

lemma split_whitespace_trim [simp]: "split_whitespace (trim s) = split_whitespace s"
  by (simp add: trim_def split_whitespace_trim_end split_whitespace_trim_start)

lemma split_whitespace_strip_cr [simp]: "split_whitespace (strip_cr l) = split_whitespace l"
proof (cases "l \<noteq> [] \<and> last l = CHR 0x0D")
  case True
  have "is_space_char [CHR 0x0D]" by (simp add: is_space_char_def space_codes_def)
  from fields_from_space [OF this, of "[]" "butlast l"]
  have "split_whitespace (butlast l @ [CHR 0x0D]) = split_whitespace (butlast l)"
    by (simp add: split_whitespace_def)
  moreover have "butlast l @ [CHR 0x0D] = l" using True append_butlast_last_id [of l] by simp
  ultimately show ?thesis using True by (simp add: strip_cr_def)
qed (auto simp: strip_cr_def)

text \<open>The first field starts where the trimmed text starts.\<close>

lemma trim_start_no_space: "leading_space (trim_start s) = 0"
proof (induction s rule: trim_start.induct)
  case (1 s)
  then show ?case by (cases "leading_space s = 0") (simp_all add: trim_start.simps [of s])
qed

lemma trim_end_no_space: "leading_space s = 0 \<Longrightarrow> leading_space (trim_end s) = 0"
proof (induction s rule: trim_end.induct)
  case (1 s)
  show ?case
  proof (cases "trailing_space s = 0")
    case False
    let ?k = "length s - trailing_space s"
    have "leading_space (take ?k s) = 0"
    proof (cases "take ?k s = []")
      case ne: False
      have "\<not> is_continuation (hd (drop ?k s))"
        using space_char_length [OF trailing_space_char [OF False]] by blast
      then have "leading_space (take ?k s @ drop ?k s) = leading_space (take ?k s)"
        using leading_space_append [OF ne] by blast
      with 1(2) show ?thesis by simp
    next
      case True
      then show ?thesis unfolding True by (simp add: leading_space_def)
    qed
    with False 1(1) show ?thesis by (simp add: trim_end.simps [of s])
  qed (use 1(2) in \<open>simp add: trim_end.simps [of s]\<close>)
qed

lemma fields_from_cur: "cur \<noteq> [] \<Longrightarrow> \<exists>f fs. fields_from cur s = (cur @ f) # fs"
proof (induction cur s rule: fields_from.induct)
  case (1 cur s)
  then show ?case by (subst fields_from.simps) (auto simp: append_assoc)
qed

lemma split_whitespace_trimmed:
  assumes "leading_space t = 0"
  shows "t = [] \<and> split_whitespace t = [] \<or>
    (\<exists>c r f fs. t = c # r \<and> split_whitespace t = (c # f) # fs)"
proof (cases t)
  case Nil
  then show ?thesis by (simp add: split_whitespace_def fields_from.simps)
next
  case (Cons c r)
  then have "split_whitespace t = fields_from [c] r"
    using assms unfolding split_whitespace_def by (subst fields_from.simps) simp
  moreover obtain f fs where "fields_from [c] r = ([c] @ f) # fs" using fields_from_cur [of "[c]" r] by blast
  ultimately show ?thesis using Cons by simp
qed

lemma trim_fields:
  "trim s = [] \<and> split_whitespace s = [] \<or> (\<exists>c r f fs. trim s = c # r \<and> split_whitespace s = (c # f) # fs)"
  using split_whitespace_trimmed [of "trim s"] trim_end_no_space [OF trim_start_no_space]
  by (simp add: trim_def [symmetric])

section \<open>Fields without white space\<close>

definition plain_char :: "char \<Rightarrow> bool" where
  "plain_char c \<longleftrightarrow> 33 \<le> (of_char c :: nat) \<and> (of_char c :: nat) \<le> 126"

lemma plain_no_space: "plain_char c \<Longrightarrow> leading_space (c # s) = 0"
  by (auto simp: leading_space_def plain_char_def is_space_char_def space_codes_def take_Cons' split: if_splits)

lemma fields_from_plain:
  "\<forall>c \<in> set s. plain_char c \<Longrightarrow> fields_from cur (s @ r) = fields_from (cur @ s) r"
proof (induction s arbitrary: cur)
  case (Cons c s)
  then have "fields_from cur ((c # s) @ r) = fields_from (cur @ [c]) (s @ r)"
    by (subst fields_from.simps) (simp add: plain_no_space)
  with Cons show ?case by simp
qed simp

lemma fields_from_blank: "cur \<noteq> [] \<Longrightarrow> fields_from cur (CHR '' '' # r) = cur # fields_from [] r"
  by (subst fields_from.simps) (simp add: leading_space_def is_space_char_def space_codes_def)

lemma split_whitespace_field:
  assumes "s \<noteq> []" "\<forall>c \<in> set s. plain_char c"
  shows "split_whitespace (s @ '' '' @ r) = s # split_whitespace r"
  using assms by (simp add: split_whitespace_def fields_from_plain fields_from_blank)

section \<open>Lines\<close>

lemma text_lines_line:
  "CHR 0x0A \<notin> set l \<Longrightarrow> text_lines cur (l @ CHR 0x0A # r) = strip_cr (cur @ l) # text_lines [] r"
  by (induction l arbitrary: cur) auto

lemma text_lines_no_lf:
  "l \<in> set (text_lines cur s) \<Longrightarrow> CHR 0x0A \<notin> set cur \<Longrightarrow> CHR 0x0A \<notin> set l"
proof (induction cur s rule: text_lines.induct)
  case (2 cur c cs)
  then show ?case by (auto simp: strip_cr_def split: if_splits dest: in_set_butlastD)
qed (auto split: if_splits)

lemma str_lines_no_lf: "l \<in> set (str_lines s) \<Longrightarrow> CHR 0x0A \<notin> set l"
  using text_lines_no_lf [of l "[]"] by (simp add: str_lines_def)

lemma str_lines_join:
  "\<forall>l \<in> set ls. CHR 0x0A \<notin> set l \<Longrightarrow> ls \<noteq> [] \<Longrightarrow>
    str_lines (join_with (CHR 0x0A) ls @ CHR 0x0A # r) = map strip_cr ls @ str_lines r"
  unfolding str_lines_def
proof (induction "CHR 0x0A" ls rule: join_with.induct)
  case (3 p q ps)
  then show ?case using text_lines_line [of p "[]" "join_with (CHR 0x0A) (q # ps) @ CHR 0x0A # r"] by simp
qed (simp_all add: text_lines_line)

text \<open>Appending text behind a complete line adds its lines; an unfinished last line is finished first.\<close>

lemma text_lines_append:
  assumes "cur @ s = [] \<or> last (cur @ s) = CHR 0x0A" "CHR 0x0A \<notin> set cur"
  shows "text_lines cur (s @ r) = text_lines cur s @ text_lines [] r"
  using assms
proof (induction cur s rule: text_lines.induct)
  case (1 cur)
  then have "cur = []" using last_in_set by fastforce
  then show ?case by simp
next
  case (2 cur c cs)
  then show ?case by (cases "cs = []") auto
qed

lemma text_lines_finish:
  assumes "cur @ s \<noteq> []" "last (cur @ s) \<noteq> CHR 0x0A"
  shows "text_lines cur (s @ CHR 0x0A # r) =
    butlast (text_lines cur s) @ strip_cr (last (text_lines cur s)) # text_lines [] r \<and> text_lines cur s \<noteq> []"
  using assms
proof (induction cur s rule: text_lines.induct)
  case (2 cur c cs)
  then show ?case by (cases "cs = []") auto
qed auto

end
