(* ===== verification/Known_Hosts.thy ===== *)
theory Known_Hosts
  imports Rust_Lines
begin

text \<open>
  \<^verbatim>\<open>src/ssh/known_hosts.rs\<close>: parsing the OpenSSH \<^verbatim>\<open>known_hosts\<close> file, matching host patterns,
  the trust decision for an offered key, and the three edits of the file (append, replace, remove).

  The file is \<open>string option\<close> (\<open>None\<close>: it does not exist); \<open>file_faults\<close> says which file system
  calls work. Key parsing, base64 and HMAC come from third-party crates and are the fields of
  \<open>crypto\<close>; the type \<open>'k\<close> is \<^verbatim>\<open>PublicKey\<close> and its equality \<^verbatim>\<open>PartialEq\<close>.
\<close>

section \<open>Data\<close>

definition MAX_FILE_BYTES :: nat where "MAX_FILE_BYTES = 4 * 1024 * 1024"

definition MAX_LINES :: nat where "MAX_LINES = 16384"

datatype trust_decision = Unknown | Trusted | Changed | Revoked

record 'k host_entry =
  he_hosts :: string
  he_key :: 'k
  he_revoked :: bool

record 'k crypto =
  parse_public_key_base64 :: "string \<Rightarrow> 'k option"
  key_algorithm :: "'k \<Rightarrow> string"
  key_fingerprint :: "'k \<Rightarrow> string"
  to_openssh :: "'k \<Rightarrow> string option"
  from_openssh :: "string \<Rightarrow> 'k option"
  base64_decode :: "string \<Rightarrow> string option"
  hmac_sha1 :: "string \<Rightarrow> (string \<Rightarrow> string) option"

text \<open>\<^verbatim>\<open>mac.verify_slice(&expected)\<close> compares the whole code.\<close>

datatype known_hosts_error =
  StatFailed | FileTooLarge | ReadFailed | TooManyLines | CreateDirFailed | InvalidKey
| KeyEncoding | ReplaceFailed

record file_faults =
  stat_ok :: bool
  read_ok :: bool
  create_dir_ok :: bool
  replace_ok :: bool

section \<open>Loading\<close>

fun field :: "string list \<Rightarrow> nat \<Rightarrow> string" where
  "field [] n = []"
| "field (f # fs) n = (if n = 0 then f else field fs (n - 1))"

definition parse_line :: "'k crypto \<Rightarrow> string \<Rightarrow> 'k host_entry option" where
  "parse_line cr line =
     (let line = trim line in
      if line = [] \<or> starts_with ''#'' line then None
      else
        let fields = split_whitespace line;
            marker = (if fields \<noteq> [] \<and> starts_with ''@'' (hd fields) then Some (hd fields) else None);
            offset = (if marker \<noteq> None then 1 else 0) in
        if marker \<noteq> None \<and> marker \<noteq> Some ''@revoked'' then None
        else if length fields < offset + 3 then None
        else
          case parse_public_key_base64 cr (field fields (offset + 2)) of
            None \<Rightarrow> None
          | Some key \<Rightarrow>
              Some \<lparr>he_hosts = field fields offset, he_key = key, he_revoked = (marker = Some ''@revoked'')\<rparr>)"

fun parse_lines :: "'k crypto \<Rightarrow> nat \<Rightarrow> string list \<Rightarrow> known_hosts_error + 'k host_entry list" where
  "parse_lines cr index [] = Inr []"
| "parse_lines cr index (line # ls) =
     (if MAX_LINES \<le> index then Inl TooManyLines
      else
        case parse_lines cr (index + 1) ls of
          Inl e \<Rightarrow> Inl e
        | Inr es \<Rightarrow> Inr (case parse_line cr line of None \<Rightarrow> es | Some e \<Rightarrow> e # es))"

definition load_from_path :: "'k crypto \<Rightarrow> file_faults \<Rightarrow> string option \<Rightarrow>
    known_hosts_error + 'k host_entry list" where
  "load_from_path cr fs file =
     (if \<not> stat_ok fs then Inl StatFailed
      else
        case file of
          None \<Rightarrow> Inr []
        | Some txt \<Rightarrow>
            if MAX_FILE_BYTES < length txt then Inl FileTooLarge
            else if \<not> read_ok fs then Inl ReadFailed
            else parse_lines cr 0 (str_lines txt))"

section \<open>Host patterns\<close>

definition format_host :: "string \<Rightarrow> u16 \<Rightarrow> string" where
  "format_host host port =
     (if port = 22 then host else ''['' @ host @ '']:'' @ show_nat (unat port))"

definition host_candidates :: "string \<Rightarrow> u16 \<Rightarrow> string list" where
  "host_candidates host port =
     (if port = 22 then [host, format_host host port] else [format_host host port, []])"

text \<open>
  The matching loop of \<^verbatim>\<open>glob_match\<close>, on its own indices: \<open>star\<close> is the position of the last star
  taken and \<open>backtrack\<close> the position in the value it is tried from. \<open>None\<close> would be a loop that
  does not end.
\<close>

partial_function (option) glob_loop ::
    "string \<Rightarrow> string \<Rightarrow> nat \<Rightarrow> nat \<Rightarrow> nat option \<Rightarrow> nat \<Rightarrow> bool option" where
  "glob_loop pat val p v star backtrack =
     (if v < length val then
        if p < length pat \<and> (pat ! p = val ! v \<or> pat ! p = CHR ''?'') then
          glob_loop pat val (p + 1) (v + 1) star backtrack
        else if p < length pat \<and> pat ! p = CHR ''*'' then
          glob_loop pat val (p + 1) v (Some p) v
        else
          case star of
            None \<Rightarrow> Some False
          | Some star_pos \<Rightarrow> glob_loop pat val (star_pos + 1) (backtrack + 1) star (backtrack + 1)
      else Some (dropWhile (\<lambda>c. c = CHR ''*'') (drop p pat) = []))"

declare glob_loop.simps [code]

definition glob_match :: "string \<Rightarrow> string \<Rightarrow> bool option" where
  "glob_match pat val = glob_loop pat val 0 0 None 0"

definition hashed_match :: "'k crypto \<Rightarrow> string \<Rightarrow> string \<Rightarrow> bool" where
  "hashed_match cr rest candidate =
     (case split_once (CHR ''|'') rest of
        None \<Rightarrow> False
      | Some (salt64, digest64) \<Rightarrow>
          (case (base64_decode cr salt64, base64_decode cr digest64) of
             (Some salt, Some expected) \<Rightarrow>
               (case hmac_sha1 cr salt of None \<Rightarrow> False | Some mac \<Rightarrow> mac candidate = expected)
           | _ \<Rightarrow> False))"

definition candidate_match :: "'k crypto \<Rightarrow> string \<Rightarrow> string \<Rightarrow> bool" where
  "candidate_match cr pattern candidate =
     (case strip_prefix ''|1|'' pattern of
        Some rest \<Rightarrow> hashed_match cr rest candidate
      | None \<Rightarrow> glob_match pattern candidate = Some True)"

definition pattern_matches :: "'k crypto \<Rightarrow> string \<Rightarrow> string list \<Rightarrow> bool" where
  "pattern_matches cr pattern candidates \<longleftrightarrow>
     (\<exists>c \<in> set (filter (\<lambda>c. c \<noteq> []) candidates). candidate_match cr pattern c)"

fun patterns_loop :: "'k crypto \<Rightarrow> string list \<Rightarrow> bool \<Rightarrow> string list \<Rightarrow> bool" where
  "patterns_loop cr candidates matched [] = matched"
| "patterns_loop cr candidates matched (pattern # ps) =
     (if pattern = [] then patterns_loop cr candidates matched ps
      else
        let negated = starts_with ''!'' pattern;
            pat = (case strip_prefix ''!'' pattern of Some r \<Rightarrow> r | None \<Rightarrow> pattern);
            this_match = pattern_matches cr pat candidates in
        if negated \<and> this_match then False
        else patterns_loop cr candidates (matched \<or> this_match) ps)"

definition host_patterns_match :: "'k crypto \<Rightarrow> string \<Rightarrow> string list \<Rightarrow> bool" where
  "host_patterns_match cr patterns candidates =
     patterns_loop cr candidates False (split_on (CHR '','') patterns)"

section \<open>The decision\<close>

fun revoked_scan :: "'k crypto \<Rightarrow> string list \<Rightarrow> 'k \<Rightarrow> bool \<Rightarrow> 'k host_entry list \<Rightarrow> bool \<times> bool" where
  "revoked_scan cr candidates key host_seen [] = (host_seen, False)"
| "revoked_scan cr candidates key host_seen (e # es) =
     (if \<not> host_patterns_match cr (he_hosts e) candidates then revoked_scan cr candidates key host_seen es
      else if key_algorithm cr (he_key e) = key_algorithm cr key \<and> he_key e = key \<and> he_revoked e
      then (True, True)
      else revoked_scan cr candidates key True es)"

definition decision :: "'k crypto \<Rightarrow> 'k host_entry list \<Rightarrow> string \<Rightarrow> u16 \<Rightarrow> 'k \<Rightarrow> trust_decision" where
  "decision cr entries host port key =
     (let candidates = host_candidates host port;
          (host_seen, revoked) = revoked_scan cr candidates key False entries in
      if revoked then Revoked
      else if (\<exists>e \<in> set entries. \<not> he_revoked e \<and> host_patterns_match cr (he_hosts e) candidates \<and>
          key_algorithm cr (he_key e) = key_algorithm cr key \<and> he_key e = key) then Trusted
      else if host_seen then Changed
      else Unknown)"

section \<open>Editing the file\<close>

definition read_text :: "file_faults \<Rightarrow> string option \<Rightarrow> string option" where
  "read_text fs file = (if read_ok fs then file else None)"

text \<open>\<^verbatim>\<open>atomic_replace\<close>: the new content or, on any error, the file as it was.\<close>

definition atomic_replace :: "file_faults \<Rightarrow> string option \<Rightarrow> string \<Rightarrow>
    string option \<times> (known_hosts_error + unit)" where
  "atomic_replace fs file bytes =
     (if replace_ok fs then (Some bytes, Inr ()) else (file, Inl ReplaceFailed))"

definition host_line :: "string \<Rightarrow> u16 \<Rightarrow> string \<Rightarrow> string" where
  "host_line host port key_text = format_host host port @ '' '' @ key_text @ [CHR 0x0A]"

definition append_confirmed :: "'k crypto \<Rightarrow> file_faults \<Rightarrow> string option \<Rightarrow> string \<Rightarrow> u16 \<Rightarrow> 'k \<Rightarrow>
    string option \<times> (known_hosts_error + unit)" where
  "append_confirmed cr fs file host port key =
     (if \<not> create_dir_ok fs then (file, Inl CreateDirFailed)
      else if file \<noteq> None \<and> \<not> read_ok fs then (file, Inl ReadFailed)
      else
        let existing = (case file of None \<Rightarrow> [] | Some txt \<Rightarrow> txt);
            separator = (if existing = [] \<or> last existing = CHR 0x0A then [] else [CHR 0x0A]) in
        case to_openssh cr key of
          None \<Rightarrow> (file, Inl KeyEncoding)
        | Some key_text \<Rightarrow> atomic_replace fs file (existing @ separator @ host_line host port key_text))"

definition append_confirmed_openssh :: "'k crypto \<Rightarrow> file_faults \<Rightarrow> string option \<Rightarrow> string \<Rightarrow> u16 \<Rightarrow>
    string \<Rightarrow> string option \<times> (known_hosts_error + unit)" where
  "append_confirmed_openssh cr fs file host port public_key =
     (case from_openssh cr public_key of
        None \<Rightarrow> (file, Inl InvalidKey)
      | Some key \<Rightarrow> append_confirmed cr fs file host port key)"

definition kept_on_replace :: "'k crypto \<Rightarrow> string list \<Rightarrow> string \<Rightarrow> bool" where
  "kept_on_replace cr candidates line =
     (case split_whitespace line of
        [] \<Rightarrow> True
      | f # fs \<Rightarrow>
          (let marker = starts_with ''@'' f; offset = (if marker then 1 else 0) in
           marker \<or> length (f # fs) < offset + 3 \<or>
           \<not> host_patterns_match cr (field (f # fs) offset) candidates))"

definition replace_confirmed_openssh :: "'k crypto \<Rightarrow> file_faults \<Rightarrow> string option \<Rightarrow> string \<Rightarrow> u16 \<Rightarrow>
    string \<Rightarrow> string option \<times> (known_hosts_error + unit)" where
  "replace_confirmed_openssh cr fs file host port public_key =
     (case from_openssh cr public_key of
        None \<Rightarrow> (file, Inl InvalidKey)
      | Some key \<Rightarrow>
          (case read_text fs file of
             None \<Rightarrow> (file, Inl ReadFailed)
           | Some txt \<Rightarrow>
               let kept = filter (kept_on_replace cr (host_candidates host port)) (str_lines txt);
                   prefix = (if kept = [] then [] else join_with (CHR 0x0A) kept @ [CHR 0x0A]) in
               case to_openssh cr key of
                 None \<Rightarrow> (file, Inl KeyEncoding)
               | Some key_text \<Rightarrow> atomic_replace fs file (prefix @ host_line host port key_text)))"

definition removed_on_remove :: "'k crypto \<Rightarrow> string list \<Rightarrow> string \<Rightarrow> string \<Rightarrow> bool" where
  "removed_on_remove cr candidates fingerprint line =
     (let fields = split_whitespace line;
          offset = (if fields \<noteq> [] \<and> starts_with ''@'' (hd fields) then 1 else 0) in
      offset + 3 \<le> length fields \<and> host_patterns_match cr (field fields offset) candidates \<and>
      (case parse_public_key_base64 cr (field fields (offset + 2)) of
         None \<Rightarrow> False
       | Some key \<Rightarrow> key_fingerprint cr key = fingerprint))"

definition remove_key :: "'k crypto \<Rightarrow> file_faults \<Rightarrow> string option \<Rightarrow> string \<Rightarrow> u16 \<Rightarrow> string \<Rightarrow>
    string option \<times> (known_hosts_error + bool)" where
  "remove_key cr fs file host port fingerprint =
     (case read_text fs file of
        None \<Rightarrow> (file, Inl ReadFailed)
      | Some txt \<Rightarrow>
          let gone = removed_on_remove cr (host_candidates host port) fingerprint;
              kept = filter (\<lambda>l. \<not> gone l) (str_lines txt);
              changed = (\<exists>l \<in> set (str_lines txt). gone l) in
          if changed then
            (case atomic_replace fs file (join_with (CHR 0x0A) kept @ [CHR 0x0A]) of
               (file', Inl e) \<Rightarrow> (file', Inl e)
             | (file', Inr _) \<Rightarrow> (file', Inr True))
          else (file, Inr False))"

section \<open>Glob patterns\<close>

text \<open>What a glob pattern means, without positions or backtracking.\<close>

fun glob_spec :: "string \<Rightarrow> string \<Rightarrow> bool" where
  "glob_spec [] v = (v = [])"
| "glob_spec (c # p) [] = (c = CHR ''*'' \<and> glob_spec p [])"
| "glob_spec (c # p) (x # v) =
     (if c = CHR ''*'' then glob_spec p (x # v) \<or> glob_spec (c # p) v
      else (c = CHR ''?'' \<or> c = x) \<and> glob_spec p v)"

lemma glob_spec_star: "glob_spec (CHR ''*'' # p) v \<longleftrightarrow> (\<exists>k \<le> length v. glob_spec p (drop k v))"
proof (induction v)
  case (Cons x v)
  have "(\<exists>k \<le> length (x # v). glob_spec p (drop k (x # v))) \<longleftrightarrow>
      glob_spec p (x # v) \<or> (\<exists>k \<le> length v. glob_spec p (drop k v))"
  proof
    assume "\<exists>k \<le> length (x # v). glob_spec p (drop k (x # v))"
    then obtain k where "k \<le> length (x # v)" "glob_spec p (drop k (x # v))" by blast
    then show "glob_spec p (x # v) \<or> (\<exists>k \<le> length v. glob_spec p (drop k v))" by (cases k) auto
  next
    assume "glob_spec p (x # v) \<or> (\<exists>k \<le> length v. glob_spec p (drop k v))"
    then show "\<exists>k \<le> length (x # v). glob_spec p (drop k (x # v))"
      by (metis Suc_le_mono drop0 drop_Suc_Cons le0 length_Cons)
  qed
  with Cons show ?case by simp
qed simp

lemma glob_spec_Nil: "glob_spec p [] \<longleftrightarrow> dropWhile (\<lambda>c. c = CHR ''*'') p = []"
  by (induction p) auto

lemma glob_spec_refl: "CHR ''*'' \<notin> set p \<Longrightarrow> glob_spec p p"
  by (induction p) auto

text \<open>A pattern without stars eats exactly as many characters as it has.\<close>

lemma glob_spec_segment:
  "CHR ''*'' \<notin> set q \<Longrightarrow> glob_spec (q @ p) v \<Longrightarrow> length q \<le> length v \<and> glob_spec p (drop (length q) v)"
proof (induction q arbitrary: v)
  case (Cons c q)
  then show ?case by (cases v) auto
qed simp

lemma drop_star_segment:
  assumes "s < p" "p \<le> length pat"
  shows "drop (s + 1) pat = take (p - (s + 1)) (drop (s + 1) pat) @ drop p pat"
proof -
  have "drop p pat = drop (p - (s + 1)) (drop (s + 1) pat)" using assms by simp
  then show ?thesis using append_take_drop_id by metis
qed

text \<open>
  The loop keeps only the last star: what lies between it and \<open>p\<close> has no star and stands against the
  value from \<open>backtrack\<close> to \<open>v\<close>, so giving up on an earlier star loses nothing.
\<close>

definition star_ok :: "string \<Rightarrow> nat \<Rightarrow> nat \<Rightarrow> nat option \<Rightarrow> nat \<Rightarrow> bool" where
  "star_ok pat p v star backtrack \<longleftrightarrow>
     (case star of
        None \<Rightarrow> backtrack \<le> v
      | Some s \<Rightarrow> s < p \<and> backtrack \<le> v \<and> p - (s + 1) = v - backtrack \<and>
          CHR ''*'' \<notin> set (take (p - (s + 1)) (drop (s + 1) pat)))"

definition glob_goal :: "string \<Rightarrow> string \<Rightarrow> nat \<Rightarrow> nat \<Rightarrow> nat option \<Rightarrow> nat \<Rightarrow> bool" where
  "glob_goal pat val p v star backtrack \<longleftrightarrow>
     glob_spec (drop p pat) (drop v val) \<or>
     (case star of
        None \<Rightarrow> False
      | Some s \<Rightarrow> \<exists>k. backtrack < k \<and> k \<le> length val \<and> glob_spec (drop (s + 1) pat) (drop k val))"

lemma later_start:
  assumes "star_ok pat p v (Some s) backtrack" "p \<le> length pat" "backtrack < k" "k \<le> length val"
    and "glob_spec (drop (s + 1) pat) (drop k val)"
  shows "\<exists>j. v < j \<and> j \<le> length val \<and> glob_spec (drop p pat) (drop j val)"
proof -
  let ?q = "take (p - (s + 1)) (drop (s + 1) pat)"
  have s: "s < p" "backtrack \<le> v" "p - (s + 1) = v - backtrack" "CHR ''*'' \<notin> set ?q"
    using assms(1) by (auto simp: star_ok_def)
  have len: "length ?q = v - backtrack" using s assms(2) by simp
  have "glob_spec (?q @ drop p pat) (drop k val)"
    using assms(5) drop_star_segment [OF s(1) assms(2)] by simp
  from glob_spec_segment [OF s(4) this]
  have "v - backtrack \<le> length (drop k val)" "glob_spec (drop p pat) (drop (v - backtrack) (drop k val))"
    unfolding len by blast+
  then have "glob_spec (drop p pat) (drop (k + (v - backtrack)) val)" "k + (v - backtrack) \<le> length val"
    using assms(4) by (simp_all add: add.commute)
  moreover have "v < k + (v - backtrack)" using s(2) assms(3) by simp
  ultimately show ?thesis by blast
qed

text \<open>
  Every step either moves in the pattern or moves the point of backtracking forward, so the loop ends
  whatever the pattern and the value are.
\<close>

abbreviation glob_measure :: "string \<Rightarrow> string \<Rightarrow> (nat \<times> nat) \<Rightarrow> nat \<times> nat" where
  "glob_measure pat val \<equiv> \<lambda>(backtrack, p). (length val - backtrack, length pat - p)"

lemma glob_measure_wf:
  "wf (inv_image (less_than <*lex*> less_than) (glob_measure pat val))"
  by (simp add: wf_lex_prod)

lemma glob_measure_star:
  assumes "backtrack \<le> v" "v < length val" "p < length pat"
  shows "((v, p + 1), (backtrack, p)) \<in> inv_image (less_than <*lex*> less_than) (glob_measure pat val)"
  using assms by (cases "backtrack = v") auto

lemma glob_measure_back:
  assumes "backtrack \<le> v" "v < length val"
  shows "((backtrack + 1, q), (backtrack, p)) \<in> inv_image (less_than <*lex*> less_than) (glob_measure pat val)"
  using assms by auto

lemma glob_loop_total: "backtrack \<le> v \<Longrightarrow> \<exists>b. glob_loop pat val p v star backtrack = Some b"
proof (induction "(backtrack, p)" arbitrary: backtrack p v star rule: wf_induct_rule [OF glob_measure_wf [where pat = pat and val = val]])
  case (1 backtrack p)
  note IH = "1.hyps" and le = "1.prems"
  let ?next = "glob_loop pat val p v star backtrack"
  show ?case
  proof (cases "v < length val")
    case v: True
    consider (same) "p < length pat" "pat ! p = val ! v \<or> pat ! p = CHR ''?''"
      | (star) "p < length pat" "pat ! p = CHR ''*''" "\<not> (p < length pat \<and> (pat ! p = val ! v \<or> pat ! p = CHR ''?''))"
      | (none) "\<not> (p < length pat \<and> (pat ! p = val ! v \<or> pat ! p = CHR ''?''))"
          "\<not> (p < length pat \<and> pat ! p = CHR ''*'')"
      by blast
    then show ?thesis
    proof cases
      case same
      then have "?next = glob_loop pat val (p + 1) (v + 1) star backtrack"
        using v by (subst glob_loop.simps) simp
      then show ?thesis using IH [of backtrack "p + 1" "v + 1" star] le same by auto
    next
      case star
      then have "?next = glob_loop pat val (p + 1) v (Some p) v"
        using v by (subst glob_loop.simps) simp
      then show ?thesis using IH [OF glob_measure_star [OF le v star(1)]] by simp
    next
      case none
      then have "?next = (case star of None \<Rightarrow> Some False
          | Some s \<Rightarrow> glob_loop pat val (s + 1) (backtrack + 1) star (backtrack + 1))"
        using v by (subst glob_loop.simps) (simp only: if_True if_False)
      moreover have "\<exists>b. glob_loop pat val q (backtrack + 1) star (backtrack + 1) = Some b" for q
        using IH [OF glob_measure_back [OF le v]] by simp
      ultimately show ?thesis by (cases star) auto
    qed
  qed (subst glob_loop.simps, simp)
qed

lemma glob_loop_correct:
  assumes "CHR ''*'' \<notin> set val"
  shows "star_ok pat p v star backtrack \<Longrightarrow> p \<le> length pat \<Longrightarrow> v \<le> length val \<Longrightarrow>
    glob_loop pat val p v star backtrack = Some (glob_goal pat val p v star backtrack)"
proof (induction "(backtrack, p)" arbitrary: backtrack p v star rule: wf_induct_rule [OF glob_measure_wf [where pat = pat and val = val]])
  case (1 backtrack p)
  note IH = "1.hyps" and ok = "1.prems"
  let ?next = "glob_loop pat val p v star backtrack" and ?goal = "glob_goal pat val p v star backtrack"
  have le: "backtrack \<le> v" using ok(1) by (auto simp: star_ok_def split: option.splits)
  show ?case
  proof (cases "v < length val")
    case v: True
    have dv: "drop v val = val ! v # drop (v + 1) val" using v by (simp add: Cons_nth_drop_Suc)
    have dp: "drop p pat = pat ! p # drop (p + 1) pat" if "p < length pat"
      using that by (simp add: Cons_nth_drop_Suc)
    have vs: "val ! v \<noteq> CHR ''*''" using assms v nth_mem by metis
    consider (same) "p < length pat" "pat ! p = val ! v \<or> pat ! p = CHR ''?''"
      | (star) "p < length pat" "pat ! p = CHR ''*''"
      | (none) "\<not> (p < length pat \<and> (pat ! p = val ! v \<or> pat ! p = CHR ''?''))"
          "\<not> (p < length pat \<and> pat ! p = CHR ''*'')"
      by blast
    then show ?thesis
    proof cases
      case same
      have nx: "?next = glob_loop pat val (p + 1) (v + 1) star backtrack"
        using v same by (subst glob_loop.simps) simp
      have np: "pat ! p \<noteq> CHR ''*''" using same vs by auto
      have "star_ok pat (p + 1) (v + 1) star backtrack"
      proof (cases star)
        case (Some s)
        then have s: "s < p" "p - (s + 1) = v - backtrack"
          "CHR ''*'' \<notin> set (take (p - (s + 1)) (drop (s + 1) pat))"
          using ok(1) by (auto simp: star_ok_def)
        have "take (p + 1 - (s + 1)) (drop (s + 1) pat) = take (p - (s + 1)) (drop (s + 1) pat) @ [pat ! p]"
          using s(1) same(1) by (simp add: Suc_diff_Suc [symmetric] take_Suc_conv_app_nth)
        with s np Some le show ?thesis by (auto simp: star_ok_def)
      qed (use le in \<open>simp add: star_ok_def\<close>)
      moreover have "?goal = glob_goal pat val (p + 1) (v + 1) star backtrack"
        using same np by (auto simp: glob_goal_def dv dp)
      ultimately show ?thesis
        using IH [of backtrack "p + 1" "v + 1" star] same v nx by auto
    next
      case star
      have nx: "?next = glob_loop pat val (p + 1) v (Some p) v"
        using v star vs by (subst glob_loop.simps) simp
      have "glob_spec (drop p pat) (drop v val) \<longleftrightarrow>
          (\<exists>k \<le> length (drop v val). glob_spec (drop (p + 1) pat) (drop k (drop v val)))"
        using dp [OF star(1)] star(2) glob_spec_star by simp
      also have "\<dots> \<longleftrightarrow> (\<exists>j. v \<le> j \<and> j \<le> length val \<and> glob_spec (drop (p + 1) pat) (drop j val))"
      proof
        assume "\<exists>k \<le> length (drop v val). glob_spec (drop (p + 1) pat) (drop k (drop v val))"
        then obtain k where "k \<le> length val - v" "glob_spec (drop (p + 1) pat) (drop (k + v) val)" by auto
        then show "\<exists>j. v \<le> j \<and> j \<le> length val \<and> glob_spec (drop (p + 1) pat) (drop j val)"
          using v by (intro exI [of _ "k + v"]) auto
      next
        assume "\<exists>j. v \<le> j \<and> j \<le> length val \<and> glob_spec (drop (p + 1) pat) (drop j val)"
        then obtain j where "v \<le> j" "j \<le> length val" "glob_spec (drop (p + 1) pat) (drop j val)" by auto
        then show "\<exists>k \<le> length (drop v val). glob_spec (drop (p + 1) pat) (drop k (drop v val))"
          by (intro exI [of _ "j - v"]) auto
      qed
      finally have here: "glob_spec (drop p pat) (drop v val) \<longleftrightarrow> glob_goal pat val (p + 1) v (Some p) v"
        unfolding glob_goal_def option.case by (metis le_eq_less_or_eq less_imp_le v)
      have later: "glob_spec (drop p pat) (drop v val)"
        if st: "star = Some s" and k: "backtrack < k" "k \<le> length val"
          "glob_spec (drop (s + 1) pat) (drop k val)" for s k
      proof -
        obtain j where j: "v < j" "j \<le> length val" "glob_spec (drop p pat) (drop j val)"
          using later_start [OF ok(1) [unfolded st] ok(2) k] by blast
        have "glob_spec (drop p pat) (drop j val) \<longleftrightarrow>
            (\<exists>k \<le> length (drop j val). glob_spec (drop (p + 1) pat) (drop k (drop j val)))"
          using dp [OF star(1)] star(2) glob_spec_star by simp
        then obtain k' where "k' \<le> length val - j" "glob_spec (drop (p + 1) pat) (drop (k' + j) val)"
          using j(3) by auto
        then have "\<exists>j. v \<le> j \<and> j \<le> length val \<and> glob_spec (drop (p + 1) pat) (drop j val)"
          using j by (intro exI [of _ "k' + j"]) auto
        then show ?thesis unfolding here glob_goal_def option.case by (metis le_eq_less_or_eq)
      qed
      have "?goal = glob_spec (drop p pat) (drop v val)"
        unfolding glob_goal_def using later by (auto split: option.splits)
      moreover have "star_ok pat (p + 1) v (Some p) v" by (simp add: star_ok_def)
      ultimately show ?thesis
        using IH [OF glob_measure_star [OF le v star(1)]] star v nx here by auto
    next
      case none
      have nx: "?next = (case star of None \<Rightarrow> Some False
          | Some s \<Rightarrow> glob_loop pat val (s + 1) (backtrack + 1) star (backtrack + 1))"
        using v none by (subst glob_loop.simps) (simp only: if_True if_False)
      have no: "\<not> glob_spec (drop p pat) (drop v val)"
        using none by (cases "p < length pat") (auto simp: dv dp)
      show ?thesis
      proof (cases star)
        case None
        with nx no show ?thesis by (simp add: glob_goal_def)
      next
        case (Some s)
        have s: "s < p" using ok(1) Some by (auto simp: star_ok_def)
        have ok': "star_ok pat (s + 1) (backtrack + 1) star (backtrack + 1)" using Some by (simp add: star_ok_def)
        have "?goal = glob_goal pat val (s + 1) (backtrack + 1) star (backtrack + 1)"
          unfolding glob_goal_def Some option.case using no v le
          by (metis Suc_eq_plus1 Suc_leI le_eq_less_or_eq order_le_less_trans less_Suc_eq_le)
        then show ?thesis
          using IH [OF glob_measure_back [OF le v]] nx ok' v le s ok(2) Some by auto
      qed
    qed
  next
    case False
    then have v: "v = length val" using ok(3) by simp
    have nx: "?next = Some (dropWhile (\<lambda>c. c = CHR ''*'') (drop p pat) = [])"
      using v by (subst glob_loop.simps) simp
    have "?goal \<longleftrightarrow> glob_spec (drop p pat) []"
      unfolding glob_goal_def using later_start [of pat p v _ backtrack] ok(1,2) v
      by (cases star) (auto dest!: later_start)
    with nx show ?thesis by (simp add: glob_spec_Nil)
  qed
qed

lemma glob_match_spec:
  assumes "CHR ''*'' \<notin> set val"
  shows "glob_match pat val = Some (glob_spec pat val)"
  using glob_loop_correct [OF assms, of pat 0 0 None 0] by (simp add: glob_match_def star_ok_def glob_goal_def)

section \<open>Entries of a file\<close>

text \<open>What a line means depends on its fields only.\<close>

definition parse_fields :: "'k crypto \<Rightarrow> string list \<Rightarrow> 'k host_entry option" where
  "parse_fields cr fds =
     (if fds = [] \<or> starts_with ''#'' (hd fds) then None
      else
        let marker = (if starts_with ''@'' (hd fds) then Some (hd fds) else None);
            offset = (if marker \<noteq> None then 1 else 0) in
        if marker \<noteq> None \<and> marker \<noteq> Some ''@revoked'' then None
        else if length fds < offset + 3 then None
        else map_option (\<lambda>key. \<lparr>he_hosts = field fds offset, he_key = key, he_revoked = (marker = Some ''@revoked'')\<rparr>)
          (parse_public_key_base64 cr (field fds (offset + 2))))"

lemma parse_line_fields: "parse_line cr l = parse_fields cr (split_whitespace l)"
  using trim_fields [of l]
proof
  assume "\<exists>c r f fs. trim l = c # r \<and> split_whitespace l = (c # f) # fs"
  then obtain c r f fs where t: "trim l = c # r" "split_whitespace l = (c # f) # fs" by blast
  moreover have "split_whitespace (c # r) = (c # f) # fs" using split_whitespace_trim [of l] t by simp
  ultimately show ?thesis
    by (simp add: parse_line_def parse_fields_def Let_def starts_with_def split: option.splits)
qed (simp add: parse_line_def parse_fields_def)

definition entries_of :: "'k crypto \<Rightarrow> string list \<Rightarrow> 'k host_entry list" where
  "entries_of cr ls = List.map_filter (parse_line cr) ls"

lemma entries_of_simps [simp]:
  "entries_of cr [] = []"
  "entries_of cr (l # ls) = (case parse_line cr l of None \<Rightarrow> entries_of cr ls | Some e \<Rightarrow> e # entries_of cr ls)"
  "entries_of cr (ls @ ks) = entries_of cr ls @ entries_of cr ks"
  by (simp_all add: entries_of_def map_filter_def split: option.splits)

lemma entries_of_strip_cr [simp]: "entries_of cr (map strip_cr ls) = entries_of cr ls"
  by (induction ls) (auto simp: parse_line_fields split: option.splits)

lemma parse_lines_entries: "parse_lines cr i ls = Inr es \<Longrightarrow> es = entries_of cr ls"
  by (induction ls arbitrary: i es) (auto split: if_splits sum.splits option.splits)

lemma load_entries: "load_from_path cr fs (Some txt) = Inr es \<Longrightarrow> es = entries_of cr (str_lines txt)"
  by (auto simp: load_from_path_def parse_lines_entries split: if_splits)

lemma load_absent: "load_from_path cr fs None = Inr es \<Longrightarrow> es = []"
  by (auto simp: load_from_path_def split: if_splits)

lemma filter_entries:
  assumes "\<And>l e. l \<in> set ls \<Longrightarrow> parse_line cr l = Some e \<Longrightarrow> P l \<longleftrightarrow> Q e"
  shows "entries_of cr (filter P ls) = filter Q (entries_of cr ls)"
  using assms by (induction ls) (auto split: option.splits)

section \<open>Hosts that stand for themselves\<close>

definition plain_host :: "string \<Rightarrow> bool" where
  "plain_host h \<longleftrightarrow> h \<noteq> [] \<and>
     (\<forall>c \<in> set h. plain_char c \<and> c \<notin> {CHR '','', CHR ''*'', CHR ''?'', CHR ''|'', CHR ''!'', CHR ''@'', CHR ''#''})"

lemma digit_plain: "is_digit c \<Longrightarrow> plain_char c \<and> c \<notin> {CHR '','', CHR ''*'', CHR ''?'', CHR ''|'', CHR ''!'', CHR ''@'', CHR ''#''}"
  by (auto simp: is_digit_def plain_char_def)

lemma plain_format_host:
  assumes "plain_host h"
  shows "plain_host (format_host h port)"
proof (cases "port = 22")
  case False
  have "plain_char (CHR ''['')" "plain_char (CHR '']'')" "plain_char (CHR '':'')" by (simp_all add: plain_char_def)
  moreover have "\<forall>c \<in> set (show_nat (unat port)). plain_char c \<and>
      c \<notin> {CHR '','', CHR ''*'', CHR ''?'', CHR ''|'', CHR ''!'', CHR ''@'', CHR ''#''}"
    using show_nat_digits digit_plain by blast
  ultimately show ?thesis using assms False by (auto simp: format_host_def plain_host_def)
qed (use assms in \<open>simp add: format_host_def\<close>)

lemma plain_host_candidate: "format_host h port \<in> set (host_candidates h port)"
  by (simp add: host_candidates_def)

lemma plain_no_prefix:
  assumes "plain_host h"
  shows "\<not> starts_with ''!'' h" "\<not> starts_with ''@'' h" "\<not> starts_with ''#'' h"
    "strip_prefix ''|1|'' h = None" "strip_prefix ''!'' h = None"
  using assms by (cases h; auto simp: plain_host_def starts_with_def strip_prefix_def)+

lemma plain_host_matches:
  assumes "plain_host h"
  shows "host_patterns_match cr (format_host h port) (host_candidates h port)"
proof -
  let ?f = "format_host h port"
  have f: "plain_host ?f" by (rule plain_format_host [OF assms])
  have "CHR '','' \<notin> set ?f" "CHR ''*'' \<notin> set ?f" "?f \<noteq> []" using f by (auto simp: plain_host_def)
  then have "pattern_matches cr ?f (host_candidates h port)"
    using plain_host_candidate glob_match_spec [of ?f ?f] glob_spec_refl [of ?f]
    by (auto simp: pattern_matches_def candidate_match_def plain_no_prefix [OF f])
  with \<open>CHR '','' \<notin> set ?f\<close> \<open>?f \<noteq> []\<close> show ?thesis
    by (simp add: host_patterns_match_def split_on_plain plain_no_prefix [OF f] Let_def)
qed

section \<open>Edits\<close>

text \<open>What the serialised form of a key must be: fields that parse back to the key, on one line.\<close>

definition key_text_ok :: "'k crypto \<Rightarrow> 'k \<Rightarrow> string \<Rightarrow> bool" where
  "key_text_ok cr key key_text \<longleftrightarrow>
     to_openssh cr key = Some key_text \<and> CHR 0x0A \<notin> set key_text \<and>
     (case split_whitespace key_text of
        a # b # rest \<Rightarrow> parse_public_key_base64 cr b = Some key
      | _ \<Rightarrow> False)"

definition new_entry :: "string \<Rightarrow> u16 \<Rightarrow> 'k \<Rightarrow> 'k host_entry" where
  "new_entry host port key = \<lparr>he_hosts = format_host host port, he_key = key, he_revoked = False\<rparr>"

lemma host_line_entry:
  assumes "plain_host host" "key_text_ok cr key key_text"
  shows "entries_of cr (str_lines (host_line host port key_text)) = [new_entry host port key]"
proof -
  let ?f = "format_host host port"
  have f: "plain_host ?f" by (rule plain_format_host [OF assms(1)])
  then have ne: "?f \<noteq> []" "\<forall>c \<in> set ?f. plain_char c" by (auto simp: plain_host_def)
  obtain a b rest where ab: "split_whitespace key_text = a # b # rest" "parse_public_key_base64 cr b = Some key"
    using assms(2) by (auto simp: key_text_ok_def split: list.splits)
  have "CHR 0x0A \<notin> set (?f @ '' '' @ key_text)"
    using ne(2) assms(2) by (auto simp: key_text_ok_def plain_char_def)
  then have "str_lines (host_line host port key_text) = [strip_cr (?f @ '' '' @ key_text)]"
    using text_lines_line [of "?f @ '' '' @ key_text" "[]" "[]"] by (simp add: str_lines_def host_line_def)
  moreover have "split_whitespace (?f @ '' '' @ key_text) = ?f # a # b # rest"
    using split_whitespace_field [OF ne] ab(1) by simp
  ultimately show ?thesis
    using ab(2) by (simp add: parse_line_fields parse_fields_def plain_no_prefix [OF f] new_entry_def del: append.simps)
qed

lemma atomic_replace_Inr: "atomic_replace fs file bytes = (file', Inr u) \<Longrightarrow> file' = Some bytes"
  by (auto simp: atomic_replace_def split: if_splits)

text \<open>A line that names a matching host without a marker is the only kind that a replacement drops.\<close>

lemma kept_on_replace_entry:
  assumes "parse_line cr l = Some e"
  shows "kept_on_replace cr cs l \<longleftrightarrow> he_revoked e \<or> \<not> host_patterns_match cr (he_hosts e) cs"
proof (cases "split_whitespace l")
  case (Cons f fs)
  then show ?thesis using assms
    by (auto simp: parse_line_fields parse_fields_def kept_on_replace_def Let_def starts_with_def split: if_splits)
qed (use assms in \<open>simp add: parse_line_fields parse_fields_def\<close>)

lemma removed_on_remove_entry:
  assumes "parse_line cr l = Some e"
  shows "removed_on_remove cr cs fp l \<longleftrightarrow>
    host_patterns_match cr (he_hosts e) cs \<and> key_fingerprint cr (he_key e) = fp"
  using assms
  by (auto simp: parse_line_fields parse_fields_def removed_on_remove_def Let_def split: if_splits option.splits)

lemma replaced_entries:
  assumes "plain_host host" "from_openssh cr public_key = Some key" "key_text_ok cr key key_text"
    and "replace_confirmed_openssh cr fs (Some txt) host port public_key = (Some txt', Inr u)"
  shows "entries_of cr (str_lines txt') =
    filter (\<lambda>e. he_revoked e \<or> \<not> host_patterns_match cr (he_hosts e) (host_candidates host port))
      (entries_of cr (str_lines txt)) @ [new_entry host port key]"
proof -
  let ?cs = "host_candidates host port" and ?lf = "CHR 0x0A"
  let ?kept = "filter (kept_on_replace cr ?cs) (str_lines txt)"
  have key: "to_openssh cr key = Some key_text" using assms(3) by (simp add: key_text_ok_def)
  have txt': "txt' = (if ?kept = [] then [] else join_with ?lf ?kept @ [?lf]) @ host_line host port key_text"
    using assms(2,4) key
    by (auto simp: replace_confirmed_openssh_def read_text_def Let_def dest!: atomic_replace_Inr split: if_splits)
  have "\<forall>l \<in> set ?kept. ?lf \<notin> set l" using str_lines_no_lf by auto
  then have "entries_of cr (str_lines txt') = entries_of cr ?kept @ [new_entry host port key]"
    using str_lines_join [of ?kept "host_line host port key_text"] host_line_entry [OF assms(1,3)]
    by (cases "?kept = []") (simp_all add: txt')
  moreover have "entries_of cr ?kept =
      filter (\<lambda>e. he_revoked e \<or> \<not> host_patterns_match cr (he_hosts e) ?cs) (entries_of cr (str_lines txt))"
    by (rule filter_entries) (rule kept_on_replace_entry)
  ultimately show ?thesis by simp
qed

lemma removed_entries:
  assumes "remove_key cr fs (Some txt) host port fp = (Some txt', Inr b)"
  shows "entries_of cr (str_lines txt') =
    filter (\<lambda>e. \<not> (host_patterns_match cr (he_hosts e) (host_candidates host port) \<and>
        key_fingerprint cr (he_key e) = fp)) (entries_of cr (str_lines txt))"
proof -
  let ?gone = "removed_on_remove cr (host_candidates host port) fp" and ?lf = "CHR 0x0A"
  let ?kept = "filter (\<lambda>l. \<not> ?gone l) (str_lines txt)"
  have kept: "entries_of cr ?kept = filter (\<lambda>e. \<not> (host_patterns_match cr (he_hosts e) (host_candidates host port) \<and>
      key_fingerprint cr (he_key e) = fp)) (entries_of cr (str_lines txt))"
    by (rule filter_entries) (simp add: removed_on_remove_entry)
  show ?thesis
  proof (cases "\<exists>l \<in> set (str_lines txt). ?gone l")
    case True
    then have txt': "txt' = join_with ?lf ?kept @ [?lf]"
      using assms by (auto simp: remove_key_def read_text_def Let_def split: option.splits if_splits prod.splits sum.splits
        dest!: atomic_replace_Inr)
    have "\<forall>l \<in> set ?kept. ?lf \<notin> set l" using str_lines_no_lf by auto
    then have "entries_of cr (str_lines txt') = entries_of cr ?kept"
      using str_lines_join [of ?kept "[]"]
      by (cases "?kept = []") (simp_all add: txt' str_lines_def strip_cr_def parse_line_fields
        split_whitespace_def fields_from.simps parse_fields_def)
    with kept show ?thesis by simp
  next
    case False
    then have "txt' = txt"
      using assms by (auto simp: remove_key_def read_text_def Let_def split: option.splits if_splits)
    moreover have "?kept = str_lines txt" using False by (auto intro: filter_True)
    ultimately show ?thesis using kept by simp
  qed
qed

lemma appended_entries:
  assumes "plain_host host" "key_text_ok cr key key_text"
    and "append_confirmed cr fs (Some txt) host port key = (Some txt', Inr u)"
  shows "entries_of cr (str_lines txt') = entries_of cr (str_lines txt) @ [new_entry host port key]"
proof -
  let ?lf = "CHR 0x0A" and ?new = "host_line host port key_text"
  have txt': "txt' = txt @ (if txt = [] \<or> last txt = ?lf then [] else [?lf]) @ ?new"
    using assms(2,3) by (auto simp: append_confirmed_def key_text_ok_def Let_def dest!: atomic_replace_Inr split: if_splits)
  have new: "entries_of cr (text_lines [] ?new) = [new_entry host port key]"
    using host_line_entry [OF assms(1,2)] by (simp add: str_lines_def)
  show ?thesis
  proof (cases "txt = [] \<or> last txt = ?lf")
    case True
    then show ?thesis using text_lines_append [of "[]" "txt" ?new] by (auto simp: txt' str_lines_def new)
  next
    case False
    let ?ls = "text_lines [] txt"
    have fin: "text_lines [] (txt @ ?lf # ?new) = butlast ?ls @ strip_cr (last ?ls) # text_lines [] ?new" "?ls \<noteq> []"
      using text_lines_finish [of "[]" "txt" ?new] False by auto
    have "entries_of cr (butlast ?ls @ [strip_cr (last ?ls)]) = entries_of cr (butlast ?ls @ [last ?ls])"
      by (simp add: parse_line_fields)
    also have "\<dots> = entries_of cr ?ls" using fin(2) by simp
    finally have "entries_of cr ((butlast ?ls @ [strip_cr (last ?ls)]) @ text_lines [] ?new) =
        entries_of cr ?ls @ [new_entry host port key]"
      by (simp only: entries_of_simps(3) new)
    with fin(1) False show ?thesis by (simp add: txt' str_lines_def del: entries_of_simps(2,3))
  qed
qed

section \<open>Properties\<close>

text \<open>
  C15. The matching loop of the glob patterns ends on every pattern and every value, also where it
  backtracks.
\<close>

theorem glob_match_terminates: "\<exists>b. glob_match pat val = Some b"
  unfolding glob_match_def by (rule glob_loop_total) simp

text \<open>
  C14. The loop that keeps only the last star decides exactly what a glob pattern means: a star stands
  for any text, a question mark for one byte and every other byte for itself. Values with a star of
  their own are excluded (the loop takes a star that meets a star for a plain byte).
\<close>

theorem glob_match_reference:
  assumes "CHR ''*'' \<notin> set val"
  shows "glob_match pat val = Some (glob_spec pat val)"
  by (rule glob_match_spec [OF assms])

theorem glob_match_reference_witness: "glob_match ''*.exa?ple.*'' ''a.b.example.org'' = Some True"
  using glob_match_reference [of "''a.b.example.org''" "''*.exa?ple.*''"] by simp

definition matching :: "'k crypto \<Rightarrow> 'k host_entry list \<Rightarrow> string \<Rightarrow> u16 \<Rightarrow> 'k host_entry set" where
  "matching cr entries host port =
     {e \<in> set entries. host_patterns_match cr (he_hosts e) (host_candidates host port)}"

lemma revoked_scan_spec:
  "snd (revoked_scan cr cs key seen es) \<longleftrightarrow>
    (\<exists>e \<in> set es. host_patterns_match cr (he_hosts e) cs \<and> he_key e = key \<and> he_revoked e)"
  "\<not> snd (revoked_scan cr cs key seen es) \<Longrightarrow>
    fst (revoked_scan cr cs key seen es) \<longleftrightarrow> seen \<or> (\<exists>e \<in> set es. host_patterns_match cr (he_hosts e) cs)"
  by (induction es arbitrary: seen) auto

text \<open>
  C13. The order of the entries does not matter to the decision: one revoked entry of the key for the
  host decides against everything else in the file, then one trusted entry of the key decides for it,
  and a host that is only known with other keys has changed.
\<close>

theorem decision_precedence:
  "decision cr entries host port key =
    (let es = matching cr entries host port in
     if \<exists>e \<in> es. he_key e = key \<and> he_revoked e then Revoked
     else if \<exists>e \<in> es. he_key e = key then Trusted
     else if es \<noteq> {} then Changed
     else Unknown)"
proof -
  obtain hs rv where sc: "revoked_scan cr (host_candidates host port) key False entries = (hs, rv)"
    by (cases "revoked_scan cr (host_candidates host port) key False entries")
  have r: "rv \<longleftrightarrow> (\<exists>e \<in> matching cr entries host port. he_key e = key \<and> he_revoked e)"
    using revoked_scan_spec(1) [of cr "host_candidates host port" key False entries] sc by (auto simp: matching_def)
  have hs: "\<not> rv \<Longrightarrow> hs \<longleftrightarrow> matching cr entries host port \<noteq> {}"
    using revoked_scan_spec(2) [of cr "host_candidates host port" key False entries] sc by (auto simp: matching_def)
  have "(\<exists>e \<in> set entries. \<not> he_revoked e \<and> host_patterns_match cr (he_hosts e) (host_candidates host port) \<and>
        key_algorithm cr (he_key e) = key_algorithm cr key \<and> he_key e = key) \<longleftrightarrow>
        (\<exists>e \<in> matching cr entries host port. he_key e = key)" if "\<not> rv"
    using that r by (auto simp: matching_def)
  with r hs sc show ?thesis by (cases rv) (simp_all add: decision_def Let_def)
qed

text \<open>
  Removing a key forgets it for the host, trusted and revoked entries alike, and nothing else: the
  reloaded file has exactly the other entries, in order.
\<close>

theorem removed_key_forgotten:
  assumes "remove_key cr fs (Some f) host port fp = (Some f', Inr b)"
    and "load_from_path cr fs0 (Some f) = Inr old" "load_from_path cr fs1 (Some f') = Inr es"
  shows "es = filter (\<lambda>e. \<not> (e \<in> matching cr old host port \<and> key_fingerprint cr (he_key e) = fp)) old \<and>
    (\<forall>k. key_fingerprint cr k = fp \<longrightarrow> decision cr es host port k \<in> {Unknown, Changed})"
proof -
  have es: "es = filter (\<lambda>e. \<not> (e \<in> matching cr old host port \<and> key_fingerprint cr (he_key e) = fp)) old"
    using removed_entries [OF assms(1)] load_entries [OF assms(2)] load_entries [OF assms(3)]
    by (auto simp: matching_def intro: filter_cong)
  then have "he_key e \<noteq> k" if "e \<in> matching cr es host port" "key_fingerprint cr k = fp" for e k
    using that by (auto simp: matching_def)
  then have "decision cr es host port k \<in> {Unknown, Changed}" if "key_fingerprint cr k = fp" for k
    using that unfolding decision_precedence Let_def by auto
  with es show ?thesis by blast
qed

text \<open>A key type for examples: a key is its base64 text.\<close>

definition toy_crypto :: "string crypto" where
  "toy_crypto = \<lparr>parse_public_key_base64 = (\<lambda>b. Some b), key_algorithm = (\<lambda>_. ''ssh-ed25519''),
     key_fingerprint = (\<lambda>k. ''SHA256:'' @ k), to_openssh = (\<lambda>k. Some (''ssh-ed25519 '' @ k)),
     from_openssh = strip_prefix ''ssh-ed25519 '', base64_decode = (\<lambda>s. Some s),
     hmac_sha1 = (\<lambda>salt. Some (\<lambda>v. salt @ v))\<rparr>"

definition all_works :: file_faults where
  "all_works = \<lparr>stat_ok = True, read_ok = True, create_dir_ok = True, replace_ok = True\<rparr>"

lemma toy_crypto_simps [simp]:
  "parse_public_key_base64 toy_crypto b = Some b" "key_algorithm toy_crypto k = ''ssh-ed25519''"
  "key_fingerprint toy_crypto k = ''SHA256:'' @ k" "to_openssh toy_crypto k = Some (''ssh-ed25519 '' @ k)"
  "from_openssh toy_crypto = strip_prefix ''ssh-ed25519 ''"
  by (simp_all add: toy_crypto_def)

lemma all_works_simps [simp]: "stat_ok all_works" "read_ok all_works" "create_dir_ok all_works" "replace_ok all_works"
  by (simp_all add: all_works_def)

definition toy_line :: string where "toy_line = ''h s B''"

lemma toy_line_parsed: "parse_line toy_crypto toy_line = Some (new_entry ''h'' 22 ''B'')"
proof -
  have "split_whitespace ''h s B'' = [''h'', ''s'', ''B'']"
    by (simp add: split_whitespace_def fields_from.simps leading_space_def is_space_char_def space_codes_def)
  then show ?thesis
    by (simp add: toy_line_def parse_line_fields parse_fields_def starts_with_def new_entry_def format_host_def)
qed

lemma toy_file_lines [simp]: "str_lines (toy_line @ [CHR 0x0A]) = [toy_line]" "str_lines [CHR 0x0A] = [[]]"
  by (simp_all add: str_lines_def strip_cr_def toy_line_def)

lemma toy_host: "host_patterns_match toy_crypto ''h'' (host_candidates ''h'' 22)"
  using plain_host_matches [of "''h''" toy_crypto 22] by (simp add: format_host_def plain_host_def plain_char_def)

theorem removed_key_forgotten_witness:
  "\<exists>es. load_from_path toy_crypto all_works (Some [CHR 0x0A]) = Inr es \<and>
    decision toy_crypto es ''h'' 22 ''B'' \<in> {Unknown, Changed}"
proof -
  have old: "load_from_path toy_crypto all_works (Some (toy_line @ [CHR 0x0A])) = Inr [new_entry ''h'' 22 ''B'']"
    by (simp add: load_from_path_def MAX_FILE_BYTES_def MAX_LINES_def toy_line_parsed) (simp add: toy_line_def)
  have new: "load_from_path toy_crypto all_works (Some [CHR 0x0A]) = Inr []"
    by (simp add: load_from_path_def MAX_FILE_BYTES_def MAX_LINES_def parse_line_fields parse_fields_def
      split_whitespace_def fields_from.simps)
  have "removed_on_remove toy_crypto (host_candidates ''h'' 22) ''SHA256:B'' toy_line"
    by (simp add: removed_on_remove_entry [OF toy_line_parsed] new_entry_def format_host_def toy_host)
  then have "remove_key toy_crypto all_works (Some (toy_line @ [CHR 0x0A])) ''h'' 22 ''SHA256:B'' =
      (Some [CHR 0x0A], Inr True)"
    by (simp add: remove_key_def read_text_def atomic_replace_def Let_def)
  from removed_key_forgotten [OF this old new] new show ?thesis by simp
qed

end
