(* ===== verification/Ssh_Connection.thy ===== *)
theory Ssh_Connection
  imports Known_Hosts
begin

text \<open>
  \<^verbatim>\<open>src/ssh.rs\<close>: checking the server key during the handshake, connecting a transport, probing a
  host key, authenticating, and the retry of the SFTP channel.

  The network and \<^verbatim>\<open>russh\<close> are scripts: \<open>network\<close> says how far the connection gets and which key
  the server presents, \<open>auth_world\<close> how the server, the key loader and the agent answer. What the code
  relies on is documented behaviour of \<^verbatim>\<open>russh\<close>: a handshake completes only after
  \<^verbatim>\<open>check_server_key\<close> has answered \<open>Ok(true)\<close>. What has been sent for authentication is a list of
  \<open>auth_request\<close>s.
\<close>

section \<open>Observation of the server key\<close>

datatype observation_decision = ObsUnknown | ObsTrusted | ObsChanged | ObsRevoked

record observation =
  ob_fingerprint :: "string option"
  ob_public_key :: "string option"
  ob_decision :: "observation_decision option"
  ob_accepted :: "bool option"

definition observation_default :: observation where
  "observation_default =
     \<lparr>ob_fingerprint = None, ob_public_key = None, ob_decision = None, ob_accepted = None\<rparr>"

record 'k client_handler =
  ch_expected :: "string option"
  ch_known_hosts :: "'k host_entry list"
  ch_host :: string
  ch_port :: u16

datatype 'k server_key = ServerKey 'k | ServerCertificate

fun observed :: "trust_decision \<Rightarrow> observation_decision" where
  "observed Unknown = ObsUnknown"
| "observed Trusted = ObsTrusted"
| "observed Changed = ObsChanged"
| "observed Revoked = ObsRevoked"

definition fingerprint_is_trusted :: "string option \<Rightarrow> string \<Rightarrow> bool" where
  "fingerprint_is_trusted expected actual =
     (case expected of None \<Rightarrow> False | Some e \<Rightarrow> e = actual)"

text \<open>\<open>None\<close> is the error of \<^verbatim>\<open>to_openssh\<close>.\<close>

definition check_server_key :: "'k crypto \<Rightarrow> 'k client_handler \<Rightarrow> 'k server_key \<Rightarrow> observation \<Rightarrow>
    observation \<times> bool option" where
  "check_server_key cr h server ob =
     (case server of
        ServerCertificate \<Rightarrow> (ob\<lparr>ob_accepted := Some False\<rparr>, Some False)
      | ServerKey key \<Rightarrow>
          let actual = key_fingerprint cr key;
              ob1 = ob\<lparr>ob_fingerprint := Some actual\<rparr> in
          case to_openssh cr key of
            None \<Rightarrow> (ob1, None)
          | Some key_text \<Rightarrow>
              let d = decision cr (ch_known_hosts h) (ch_host h) (ch_port h) key;
                  ob2 = ob1\<lparr>ob_public_key := Some key_text, ob_decision := Some (observed d)\<rparr> in
              if d = Revoked then (ob2\<lparr>ob_accepted := Some False\<rparr>, Some False)
              else
                let expected_matches = fingerprint_is_trusted (ch_expected h) actual in
                if ch_expected h \<noteq> None then
                  let accepted = expected_matches \<and> d \<noteq> Changed in
                  (ob2\<lparr>ob_accepted := Some accepted\<rparr>, Some accepted)
                else
                  let trusted = (d = Trusted) in
                  (ob2\<lparr>ob_accepted := Some trusted\<rparr>, Some trusted))"

section \<open>The transport\<close>

datatype after_key = Completes | Breaks | Stalls

datatype 'k handshake = EndsBeforeKey | StallsBeforeKey | Presents "'k server_key" after_key

datatype tcp = TcpConnects | TcpFails | TcpStalls

record 'k network =
  net_tcp :: tcp
  net_handshake :: "'k handshake"

datatype ssh_error =
  InvalidProfile
| ConnectTimedOut
| ConnectFailed
| HandshakeTimedOut
| HandshakeEnded (after_host_key_check: bool)
| HostKeyRejected (expected_key: "string option") (rejected_key: string) "string option"
| HostKeyRevoked (revoked_key: string) "string option"
| AuthenticationFailed
| AuthenticationTimedOut
| AuthenticationErrored
| PrivateKeyLoad
| NegotiationFailed
| SshAgentUnavailable
| SshAgentTimedOut
| SshAgentNoIdentities
| SshAgentOperationFailed
| AcceptedThenFailed
| DecisionMissing
| NoKeyObserved

text \<open>The outcome of \<^verbatim>\<open>timeout(CONNECT_TIMEOUT, client::connect_stream(..))\<close>.\<close>

datatype 'k stream_result = StreamTimedOut | StreamFailed | StreamReady "'k server_key"

definition connect_stream :: "'k crypto \<Rightarrow> 'k client_handler \<Rightarrow> 'k handshake \<Rightarrow> observation \<Rightarrow>
    observation \<times> 'k stream_result" where
  "connect_stream cr h hs ob =
     (case hs of
        EndsBeforeKey \<Rightarrow> (ob, StreamFailed)
      | StallsBeforeKey \<Rightarrow> (ob, StreamTimedOut)
      | Presents server rest \<Rightarrow>
          (case check_server_key cr h server ob of
             (ob1, Some True) \<Rightarrow>
               (ob1, case rest of Completes \<Rightarrow> StreamReady server | Breaks \<Rightarrow> StreamFailed | Stalls \<Rightarrow> StreamTimedOut)
           | (ob1, _) \<Rightarrow> (ob1, case rest of Stalls \<Rightarrow> StreamTimedOut | _ \<Rightarrow> StreamFailed)))"

definition connect_transport :: "'k crypto \<Rightarrow> (known_hosts_error + 'k host_entry list) \<Rightarrow> string \<Rightarrow> u16 \<Rightarrow>
    string option \<Rightarrow> 'k network \<Rightarrow> observation \<Rightarrow> observation \<times> (ssh_error + 'k server_key)" where
  "connect_transport cr loaded host port expected net ob =
     (let known_hosts = (case loaded of Inr snapshot \<Rightarrow> snapshot | Inl _ \<Rightarrow> []);
          h = \<lparr>ch_expected = expected, ch_known_hosts = known_hosts, ch_host = host, ch_port = port\<rparr> in
      case net_tcp net of
        TcpStalls \<Rightarrow> (ob, Inl ConnectTimedOut)
      | TcpFails \<Rightarrow> (ob, Inl ConnectFailed)
      | TcpConnects \<Rightarrow>
          (case connect_stream cr h (net_handshake net) ob of
             (ob1, StreamTimedOut) \<Rightarrow> (ob1, Inl HandshakeTimedOut)
           | (ob1, StreamReady server) \<Rightarrow> (ob1, Inr server)
           | (ob1, StreamFailed) \<Rightarrow>
               (ob1, Inl (case ob_fingerprint ob1 of
                  None \<Rightarrow> HandshakeEnded False
                | Some actual \<Rightarrow>
                    if ob_accepted ob1 = Some False then
                      if ob_decision ob1 = Some ObsRevoked then HostKeyRevoked actual (ob_public_key ob1)
                      else HostKeyRejected expected actual (ob_public_key ob1)
                    else HandshakeEnded True))))"

section \<open>Probing\<close>

record host_key_probe =
  pr_fingerprint :: string
  pr_decision :: trust_decision
  pr_public_key :: "string option"

fun probed_decision :: "observation_decision option \<Rightarrow> trust_decision" where
  "probed_decision (Some ObsTrusted) = Trusted"
| "probed_decision (Some ObsChanged) = Changed"
| "probed_decision (Some ObsRevoked) = Revoked"
| "probed_decision _ = Unknown"

definition probe_host_key :: "'k crypto \<Rightarrow> (known_hosts_error + 'k host_entry list) \<Rightarrow> bool \<Rightarrow> string \<Rightarrow> u16 \<Rightarrow>
    'k network \<Rightarrow> ssh_error + host_key_probe" where
  "probe_host_key cr loaded valid host port net =
     (if \<not> valid then Inl InvalidProfile
      else
        case connect_transport cr loaded host port None net observation_default of
          (ob, result) \<Rightarrow>
            let found = (\<lambda>fp. \<lparr>pr_fingerprint = fp, pr_decision = probed_decision (ob_decision ob),
                  pr_public_key = ob_public_key ob\<rparr>) in
            case (result, ob_fingerprint ob) of
              (Inl e, Some fp) \<Rightarrow>
                (case ob_accepted ob of
                   Some False \<Rightarrow> Inr (found fp)
                 | Some True \<Rightarrow> Inl AcceptedThenFailed
                 | None \<Rightarrow> Inl DecisionMissing)
            | (Inl e, None) \<Rightarrow> Inl e
            | (Inr _, Some fp) \<Rightarrow> Inr (found fp)
            | (Inr _, None) \<Rightarrow> Inl NoKeyObserved)"

section \<open>Authentication\<close>

definition MAX_SSH_AGENT_IDENTITIES :: nat where "MAX_SSH_AGENT_IDENTITIES = 5"

datatype auth_method = PasswordAuth | PrivateKeyAuth string | SshAgentAuth

datatype auth_request =
  SentPassword string string
| SentPublicKey string string
| SentIdentity string nat

datatype answer = AnswerTimesOut | AnswerFails | Answer bool

datatype identity_answer = IdentityAccepted | IdentityRefused | IdentityFails | IdentityStalls

datatype agent_script = AgentStalls | AgentAbsent | AgentListFails | AgentOffers "identity_answer list"

record auth_world =
  aw_password :: answer
  aw_key_loads :: "string \<Rightarrow> string \<Rightarrow> bool"
  aw_rsa_hash :: answer
  aw_public_key :: answer
  aw_agent :: agent_script

definition ssh_agent_attempt_count :: "nat \<Rightarrow> nat" where
  "ssh_agent_attempt_count identity_count =
     (if identity_count < MAX_SSH_AGENT_IDENTITIES then identity_count else MAX_SSH_AGENT_IDENTITIES)"

fun agent_attempts :: "string \<Rightarrow> nat \<Rightarrow> identity_answer list \<Rightarrow> auth_request list \<times> (ssh_error + bool)" where
  "agent_attempts user n [] = ([], Inr False)"
| "agent_attempts user n (a # as) =
     (case a of
        IdentityAccepted \<Rightarrow> ([SentIdentity user n], Inr True)
      | IdentityFails \<Rightarrow> ([SentIdentity user n], Inl SshAgentOperationFailed)
      | IdentityStalls \<Rightarrow> ([SentIdentity user n], Inl SshAgentTimedOut)
      | IdentityRefused \<Rightarrow>
          (case agent_attempts user (n + 1) as of (sent, r) \<Rightarrow> (SentIdentity user n # sent, r)))"

definition authenticate_agent_identities :: "string \<Rightarrow> identity_answer list \<Rightarrow>
    auth_request list \<times> (ssh_error + bool)" where
  "authenticate_agent_identities user identities =
     agent_attempts user 0 (take (ssh_agent_attempt_count (length identities)) identities)"

definition authenticate_with_runtime_agent :: "string \<Rightarrow> auth_world \<Rightarrow>
    auth_request list \<times> (ssh_error + bool)" where
  "authenticate_with_runtime_agent user w =
     (case aw_agent w of
        AgentStalls \<Rightarrow> ([], Inl SshAgentTimedOut)
      | AgentAbsent \<Rightarrow> ([], Inl SshAgentUnavailable)
      | AgentListFails \<Rightarrow> ([], Inl SshAgentOperationFailed)
      | AgentOffers identities \<Rightarrow>
          if identities = [] then ([], Inl SshAgentNoIdentities)
          else
            case aw_rsa_hash w of
              AnswerTimesOut \<Rightarrow> ([], Inl SshAgentTimedOut)
            | AnswerFails \<Rightarrow> ([], Inl SshAgentOperationFailed)
            | Answer _ \<Rightarrow> authenticate_agent_identities user identities)"

fun answered :: "answer \<Rightarrow> ssh_error + bool" where
  "answered AnswerTimesOut = Inl AuthenticationTimedOut"
| "answered AnswerFails = Inl AuthenticationErrored"
| "answered (Answer b) = Inr b"

definition authenticate :: "string \<Rightarrow> auth_method \<Rightarrow> string \<Rightarrow> auth_world \<Rightarrow>
    auth_request list \<times> (ssh_error + bool)" where
  "authenticate user auth secret w =
     (case auth of
        PasswordAuth \<Rightarrow> ([SentPassword user secret], answered (aw_password w))
      | PrivateKeyAuth path \<Rightarrow>
          if \<not> aw_key_loads w path secret then ([], Inl PrivateKeyLoad)
          else
            (case aw_rsa_hash w of
               Answer _ \<Rightarrow> ([SentPublicKey user path], answered (aw_public_key w))
             | _ \<Rightarrow> ([], Inl NegotiationFailed))
      | SshAgentAuth \<Rightarrow> authenticate_with_runtime_agent user w)"

record ssh_profile =
  sp_valid :: bool
  sp_host :: string
  sp_port :: u16
  sp_user :: string
  sp_auth :: auth_method
  sp_pin :: "string option"

definition connect_with_x11 :: "'k crypto \<Rightarrow> (known_hosts_error + 'k host_entry list) \<Rightarrow> ssh_profile \<Rightarrow> string \<Rightarrow>
    'k network \<Rightarrow> auth_world \<Rightarrow> auth_request list \<times> (ssh_error + 'k server_key)" where
  "connect_with_x11 cr loaded p secret net w =
     (if \<not> sp_valid p then ([], Inl InvalidProfile)
      else
        case connect_transport cr loaded (sp_host p) (sp_port p) (sp_pin p) net observation_default of
          (_, Inl e) \<Rightarrow> ([], Inl e)
        | (_, Inr server) \<Rightarrow>
            (case authenticate (sp_user p) (sp_auth p) secret w of
               (sent, Inl e) \<Rightarrow> (sent, Inl e)
             | (sent, Inr True) \<Rightarrow> (sent, Inr server)
             | (sent, Inr False) \<Rightarrow> (sent, Inl AuthenticationFailed)))"

section \<open>Confirming a host key\<close>

text \<open>The file operation of \<^verbatim>\<open>confirm_host_key\<close> (\<^verbatim>\<open>src/app/connection/host_key.rs\<close>).\<close>

definition confirm_known_host :: "'k crypto \<Rightarrow> file_faults \<Rightarrow> string option \<Rightarrow> string \<Rightarrow> u16 \<Rightarrow> string \<Rightarrow> bool \<Rightarrow>
    string option \<times> (known_hosts_error + unit)" where
  "confirm_known_host cr fs file host port public_key changed =
     (if changed then replace_confirmed_openssh cr fs file host port public_key
      else append_confirmed_openssh cr fs file host port public_key)"

section \<open>Terminal events and SFTP channels\<close>

datatype channel_message = MsgData string | MsgExtendedData string | MsgEof | MsgClose | MsgOther

datatype ssh_event = SshOutput string | ShellExited | SshDisconnected

fun terminal_event_from_channel_message :: "channel_message option \<Rightarrow> ssh_event option" where
  "terminal_event_from_channel_message (Some (MsgData d)) = Some (SshOutput d)"
| "terminal_event_from_channel_message (Some (MsgExtendedData d)) = Some (SshOutput d)"
| "terminal_event_from_channel_message (Some MsgEof) = Some ShellExited"
| "terminal_event_from_channel_message (Some MsgClose) = Some ShellExited"
| "terminal_event_from_channel_message (Some MsgOther) = None"
| "terminal_event_from_channel_message None = Some SshDisconnected"

text \<open>The messages still to come; when they are used up the channel reports its end.\<close>

fun next_event :: "channel_message list \<Rightarrow> ssh_event \<times> channel_message list" where
  "next_event [] = (SshDisconnected, [])"
| "next_event (m # ms) =
     (case terminal_event_from_channel_message (Some m) of
        Some e \<Rightarrow> (e, ms)
      | None \<Rightarrow> next_event ms)"

datatype open_failure = ProhibitedOrShort | OtherFailure

definition channel_open_can_retry :: "open_failure \<Rightarrow> bool" where
  "channel_open_can_retry e \<longleftrightarrow> e = ProhibitedOrShort"

text \<open>
  The answers to the attempts, whether the connection is closed when an answer arrives, and the waits
  in milliseconds. An empty script stands for an attempt that never returns.
\<close>

fun open_browser_sftp_stream :: "nat \<Rightarrow> ((open_failure + 's) \<times> bool) list \<Rightarrow> (open_failure + 's) option \<times> nat list" where
  "open_browser_sftp_stream attempt [] = (None, [])"
| "open_browser_sftp_stream attempt ((answer, closed) # as) =
     (case answer of
        Inl e \<Rightarrow>
          if \<not> closed \<and> attempt < 2 \<and> channel_open_can_retry e then
            (case open_browser_sftp_stream (attempt + 1) as of
               (r, waits) \<Rightarrow> (r, 250 * 2 ^ attempt # waits))
          else (Some (Inl e), [])
      | Inr s \<Rightarrow> (Some (Inr s), []))"

section \<open>What is accepted\<close>

definition key_trusted :: "'k crypto \<Rightarrow> 'k host_entry list \<Rightarrow> string \<Rightarrow> u16 \<Rightarrow> string option \<Rightarrow> 'k \<Rightarrow> bool" where
  "key_trusted cr entries host port pin key =
     (let d = decision cr entries host port key in
      d \<noteq> Revoked \<and>
      (case pin of None \<Rightarrow> d = Trusted | Some p \<Rightarrow> p = key_fingerprint cr key \<and> d \<noteq> Changed))"

lemma check_accepts:
  "snd (check_server_key cr h server ob) = Some True \<longleftrightarrow>
    (\<exists>key. server = ServerKey key \<and> to_openssh cr key \<noteq> None \<and>
      key_trusted cr (ch_known_hosts h) (ch_host h) (ch_port h) (ch_expected h) key)"
  by (cases server)
    (auto simp: check_server_key_def key_trusted_def Let_def fingerprint_is_trusted_def split: option.splits)

lemma check_records:
  assumes "to_openssh cr key = Some key_text"
  shows "\<exists>ob1 a. check_server_key cr h (ServerKey key) ob = (ob1, Some a) \<and>
    ob_fingerprint ob1 = Some (key_fingerprint cr key) \<and> ob_public_key ob1 = Some key_text \<and>
    ob_decision ob1 = Some (observed (decision cr (ch_known_hosts h) (ch_host h) (ch_port h) key))"
  using assms by (auto simp: check_server_key_def Let_def)

lemma connect_stream_ready:
  assumes "connect_stream cr h hs ob = (ob', StreamReady server)"
  shows "\<exists>key. server = ServerKey key \<and> hs = Presents server Completes \<and>
    key_trusted cr (ch_known_hosts h) (ch_host h) (ch_port h) (ch_expected h) key"
proof -
  obtain rest where hs: "hs = Presents server rest" "rest = Completes"
      "snd (check_server_key cr h server ob) = Some True"
    using assms by (auto simp: connect_stream_def split: handshake.splits prod.splits option.splits bool.splits after_key.splits)
  then show ?thesis using check_accepts [of cr h server ob] by auto
qed

abbreviation loaded_entries :: "(known_hosts_error + 'k host_entry list) \<Rightarrow> 'k host_entry list" where
  "loaded_entries loaded \<equiv> (case loaded of Inr snapshot \<Rightarrow> snapshot | Inl _ \<Rightarrow> [])"

lemma transport_ready:
  assumes "connect_transport cr loaded host port expected net ob = (ob', Inr server)"
  shows "\<exists>key. server = ServerKey key \<and> net_handshake net = Presents server Completes \<and>
    key_trusted cr (loaded_entries loaded) host port expected key"
  using assms
  by (auto simp: connect_transport_def Let_def split: tcp.splits prod.splits stream_result.splits
    dest!: connect_stream_ready)

lemma agent_attempts_length: "length (fst (agent_attempts user n as)) \<le> length as"
  by (induction user n as rule: agent_attempts.induct)
    (auto split: identity_answer.splits prod.splits)

lemma authenticate_length: "length (fst (authenticate user auth secret w)) \<le> MAX_SSH_AGENT_IDENTITIES"
proof -
  have "length (fst (authenticate_agent_identities user ids)) \<le> MAX_SSH_AGENT_IDENTITIES" for ids
    unfolding authenticate_agent_identities_def
    by (rule order_trans [OF agent_attempts_length]) (simp add: ssh_agent_attempt_count_def)
  then show ?thesis
    by (auto simp: authenticate_def authenticate_with_runtime_agent_def MAX_SSH_AGENT_IDENTITIES_def
      split: auth_method.splits agent_script.splits answer.splits)
qed

section \<open>Properties\<close>

text \<open>
  C1. Nothing is sent for authentication, and no connection comes back, before the server has presented
  a plain host key and completed the handshake, and only if that key is not revoked in the known hosts
  and is either the pinned one, not contradicted by the known hosts, or, without a pin, trusted by the
  known hosts. At most five requests are sent.
\<close>

theorem credentials_need_trusted_key:
  assumes "connect_with_x11 cr loaded p secret net w = (sent, r)"
    and "sent \<noteq> [] \<or> (\<exists>server. r = Inr server)"
  shows "length sent \<le> 5 \<and>
    (\<exists>key. net_handshake net = Presents (ServerKey key) Completes \<and>
      (let d = decision cr (loaded_entries loaded) (sp_host p) (sp_port p) key in
       d \<noteq> Revoked \<and>
       (case sp_pin p of
          Some pin \<Rightarrow> key_fingerprint cr key = pin \<and> d \<noteq> Changed
        | None \<Rightarrow> d = Trusted)))"
proof -
  obtain ob server where t: "connect_transport cr loaded (sp_host p) (sp_port p) (sp_pin p) net observation_default =
      (ob, Inr server)" and sent: "sent = fst (authenticate (sp_user p) (sp_auth p) secret w)"
    using assms by (auto simp: connect_with_x11_def split: if_splits prod.splits sum.splits bool.splits)
  have "length sent \<le> 5"
    using authenticate_length [of "sp_user p" "sp_auth p" secret w] sent by (simp add: MAX_SSH_AGENT_IDENTITIES_def)
  moreover obtain key where "server = ServerKey key" "net_handshake net = Presents server Completes"
      "key_trusted cr (loaded_entries loaded) (sp_host p) (sp_port p) (sp_pin p) key"
    using transport_ready [OF t] by blast
  ultimately show ?thesis by (auto simp: key_trusted_def Let_def split: option.splits)
qed

definition toy_profile :: ssh_profile where
  "toy_profile = \<lparr>sp_valid = True, sp_host = ''h'', sp_port = 22, sp_user = ''u'', sp_auth = PasswordAuth,
     sp_pin = None\<rparr>"

definition toy_network :: "string network" where
  "toy_network = \<lparr>net_tcp = TcpConnects, net_handshake = Presents (ServerKey ''B'') Completes\<rparr>"

definition toy_auth :: auth_world where
  "toy_auth = \<lparr>aw_password = Answer True, aw_key_loads = (\<lambda>_ _. False), aw_rsa_hash = AnswerFails,
     aw_public_key = AnswerFails, aw_agent = AgentAbsent\<rparr>"

lemma toy_decision: "decision toy_crypto [new_entry ''h'' 22 ''B''] ''h'' 22 k = (if k = ''B'' then Trusted else Changed)"
  by (auto simp: decision_precedence Let_def matching_def new_entry_def format_host_def toy_host)

lemma toy_connects:
  "connect_with_x11 toy_crypto (Inr [new_entry ''h'' 22 ''B'']) toy_profile ''pw'' toy_network toy_auth =
    ([SentPassword ''u'' ''pw''], Inr (ServerKey ''B''))"
  by (simp add: connect_with_x11_def connect_transport_def connect_stream_def check_server_key_def
    toy_profile_def toy_network_def toy_auth_def toy_decision authenticate_def Let_def)

theorem credentials_need_trusted_key_witness:
  "decision toy_crypto [new_entry ''h'' 22 ''B''] ''h'' 22 ''B'' = Trusted"
  using credentials_need_trusted_key [OF toy_connects] by (simp add: toy_profile_def toy_network_def Let_def)

text \<open>
  Probing a host key sends no credentials, and what it reports is the truth: the fingerprint and the
  serialised form of the key the server presented, and the decision of the known hosts about it.
\<close>

theorem probe_reports_decision:
  assumes "probe_host_key cr loaded valid host port net = Inr pr"
  shows "\<exists>key rest. net_handshake net = Presents (ServerKey key) rest \<and>
    pr_fingerprint pr = key_fingerprint cr key \<and> pr_public_key pr = to_openssh cr key \<and>
    pr_decision pr = decision cr (loaded_entries loaded) host port key"
proof -
  have pd: "probed_decision (Some (observed d)) = d" for d by (cases d) simp_all
  obtain server rest where hs: "net_tcp net = TcpConnects" "net_handshake net = Presents server rest"
    using assms
    by (auto simp: probe_host_key_def connect_transport_def connect_stream_def observation_default_def Let_def
      split: if_splits tcp.splits handshake.splits)
  obtain key where key: "server = ServerKey key"
    using assms hs
    by (cases server) (auto simp: probe_host_key_def connect_transport_def connect_stream_def check_server_key_def
      observation_default_def Let_def split: if_splits after_key.splits)
  show ?thesis
  proof (cases "to_openssh cr key")
    case None
    then show ?thesis using assms hs key
      by (auto simp: probe_host_key_def connect_transport_def connect_stream_def check_server_key_def
        observation_default_def Let_def split: if_splits after_key.splits)
  next
    case (Some key_text)
    let ?h = "\<lparr>ch_expected = None, ch_known_hosts = loaded_entries loaded, ch_host = host, ch_port = port\<rparr>"
    obtain ob1 a where chk: "check_server_key cr ?h server observation_default = (ob1, Some a)"
        "ob_fingerprint ob1 = Some (key_fingerprint cr key)" "ob_public_key ob1 = Some key_text"
        "ob_decision ob1 = Some (observed (decision cr (loaded_entries loaded) host port key))"
      using check_records [OF Some, of ?h observation_default] key by auto
    then show ?thesis using assms hs key Some
      by (auto simp: probe_host_key_def connect_transport_def connect_stream_def Let_def pd
        split: if_splits after_key.splits option.splits bool.splits)
  qed
qed

theorem probe_reports_decision_witness:
  "\<exists>pr. probe_host_key toy_crypto (Inr []) True ''h'' 22 toy_network = Inr pr \<and> pr_decision pr = Unknown"
proof -
  let ?pr = "\<lparr>pr_fingerprint = ''SHA256:B'', pr_decision = Unknown, pr_public_key = Some ''ssh-ed25519 B''\<rparr>"
  have p: "probe_host_key toy_crypto (Inr []) True ''h'' 22 toy_network = Inr ?pr"
    by (simp add: probe_host_key_def connect_transport_def connect_stream_def check_server_key_def toy_network_def
      decision_def observation_default_def Let_def)
  from probe_reports_decision [OF p] p show ?thesis by auto
qed

text \<open>
  C2. After the user has confirmed a host key, the file written and read again and the profile pinned to
  it, the handshake accepts that key and no other one, whatever the file held for the host before;
  only a revoked entry of the key itself still refuses it.
\<close>

theorem confirmed_key_exclusive:
  assumes "plain_host host" "from_openssh cr public_key = Some key" "key_text_ok cr key key_text"
    and "load_from_path cr fs0 (Some f) = Inr old" "changed \<or> matching cr old host port = {}"
    and "confirm_known_host cr fs (Some f) host port public_key changed = (Some f', Inr u)"
    and "load_from_path cr fs1 (Some f') = Inr es"
  shows "snd (check_server_key cr \<lparr>ch_expected = Some (key_fingerprint cr key), ch_known_hosts = es,
      ch_host = host, ch_port = port\<rparr> (ServerKey k) ob) = Some True \<longleftrightarrow>
    k = key \<and> \<not> (\<exists>e \<in> matching cr old host port. he_key e = key \<and> he_revoked e)"
proof -
  let ?m = "\<lambda>e. host_patterns_match cr (he_hosts e) (host_candidates host port)"
  have es: "es = filter (\<lambda>e. he_revoked e \<or> \<not> ?m e) old @ [new_entry host port key]"
  proof (cases changed)
    case True
    then show ?thesis
      using replaced_entries [OF assms(1-3), of fs f port f' u] assms(6)
      by (simp add: confirm_known_host_def load_entries [OF assms(4)] load_entries [OF assms(7)])
  next
    case False
    then have "filter (\<lambda>e. he_revoked e \<or> \<not> ?m e) old = old"
      using assms(5) by (auto simp: matching_def intro!: filter_True)
    with False show ?thesis
      using appended_entries [OF assms(1,3), of fs f port f' u] assms(2,6)
      by (simp add: confirm_known_host_def append_confirmed_openssh_def load_entries [OF assms(4)]
        load_entries [OF assms(7)])
  qed
  have new: "?m (new_entry host port key)" using plain_host_matches [OF assms(1)] by (simp add: new_entry_def)
  have m: "matching cr es host port = {e \<in> matching cr old host port. he_revoked e} \<union> {new_entry host port key}"
    using new by (auto simp: es matching_def)
  have key_text: "to_openssh cr key = Some key_text" using assms(3) by (simp add: key_text_ok_def)
  have "he_key (new_entry host port key) = key" "\<not> he_revoked (new_entry host port key)"
    by (simp_all add: new_entry_def)
  then have "key_trusted cr es host port (Some (key_fingerprint cr key)) k \<longleftrightarrow>
      k = key \<and> \<not> (\<exists>e \<in> matching cr old host port. he_key e = key \<and> he_revoked e)"
    unfolding key_trusted_def decision_precedence m Let_def by auto
  then show ?thesis unfolding check_accepts using key_text by auto
qed

theorem confirmed_key_exclusive_witness:
  "snd (check_server_key toy_crypto \<lparr>ch_expected = Some ''SHA256:C'', ch_known_hosts = [new_entry ''h'' 22 ''C''],
      ch_host = ''h'', ch_port = 22\<rparr> (ServerKey ''B'') observation_default) \<noteq> Some True"
proof -
  have sp: "split_whitespace ''ssh-ed25519 C'' = [''ssh-ed25519'', ''C'']"
    by (simp add: split_whitespace_def fields_from.simps leading_space_def is_space_char_def space_codes_def)
  let ?f = "toy_line @ [CHR 0x0A]" and ?f' = "host_line ''h'' 22 ''ssh-ed25519 C''"
  have plain: "plain_host ''h''" by (simp add: plain_host_def plain_char_def)
  have ok: "key_text_ok toy_crypto ''C'' ''ssh-ed25519 C''" by (simp add: key_text_ok_def sp)
  have old: "load_from_path toy_crypto all_works (Some ?f) = Inr [new_entry ''h'' 22 ''B'']"
    by (simp add: load_from_path_def MAX_FILE_BYTES_def MAX_LINES_def toy_line_parsed) (simp add: toy_line_def)
  have "\<not> kept_on_replace toy_crypto (host_candidates ''h'' 22) toy_line"
    using kept_on_replace_entry [OF toy_line_parsed] toy_host by (simp add: new_entry_def format_host_def)
  then have conf: "confirm_known_host toy_crypto all_works (Some ?f) ''h'' 22 ''ssh-ed25519 C'' True = (Some ?f', Inr ())"
    by (simp add: confirm_known_host_def replace_confirmed_openssh_def read_text_def atomic_replace_def strip_prefix_def)
  have lines: "str_lines ?f' = [''h ssh-ed25519 C'']"
    by (simp add: host_line_def format_host_def str_lines_def strip_cr_def)
  have "entries_of toy_crypto (str_lines ?f') = [new_entry ''h'' 22 ''C'']" by (rule host_line_entry [OF plain ok])
  then have "load_from_path toy_crypto all_works (Some ?f') = Inr [new_entry ''h'' 22 ''C'']"
    by (auto simp: load_from_path_def MAX_FILE_BYTES_def MAX_LINES_def lines split: option.splits)
      (simp add: host_line_def format_host_def)
  from confirmed_key_exclusive [OF plain _ ok old _ conf this, of "''B''" observation_default] show ?thesis
    by (simp add: strip_prefix_def)
qed

end
