(* ===== verification/Panes.thy ===== *)
theory Panes
  imports Rust_Float
begin

text \<open>
  \<^verbatim>\<open>src/app/panes.rs\<close>: the tree of terminal panes of one window. An \<^verbatim>\<open>f32\<close> is a rational, every
  operation on it rounds with \<open>f32\<close>; a ratio that is not finite is \<open>None\<close>. Identifiers of dividers
  are small, so \<^verbatim>\<open>i32\<close> is \<open>int\<close>.
\<close>

section \<open>Directions\<close>

datatype pane_direction = DirLeft | DirRight | DirUp | DirDown

datatype pane_command = FocusPane | SplitPane

datatype split_axis = Columns | Rows

definition from_command :: "string \<Rightarrow> (pane_direction \<times> pane_command) option" where
  "from_command command =
     map_of [(''focus-left'', (DirLeft, FocusPane)), (''focus-right'', (DirRight, FocusPane)),
       (''focus-up'', (DirUp, FocusPane)), (''focus-down'', (DirDown, FocusPane)),
       (''split-left'', (DirLeft, SplitPane)), (''split-right'', (DirRight, SplitPane)),
       (''split-up'', (DirUp, SplitPane)), (''split-down'', (DirDown, SplitPane))] command"

definition is_before :: "pane_direction \<Rightarrow> bool" where
  "is_before d \<longleftrightarrow> d = DirLeft \<or> d = DirUp"

fun axis_of :: "pane_direction \<Rightarrow> split_axis" where
  "axis_of DirLeft = Columns"
| "axis_of DirRight = Columns"
| "axis_of DirUp = Rows"
| "axis_of DirDown = Rows"

section \<open>Geometry\<close>

definition f32 :: "rat \<Rightarrow> rat" where "f32 x = fl 24 x"

definition MAX_TERMINAL_PANES :: nat where "MAX_TERMINAL_PANES = 8"

definition MIN_PANE_SPLIT_RATIO :: rat where "MIN_PANE_SPLIT_RATIO = f32 (1 / 10)"

definition MAX_PANE_SPLIT_RATIO :: rat where "MAX_PANE_SPLIT_RATIO = f32 (1 - MIN_PANE_SPLIT_RATIO)"

definition DEFAULT_PANE_SPLIT_RATIO :: rat where "DEFAULT_PANE_SPLIT_RATIO = 1 / 2"

record pane_rect =
  rc_x :: rat
  rc_y :: rat
  rc_width :: rat
  rc_height :: rat

definition rect_right :: "pane_rect \<Rightarrow> rat" where "rect_right r = f32 (rc_x r + rc_width r)"

definition rect_bottom :: "pane_rect \<Rightarrow> rat" where "rect_bottom r = f32 (rc_y r + rc_height r)"

definition center_x :: "pane_rect \<Rightarrow> rat" where "center_x r = f32 (rc_x r + f32 (rc_width r / 2))"

definition center_y :: "pane_rect \<Rightarrow> rat" where "center_y r = f32 (rc_y r + f32 (rc_height r / 2))"

record pane_placement =
  pp_tab :: uuid
  pp_x :: rat
  pp_y :: rat
  pp_width :: rat
  pp_height :: rat
  pp_focused :: bool

record pane_divider =
  dv_id :: int
  dv_x :: rat
  dv_y :: rat
  dv_width :: rat
  dv_height :: rat
  dv_ratio :: rat
  dv_vertical :: bool

section \<open>The tree\<close>

datatype pane_node = PaneLeaf uuid | PaneSplit split_axis rat pane_node pane_node

record pane_tree =
  pt_workspace :: uuid
  pt_root :: pane_node
  pt_focused :: uuid

definition pane_tree_new :: "uuid \<Rightarrow> pane_tree" where
  "pane_tree_new tab = \<lparr>pt_workspace = tab, pt_root = PaneLeaf tab, pt_focused = tab\<rparr>"

fun collect_tab_ids :: "pane_node \<Rightarrow> uuid list \<Rightarrow> uuid list" where
  "collect_tab_ids (PaneLeaf t) ids = ids @ [t]"
| "collect_tab_ids (PaneSplit a r first second) ids = collect_tab_ids second (collect_tab_ids first ids)"

definition tab_ids :: "pane_tree \<Rightarrow> uuid list" where
  "tab_ids t = collect_tab_ids (pt_root t) []"

definition pane_contains :: "pane_tree \<Rightarrow> uuid \<Rightarrow> bool" where
  "pane_contains t tab \<longleftrightarrow> tab \<in> set (tab_ids t)"

definition pane_count :: "pane_tree \<Rightarrow> nat" where
  "pane_count t = length (tab_ids t)"

fun first_tab_id :: "pane_node \<Rightarrow> uuid" where
  "first_tab_id (PaneLeaf t) = t"
| "first_tab_id (PaneSplit a r first second) = first_tab_id first"

definition root_tab_id :: "pane_tree \<Rightarrow> uuid" where
  "root_tab_id t = first_tab_id (pt_root t)"

definition set_focused :: "uuid \<Rightarrow> pane_tree \<Rightarrow> pane_tree \<times> bool" where
  "set_focused tab t = (if \<not> pane_contains t tab then (t, False) else (t\<lparr>pt_focused := tab\<rparr>, True))"

section \<open>Layout\<close>

fun split_rect :: "split_axis \<Rightarrow> rat \<Rightarrow> pane_rect \<Rightarrow> pane_rect \<times> pane_rect" where
  "split_rect Columns ratio r =
     (r\<lparr>rc_width := f32 (rc_width r * ratio)\<rparr>,
      r\<lparr>rc_x := f32 (rc_x r + f32 (rc_width r * ratio)), rc_width := f32 (rc_width r * f32 (1 - ratio))\<rparr>)"
| "split_rect Rows ratio r =
     (r\<lparr>rc_height := f32 (rc_height r * ratio)\<rparr>,
      r\<lparr>rc_y := f32 (rc_y r + f32 (rc_height r * ratio)), rc_height := f32 (rc_height r * f32 (1 - ratio))\<rparr>)"

type_synonym layout_state = "pane_placement list \<times> pane_divider list \<times> int"

fun collect_layout :: "pane_node \<Rightarrow> pane_rect \<Rightarrow> uuid \<Rightarrow> layout_state \<Rightarrow> layout_state" where
  "collect_layout (PaneLeaf tab) rect focused (ps, ds, next_id) =
     (ps @ [\<lparr>pp_tab = tab, pp_x = rc_x rect, pp_y = rc_y rect, pp_width = rc_width rect,
        pp_height = rc_height rect, pp_focused = (tab = focused)\<rparr>], ds, next_id)"
| "collect_layout (PaneSplit axis ratio first second) rect focused (ps, ds, next_id) =
     (let ds' = ds @ [\<lparr>dv_id = next_id, dv_x = rc_x rect, dv_y = rc_y rect, dv_width = rc_width rect,
            dv_height = rc_height rect, dv_ratio = ratio, dv_vertical = (axis = Columns)\<rparr>] in
      case split_rect axis ratio rect of
        (first_rect, second_rect) \<Rightarrow>
          collect_layout second second_rect focused
            (collect_layout first first_rect focused (ps, ds', next_id + 1)))"

definition unit_rect :: pane_rect where
  "unit_rect = \<lparr>rc_x = 0, rc_y = 0, rc_width = 1, rc_height = 1\<rparr>"

definition layout :: "pane_tree \<Rightarrow> pane_placement list \<times> pane_divider list" where
  "layout t =
     (case collect_layout (pt_root t) unit_rect (pt_focused t) ([], [], 0) of (ps, ds, _) \<Rightarrow> (ps, ds))"

definition placements :: "pane_tree \<Rightarrow> pane_placement list" where
  "placements t = fst (layout t)"

section \<open>Operations\<close>

fun resize_split_node :: "pane_node \<Rightarrow> int \<Rightarrow> rat \<Rightarrow> int \<Rightarrow> pane_node \<times> int \<times> bool option" where
  "resize_split_node (PaneLeaf t) target candidate next_id = (PaneLeaf t, next_id, None)"
| "resize_split_node (PaneSplit axis ratio first second) target candidate next_id =
     (if next_id = target then
        (PaneSplit axis candidate first second, next_id + 1,
         Some (1 / 2 ^ 23 < \<bar>f32 (ratio - candidate)\<bar>))
      else
        case resize_split_node first target candidate (next_id + 1) of
          (first', n, Some b) \<Rightarrow> (PaneSplit axis ratio first' second, n, Some b)
        | (first', n, None) \<Rightarrow>
            (case resize_split_node second target candidate n of
               (second', n', r) \<Rightarrow> (PaneSplit axis ratio first' second', n', r)))"

definition resize_split :: "int \<Rightarrow> rat option \<Rightarrow> pane_tree \<Rightarrow> pane_tree \<times> bool" where
  "resize_split divider ratio t =
     (case ratio of
        None \<Rightarrow> (t, False)
      | Some r \<Rightarrow>
          if divider < 0 then (t, False)
          else
            case resize_split_node (pt_root t) divider (clamp MIN_PANE_SPLIT_RATIO MAX_PANE_SPLIT_RATIO r) 0 of
              (root', _, b) \<Rightarrow> (t\<lparr>pt_root := root'\<rparr>, case b of None \<Rightarrow> False | Some c \<Rightarrow> c))"

fun replace_leaf_with_split :: "pane_node \<Rightarrow> uuid \<Rightarrow> pane_direction \<Rightarrow> uuid \<Rightarrow> pane_node \<times> bool" where
  "replace_leaf_with_split (PaneLeaf tab) source dir new_tab =
     (if tab = source then
        (if is_before dir
         then PaneSplit (axis_of dir) DEFAULT_PANE_SPLIT_RATIO (PaneLeaf new_tab) (PaneLeaf tab)
         else PaneSplit (axis_of dir) DEFAULT_PANE_SPLIT_RATIO (PaneLeaf tab) (PaneLeaf new_tab), True)
      else (PaneLeaf tab, False))"
| "replace_leaf_with_split (PaneSplit axis ratio first second) source dir new_tab =
     (case replace_leaf_with_split first source dir new_tab of
        (first', True) \<Rightarrow> (PaneSplit axis ratio first' second, True)
      | (first', False) \<Rightarrow>
          (case replace_leaf_with_split second source dir new_tab of
             (second', b) \<Rightarrow> (PaneSplit axis ratio first' second', b)))"

definition split_focused :: "pane_direction \<Rightarrow> uuid \<Rightarrow> pane_tree \<Rightarrow> pane_tree \<times> bool" where
  "split_focused dir new_tab t =
     (if MAX_TERMINAL_PANES \<le> pane_count t \<or> pane_contains t new_tab then (t, False)
      else
        case replace_leaf_with_split (pt_root t) (pt_focused t) dir new_tab of
          (root', False) \<Rightarrow> (t\<lparr>pt_root := root'\<rparr>, False)
        | (root', True) \<Rightarrow> (t\<lparr>pt_root := root', pt_focused := new_tab\<rparr>, True))"

fun remove_leaf :: "pane_node \<Rightarrow> uuid \<Rightarrow> pane_node option" where
  "remove_leaf (PaneLeaf candidate) tab = (if candidate \<noteq> tab then Some (PaneLeaf candidate) else None)"
| "remove_leaf (PaneSplit axis ratio first second) tab =
     (case (remove_leaf first tab, remove_leaf second tab) of
        (Some f, Some s) \<Rightarrow> Some (PaneSplit axis ratio f s)
      | (Some f, None) \<Rightarrow> Some f
      | (None, Some s) \<Rightarrow> Some s
      | (None, None) \<Rightarrow> None)"

text \<open>The tree afterwards and the answer; \<open>None\<close> leaves the tree as it was (its owner drops it).\<close>

definition remove_pane :: "uuid \<Rightarrow> pane_tree \<Rightarrow> pane_tree \<times> uuid option" where
  "remove_pane tab t =
     (if \<not> pane_contains t tab then (t, Some (pt_focused t))
      else
        case remove_leaf (pt_root t) tab of
          None \<Rightarrow> (t, None)
        | Some root' \<Rightarrow>
            let t1 = t\<lparr>pt_root := root'\<rparr>;
                t2 = (if pt_focused t1 = tab then t1\<lparr>pt_focused := root_tab_id t1\<rparr> else t1) in
            (t2, Some (pt_focused t2)))"

section \<open>Moving the focus\<close>

definition vertical_overlap :: "pane_rect \<Rightarrow> pane_rect \<Rightarrow> rat" where
  "vertical_overlap l r = max (f32 (min (rect_bottom l) (rect_bottom r) - max (rc_y l) (rc_y r))) 0"

definition horizontal_overlap :: "pane_rect \<Rightarrow> pane_rect \<Rightarrow> rat" where
  "horizontal_overlap l r = max (f32 (min (rect_right l) (rect_right r) - max (rc_x l) (rc_x r))) 0"

definition FOCUS_EPSILON :: rat where "FOCUS_EPSILON = f32 (1 / 10000)"

definition distance_score :: "rat \<Rightarrow> rat \<Rightarrow> rat \<Rightarrow> rat" where
  "distance_score gap overlap center_offset =
     f32 (f32 (f32 (gap * 10000) - f32 (overlap * 10)) + center_offset)"

definition directional_distance :: "pane_rect \<Rightarrow> pane_rect \<Rightarrow> pane_direction \<Rightarrow> rat option" where
  "directional_distance current candidate dir =
     (let across = \<bar>f32 (center_y current - center_y candidate)\<bar>;
          along = \<bar>f32 (center_x current - center_x candidate)\<bar> in
      case dir of
        DirLeft \<Rightarrow>
          if center_x candidate < f32 (center_x current - FOCUS_EPSILON)
          then Some (distance_score (max (f32 (rc_x current - rect_right candidate)) 0)
            (vertical_overlap current candidate) across) else None
      | DirRight \<Rightarrow>
          if f32 (center_x current + FOCUS_EPSILON) < center_x candidate
          then Some (distance_score (max (f32 (rc_x candidate - rect_right current)) 0)
            (vertical_overlap current candidate) across) else None
      | DirUp \<Rightarrow>
          if center_y candidate < f32 (center_y current - FOCUS_EPSILON)
          then Some (distance_score (max (f32 (rc_y current - rect_bottom candidate)) 0)
            (horizontal_overlap current candidate) along) else None
      | DirDown \<Rightarrow>
          if f32 (center_y current + FOCUS_EPSILON) < center_y candidate
          then Some (distance_score (max (f32 (rc_y candidate - rect_bottom current)) 0)
            (horizontal_overlap current candidate) along) else None)"

definition placement_rect :: "pane_placement \<Rightarrow> pane_rect" where
  "placement_rect p = \<lparr>rc_x = pp_x p, rc_y = pp_y p, rc_width = pp_width p, rc_height = pp_height p\<rparr>"

text \<open>\<^verbatim>\<open>min_by\<close>: the first of the smallest ones.\<close>

fun min_first :: "('a \<times> rat) list \<Rightarrow> ('a \<times> rat) option" where
  "min_first [] = None"
| "min_first (x # xs) =
     (case min_first xs of
        None \<Rightarrow> Some x
      | Some y \<Rightarrow> if snd y < snd x then Some y else Some x)"

definition focus_direction :: "pane_direction \<Rightarrow> pane_tree \<Rightarrow> pane_tree \<times> uuid option" where
  "focus_direction dir t =
     (case find (\<lambda>p. pp_tab p = pt_focused t) (placements t) of
        None \<Rightarrow> (t, None)
      | Some current \<Rightarrow>
          (case min_first (List.map_filter
               (\<lambda>p. map_option (\<lambda>d. (p, d)) (directional_distance (placement_rect current) (placement_rect p) dir))
               (filter (\<lambda>p. pp_tab p \<noteq> pt_focused t) (placements t))) of
             None \<Rightarrow> (t, None)
           | Some (p, _) \<Rightarrow> (t\<lparr>pt_focused := pp_tab p\<rparr>, Some (pp_tab p))))"

section \<open>Snapshots\<close>

datatype pane_snapshot = SnapLeaf uuid | SnapSplit string u16 pane_snapshot pane_snapshot

text \<open>\<^verbatim>\<open>x.round() as u16\<close> of a value that is not negative.\<close>

definition round_u16 :: "rat \<Rightarrow> u16" where
  "round_u16 x = of_nat (min (2 ^ 16 - 1) (nat \<lfloor>x + 1 / 2\<rfloor>))"

fun axis_name :: "split_axis \<Rightarrow> string" where
  "axis_name Columns = ''columns''"
| "axis_name Rows = ''rows''"

fun snapshot_node :: "pane_node \<Rightarrow> pane_snapshot" where
  "snapshot_node (PaneLeaf t) = SnapLeaf t"
| "snapshot_node (PaneSplit axis ratio first second) =
     SnapSplit (axis_name axis) (round_u16 (f32 (ratio * 1000))) (snapshot_node first) (snapshot_node second)"

definition parse_axis :: "string \<Rightarrow> split_axis option" where
  "parse_axis a = (if a = ''columns'' then Some Columns else if a = ''rows'' then Some Rows else None)"

fun restore_node :: "pane_snapshot \<Rightarrow> pane_node option" where
  "restore_node (SnapLeaf t) = Some (PaneLeaf t)"
| "restore_node (SnapSplit axis ratio_milli first second) =
     (case parse_axis axis of
        None \<Rightarrow> None
      | Some ax \<Rightarrow>
          let ratio = f32 (of_nat (unat ratio_milli) / 1000) in
          if \<not> (MIN_PANE_SPLIT_RATIO \<le> ratio \<and> ratio \<le> MAX_PANE_SPLIT_RATIO) then None
          else
            case restore_node first of
              None \<Rightarrow> None
            | Some f \<Rightarrow>
                (case restore_node second of
                   None \<Rightarrow> None
                 | Some s \<Rightarrow> Some (PaneSplit ax ratio f s)))"

definition tree_snapshot :: "pane_tree \<Rightarrow> pane_snapshot" where
  "tree_snapshot t = snapshot_node (pt_root t)"

definition from_snapshot :: "uuid \<Rightarrow> pane_snapshot \<Rightarrow> uuid \<Rightarrow> pane_tree option" where
  "from_snapshot workspace snap focused =
     (case restore_node snap of
        None \<Rightarrow> None
      | Some node \<Rightarrow>
          let t = \<lparr>pt_workspace = workspace, pt_root = node, pt_focused = focused\<rparr> in
          if pane_contains t workspace \<and> pane_contains t focused \<and> pane_count t \<le> MAX_TERMINAL_PANES
          then Some t else None)"

section \<open>The tree as a list\<close>

fun node_ids :: "pane_node \<Rightarrow> uuid list" where
  "node_ids (PaneLeaf t) = [t]"
| "node_ids (PaneSplit a r first second) = node_ids first @ node_ids second"

lemma collect_tab_ids_node [simp]: "collect_tab_ids n ids = ids @ node_ids n"
  by (induction n arbitrary: ids) simp_all

lemma tab_ids_node: "tab_ids t = node_ids (pt_root t)"
  by (simp add: tab_ids_def)

lemma node_ids_nonempty [simp]: "node_ids n \<noteq> []"
  by (induction n) simp_all

lemma first_tab_id_hd: "first_tab_id n = hd (node_ids n)"
  by (induction n) simp_all

fun node_ratios :: "pane_node \<Rightarrow> rat list" where
  "node_ratios (PaneLeaf t) = []"
| "node_ratios (PaneSplit a r first second) = r # node_ratios first @ node_ratios second"

text \<open>What a list of panes with a focused one promises.\<close>

fun insert_beside :: "bool \<Rightarrow> uuid \<Rightarrow> uuid \<Rightarrow> uuid list \<Rightarrow> uuid list" where
  "insert_beside before source new [] = []"
| "insert_beside before source new (x # xs) =
     (if x = source then (if before then new # x # xs else x # new # xs)
      else x # insert_beside before source new xs)"

lemma insert_beside_append:
  "insert_beside before source new (xs @ ys) =
     (if source \<in> set xs then insert_beside before source new xs @ ys
      else xs @ insert_beside before source new ys)"
  by (induction xs) auto

lemma set_insert_beside:
  "set (insert_beside before source new xs) = (if source \<in> set xs then insert new (set xs) else set xs)"
  by (induction xs) auto

lemma length_insert_beside:
  "length (insert_beside before source new xs) = (if source \<in> set xs then Suc (length xs) else length xs)"
  by (induction xs) auto

lemma distinct_insert_beside:
  "distinct xs \<Longrightarrow> new \<notin> set xs \<Longrightarrow> distinct (insert_beside before source new xs)"
  by (induction xs) (auto simp: set_insert_beside)

lemma insert_beside_absent [simp]: "source \<notin> set xs \<Longrightarrow> insert_beside before source new xs = xs"
  by (induction xs) auto

lemma replace_leaf_ids:
  "node_ids (fst (replace_leaf_with_split n source dir new)) = insert_beside (is_before dir) source new (node_ids n) \<and>
   snd (replace_leaf_with_split n source dir new) = (source \<in> set (node_ids n))"
  by (induction n) (auto simp: insert_beside_append split: prod.splits bool.splits)

lemma replace_leaf_ratios:
  "set (node_ratios (fst (replace_leaf_with_split n source dir new))) \<subseteq> insert DEFAULT_PANE_SPLIT_RATIO (set (node_ratios n))"
  by (induction n) (auto split: prod.splits bool.splits)

lemma remove_leaf_ids:
  "(case remove_leaf n tab of
      None \<Rightarrow> filter (\<lambda>x. x \<noteq> tab) (node_ids n) = []
    | Some n' \<Rightarrow> node_ids n' = filter (\<lambda>x. x \<noteq> tab) (node_ids n) \<and> set (node_ratios n') \<subseteq> set (node_ratios n))"
  by (induction n) (auto split: option.splits)

lemma resize_node_ids: "node_ids (fst (resize_split_node n target cand i)) = node_ids n"
  by (induction n arbitrary: i) (auto split: prod.splits option.splits, (metis fst_conv)+)

section \<open>Dividers in preorder\<close>

abbreviation splits :: "pane_node \<Rightarrow> nat" where
  "splits n \<equiv> length (node_ratios n)"

lemma splits_ids: "Suc (splits n) = length (node_ids n)"
  by (induction n) auto

lemma collect_layout_spec:
  "\<exists>ps' ds'. collect_layout n r focused (ps, ds, i) = (ps @ ps', ds @ ds', i + int (splits n)) \<and>
     map pp_tab ps' = node_ids n \<and> map pp_focused ps' = map (\<lambda>t. t = focused) (node_ids n) \<and>
     map dv_ratio ds' = node_ratios n \<and> map dv_id ds' = map (\<lambda>k. i + int k) [0..<splits n]"
proof (induction n arbitrary: r ps ds i)
  case (PaneSplit axis ratio first second)
  obtain r1 r2 where r: "split_rect axis ratio r = (r1, r2)" by (cases "split_rect axis ratio r")
  let ?d = "\<lparr>dv_id = i, dv_x = rc_x r, dv_y = rc_y r, dv_width = rc_width r,
            dv_height = rc_height r, dv_ratio = ratio, dv_vertical = (axis = Columns)\<rparr>"
  obtain ps1 ds1 where 1: "collect_layout first r1 focused (ps, ds @ [?d], i + 1) =
      (ps @ ps1, (ds @ [?d]) @ ds1, i + 1 + int (splits first))" "map pp_tab ps1 = node_ids first"
    "map pp_focused ps1 = map (\<lambda>t. t = focused) (node_ids first)" "map dv_ratio ds1 = node_ratios first"
    "map dv_id ds1 = map (\<lambda>k. i + 1 + int k) [0..<splits first]"
    using PaneSplit.IH(1) by blast
  obtain ps2 ds2 where 2: "collect_layout second r2 focused (ps @ ps1, (ds @ [?d]) @ ds1, i + 1 + int (splits first)) =
      ((ps @ ps1) @ ps2, ((ds @ [?d]) @ ds1) @ ds2, i + 1 + int (splits first) + int (splits second))"
    "map pp_tab ps2 = node_ids second" "map pp_focused ps2 = map (\<lambda>t. t = focused) (node_ids second)"
    "map dv_ratio ds2 = node_ratios second"
    "map dv_id ds2 = map (\<lambda>k. i + 1 + int (splits first) + int k) [0..<splits second]"
    using PaneSplit.IH(2) by blast
  let ?a = "splits first" and ?b = "splits second"
  have "[0..<splits (PaneSplit axis ratio first second)] = 0 # map Suc ([0..<?a] @ map (\<lambda>k. k + ?a) [0..<?b])"
    using map_Suc_upt [of 0 "?a + ?b"] upt_conv_Cons [of 0 "Suc (?a + ?b)"] upt_add_eq_append [of 0 ?a ?b]
    by (simp add: map_add_upt add.commute [of ?b ?a] del: upt_Suc)
  then have ids: "map (\<lambda>k. i + int k) [0..<splits (PaneSplit axis ratio first second)] =
      i # map dv_id ds1 @ map dv_id ds2"
    unfolding 1(5) 2(5) by (simp add: comp_def algebra_simps del: upt_Suc)
  have lay: "collect_layout (PaneSplit axis ratio first second) r focused (ps, ds, i) =
      (ps @ (ps1 @ ps2), ds @ (?d # ds1 @ ds2), i + int (splits (PaneSplit axis ratio first second)))"
    using 1(1) 2(1) by (simp add: r Let_def)
  have "map dv_id (?d # ds1 @ ds2) = map (\<lambda>k. i + int k) [0..<splits (PaneSplit axis ratio first second)]"
    unfolding ids by simp
  with lay show ?case
    by (intro exI [of _ "ps1 @ ps2"] exI [of _ "?d # ds1 @ ds2"] conjI) (simp_all only: 1(2-4) 2(2-4)
      list.map map_append node_ids.simps node_ratios.simps pane_divider.simps)
qed simp

lemma layout_spec:
  "map pp_tab (placements t) = tab_ids t"
  "map dv_ratio (snd (layout t)) = node_ratios (pt_root t)"
  "map dv_id (snd (layout t)) = map int [0..<splits (pt_root t)]"
  "map pp_focused (placements t) = map (\<lambda>x. x = pt_focused t) (tab_ids t)"
  using collect_layout_spec [of "pt_root t" unit_rect "pt_focused t" "[]" "[]" 0]
  by (auto simp: placements_def layout_def tab_ids_node)

text \<open>A target behind the dividers of a subtree passes it by; one inside changes that ratio only.\<close>

lemma resize_node_spec:
  "i \<le> target \<Longrightarrow>
   (case resize_split_node n target cand i of (n', j, b) \<Rightarrow>
     (if nat (target - i) < splits n
      then node_ratios n' = (node_ratios n)[nat (target - i) := cand] \<and>
        b = Some (1 / 2 ^ 23 < \<bar>f32 (node_ratios n ! nat (target - i) - cand)\<bar>)
      else n' = n \<and> j = i + int (splits n) \<and> b = None))"
proof (induction n arbitrary: i)
  case (PaneSplit axis ratio first second)
  show ?case
  proof (cases "i = target")
    case False
    with PaneSplit.prems have lt: "i + 1 \<le> target" by simp
    obtain f' j b where f: "resize_split_node first target cand (i + 1) = (f', j, b)"
      by (cases "resize_split_node first target cand (i + 1)")
    let ?k = "nat (target - i)"
    have k: "?k = Suc (nat (target - (i + 1)))" using lt by simp
    show ?thesis
    proof (cases "nat (target - (i + 1)) < splits first")
      case True
      then show ?thesis using PaneSplit.IH(1) [OF lt] f False k
        by (simp add: nth_append list_update_append1)
    next
      case out: False
      then have f': "f' = first" "j = i + 1 + int (splits first)" "b = None"
        using PaneSplit.IH(1) [OF lt] f by simp_all
      have le: "j \<le> target" using out lt f'(2) by linarith
      obtain s' j' b' where s: "resize_split_node second target cand j = (s', j', b')"
        by (cases "resize_split_node second target cand j")
      have k2: "?k = Suc (splits first + nat (target - j))" using k out lt f'(2) by linarith
      show ?thesis using PaneSplit.IH(2) [OF le] f f' s False k2
        by (auto simp: nth_append list_update_append)
    qed
  qed simp
qed simp

section \<open>Operations against the list\<close>

type_synonym pane_list = "uuid list \<times> uuid"

definition list_split :: "bool \<Rightarrow> uuid \<Rightarrow> pane_list \<Rightarrow> pane_list \<times> bool" where
  "list_split before new = (\<lambda>(xs, f).
     if 8 \<le> length xs \<or> new \<in> set xs then ((xs, f), False)
     else ((insert_beside before f new xs, new), True))"

definition list_remove :: "uuid \<Rightarrow> pane_list \<Rightarrow> pane_list option" where
  "list_remove x = (\<lambda>(xs, f).
     if x \<notin> set xs then Some (xs, f)
     else
       let ys = filter (\<lambda>y. y \<noteq> x) xs in
       if ys = [] then None else Some (ys, if f = x then hd ys else f))"

definition list_focus :: "uuid \<Rightarrow> pane_list \<Rightarrow> pane_list \<times> bool" where
  "list_focus x = (\<lambda>(xs, f). if x \<in> set xs then ((xs, x), True) else ((xs, f), False))"

definition pane_abs :: "pane_tree \<Rightarrow> pane_list" where
  "pane_abs t = (tab_ids t, pt_focused t)"

definition ratio_ok :: "rat \<Rightarrow> bool" where
  "ratio_ok r \<longleftrightarrow> MIN_PANE_SPLIT_RATIO \<le> r \<and> r \<le> MAX_PANE_SPLIT_RATIO"

definition pane_ok :: "pane_tree \<Rightarrow> bool" where
  "pane_ok t \<longleftrightarrow> distinct (tab_ids t) \<and> length (tab_ids t) \<le> 8 \<and> pt_focused t \<in> set (tab_ids t) \<and>
     (\<forall>r \<in> set (node_ratios (pt_root t)). ratio_ok r)"

lemma f32_error: "0 \<le> x \<Longrightarrow> \<bar>f32 x - x\<bar> \<le> x / 16777216"
  using fl_error [of x 24] by (simp add: f32_def pow2_def)

lemma f32_bounds:
  assumes "0 \<le> x"
  shows "x - x / 16777216 \<le> f32 x" "f32 x \<le> x + x / 16777216"
  using f32_error [OF assms] by linarith+

lemma min_ratio_bounds: "99 / 1000 \<le> MIN_PANE_SPLIT_RATIO" "MIN_PANE_SPLIT_RATIO < 1001 / 10000"
  using f32_bounds [of "1 / 10"] unfolding MIN_PANE_SPLIT_RATIO_def by - linarith+

lemma max_ratio_bounds: "8998 / 10000 < MAX_PANE_SPLIT_RATIO" "MAX_PANE_SPLIT_RATIO \<le> 9011 / 10000"
proof -
  define x where "x = 1 - MIN_PANE_SPLIT_RATIO"
  have x: "8999 / 10000 < x" "x \<le> 901 / 1000" using min_ratio_bounds unfolding x_def by linarith+
  then have "x / 16777216 \<le> 1 / 16777216" "0 \<le> x" by simp_all
  with x f32_bounds [of x] have "8998 / 10000 < f32 x" "f32 x \<le> 9011 / 10000" by linarith+
  then show "8998 / 10000 < MAX_PANE_SPLIT_RATIO" "MAX_PANE_SPLIT_RATIO \<le> 9011 / 10000"
    by (simp_all only: MAX_PANE_SPLIT_RATIO_def x_def)
qed

lemma ratio_clamped: "ratio_ok (clamp MIN_PANE_SPLIT_RATIO MAX_PANE_SPLIT_RATIO r)"
  using min_ratio_bounds max_ratio_bounds clamp_bounds [of MIN_PANE_SPLIT_RATIO MAX_PANE_SPLIT_RATIO r]
  by (simp add: ratio_ok_def)

lemma ratio_default: "ratio_ok DEFAULT_PANE_SPLIT_RATIO"
  using min_ratio_bounds max_ratio_bounds by (simp add: ratio_ok_def DEFAULT_PANE_SPLIT_RATIO_def)

lemma abs_split:
  assumes "pane_ok t"
  shows "(case split_focused dir new t of (t', b) \<Rightarrow> (pane_abs t', b)) = list_split (is_before dir) new (pane_abs t)"
proof -
  have f: "pt_focused t \<in> set (node_ids (pt_root t))" using assms by (simp add: pane_ok_def tab_ids_node)
  obtain r' b where r: "replace_leaf_with_split (pt_root t) (pt_focused t) dir new = (r', b)"
    by (cases "replace_leaf_with_split (pt_root t) (pt_focused t) dir new")
  then have "node_ids r' = insert_beside (is_before dir) (pt_focused t) new (node_ids (pt_root t))" "b"
    using replace_leaf_ids [of "pt_root t" "pt_focused t" dir new] f by simp_all
  with r show ?thesis
    by (simp add: split_focused_def list_split_def pane_abs_def pane_count_def pane_contains_def tab_ids_node
      MAX_TERMINAL_PANES_def)
qed

lemma abs_remove:
  "(case remove_pane tab t of (t', r) \<Rightarrow> map_option (\<lambda>_. pane_abs t') r) = list_remove tab (pane_abs t)"
  "(case remove_pane tab t of (t', r) \<Rightarrow> r = None \<or> r = Some (pt_focused t'))"
  using remove_leaf_ids [where n = "pt_root t" and tab = tab]
  by (auto simp: remove_pane_def list_remove_def pane_abs_def pane_contains_def tab_ids_node Let_def
      root_tab_id_def first_tab_id_hd split: option.splits)

lemma abs_set_focused:
  "(case set_focused tab t of (t', b) \<Rightarrow> (pane_abs t', b)) = list_focus tab (pane_abs t)"
  by (simp add: set_focused_def list_focus_def pane_abs_def pane_contains_def tab_ids_node)

lemma abs_resize: "pane_abs (fst (resize_split d r t)) = pane_abs t"
proof (cases r)
  case (Some q)
  obtain n' j b where n: "resize_split_node (pt_root t) d (clamp MIN_PANE_SPLIT_RATIO MAX_PANE_SPLIT_RATIO q) 0 = (n', j, b)"
    by (cases "resize_split_node (pt_root t) d (clamp MIN_PANE_SPLIT_RATIO MAX_PANE_SPLIT_RATIO q) 0")
  then have "node_ids n' = node_ids (pt_root t)"
    using resize_node_ids [of "pt_root t" d "clamp MIN_PANE_SPLIT_RATIO MAX_PANE_SPLIT_RATIO q" 0] by simp
  with n Some show ?thesis by (simp add: resize_split_def pane_abs_def tab_ids_node)
qed (simp add: resize_split_def)

lemma min_first_in: "min_first xs = Some x \<Longrightarrow> x \<in> set xs"
  by (induction xs arbitrary: x) (auto split: option.splits if_splits)

lemma min_first_None: "min_first xs = None \<longleftrightarrow> xs = []"
  by (induction xs) (auto split: option.splits)

lemma min_first_least: "min_first xs = Some x \<Longrightarrow> y \<in> set xs \<Longrightarrow> snd x \<le> snd y"
proof (induction xs arbitrary: x)
  case (Cons z zs)
  then show ?case using min_first_None [of zs] by (auto split: option.splits if_splits intro: order_trans)
qed simp

lemma placement_tab: "p \<in> set (placements t) \<Longrightarrow> pp_tab p \<in> set (tab_ids t)"
  by (metis layout_spec(1) image_eqI list.set_map)

lemma focus_direction_cases:
  "focus_direction dir t = (t, None) \<or>
   (\<exists>x \<in> set (tab_ids t). x \<noteq> pt_focused t \<and> focus_direction dir t = (t\<lparr>pt_focused := x\<rparr>, Some x))"
  unfolding focus_direction_def
  by (auto split: option.splits dest!: min_first_in simp: map_filter_def placement_tab)

section \<open>Snapshots against the tree\<close>

text \<open>Milliratios of a snapshot: what rounding to thousandths and back does to a ratio.\<close>

lemma f32_below_one:
  assumes "1 / 2 \<le> x" "x < 1"
  shows "f32 x = of_int (round_half_even (x * 16777216)) / 16777216"
proof -
  have "float_exponent x = - 1" using assms by (intro float_exponent_eq) (simp_all add: pow2_def)
  then show ?thesis using assms by (simp add: f32_def fl_def pow2_def)
qed

lemma max_ratio_milli: "f32 (9 / 10) = MAX_PANE_SPLIT_RATIO"
proof -
  have mn: "MIN_PANE_SPLIT_RATIO = 13421773 / 134217728" by code_simp
  have "\<lfloor>75497472 / (5 :: rat)\<rfloor> = 15099494" by (simp add: floor_eq_iff)
  then have "f32 (9 / 10) = 15099494 / 16777216"
    by (simp add: f32_below_one round_half_even_def Let_def)
  moreover have "\<lfloor>120795955 / (8 :: rat)\<rfloor> = 15099494" by (simp add: floor_eq_iff)
  then have "f32 (1 - MIN_PANE_SPLIT_RATIO) = 15099494 / 16777216"
    unfolding mn by (simp add: f32_below_one round_half_even_def Let_def)
  ultimately show ?thesis by (simp add: MAX_PANE_SPLIT_RATIO_def)
qed

lemma f32_close:
  assumes "0 \<le> x" "x \<le> 1000"
  shows "x - 1 / 16000 < f32 x" "f32 x < x + 1 / 16000"
proof -
  have "x / 16777216 < 1 / 16000" using assms by simp
  with f32_bounds [OF assms(1)] show "x - 1 / 16000 < f32 x" "f32 x < x + 1 / 16000" by linarith+
qed

lemma milli_ok:
  assumes "100 \<le> m" "m \<le> (900 :: nat)"
  shows "ratio_ok (f32 (of_nat m / 1000))"
proof -
  let ?x = "of_nat m / 1000 :: rat"
  have x: "0 \<le> ?x" "100 / 1000 \<le> ?x" "?x \<le> 900 / 1000" using assms by (simp_all add: field_simps)
  have e: "?x / 16777216 \<le> 1 / 16777216" using x by simp
  note b = f32_bounds [OF x(1)]
  have lo: "MIN_PANE_SPLIT_RATIO \<le> f32 ?x"
  proof (cases "m = 100")
    case True
    then show ?thesis by (simp add: MIN_PANE_SPLIT_RATIO_def)
  next
    case False
    then have "101 / 1000 \<le> ?x" using assms by (simp add: field_simps)
    with b(1) e min_ratio_bounds show ?thesis by linarith
  qed
  have hi: "f32 ?x \<le> MAX_PANE_SPLIT_RATIO"
  proof (cases "m = 900")
    case True
    then show ?thesis using max_ratio_milli by simp
  next
    case False
    then have "?x \<le> 899 / 1000" using assms by (simp add: field_simps)
    with b(2) e max_ratio_bounds show ?thesis by linarith
  qed
  from lo hi show ?thesis by (simp add: ratio_ok_def)
qed

lemma round_u16_near:
  assumes "of_nat m - 1 / 2 < x" "x < of_nat m + 1 / 2" "m < 65536"
  shows "unat (round_u16 x) = m"
proof -
  have "\<lfloor>x + 1 / 2\<rfloor> = int m" using assms by (intro floor_unique) simp_all
  with assms(3) show ?thesis by (simp add: round_u16_def unat_of_nat)
qed

lemma milli_back:
  assumes "m \<le> (900 :: nat)"
  shows "unat (round_u16 (f32 (f32 (of_nat m / 1000) * 1000))) = m"
proof -
  let ?x = "of_nat m / 1000 :: rat" and ?y = "f32 (of_nat m / 1000)"
  have x: "0 \<le> ?x" "?x \<le> 900 / 1000" using assms by (simp_all add: field_simps)
  have e: "?x / 16777216 \<le> 1 / 16777216" using x by simp
  have y: "?x - 1 / 16777216 \<le> ?y" "?y \<le> ?x + 1 / 16777216" using f32_bounds [OF x(1)] e by linarith+
  have y0: "0 \<le> ?y" using fl_nonneg [OF x(1)] by (simp add: f32_def)
  have s: "of_nat m - 1 / 16000 \<le> ?y * 1000" "?y * 1000 \<le> of_nat m + 1 / 16000" using y by (simp_all add: field_simps)
  have "0 \<le> ?y * 1000" "?y * 1000 \<le> 1000" using y0 s assms by simp_all
  from f32_close [OF this] s have "of_nat m - 1 / 2 < f32 (?y * 1000)" "f32 (?y * 1000) < of_nat m + 1 / 2"
    by linarith+
  then show ?thesis using assms by (intro round_u16_near) simp_all
qed

lemma ratio_milli_bounds:
  assumes "ratio_ok r"
  shows "100 \<le> unat (round_u16 (f32 (r * 1000))) \<and> unat (round_u16 (f32 (r * 1000))) \<le> 900"
proof -
  let ?y = "f32 (r * 1000)"
  have r: "1 / 10 - 1 / 100000 \<le> r" "r \<le> 9 / 10 + 1 / 100000"
  proof -
    have "1 / 10 - 1 / 100000 \<le> MIN_PANE_SPLIT_RATIO" "MAX_PANE_SPLIT_RATIO \<le> 9 / 10 + 1 / 100000"
      using f32_bounds [of "1 / 10"] f32_bounds [of "9 / 10"] max_ratio_milli
      by (simp_all add: MIN_PANE_SPLIT_RATIO_def)
    with assms show "1 / 10 - 1 / 100000 \<le> r" "r \<le> 9 / 10 + 1 / 100000" by (simp_all add: ratio_ok_def)
  qed
  then have "0 \<le> r * 1000" "r * 1000 \<le> 1000" by simp_all
  from f32_close [OF this] r have y: "99 + 1 / 2 < ?y" "?y < 900 + 1 / 2" by linarith+
  define k where "k = \<lfloor>?y + 1 / 2\<rfloor>"
  have "100 \<le> k" "k \<le> 900" using y unfolding k_def by (simp_all add: le_floor_iff floor_le_iff)
  moreover have "unat (round_u16 ?y) = nat k"
    using \<open>100 \<le> k\<close> \<open>k \<le> 900\<close> unfolding round_u16_def k_def [symmetric] unat_of_nat by simp
  ultimately show ?thesis by linarith
qed

fun same_shape :: "pane_node \<Rightarrow> pane_node \<Rightarrow> bool" where
  "same_shape (PaneLeaf s) (PaneLeaf t) = (s = t)"
| "same_shape (PaneSplit a r f s) (PaneSplit a' r' f' s') = (a = a' \<and> same_shape f f' \<and> same_shape s s')"
| "same_shape _ _ = False"

lemma same_shape_ids: "same_shape m n \<Longrightarrow> node_ids m = node_ids n"
  by (induction m n rule: same_shape.induct) auto

lemma restore_snapshot:
  assumes "\<forall>r \<in> set (node_ratios n). ratio_ok r"
  shows "\<exists>n'. restore_node (snapshot_node n) = Some n' \<and> same_shape n n' \<and> snapshot_node n' = snapshot_node n \<and>
    (\<forall>r \<in> set (node_ratios n'). ratio_ok r)"
  using assms
proof (induction n)
  case (PaneSplit axis ratio first second)
  obtain f' s' where f': "restore_node (snapshot_node first) = Some f'" "same_shape first f'"
      "snapshot_node f' = snapshot_node first" "\<forall>r \<in> set (node_ratios f'). ratio_ok r"
    and s': "restore_node (snapshot_node second) = Some s'" "same_shape second s'"
      "snapshot_node s' = snapshot_node second" "\<forall>r \<in> set (node_ratios s'). ratio_ok r"
    using PaneSplit by auto
  let ?m = "round_u16 (f32 (ratio * 1000))"
  have m: "100 \<le> unat ?m" "unat ?m \<le> 900" using ratio_milli_bounds PaneSplit.prems by simp_all
  have ok: "ratio_ok (f32 (of_nat (unat ?m) / 1000))" by (rule milli_ok [OF m])
  have again: "round_u16 (f32 (f32 (of_nat (unat ?m) / 1000) * 1000)) = ?m"
    using milli_back [OF m(2)] by (metis word_unat_eq_iff)
  have ax: "parse_axis (axis_name axis) = Some axis" by (cases axis) (simp_all add: parse_axis_def)
  show ?case
    using f' s' ok again by (auto simp: ax Let_def ratio_ok_def)
qed simp

lemma restore_ratios: "restore_node s = Some n \<Longrightarrow> r \<in> set (node_ratios n) \<Longrightarrow> ratio_ok r"
  by (induction s arbitrary: n) (auto simp: Let_def ratio_ok_def split: option.splits if_splits)

section \<open>Reachable trees\<close>

inductive pane_step :: "pane_tree \<Rightarrow> pane_tree \<Rightarrow> bool" where
  split: "pane_step t (fst (split_focused dir new t))"
| resize: "pane_step t (fst (resize_split divider ratio t))"
| set_focus: "pane_step t (fst (set_focused tab t))"
| move_focus: "pane_step t (fst (focus_direction dir t))"
| remove: "remove_pane tab t = (t', Some f) \<Longrightarrow> pane_step t t'"

inductive_cases pane_stepE: "pane_step t t'"

lemma list_split_ok:
  "list_split before new (xs, f) = ((ys, g), b) \<Longrightarrow> distinct xs \<Longrightarrow> length xs \<le> 8 \<Longrightarrow> f \<in> set xs \<Longrightarrow>
    distinct ys \<and> length ys \<le> 8 \<and> g \<in> set ys"
  by (auto simp: list_split_def distinct_insert_beside length_insert_beside set_insert_beside split: if_splits)

lemma list_remove_ok:
  assumes "list_remove x (xs, f) = Some (ys, g)" "distinct xs" "length xs \<le> 8" "f \<in> set xs"
  shows "distinct ys \<and> length ys \<le> 8 \<and> g \<in> set ys"
proof (cases "x \<in> set xs")
  case True
  then have ys: "ys = filter (\<lambda>y. y \<noteq> x) xs" "ys \<noteq> []" "g = (if f = x then hd ys else f)"
    using assms(1) by (auto simp: list_remove_def Let_def split: if_splits)
  have "length ys \<le> 8" using ys(1) assms(3) length_filter_le order_trans by blast
  moreover have "hd ys \<in> set ys" using ys(2) by simp
  moreover have "f \<noteq> x \<Longrightarrow> f \<in> set ys" using ys(1) assms(4) by simp
  moreover have "distinct ys" using ys(1) assms(2) by simp
  ultimately show ?thesis using ys(3) by simp
qed (use assms in \<open>simp add: list_remove_def\<close>)

lemma split_ratios:
  "set (node_ratios (pt_root (fst (split_focused dir new t)))) \<subseteq> insert DEFAULT_PANE_SPLIT_RATIO (set (node_ratios (pt_root t)))"
  using replace_leaf_ratios [of "pt_root t" "pt_focused t" dir new]
  by (auto simp: split_focused_def split: prod.splits bool.splits)

lemma resize_ratios:
  assumes "r \<in> set (node_ratios (pt_root (fst (resize_split d q t))))"
  shows "r \<in> set (node_ratios (pt_root t)) \<or> ratio_ok r"
proof (cases q)
  case (Some c)
  let ?c = "clamp MIN_PANE_SPLIT_RATIO MAX_PANE_SPLIT_RATIO c"
  show ?thesis
  proof (cases "d < 0")
    case False
    obtain n' j b where n: "resize_split_node (pt_root t) d ?c 0 = (n', j, b)"
      by (cases "resize_split_node (pt_root t) d ?c 0")
    have "node_ratios n' = node_ratios (pt_root t) \<or> node_ratios n' = (node_ratios (pt_root t))[nat d := ?c]"
      using resize_node_spec [of 0 d "pt_root t" ?c] n False by (auto split: if_splits)
    moreover have "r \<in> set (node_ratios n')" using assms n Some False by (simp add: resize_split_def)
    ultimately show ?thesis using ratio_clamped set_update_subset_insert by fastforce
  qed (use assms Some in \<open>simp add: resize_split_def\<close>)
qed (use assms in \<open>simp add: resize_split_def\<close>)

lemma remove_ratios:
  "remove_pane tab t = (t', Some f) \<Longrightarrow> set (node_ratios (pt_root t')) \<subseteq> set (node_ratios (pt_root t))"
  using remove_leaf_ids [where n = "pt_root t" and tab = tab]
  by (auto simp: remove_pane_def Let_def split: option.splits if_splits)

lemma pane_ok_abs:
  "pane_ok t \<longleftrightarrow> (case pane_abs t of (xs, f) \<Rightarrow> distinct xs \<and> length xs \<le> 8 \<and> f \<in> set xs) \<and>
    (\<forall>r \<in> set (node_ratios (pt_root t)). ratio_ok r)"
  by (simp add: pane_ok_def pane_abs_def)

lemma pane_step_ok:
  assumes "pane_step t t'" "pane_ok t"
  shows "pane_ok t'"
  using assms(1)
proof (cases rule: pane_step.cases)
  case (split dir new)
  have "list_split (is_before dir) new (pane_abs t) = (pane_abs t', snd (split_focused dir new t))"
    using abs_split [OF assms(2), of dir new] split by (simp split: prod.splits)
  then show ?thesis
    using assms(2) split_ratios [of dir new t] ratio_default split list_split_ok
    by (fastforce simp: pane_ok_abs split: prod.splits)
next
  case (resize divider ratio)
  then show ?thesis
    using assms(2) abs_resize [of divider ratio t] by (auto simp: pane_ok_abs dest!: resize_ratios)
next
  case (set_focus tab)
  then show ?thesis using assms(2) by (auto simp: set_focused_def pane_ok_def pane_contains_def tab_ids_def)
next
  case (move_focus dir)
  then show ?thesis using assms(2) focus_direction_cases [of dir t] by (auto simp: pane_ok_def tab_ids_def)
next
  case (remove tab f)
  have "list_remove tab (pane_abs t) = Some (pane_abs t')" using abs_remove(1) [of tab t] remove by simp
  then show ?thesis
    using assms(2) remove_ratios [OF remove] list_remove_ok
    by (fastforce simp: pane_ok_abs split: prod.splits)
qed

lemma pane_new_ok: "pane_ok (pane_tree_new t)"
  by (simp add: pane_ok_def pane_tree_new_def tab_ids_def)

section \<open>Properties\<close>

text \<open>
  C16. The pane tree implements a list of panes with a focused one: splitting inserts the new pane right
  before or behind the focused one unless there are eight panes or it is already there, removing a pane
  takes it out and moves the focus to the first pane if it had it, focusing only accepts panes of the
  list, and resizing a divider changes nothing of it.
\<close>

theorem pane_tree_refines_list:
  assumes "pane_ok t"
  shows "(case split_focused dir new t of (t', b) \<Rightarrow> (pane_abs t', b)) = list_split (is_before dir) new (pane_abs t) \<and>
    (case remove_pane tab t of (t', r) \<Rightarrow> map_option (\<lambda>_. pane_abs t') r) = list_remove tab (pane_abs t) \<and>
    (case set_focused tab t of (t', b) \<Rightarrow> (pane_abs t', b)) = list_focus tab (pane_abs t) \<and>
    pane_abs (fst (resize_split divider ratio t)) = pane_abs t"
  using abs_split [OF assms] abs_remove(1) abs_set_focused abs_resize by blast

theorem pane_tree_refines_list_witness:
  "pane_abs (fst (split_focused DirLeft 2 (pane_tree_new 1))) = ([2, 1], 2)"
proof -
  have "(case split_focused DirLeft 2 (pane_tree_new 1) of (t', b) \<Rightarrow> (pane_abs t', b)) =
      list_split True 2 (pane_abs (pane_tree_new 1))"
    using pane_tree_refines_list [OF pane_new_ok, of DirLeft 2 1] by (simp add: is_before_def)
  also have "pane_abs (pane_tree_new 1) = ([1], 1)"
    by (simp add: pane_abs_def pane_tree_new_def tab_ids_def)
  finally show ?thesis by (simp add: list_split_def split: prod.splits)
qed



text \<open>
  The layout lists every pane and numbers the dividers from the root down, and resizing divider
  \<open>k\<close> sets exactly the ratio of that divider, clamped; it reports a change when the ratio moved by more
  than the \<^verbatim>\<open>f32\<close> epsilon.
\<close>

theorem resize_hits_divider:
  assumes "k < length (snd (layout t))"
  shows "map pp_tab (placements t) = tab_ids t \<and>
    map dv_id (snd (layout t)) = map int [0..<length (tab_ids t) - 1] \<and>
    (let c = clamp MIN_PANE_SPLIT_RATIO MAX_PANE_SPLIT_RATIO r; (t', changed) = resize_split (int k) (Some r) t in
     map dv_ratio (snd (layout t')) = (map dv_ratio (snd (layout t)))[k := c] \<and>
     changed = (1 / 2 ^ 23 < \<bar>f32 (dv_ratio (snd (layout t) ! k) - c)\<bar>) \<and> tab_ids t' = tab_ids t)"
proof -
  let ?n = "pt_root t" and ?c = "clamp MIN_PANE_SPLIT_RATIO MAX_PANE_SPLIT_RATIO r"
  have len: "length (snd (layout t)) = splits ?n" using layout_spec(2) [of t] by (metis length_map)
  have k: "nat (int k - 0) < splits ?n" using assms len by simp
  obtain n' j b where n: "resize_split_node ?n (int k) ?c 0 = (n', j, b)"
    by (cases "resize_split_node ?n (int k) ?c 0")
  then have n': "node_ratios n' = (node_ratios ?n)[k := ?c]" "b = Some (1 / 2 ^ 23 < \<bar>f32 (node_ratios ?n ! k - ?c)\<bar>)"
    using resize_node_spec [of 0 "int k" ?n ?c] k by simp_all
  have nth: "dv_ratio (snd (layout t) ! k) = node_ratios ?n ! k"
    using layout_spec(2) [of t] assms by (metis nth_map)
  have rs: "resize_split (int k) (Some r) t = (t\<lparr>pt_root := n'\<rparr>, 1 / 2 ^ 23 < \<bar>f32 (node_ratios ?n ! k - ?c)\<bar>)"
    using n n' by (simp add: resize_split_def)
  have "tab_ids (t\<lparr>pt_root := n'\<rparr>) = tab_ids t"
    using resize_node_ids [of ?n "int k" ?c 0] n by (simp add: tab_ids_node)
  moreover have "length (node_ids ?n) - 1 = splits ?n" using splits_ids [of ?n] by simp
  ultimately show ?thesis
    using layout_spec [of t] layout_spec(2) [of "t\<lparr>pt_root := n'\<rparr>"] n'(1) nth
    by (simp add: rs Let_def tab_ids_node)
qed

theorem resize_hits_divider_witness:
  "map dv_ratio (snd (layout (fst (resize_split 0 (Some (1 / 4)) (fst (split_focused DirLeft 2 (pane_tree_new 5))))))) = [1 / 4]"
proof -
  let ?t = "fst (split_focused DirLeft 2 (pane_tree_new 5))"
  have l: "snd (layout ?t) = [\<lparr>dv_id = 0, dv_x = 0, dv_y = 0, dv_width = 1, dv_height = 1, dv_ratio = 1 / 2, dv_vertical = True\<rparr>]"
    by (simp add: split_focused_def pane_tree_new_def pane_count_def pane_contains_def tab_ids_def layout_def
      MAX_TERMINAL_PANES_def is_before_def unit_rect_def DEFAULT_PANE_SPLIT_RATIO_def)
  have cl: "clamp MIN_PANE_SPLIT_RATIO MAX_PANE_SPLIT_RATIO (1 / 4) = 1 / 4"
    using min_ratio_bounds max_ratio_bounds by (simp add: clamp_def)
  obtain t' c where t': "resize_split (int 0) (Some (1 / 4)) ?t = (t', c)"
    by (cases "resize_split (int 0) (Some (1 / 4)) ?t")
  have "0 < length (snd (layout ?t))" by (simp only: l) simp
  from resize_hits_divider [OF this, of "1 / 4"]
  have "map dv_ratio (snd (layout t')) = (map dv_ratio (snd (layout ?t)))[0 := 1 / 4]"
    unfolding t' cl Let_def prod.case by blast
  then show ?thesis using t' by (simp add: l)
qed

end
