(* ===== verification/Workspace_Snapshot.thy ===== *)
theory Workspace_Snapshot
  imports Panes Rust_Text
begin

text \<open>
  \<^verbatim>\<open>src/config/workspace.rs\<close>: the saved workspace and its validation, and how it meets the pane
  trees of \<^verbatim>\<open>src/app/panes.rs\<close>: what the application saves is accepted, and what is accepted can
  be restored. Reading and writing JSON is serde and not modelled; an \<^verbatim>\<open>i32\<close> coordinate is an
  \<open>int\<close>.
\<close>

section \<open>Data\<close>

definition WORKSPACE_SNAPSHOT_VERSION :: nat where "WORKSPACE_SNAPSHOT_VERSION = 1"
definition MAX_TABS :: nat where "MAX_TABS = 256"
definition MAX_WINDOWS :: nat where "MAX_WINDOWS = 32"
definition MAX_PANES :: nat where "MAX_PANES = 8"
definition MAX_TEXT_BYTES :: nat where "MAX_TEXT_BYTES = 256 * 1024"
definition MAX_PATH_BYTES :: nat where "MAX_PATH_BYTES = 4 * 1024"
definition MAX_TITLE_BYTES :: nat where "MAX_TITLE_BYTES = 512"
definition MAX_STATUS_BYTES :: nat where "MAX_STATUS_BYTES = 2 * 1024"

record window_placement =
  wp_width :: nat
  wp_height :: nat
  wp_position :: "(int \<times> int) option"
  wp_maximized :: bool

record workspace_tab =
  wt_id :: uuid
  wt_title :: string
  wt_kind :: string
  wt_profile :: "uuid option"
  wt_companion :: "uuid option"
  wt_terminal_text :: string
  wt_remote_path :: string
  wt_local_path :: string
  wt_status :: string

record workspace_window =
  ww_id :: uuid
  ww_tab_ids :: "uuid list"
  ww_active :: "uuid option"
  ww_focused :: "uuid option"
  ww_panes :: "pane_snapshot list"
  ww_placement :: "window_placement option"

record workspace =
  ws_version :: nat
  ws_tabs :: "workspace_tab list"
  ws_active :: "uuid option"
  ws_windows :: "workspace_window list"

datatype workspace_error =
  UnsupportedVersion | TooManyTabs | TooManyWindows | DuplicateTabs | TextTooLong | TextHasControls
| MissingCompanion | MissingActive | BadSize | BadPosition | WindowTooManyTabs | WindowUnknownTab
| WindowActiveElsewhere | WindowFocusElsewhere | PaneTooDeep | PaneUnknownTab | PaneBadAxis
| PaneBadRatio | PaneCountExceeded | PaneDuplicateOrHidden

section \<open>Validation\<close>

definition validate_placement :: "window_placement \<Rightarrow> workspace_error + unit" where
  "validate_placement p =
     (if \<not> (1 \<le> wp_width p \<and> wp_width p \<le> 32768) \<or> \<not> (1 \<le> wp_height p \<and> wp_height p \<le> 32768) then
        Inl BadSize
      else
        case wp_position p of
          Some (x, y) \<Rightarrow> if 1000000 < \<bar>x\<bar> \<or> 1000000 < \<bar>y\<bar> then Inl BadPosition else Inr ()
        | None \<Rightarrow> Inr ())"

definition validate_text :: "string \<Rightarrow> nat \<Rightarrow> bool \<Rightarrow> workspace_error + unit" where
  "validate_text value max_bytes reject_controls =
     (if max_bytes < length value then Inl TextTooLong
      else if reject_controls \<and> has_control value then Inl TextHasControls
      else Inr ())"

fun first_error :: "(workspace_error + unit) list \<Rightarrow> workspace_error + unit" where
  "first_error [] = Inr ()"
| "first_error (r # rs) = (case r of Inl e \<Rightarrow> Inl e | Inr _ \<Rightarrow> first_error rs)"

text \<open>The number of panes and the identifiers pushed so far.\<close>

fun validate_pane :: "uuid set \<Rightarrow> nat \<Rightarrow> pane_snapshot \<Rightarrow> uuid list \<Rightarrow> workspace_error + nat \<times> uuid list" where
  "validate_pane ids depth (SnapLeaf t) pane_ids =
     (if MAX_PANES < depth then Inl PaneTooDeep
      else if t \<notin> ids then Inl PaneUnknownTab
      else Inr (1, pane_ids @ [t]))"
| "validate_pane ids depth (SnapSplit axis ratio_milli first second) pane_ids =
     (if MAX_PANES < depth then Inl PaneTooDeep
      else if axis \<noteq> ''columns'' \<and> axis \<noteq> ''rows'' then Inl PaneBadAxis
      else if \<not> (100 \<le> unat ratio_milli \<and> unat ratio_milli \<le> 900) then Inl PaneBadRatio
      else
        case validate_pane ids (depth + 1) first pane_ids of
          Inl e \<Rightarrow> Inl e
        | Inr (n1, pane_ids1) \<Rightarrow>
            (case validate_pane ids (depth + 1) second pane_ids1 of
               Inl e \<Rightarrow> Inl e
             | Inr (n2, pane_ids2) \<Rightarrow>
                 if MAX_PANES < n1 + n2 then Inl PaneCountExceeded else Inr (n1 + n2, pane_ids2)))"

definition validate_tab :: "uuid set \<Rightarrow> workspace_tab \<Rightarrow> workspace_error + unit" where
  "validate_tab ids t = first_error
     [validate_text (wt_title t) MAX_TITLE_BYTES True,
      validate_text (wt_terminal_text t) MAX_TEXT_BYTES False,
      validate_text (wt_remote_path t) MAX_PATH_BYTES True,
      validate_text (wt_local_path t) MAX_PATH_BYTES True,
      validate_text (wt_status t) MAX_STATUS_BYTES True,
      case wt_companion t of Some c \<Rightarrow> if c \<notin> ids then Inl MissingCompanion else Inr () | None \<Rightarrow> Inr ()]"

definition validate_window_pane :: "uuid set \<Rightarrow> uuid list \<Rightarrow> pane_snapshot \<Rightarrow> workspace_error + unit" where
  "validate_window_pane ids window_tabs pane =
     (case validate_pane ids 0 pane [] of
        Inl e \<Rightarrow> Inl e
      | Inr (_, pane_ids) \<Rightarrow>
          if \<not> distinct pane_ids \<or> (\<exists>t \<in> set pane_ids. t \<notin> set window_tabs)
          then Inl PaneDuplicateOrHidden else Inr ())"

definition validate_window :: "uuid set \<Rightarrow> workspace_window \<Rightarrow> workspace_error + unit" where
  "validate_window ids w = first_error
     ((case ww_placement w of Some p \<Rightarrow> validate_placement p | None \<Rightarrow> Inr ()) #
      (if MAX_TABS < length (ww_tab_ids w) then Inl WindowTooManyTabs else Inr ()) #
      (if \<exists>t \<in> set (ww_tab_ids w). t \<notin> ids then Inl WindowUnknownTab else Inr ()) #
      (case ww_active w of Some a \<Rightarrow> if a \<notin> set (ww_tab_ids w) then Inl WindowActiveElsewhere else Inr ()
        | None \<Rightarrow> Inr ()) #
      (case ww_focused w of Some f \<Rightarrow> if f \<notin> set (ww_tab_ids w) then Inl WindowFocusElsewhere else Inr ()
        | None \<Rightarrow> Inr ()) #
      map (validate_window_pane ids (ww_tab_ids w)) (ww_panes w))"

definition validate_workspace :: "workspace \<Rightarrow> workspace_error + unit" where
  "validate_workspace ws =
     (let ids = set (map wt_id (ws_tabs ws)) in
      if ws_version ws \<noteq> WORKSPACE_SNAPSHOT_VERSION then Inl UnsupportedVersion
      else if MAX_TABS < length (ws_tabs ws) then Inl TooManyTabs
      else if MAX_WINDOWS < length (ws_windows ws) then Inl TooManyWindows
      else if card ids \<noteq> length (ws_tabs ws) then Inl DuplicateTabs
      else first_error
        (map (validate_tab ids) (ws_tabs ws) @
         (case ws_active ws of Some a \<Rightarrow> if a \<notin> ids then Inl MissingActive else Inr () | None \<Rightarrow> Inr ()) #
         map (validate_window ids) (ws_windows ws)))"

section \<open>Validated panes\<close>

lemma first_error_Inr: "first_error rs = Inr u \<longleftrightarrow> (\<forall>r \<in> set rs. r = Inr ())"
  by (induction rs) (auto split: sum.splits)

fun snap_ids :: "pane_snapshot \<Rightarrow> uuid list" where
  "snap_ids (SnapLeaf t) = [t]"
| "snap_ids (SnapSplit a r f s) = snap_ids f @ snap_ids s"

fun snap_depth :: "pane_snapshot \<Rightarrow> nat" where
  "snap_depth (SnapLeaf t) = 0"
| "snap_depth (SnapSplit a r f s) = Suc (max (snap_depth f) (snap_depth s))"

lemma snap_ids_nonempty [simp]: "snap_ids s \<noteq> []"
  by (induction s) simp_all

lemma snap_depth_ids: "snap_depth s < length (snap_ids s)"
  by (induction s) (auto simp: max_def)

lemma snap_ids_snapshot: "snap_ids (snapshot_node n) = node_ids n"
  by (induction n) simp_all

lemma validate_pane_restores:
  "validate_pane ids d s ps = Inr (n, qs) \<Longrightarrow>
     qs = ps @ snap_ids s \<and> n = length (snap_ids s) \<and> n \<le> 8 \<and> set (snap_ids s) \<subseteq> ids \<and>
     (\<exists>node. restore_node s = Some node \<and> node_ids node = snap_ids s)"
proof (induction s arbitrary: d ps n qs)
  case (SnapLeaf t)
  then show ?case by (auto split: if_splits)
next
  case (SnapSplit axis milli first second)
  obtain n1 qs1 n2 where v: "validate_pane ids (d + 1) first ps = Inr (n1, qs1)"
      "validate_pane ids (d + 1) second qs1 = Inr (n2, qs)" "n = n1 + n2" "n \<le> 8"
    and ok: "axis = ''columns'' \<or> axis = ''rows''" "100 \<le> unat milli" "unat milli \<le> 900"
    using SnapSplit.prems by (auto simp: MAX_PANES_def split: if_splits sum.splits)
  have "ratio_ok (f32 (of_nat (unat milli) / 1000))" by (rule milli_ok [OF ok(2,3)])
  moreover obtain ax where "parse_axis axis = Some ax" using ok(1) by (auto simp: parse_axis_def)
  ultimately show ?case
    using SnapSplit.IH(1) [OF v(1)] SnapSplit.IH(2) [OF v(2)] v(3,4) by (auto simp: Let_def ratio_ok_def)
qed

lemma validate_pane_snapshot:
  assumes "\<forall>r \<in> set (node_ratios n). ratio_ok r" "set (node_ids n) \<subseteq> ids" "length (node_ids n) \<le> 8"
    and "d + snap_depth (snapshot_node n) \<le> 8"
  shows "validate_pane ids d (snapshot_node n) ps = Inr (length (node_ids n), ps @ node_ids n)"
  using assms
proof (induction n arbitrary: d ps)
  case (PaneSplit axis ratio first second)
  have "axis_name axis = ''columns'' \<or> axis_name axis = ''rows''" by (cases axis) simp_all
  moreover have "100 \<le> unat (round_u16 (f32 (ratio * 1000))) \<and> unat (round_u16 (f32 (ratio * 1000))) \<le> 900"
    using PaneSplit.prems(1) by (intro ratio_milli_bounds) simp
  moreover have "validate_pane ids (d + 1) (snapshot_node first) ps = Inr (length (node_ids first), ps @ node_ids first)"
    using PaneSplit.prems by (intro PaneSplit.IH(1)) auto
  moreover have "validate_pane ids (d + 1) (snapshot_node second) (ps @ node_ids first) =
      Inr (length (node_ids second), (ps @ node_ids first) @ node_ids second)"
    using PaneSplit.prems by (intro PaneSplit.IH(2)) auto
  ultimately show ?case using PaneSplit.prems by (auto simp: MAX_PANES_def)
qed (auto simp: MAX_PANES_def)

section \<open>Properties\<close>

text \<open>
  C18. Saving the panes of a window and restoring them gives the same panes in the same places with the
  same focus: the snapshot of every reachable tree passes validation, restoring it succeeds with a tree
  of the same shape, and that tree has the very same snapshot, so saving again changes nothing.
\<close>

theorem pane_snapshot_roundtrip:
  assumes "pane_step\<^sup>*\<^sup>* (pane_tree_new tab) t" "set (tab_ids t) \<subseteq> ids"
  shows "validate_window_pane ids (tab_ids t) (tree_snapshot t) = Inr () \<and>
    (\<exists>t'. from_snapshot (root_tab_id t) (tree_snapshot t) (pt_focused t) = Some t' \<and>
       same_shape (pt_root t) (pt_root t') \<and> tab_ids t' = tab_ids t \<and> pt_focused t' = pt_focused t \<and>
       tree_snapshot t' = tree_snapshot t)"
proof -
  have ok: "pane_ok t"
    using assms(1) by (induction rule: rtranclp_induct) (auto intro: pane_new_ok pane_step_ok)
  then have ratios: "\<forall>r \<in> set (node_ratios (pt_root t)). ratio_ok r" and len: "length (node_ids (pt_root t)) \<le> 8"
    and dist: "distinct (node_ids (pt_root t))" and foc: "pt_focused t \<in> set (node_ids (pt_root t))"
    by (simp_all add: pane_ok_def tab_ids_node)
  have "0 + snap_depth (snapshot_node (pt_root t)) \<le> 8"
    using snap_depth_ids [of "snapshot_node (pt_root t)"] len by (simp add: snap_ids_snapshot)
  then have "validate_window_pane ids (tab_ids t) (tree_snapshot t) = Inr ()"
    using validate_pane_snapshot [OF ratios _ len] assms(2) dist
    by (simp add: validate_window_pane_def tree_snapshot_def tab_ids_node)
  moreover obtain n' where n': "restore_node (snapshot_node (pt_root t)) = Some n'" "same_shape (pt_root t) n'"
      "snapshot_node n' = snapshot_node (pt_root t)"
    using restore_snapshot [OF ratios] by blast
  moreover have "node_ids n' = node_ids (pt_root t)" using same_shape_ids [OF n'(2)] by simp
  ultimately show ?thesis
    using foc len by (simp add: from_snapshot_def tree_snapshot_def pane_contains_def pane_count_def tab_ids_node
      root_tab_id_def first_tab_id_hd MAX_TERMINAL_PANES_def)
qed

theorem pane_snapshot_roundtrip_witness:
  "validate_window_pane {1} [1] (tree_snapshot (pane_tree_new 1)) = Inr ()"
  using pane_snapshot_roundtrip [of 1 "pane_tree_new 1" "{1}"] by (simp add: pane_tree_new_def tab_ids_def)

text \<open>
  C17. A workspace file that passes validation can be restored: every pane tree of every window gives a
  tree of at most eight different panes, all of them tabs of that window, whichever of its panes is
  asked to be the workspace and the focused one.
\<close>

theorem validated_panes_restore:
  assumes "validate_workspace ws = Inr ()" "w \<in> set (ws_windows ws)" "p \<in> set (ww_panes w)"
    and "root_tab \<in> set (snap_ids p)" "focused \<in> set (snap_ids p)"
  shows "\<exists>t. from_snapshot root_tab p focused = Some t \<and> pt_focused t = focused \<and> distinct (tab_ids t) \<and>
    length (tab_ids t) \<le> 8 \<and> set (tab_ids t) \<subseteq> set (ww_tab_ids w) \<and> set (ww_tab_ids w) \<subseteq> wt_id ` set (ws_tabs ws)"
proof -
  let ?ids = "set (map wt_id (ws_tabs ws))"
  have "validate_window ?ids w = Inr ()"
    using assms(1,2) unfolding validate_workspace_def Let_def first_error_Inr by (auto split: if_splits simp: first_error_Inr)
  then have vp: "validate_window_pane ?ids (ww_tab_ids w) p = Inr ()" and sub: "set (ww_tab_ids w) \<subseteq> ?ids"
    using assms(3) unfolding validate_window_def first_error_Inr by (auto split: if_splits)
  obtain n qs where v: "validate_pane ?ids 0 p [] = Inr (n, qs)" "distinct qs" "set qs \<subseteq> set (ww_tab_ids w)"
    using vp by (auto simp: validate_window_pane_def subset_iff split: sum.splits if_splits)
  obtain node where "restore_node p = Some node" "node_ids node = snap_ids p" "length (snap_ids p) \<le> 8" "qs = snap_ids p"
    using validate_pane_restores [OF v(1)] by auto
  with v assms(4,5) sub show ?thesis
    by (simp add: from_snapshot_def pane_contains_def pane_count_def tab_ids_node MAX_TERMINAL_PANES_def)
qed

definition toy_workspace :: workspace where
  "toy_workspace = \<lparr>ws_version = 1,
     ws_tabs = [\<lparr>wt_id = 4, wt_title = ''a'', wt_kind = ''terminal'', wt_profile = None, wt_companion = None,
       wt_terminal_text = [], wt_remote_path = [], wt_local_path = [], wt_status = []\<rparr>],
     ws_active = Some 4,
     ws_windows = [\<lparr>ww_id = 0, ww_tab_ids = [4], ww_active = Some 4, ww_focused = None, ww_panes = [SnapLeaf 4],
       ww_placement = None\<rparr>]\<rparr>"

theorem validated_panes_restore_witness: "\<exists>t. from_snapshot 4 (SnapLeaf 4) 4 = Some t"
proof -
  have v: "validate_workspace toy_workspace = Inr ()"
    by (simp add: validate_workspace_def toy_workspace_def Let_def validate_tab_def validate_text_def
      validate_window_def validate_window_pane_def WORKSPACE_SNAPSHOT_VERSION_def MAX_TABS_def MAX_WINDOWS_def
      MAX_TITLE_BYTES_def MAX_TEXT_BYTES_def MAX_PATH_BYTES_def MAX_STATUS_BYTES_def MAX_PANES_def)
  from validated_panes_restore [OF v, of "hd (ws_windows toy_workspace)" "SnapLeaf 4" 4 4]
  show ?thesis by (auto simp: toy_workspace_def)
qed

end
