(* ===== verification/Rust_Ascii.thy ===== *)
theory Rust_Ascii
  imports Rust_Lines
begin

text \<open>
  ASCII case and substrings: \<^verbatim>\<open>to_ascii_lowercase\<close>, \<^verbatim>\<open>eq_ignore_ascii_case\<close>, \<^verbatim>\<open>contains\<close> and
  \<^verbatim>\<open>ends_with\<close>, and what \<^verbatim>\<open>trim\<close> leaves.
\<close>

definition to_ascii_lowercase :: "string \<Rightarrow> string" where
  "to_ascii_lowercase = map (\<lambda>c. if 65 \<le> (of_char c :: nat) \<and> (of_char c :: nat) \<le> 90
     then char_of ((of_char c :: nat) + 32) else c)"

fun contains_text :: "string \<Rightarrow> string \<Rightarrow> bool" where
  "contains_text p [] = (p = [])"
| "contains_text p (c # cs) = (starts_with p (c # cs) \<or> contains_text p cs)"

definition ends_with :: "string \<Rightarrow> string \<Rightarrow> bool" where
  "ends_with p s \<longleftrightarrow> starts_with (rev p) (rev s)"

definition eq_ignore_ascii_case :: "string \<Rightarrow> string \<Rightarrow> bool" where
  "eq_ignore_ascii_case a b \<longleftrightarrow> to_ascii_lowercase a = to_ascii_lowercase b"

lemma lower_length [simp]: "length (to_ascii_lowercase s) = length s"
  by (simp add: to_ascii_lowercase_def)

lemma lower_Nil [simp]: "to_ascii_lowercase [] = []"
  by (simp add: to_ascii_lowercase_def)

lemma eq_ignore_case_Nil [simp]: "eq_ignore_ascii_case [] (c # s) = False"
  by (simp add: eq_ignore_ascii_case_def to_ascii_lowercase_def)

section \<open>Trimming twice\<close>

lemma trim_start_id: "leading_space s = 0 \<Longrightarrow> trim_start s = s"
  by (simp add: trim_start.simps)

lemma trim_end_no_trailing: "trailing_space (trim_end s) = 0"
proof (induction s rule: trim_end.induct)
  case (1 s)
  then show ?case by (cases "trailing_space s = 0") (simp_all add: trim_end.simps [of s])
qed

lemma trim_end_id: "trailing_space s = 0 \<Longrightarrow> trim_end s = s"
  by (simp add: trim_end.simps)

lemma trim_trim [simp]: "trim (trim s) = trim s"
proof -
  have "leading_space (trim s) = 0" by (simp add: trim_def trim_end_no_space trim_start_no_space)
  moreover have "trailing_space (trim s) = 0" by (simp add: trim_def trim_end_no_trailing)
  ultimately show ?thesis by (simp add: trim_def [of "trim s"] trim_start_id trim_end_id)
qed

lemma trim_Nil [simp]: "trim [] = []"
  by (simp add: trim_def trim_start.simps trim_end.simps leading_space_def trailing_space_def)

text \<open>Printable ASCII text is not changed by trimming.\<close>

lemma plain_not_space: "c \<in> set s \<Longrightarrow> plain_char c \<Longrightarrow> \<not> is_space_char s"
proof
  assume c: "c \<in> set s" "plain_char c" and sp: "is_space_char s"
  have "\<forall>bs \<in> set space_codes. \<forall>b \<in> set bs. \<not> (33 \<le> b \<and> b \<le> 126)" by (simp add: space_codes_def)
  moreover have "(of_char c :: nat) \<in> set (map of_char s)" using c(1) by simp
  ultimately show False using sp c(2) unfolding is_space_char_def plain_char_def by blast
qed

lemma trim_plain:
  assumes "\<forall>c \<in> set s. plain_char c"
  shows "trim s = s"
proof -
  have no: "\<not> is_space_char t" if "set t \<subseteq> set s" for t
    using that assms plain_not_space [of _ t] by (cases t) auto
  have "leading_space s = 0" by (simp add: leading_space_def no set_take_subset)
  moreover have "trailing_space s = 0" by (simp add: trailing_space_def Let_def no set_drop_subset)
  ultimately show ?thesis by (simp add: trim_def trim_start_id trim_end_id)
qed

section \<open>Prefixes of text\<close>

lemma trim_end_prefix: "\<exists>r. s = trim_end s @ r"
proof (induction s rule: trim_end.induct)
  case (1 s)
  show ?case
  proof (cases "trailing_space s = 0")
    case False
    let ?k = "length s - trailing_space s"
    from False 1 obtain r where "take ?k s = trim_end (take ?k s) @ r" by blast
    then have "s = trim_end (take ?k s) @ r @ drop ?k s" by (metis append.assoc append_take_drop_id)
    moreover have "trim_end s = trim_end (take ?k s)" using False by (simp add: trim_end.simps [of s])
    ultimately show ?thesis by metis
  qed (simp add: trim_end.simps)
qed

lemma has_control_prefix: "has_control p \<Longrightarrow> has_control (p @ r)"
  by (induction p) (auto simp: Let_def)

lemma has_control_append:
  "b = [] \<or> (of_char (hd b) :: nat) < 128 \<Longrightarrow> has_control (a @ b) \<longleftrightarrow> has_control a \<or> has_control b"
proof (induction a)
  case (Cons c cs)
  then show ?case by (cases cs) (auto simp: Let_def hd_append)
qed simp

lemma char_count_append [simp]: "char_count (a @ b) = char_count a + char_count b"
  by (simp add: char_count_def)

lemma char_count_prefix: "char_count p \<le> char_count (p @ r)"
  by simp

lemma plain_no_control: "\<forall>c \<in> set s. plain_char c \<or> c = CHR '' '' \<Longrightarrow> \<not> has_control s"
  by (induction s) (auto simp: Let_def plain_char_def)

lemma plain_count: "\<forall>c \<in> set s. plain_char c \<or> c = CHR '' '' \<Longrightarrow> char_count s = length s"
  by (induction s) (auto simp: char_count_def plain_char_def is_continuation_def)

text \<open>What ends with a plain character is not shortened at its end, and not blank.\<close>

lemma trailing_plain: "plain_char c \<Longrightarrow> trailing_space (s @ [c]) = 0"
proof -
  assume c: "plain_char c"
  have no: "\<not> is_space_char (drop (length (s @ [c]) - Suc k) (s @ [c]))" for k
  proof (rule plain_not_space [OF _ c])
    show "c \<in> set (drop (length (s @ [c]) - Suc k) (s @ [c]))" by simp
  qed
  show ?thesis using no [of 0] no [of 1] no [of 2] by (simp add: trailing_space_def Let_def numeral_eq_Suc)
qed

lemma trim_start_keeps_plain: "c \<in> set s \<Longrightarrow> plain_char c \<Longrightarrow> c \<in> set (trim_start s)"
proof (induction s rule: trim_start.induct)
  case (1 s)
  show ?case
  proof (cases "leading_space s = 0")
    case False
    then have "is_space_char (take (leading_space s) s)" by (simp add: leading_space_def split: if_splits)
    then have "c \<notin> set (take (leading_space s) s)" using 1(3) plain_not_space by blast
    then have "c \<in> set (drop (leading_space s) s)" using 1(2) by (metis Un_iff append_take_drop_id set_append)
    with False 1 show ?thesis by (simp add: trim_start.simps [of s])
  qed (use 1 in \<open>simp add: trim_start.simps [of s]\<close>)
qed

lemma trim_start_suffix: "\<exists>r. s = r @ trim_start s"
proof (induction s rule: trim_start.induct)
  case (1 s)
  show ?case
  proof (cases "leading_space s = 0")
    case False
    then obtain r where "drop (leading_space s) s = r @ trim_start (drop (leading_space s) s)" using 1 by blast
    then have "s = (take (leading_space s) s @ r) @ trim_start (drop (leading_space s) s)"
      by (metis append.assoc append_take_drop_id)
    moreover have "trim_start s = trim_start (drop (leading_space s) s)"
      using False by (simp add: trim_start.simps [of s])
    ultimately show ?thesis by metis
  qed (simp add: trim_start.simps)
qed

lemma trim_ends_plain: "plain_char c \<Longrightarrow> \<exists>p. trim (s @ [c]) = p @ [c]"
proof -
  assume c: "plain_char c"
  obtain r where r: "s @ [c] = r @ trim_start (s @ [c])" using trim_start_suffix by blast
  have "trim_start (s @ [c]) \<noteq> []" using trim_start_keeps_plain [OF _ c, of "s @ [c]"] by auto
  then obtain p where p: "trim_start (s @ [c]) = p @ [c]" using r by (metis last_appendR last_snoc append_butlast_last_id)
  then show ?thesis using trailing_plain [OF c, of p] by (simp add: trim_def trim_end_id)
qed

lemma trim_keeps: "leading_space s = 0 \<Longrightarrow> plain_char c \<Longrightarrow> s = p @ [c] \<Longrightarrow> trim s = s"
  using trailing_plain [of c p] by (simp add: trim_def trim_start_id trim_end_id)

text \<open>A blank text is nothing but white space, so what is not blank at its start stays not empty.\<close>

lemma trim_end_nonempty: "leading_space s = 0 \<Longrightarrow> s \<noteq> [] \<Longrightarrow> trim_end s \<noteq> []"
proof (induction s rule: trim_end.induct)
  case (1 s)
  show ?case
  proof (cases "trailing_space s = 0")
    case False
    let ?k = "length s - trailing_space s"
    have sp: "is_space_char (drop ?k s)"
      using False by (auto simp: trailing_space_def Let_def split: if_splits)
    have ne: "take ?k s \<noteq> []"
    proof
      assume "take ?k s = []"
      then have "is_space_char s" using sp 1(3) by auto
      then show False using space_char_length [of s] 1(2,3) by simp
    qed
    moreover have "\<not> is_continuation (hd (drop ?k s))"
      using space_char_length [OF trailing_space_char [OF False]] by blast
    then have "leading_space (take ?k s @ drop ?k s) = leading_space (take ?k s)"
      using leading_space_append [OF ne] by blast
    ultimately show ?thesis using 1 False by (simp add: trim_end.simps [of s])
  qed (use 1 in \<open>simp add: trim_end.simps\<close>)
qed

lemma trim_no_leading: "leading_space (trim s) = 0"
  by (simp add: trim_def trim_end_no_space trim_start_no_space)

end
