(* ===== verification/Session_Store.thy ===== *)
theory Session_Store
  imports Ssh_Connection Rust_Ascii
begin

text \<open>
  \<^verbatim>\<open>src/config/session.rs\<close>: session profiles, their validation, and the session store with its
  groups and recent workspaces. The application settings a store carries are the type parameter \<open>'s\<close>:
  nothing here reads them. Reading and writing JSON is serde and not modelled. The path of a private key
  is text, as it is in a store that was read from a file.
\<close>

section \<open>Profiles\<close>

definition MAX_SESSION_NAME_CHARS :: nat where "MAX_SESSION_NAME_CHARS = 128"
definition MAX_HOST_CHARS :: nat where "MAX_HOST_CHARS = 512"
definition MAX_USERNAME_CHARS :: nat where "MAX_USERNAME_CHARS = 256"
definition MAX_PRIVATE_KEY_PATH_CHARS :: nat where "MAX_PRIVATE_KEY_PATH_CHARS = 4096"
definition MAX_SESSION_PROFILES :: nat where "MAX_SESSION_PROFILES = 1024"
definition MAX_GROUPS :: nat where "MAX_GROUPS = 256"
definition MAX_RECENT_WORKSPACES :: nat where "MAX_RECENT_WORKSPACES = 8"
definition MAX_WORKSPACE_PATH_CHARS :: nat where "MAX_WORKSPACE_PATH_CHARS = 4096"
definition MAX_GROUP_NAME_CHARS :: nat where "MAX_GROUP_NAME_CHARS = 64"
definition MAX_HOST_KEY_FINGERPRINT_CHARS :: nat where "MAX_HOST_KEY_FINGERPRINT_CHARS = 256"
definition MAX_SERIAL_PORT_CHARS :: nat where "MAX_SERIAL_PORT_CHARS = 512"
definition MAX_USB_SERIAL_CHARS :: nat where "MAX_USB_SERIAL_CHARS = 256"
definition MAX_SFTP_REMOTE_PATH_CHARS :: nat where "MAX_SFTP_REMOTE_PATH_CHARS = 4096"
definition MAX_SFTP_LOCAL_PATH_BYTES :: nat where "MAX_SFTP_LOCAL_PATH_BYTES = 4096"
definition MIN_SFTP_PER_TAB_TRANSFERS :: nat where "MIN_SFTP_PER_TAB_TRANSFERS = 1"
definition MAX_SFTP_PER_TAB_TRANSFERS :: nat where "MAX_SFTP_PER_TAB_TRANSFERS = 16"
definition MAX_SFTP_RATE_LIMIT_MIB_PER_SECOND :: nat where "MAX_SFTP_RATE_LIMIT_MIB_PER_SECOND = 1024"

datatype credential_storage = EncryptedVault | SystemKeyring

definition storage_from_setting :: "string \<Rightarrow> credential_storage" where
  "storage_from_setting value =
     (let v = to_ascii_lowercase (trim value) in
      if v \<in> {''system-keyring'', ''system keyring'', ''keyring'', ''stored''} then SystemKeyring
      else EncryptedVault)"

fun storage_as_setting :: "credential_storage \<Rightarrow> string" where
  "storage_as_setting SystemKeyring = ''system-keyring''"
| "storage_as_setting EncryptedVault = ''encrypted-vault''"

datatype x11_mode = X11Off | X11Untrusted | X11Trusted

definition x11_from_setting :: "string \<Rightarrow> x11_mode" where
  "x11_from_setting value =
     (let v = to_ascii_lowercase (trim value) in
      if v = ''off'' then X11Off
      else if v = ''untrusted'' \<or> v = ''-x'' then X11Untrusted
      else X11Trusted)"

fun x11_as_setting :: "x11_mode \<Rightarrow> string" where
  "x11_as_setting X11Off = ''off''"
| "x11_as_setting X11Untrusted = ''untrusted''"
| "x11_as_setting X11Trusted = ''trusted''"

record transfer_policy =
  po_per_tab_transfers :: nat
  po_rate_limit_mib :: nat

record ssh_config =
  sc_host :: string
  sc_port :: u16
  sc_username :: string
  sc_auth :: auth_method
  sc_credential_storage :: "credential_storage option"
  sc_vault_key_saved :: bool
  sc_fingerprint :: "string option"
  sc_x11 :: x11_mode
  sc_remote_path :: string
  sc_local_path :: string
  sc_policy :: "transfer_policy option"

datatype data_bits = FiveBits | SixBits | SevenBits | EightBits
datatype stop_bits = OneStopBit | TwoStopBits
datatype parity = NoParity | OddParity | EvenParity
datatype flow_control = NoFlow | SoftwareFlow | HardwareFlow

record telnet_config =
  tc_host :: string
  tc_port :: u16

record serial_config =
  rc_port_name :: string
  rc_baud_rate :: nat
  rc_data_bits :: data_bits
  rc_stop_bits :: stop_bits
  rc_parity :: parity
  rc_flow_control :: flow_control
  rc_usb_vendor :: "u16 option"
  rc_usb_product :: "u16 option"
  rc_usb_serial :: "string option"

datatype connection_profile = ConnSsh ssh_config | ConnTelnet telnet_config | ConnSerial serial_config

record system_detection =
  sd_host :: string
  sd_port :: u16
  sd_username :: string
  sd_fingerprint :: "string option"
  sd_release :: string
  sd_icon :: "string option"

record session_profile =
  sp_id :: uuid
  sp_name :: string
  sp_group :: string
  sp_icon_override :: "string option"
  sp_detected :: "system_detection option"
  sp_connection :: connection_profile

fun conn_ssh :: "connection_profile \<Rightarrow> ssh_config option" where
  "conn_ssh (ConnSsh c) = Some c"
| "conn_ssh _ = None"

definition profile_ssh :: "session_profile \<Rightarrow> ssh_config option" where
  "profile_ssh p = conn_ssh (sp_connection p)"

definition profile_telnet :: "session_profile \<Rightarrow> telnet_config option" where
  "profile_telnet p = (case sp_connection p of ConnTelnet c \<Rightarrow> Some c | _ \<Rightarrow> None)"

definition profile_serial :: "session_profile \<Rightarrow> serial_config option" where
  "profile_serial p = (case sp_connection p of ConnSerial c \<Rightarrow> Some c | _ \<Rightarrow> None)"

text \<open>\<^verbatim>\<open>if let Some(ssh) = profile.ssh_mut() { .. }\<close>\<close>

definition modify_ssh :: "(ssh_config \<Rightarrow> ssh_config) \<Rightarrow> session_profile \<Rightarrow> session_profile" where
  "modify_ssh f p =
     (case sp_connection p of ConnSsh c \<Rightarrow> p\<lparr>sp_connection := ConnSsh (f c)\<rparr> | _ \<Rightarrow> p)"

definition valid_release :: "string \<Rightarrow> bool" where
  "valid_release release \<longleftrightarrow> trim release \<noteq> [] \<and> char_count release \<le> 96 \<and> \<not> has_control release"

definition detection_matches :: "system_detection \<Rightarrow> session_profile \<Rightarrow> bool" where
  "detection_matches d p =
     (case profile_ssh p of
        None \<Rightarrow> False
      | Some c \<Rightarrow> sd_host d = sc_host c \<and> sd_port d = sc_port c \<and> sd_username d = sc_username c \<and>
          sd_fingerprint d = sc_fingerprint c \<and> valid_release (sd_release d))"

definition cached_system :: "session_profile \<Rightarrow> system_detection option" where
  "cached_system p =
     (case sp_detected p of None \<Rightarrow> None | Some d \<Rightarrow> if detection_matches d p then Some d else None)"

section \<open>Validation\<close>

datatype field_label = SessionName | HostField | UsernameField | FingerprintField | KeyPathField | RemotePathField

datatype store_error =
  FieldEmpty field_label | FieldTooLong field_label | FieldControls field_label
| GroupEmpty | GroupTooLong | GroupControls | PortZero | CredentialsWithoutPassword
| VaultKeyWithoutVault | LocalPathInvalid | PolicyInvalid | SerialPortEmpty | SerialPortInvalid
| BaudRateInvalid | UsbSerialInvalid | WorkspacePathEmpty | WorkspacePathTooLong | WorkspacePathControls
| TooManyGroups | TooManyProfiles | TooManyRecent | DuplicateRecent | GroupExists | PathNotText

text \<open>The checks of a validation run in order; \<^verbatim>\<open>?\<close> returns the first error.\<close>

fun check_all :: "(store_error + unit) list \<Rightarrow> store_error + unit" where
  "check_all [] = Inr ()"
| "check_all (r # rs) = (case r of Inl e \<Rightarrow> Inl e | Inr _ \<Rightarrow> check_all rs)"

definition validate_optional_text :: "field_label \<Rightarrow> string \<Rightarrow> nat \<Rightarrow> store_error + unit" where
  "validate_optional_text label value max_chars =
     (if max_chars < char_count value then Inl (FieldTooLong label)
      else if has_control value then Inl (FieldControls label)
      else Inr ())"

definition validate_required_text :: "field_label \<Rightarrow> string \<Rightarrow> nat \<Rightarrow> store_error + unit" where
  "validate_required_text label value max_chars =
     (if trim value = [] then Inl (FieldEmpty label) else validate_optional_text label value max_chars)"

definition validate_host_and_port :: "string \<Rightarrow> u16 \<Rightarrow> store_error + unit" where
  "validate_host_and_port host port = check_all
     [validate_required_text HostField host MAX_HOST_CHARS, if port = 0 then Inl PortZero else Inr ()]"

definition validate_policy :: "transfer_policy \<Rightarrow> store_error + unit" where
  "validate_policy p =
     (if \<not> (MIN_SFTP_PER_TAB_TRANSFERS \<le> po_per_tab_transfers p \<and> po_per_tab_transfers p \<le> MAX_SFTP_PER_TAB_TRANSFERS) \<or>
         MAX_SFTP_RATE_LIMIT_MIB_PER_SECOND < po_rate_limit_mib p then Inl PolicyInvalid
      else Inr ())"

fun validate_connection_consistency :: "connection_profile \<Rightarrow> store_error + unit" where
  "validate_connection_consistency (ConnSsh c) = check_all
     [validate_host_and_port (sc_host c) (sc_port c),
      validate_required_text UsernameField (sc_username c) MAX_USERNAME_CHARS,
      case sc_fingerprint c of
        None \<Rightarrow> Inr ()
      | Some f \<Rightarrow> validate_optional_text FingerprintField f MAX_HOST_KEY_FINGERPRINT_CHARS,
      if sc_auth c \<noteq> PasswordAuth \<and> (sc_credential_storage c \<noteq> None \<or> sc_vault_key_saved c)
        then Inl CredentialsWithoutPassword else Inr (),
      if sc_vault_key_saved c \<and> sc_credential_storage c \<noteq> Some EncryptedVault
        then Inl VaultKeyWithoutVault else Inr (),
      case sc_auth c of
        PrivateKeyAuth path \<Rightarrow> validate_required_text KeyPathField path MAX_PRIVATE_KEY_PATH_CHARS
      | _ \<Rightarrow> Inr (),
      validate_optional_text RemotePathField (sc_remote_path c) MAX_SFTP_REMOTE_PATH_CHARS,
      if MAX_SFTP_LOCAL_PATH_BYTES < length (sc_local_path c) \<or> has_control (sc_local_path c)
        then Inl LocalPathInvalid else Inr (),
      case sc_policy c of None \<Rightarrow> Inr () | Some p \<Rightarrow> validate_policy p]"
| "validate_connection_consistency (ConnTelnet c) = validate_host_and_port (tc_host c) (tc_port c)"
| "validate_connection_consistency (ConnSerial c) =
     (let port_name = trim (rc_port_name c) in check_all
        [if port_name = [] then Inl SerialPortEmpty else Inr (),
         if MAX_SERIAL_PORT_CHARS < char_count port_name \<or> has_control port_name
           then Inl SerialPortInvalid else Inr (),
         if rc_baud_rate c = 0 \<or> 12000000 < rc_baud_rate c then Inl BaudRateInvalid else Inr (),
         case rc_usb_serial c of
           None \<Rightarrow> Inr ()
         | Some n \<Rightarrow> if MAX_USB_SERIAL_CHARS < char_count n \<or> has_control n then Inl UsbSerialInvalid else Inr ()])"

definition normalize_group_name :: "string \<Rightarrow> string" where
  "normalize_group_name value =
     (let v = trim value in if eq_ignore_ascii_case v ''Ungrouped'' then [] else v)"

definition validate_group_name :: "string \<Rightarrow> bool \<Rightarrow> store_error + unit" where
  "validate_group_name value allow_empty =
     (let v = normalize_group_name value in
      if \<not> allow_empty \<and> v = [] then Inl GroupEmpty
      else if MAX_GROUP_NAME_CHARS < char_count v then Inl GroupTooLong
      else if has_control v then Inl GroupControls
      else Inr ())"

definition validate_profile :: "session_profile \<Rightarrow> store_error + unit" where
  "validate_profile p = check_all
     [validate_required_text SessionName (sp_name p) MAX_SESSION_NAME_CHARS,
      validate_group_name (sp_group p) True,
      validate_connection_consistency (sp_connection p)]"

definition validate_workspace_path :: "string \<Rightarrow> store_error + unit" where
  "validate_workspace_path path =
     (if path = [] then Inl WorkspacePathEmpty
      else if MAX_WORKSPACE_PATH_CHARS < char_count path then Inl WorkspacePathTooLong
      else if has_control path then Inl WorkspacePathControls
      else Inr ())"

section \<open>The store\<close>

record 's session_store =
  ss_version :: nat
  ss_groups :: "string list"
  ss_sessions :: "session_profile list"
  ss_recent :: "string list"
  ss_settings :: 's

definition validate_store :: "'s session_store \<Rightarrow> store_error + unit" where
  "validate_store s = check_all
     ([if MAX_GROUPS < length (ss_groups s) then Inl TooManyGroups else Inr (),
       if MAX_SESSION_PROFILES < length (ss_sessions s) then Inl TooManyProfiles else Inr (),
       if MAX_RECENT_WORKSPACES < length (ss_recent s) then Inl TooManyRecent else Inr ()] @
      map validate_workspace_path (ss_recent s) @
      [if distinct (ss_recent s) then Inr () else Inl DuplicateRecent] @
      map (\<lambda>g. validate_group_name g False) (ss_groups s) @
      map validate_profile (ss_sessions s))"

definition upsert :: "session_profile \<Rightarrow> 's session_store \<Rightarrow> 's session_store" where
  "upsert profile s =
     (let p = profile\<lparr>sp_group := normalize_group_name (sp_group profile)\<rparr>;
          s1 = (if sp_group p \<noteq> [] \<and> sp_group p \<notin> set (ss_groups s)
                then s\<lparr>ss_groups := ss_groups s @ [sp_group p]\<rparr> else s) in
      s1\<lparr>ss_sessions :=
          (if \<exists>item \<in> set (ss_sessions s1). sp_id item = sp_id p
           then update_first (\<lambda>item. sp_id item = sp_id p) (\<lambda>_. p) (ss_sessions s1)
           else ss_sessions s1 @ [p])\<rparr>)"

text \<open>The path as \<^verbatim>\<open>Path::to_str\<close> reads it: \<open>None\<close> when it is not UTF-8.\<close>

definition record_workspace_path :: "string option \<Rightarrow> 's session_store \<Rightarrow> store_error + 's session_store" where
  "record_workspace_path path s =
     (case path of
        None \<Rightarrow> Inl PathNotText
      | Some raw \<Rightarrow>
          let p = trim raw in
          case validate_workspace_path p of
            Inl e \<Rightarrow> Inl e
          | Inr _ \<Rightarrow>
              Inr (s\<lparr>ss_recent := take MAX_RECENT_WORKSPACES (p # filter (\<lambda>known. known \<noteq> p) (ss_recent s))\<rparr>))"

definition remove_workspace_path :: "string option \<Rightarrow> 's session_store \<Rightarrow> 's session_store \<times> bool" where
  "remove_workspace_path path s =
     (case path of
        None \<Rightarrow> (s, False)
      | Some p \<Rightarrow>
          let kept = filter (\<lambda>known. known \<noteq> p) (ss_recent s) in
          (s\<lparr>ss_recent := kept\<rparr>, length kept \<noteq> length (ss_recent s)))"

definition clear_workspace_paths :: "'s session_store \<Rightarrow> 's session_store" where
  "clear_workspace_paths s = s\<lparr>ss_recent := []\<rparr>"

definition remove_session :: "uuid \<Rightarrow> 's session_store \<Rightarrow> 's session_store \<times> bool" where
  "remove_session i s =
     (let kept = filter (\<lambda>item. sp_id item \<noteq> i) (ss_sessions s) in
      (s\<lparr>ss_sessions := kept\<rparr>, length kept \<noteq> length (ss_sessions s)))"

definition add_group :: "string \<Rightarrow> 's session_store \<Rightarrow> store_error + 's session_store \<times> bool" where
  "add_group name s =
     (case validate_group_name name False of
        Inl e \<Rightarrow> Inl e
      | Inr _ \<Rightarrow>
          let n = normalize_group_name name in
          if n \<in> set (ss_groups s) then Inr (s, False)
          else Inr (s\<lparr>ss_groups := ss_groups s @ [n]\<rparr>, True))"

definition rename_group :: "string \<Rightarrow> string \<Rightarrow> 's session_store \<Rightarrow> store_error + 's session_store \<times> bool" where
  "rename_group old_name new_name s =
     (let old = normalize_group_name old_name in
      case check_all [validate_group_name old False, validate_group_name new_name False] of
        Inl e \<Rightarrow> Inl e
      | Inr _ \<Rightarrow>
          let new = normalize_group_name new_name in
          if old = new then Inr (s, False)
          else if new \<in> set (ss_groups s) then Inl GroupExists
          else if old \<notin> set (ss_groups s) then Inr (s, False)
          else
            Inr (s\<lparr>ss_groups := update_first (\<lambda>g. g = old) (\<lambda>_. new) (ss_groups s),
                   ss_sessions := map (\<lambda>p. if normalize_group_name (sp_group p) = old
                     then p\<lparr>sp_group := new\<rparr> else p) (ss_sessions s)\<rparr>, True))"

definition remove_group :: "string \<Rightarrow> 's session_store \<Rightarrow> 's session_store \<times> bool" where
  "remove_group name s =
     (let n = normalize_group_name name; kept = filter (\<lambda>g. g \<noteq> n) (ss_groups s) in
      if length kept = length (ss_groups s) then (s\<lparr>ss_groups := kept\<rparr>, False)
      else
        (s\<lparr>ss_groups := kept,
           ss_sessions := map (\<lambda>p. if normalize_group_name (sp_group p) = n
             then p\<lparr>sp_group := []\<rparr> else p) (ss_sessions s)\<rparr>, True))"

fun collect_groups :: "string list \<Rightarrow> string list \<Rightarrow> string list" where
  "collect_groups normalized [] = normalized"
| "collect_groups normalized (raw # raws) =
     (let name = normalize_group_name raw in
      collect_groups (if name \<noteq> [] \<and> name \<notin> set normalized then normalized @ [name] else normalized) raws)"

definition normalize_groups :: "'s session_store \<Rightarrow> 's session_store" where
  "normalize_groups s =
     s\<lparr>ss_groups := collect_groups [] (ss_groups s @ map sp_group (ss_sessions s)),
       ss_sessions := map (\<lambda>p. p\<lparr>sp_group := normalize_group_name (sp_group p)\<rparr>) (ss_sessions s)\<rparr>"

text \<open>
  Reading a store: the lists as they stand in the file, and the settings after their migration, which
  reads other fields only.
\<close>

definition CURRENT_SCHEMA_VERSION :: nat where "CURRENT_SCHEMA_VERSION = 37"

definition store_from_wire ::
  "nat \<Rightarrow> string list \<Rightarrow> session_profile list \<Rightarrow> string list \<Rightarrow> 's \<Rightarrow> store_error + 's session_store" where
  "store_from_wire version groups sessions recent settings =
     (if MAX_GROUPS < length groups then Inl TooManyGroups
      else if MAX_SESSION_PROFILES < length sessions then Inl TooManyProfiles
      else if MAX_RECENT_WORKSPACES < length recent then Inl TooManyRecent
      else
        let s = normalize_groups \<lparr>ss_version = max version CURRENT_SCHEMA_VERSION, ss_groups = groups,
                  ss_sessions = sessions, ss_recent = recent, ss_settings = settings\<rparr> in
        case validate_store s of Inl e \<Rightarrow> Inl e | Inr _ \<Rightarrow> Inr s)"

section \<open>Facts\<close>

lemma check_all_Inr [simp]: "check_all rs = Inr () \<longleftrightarrow> (\<forall>r \<in> set rs. r = Inr ())"
proof (induction rs)
  case (Cons r rs)
  then show ?case by (cases r) auto
qed simp

lemma normalize_group_Nil [simp]: "normalize_group_name [] = []"
  by (simp add: normalize_group_name_def)

lemma normalize_group_idem [simp]: "normalize_group_name (normalize_group_name g) = normalize_group_name g"
  by (simp add: normalize_group_name_def Let_def)

lemma validate_group_normalized [simp]:
  "validate_group_name (normalize_group_name g) allow = validate_group_name g allow"
  by (simp add: validate_group_name_def)

lemma valid_group_nonempty: "validate_group_name g False = Inr () \<Longrightarrow> normalize_group_name g \<noteq> []"
  by (auto simp: validate_group_name_def Let_def split: if_splits)

text \<open>The groups are normalised, no two are equal, and every session is in one of them or in none.\<close>

definition groups_ok :: "'s session_store \<Rightarrow> bool" where
  "groups_ok s \<longleftrightarrow>
     distinct (ss_groups s) \<and>
     (\<forall>g \<in> set (ss_groups s). g \<noteq> [] \<and> normalize_group_name g = g) \<and>
     (\<forall>p \<in> set (ss_sessions s). normalize_group_name (sp_group p) = sp_group p \<and>
        (sp_group p = [] \<or> sp_group p \<in> set (ss_groups s)))"

text \<open>The most recent workspaces: at most eight, all different, all valid.\<close>

definition recent_ok :: "'s session_store \<Rightarrow> bool" where
  "recent_ok s \<longleftrightarrow>
     distinct (ss_recent s) \<and> length (ss_recent s) \<le> MAX_RECENT_WORKSPACES \<and>
     (\<forall>p \<in> set (ss_recent s). validate_workspace_path p = Inr ())"

lemma collect_groups_set:
  "set (collect_groups acc raws) = set acc \<union> (normalize_group_name ` set raws - {[]})"
  by (induction raws arbitrary: acc) (auto simp: Let_def)

lemma collect_groups_distinct: "distinct acc \<Longrightarrow> distinct (collect_groups acc raws)"
  by (induction raws arbitrary: acc) (simp_all add: Let_def)

lemma normalize_groups_ok: "groups_ok (normalize_groups s)"
proof -
  have "distinct (ss_groups (normalize_groups s))"
    by (simp add: normalize_groups_def collect_groups_distinct)
  moreover have "g \<noteq> [] \<and> normalize_group_name g = g" if "g \<in> set (ss_groups (normalize_groups s))" for g
    using that by (auto simp: normalize_groups_def collect_groups_set)
  moreover have "normalize_group_name (sp_group p) = sp_group p \<and>
      (sp_group p = [] \<or> sp_group p \<in> set (ss_groups (normalize_groups s)))"
    if "p \<in> set (ss_sessions (normalize_groups s))" for p
    using that by (auto simp: normalize_groups_def collect_groups_set)
  ultimately show ?thesis by (simp add: groups_ok_def)
qed

lemma collect_groups_append:
  assumes "\<forall>g \<in> set raws. g \<noteq> [] \<and> normalize_group_name g = g" "distinct (acc @ raws)"
  shows "collect_groups acc raws = acc @ raws"
  using assms
proof (induction raws arbitrary: acc)
  case (Cons g raws)
  then have "normalize_group_name g = g" "g \<noteq> []" "g \<notin> set acc" by simp_all
  with Cons.IH [of "acc @ [g]"] Cons.prems show ?case by simp
qed simp

lemma collect_groups_known:
  assumes "\<forall>g \<in> set raws. normalize_group_name g = [] \<or> normalize_group_name g \<in> set acc"
  shows "collect_groups acc raws = acc"
  using assms
proof (induction raws)
  case (Cons g raws)
  then have "(if normalize_group_name g \<noteq> [] \<and> normalize_group_name g \<notin> set acc
    then acc @ [normalize_group_name g] else acc) = acc" by simp
  with Cons show ?case by (simp add: Let_def)
qed simp

lemma collect_groups_split: "collect_groups acc (xs @ ys) = collect_groups (collect_groups acc xs) ys"
  by (induction xs arbitrary: acc) (simp_all add: Let_def)

lemma normalize_groups_id: "groups_ok s \<Longrightarrow> normalize_groups s = s"
proof -
  assume ok: "groups_ok s"
  then have "collect_groups [] (ss_groups s) = ss_groups s"
    by (subst collect_groups_append) (auto simp: groups_ok_def)
  moreover have "collect_groups (ss_groups s) (map sp_group (ss_sessions s)) = ss_groups s"
    using ok by (intro collect_groups_known) (auto simp: groups_ok_def)
  ultimately have "collect_groups [] (ss_groups s @ map sp_group (ss_sessions s)) = ss_groups s"
    by (simp add: collect_groups_split)
  moreover have "map (\<lambda>p. p\<lparr>sp_group := normalize_group_name (sp_group p)\<rparr>) (ss_sessions s) = ss_sessions s"
    using ok by (intro map_idI) (auto simp: groups_ok_def)
  ultimately show ?thesis by (simp add: normalize_groups_def)
qed

section \<open>Every operation keeps the store in order\<close>

lemma upsert_ok: "groups_ok s \<Longrightarrow> groups_ok (upsert p s)"
  by (auto simp: groups_ok_def upsert_def Let_def dest!: set_update_first_subset)

lemma upsert_recent [simp]: "ss_recent (upsert p s) = ss_recent s"
  by (simp add: upsert_def Let_def)

lemma add_group_ok: "add_group g s = Inr (s', b) \<Longrightarrow> groups_ok s \<Longrightarrow> groups_ok s' \<and> ss_recent s' = ss_recent s"
  using valid_group_nonempty [of g]
  by (auto simp: groups_ok_def add_group_def Let_def split: sum.splits if_splits)

lemma update_first_replace:
  "distinct xs \<Longrightarrow> x \<in> set xs \<Longrightarrow> update_first (\<lambda>y. y = x) (\<lambda>_. z) xs = map (\<lambda>y. if y = x then z else y) xs"
proof (induction xs)
  case (Cons a xs)
  have "x \<notin> set xs \<Longrightarrow> map (\<lambda>y. if y = x then z else y) xs = xs"
    by (intro map_idI) auto
  with Cons show ?case by auto
qed simp

lemma rename_group_ok:
  assumes "rename_group old new s = Inr (s', b)" "groups_ok s"
  shows "groups_ok s' \<and> ss_recent s' = ss_recent s"
proof -
  let ?o = "normalize_group_name old" and ?n = "normalize_group_name new"
  consider "s' = s" | "?n \<noteq> []" "?n \<notin> set (ss_groups s)" "?o \<in> set (ss_groups s)"
    "s' = s\<lparr>ss_groups := update_first (\<lambda>g. g = ?o) (\<lambda>_. ?n) (ss_groups s),
       ss_sessions := map (\<lambda>p. if normalize_group_name (sp_group p) = ?o
         then p\<lparr>sp_group := ?n\<rparr> else p) (ss_sessions s)\<rparr>"
    using assms(1) valid_group_nonempty [of new]
    by (auto simp: rename_group_def Let_def split: sum.splits if_splits)
  then show ?thesis
  proof cases
    case 2
    have d: "distinct (ss_groups s)" using assms(2) by (simp add: groups_ok_def)
    show ?thesis
      using 2 assms(2) unfolding groups_ok_def 2(4) update_first_replace [OF d 2(3)]
      by (auto simp: distinct_map inj_on_def)
  qed (use assms(2) in simp)
qed

lemma remove_group_ok: "groups_ok s \<Longrightarrow> groups_ok (fst (remove_group g s)) \<and> ss_recent (fst (remove_group g s)) = ss_recent s"
proof (cases "length (filter (\<lambda>h. h \<noteq> normalize_group_name g) (ss_groups s)) = length (ss_groups s)")
  case True
  then have "filter (\<lambda>h. h \<noteq> normalize_group_name g) (ss_groups s) = ss_groups s"
    by (metis length_filter_less less_irrefl filter_id_conv)
  then show "groups_ok s \<Longrightarrow> ?thesis" by (simp add: groups_ok_def remove_group_def)
next
  case False
  then show "groups_ok s \<Longrightarrow> ?thesis" by (auto simp: groups_ok_def remove_group_def Let_def)
qed

lemma record_workspace_ok:
  "record_workspace_path path s = Inr s' \<Longrightarrow> recent_ok s \<Longrightarrow>
   recent_ok s' \<and> ss_groups s' = ss_groups s \<and> ss_sessions s' = ss_sessions s"
proof -
  assume rec: "record_workspace_path path s = Inr s'" and ok: "recent_ok s"
  then obtain raw where p: "path = Some raw" "validate_workspace_path (trim raw) = Inr ()"
    and s': "s' = s\<lparr>ss_recent := take MAX_RECENT_WORKSPACES (trim raw # filter (\<lambda>k. k \<noteq> trim raw) (ss_recent s))\<rparr>"
    by (auto simp: record_workspace_path_def Let_def split: option.splits sum.splits)
  have "distinct (trim raw # filter (\<lambda>k. k \<noteq> trim raw) (ss_recent s))"
    using ok by (auto simp: recent_ok_def)
  moreover have "\<forall>q \<in> set (trim raw # filter (\<lambda>k. k \<noteq> trim raw) (ss_recent s)). validate_workspace_path q = Inr ()"
    using ok p(2) by (auto simp: recent_ok_def)
  ultimately show ?thesis
    unfolding s' recent_ok_def by (auto simp del: distinct.simps list.set filter.simps dest!: in_set_takeD)
qed

lemma groups_ok_update [simp]:
  "groups_ok (s\<lparr>ss_recent := r\<rparr>) = groups_ok s" "groups_ok (s\<lparr>ss_settings := t\<rparr>) = groups_ok s"
  by (simp_all add: groups_ok_def)

lemma filter_recent_ok: "recent_ok s \<Longrightarrow> recent_ok (s\<lparr>ss_recent := filter f (ss_recent s)\<rparr>)"
  by (auto simp: recent_ok_def intro: order.trans [OF length_filter_le])

lemma remove_session_ok: "groups_ok s \<Longrightarrow> groups_ok (fst (remove_session i s))"
  by (auto simp: groups_ok_def remove_session_def Let_def)

text \<open>One operation on the store; the arguments are what the user typed.\<close>

inductive store_step :: "'s session_store \<Rightarrow> 's session_store \<Rightarrow> bool" where
  step_upsert: "store_step s (upsert p s)"
| step_remove: "store_step s (fst (remove_session i s))"
| step_add_group: "add_group g s = Inr (s', b) \<Longrightarrow> store_step s s'"
| step_rename_group: "rename_group old new s = Inr (s', b) \<Longrightarrow> store_step s s'"
| step_remove_group: "store_step s (fst (remove_group g s))"
| step_record: "record_workspace_path path s = Inr s' \<Longrightarrow> store_step s s'"
| step_forget: "store_step s (fst (remove_workspace_path path s))"
| step_clear: "store_step s (clear_workspace_paths s)"
| step_settings: "store_step s (s\<lparr>ss_settings := t\<rparr>)"

definition store_ok :: "'s session_store \<Rightarrow> bool" where
  "store_ok s \<longleftrightarrow> groups_ok s \<and> recent_ok s"

lemma store_step_ok: "store_step s s' \<Longrightarrow> store_ok s \<Longrightarrow> store_ok s'"
proof (induction rule: store_step.induct)
  case (step_record path s s')
  then show ?case using record_workspace_ok [of path s s'] by (auto simp: store_ok_def groups_ok_def)
next
  case (step_forget s path)
  then show ?case
    using filter_recent_ok [of s] by (auto simp: store_ok_def remove_workspace_path_def Let_def split: option.splits)
next
  case (step_upsert s p)
  then show ?case by (auto simp: store_ok_def upsert_ok recent_ok_def)
next
  case (step_remove s i)
  then show ?case by (simp add: store_ok_def remove_session_ok) (simp add: recent_ok_def remove_session_def Let_def)
next
  case (step_add_group g s s' b)
  then show ?case using add_group_ok [of g s s' b] by (auto simp: store_ok_def recent_ok_def)
next
  case (step_rename_group old new s s' b)
  then show ?case using rename_group_ok [of old new s s' b] by (auto simp: store_ok_def recent_ok_def)
next
  case (step_remove_group s g)
  then show ?case using remove_group_ok [of s g] by (auto simp: store_ok_def recent_ok_def)
qed (auto simp: store_ok_def clear_workspace_paths_def recent_ok_def)

lemma validate_store_parts:
  "validate_store s = Inr () \<Longrightarrow> recent_ok s \<and> (\<forall>p \<in> set (ss_sessions s). validate_profile p = Inr ())"
  by (auto simp: validate_store_def recent_ok_def split: if_splits)

lemma store_from_wire_ok: "store_from_wire v gs ps rs t = Inr s \<Longrightarrow> store_ok s \<and> validate_store s = Inr ()"
  using normalize_groups_ok validate_store_parts
  by (force simp: store_from_wire_def Let_def store_ok_def split: if_splits sum.splits)

section \<open>Properties\<close>

text \<open>
  C23. Whatever was read from the configuration file and whatever the user does to the store after that:
  the groups are normalised and pairwise different, every session is in a listed group or in none, and
  the recent workspaces are at most eight different valid paths.
\<close>

theorem store_reachable_ok:
  assumes "store_from_wire v gs ps rs t = Inr s" "store_step\<^sup>*\<^sup>* s s'"
  shows "groups_ok s' \<and> recent_ok s'"
  using assms(2)
proof (induction rule: rtranclp_induct)
  case base
  then show ?case using store_from_wire_ok [OF assms(1)] by (simp add: store_ok_def)
next
  case (step y z)
  then show ?case using store_step_ok [of y z] by (simp add: store_ok_def)
qed

definition empty_store :: "unit session_store" where
  "empty_store = \<lparr>ss_version = 37, ss_groups = [], ss_sessions = [], ss_recent = [], ss_settings = ()\<rparr>"

theorem store_reachable_ok_witness:
  "groups_ok (clear_workspace_paths empty_store) \<and> recent_ok (clear_workspace_paths empty_store)"
proof (rule store_reachable_ok)
  show "store_from_wire 37 [] [] [] () = Inr empty_store"
    by (simp add: store_from_wire_def normalize_groups_def validate_store_def empty_store_def
        CURRENT_SCHEMA_VERSION_def MAX_GROUPS_def)
  show "store_step\<^sup>*\<^sup>* empty_store (clear_workspace_paths empty_store)"
    by (rule r_into_rtranclp) (rule step_clear)
qed



text \<open>
  Renaming a group renames it and nothing else: the list of groups keeps its order, the sessions of
  the group follow it, two groups never become one, and every session keeps all its other data.
\<close>

theorem rename_group_exact:
  assumes "rename_group old_name new_name s = Inr (s', True)" "groups_ok s"
  shows "let f = (\<lambda>g. if g = normalize_group_name old_name then normalize_group_name new_name else g) in
    normalize_group_name old_name \<in> set (ss_groups s) \<and> inj_on f (set (ss_groups s)) \<and>
    s' = s\<lparr>ss_groups := map f (ss_groups s),
           ss_sessions := map (\<lambda>p. p\<lparr>sp_group := f (sp_group p)\<rparr>) (ss_sessions s)\<rparr>"
proof -
  let ?o = "normalize_group_name old_name" and ?n = "normalize_group_name new_name"
  have r: "?n \<notin> set (ss_groups s)" "?o \<in> set (ss_groups s)"
    "s' = s\<lparr>ss_groups := update_first (\<lambda>g. g = ?o) (\<lambda>_. ?n) (ss_groups s),
       ss_sessions := map (\<lambda>p. if normalize_group_name (sp_group p) = ?o
         then p\<lparr>sp_group := ?n\<rparr> else p) (ss_sessions s)\<rparr>"
    using assms(1) by (auto simp: rename_group_def Let_def split: sum.splits if_splits)
  have d: "distinct (ss_groups s)" using assms(2) by (simp add: groups_ok_def)
  have "map (\<lambda>p. if normalize_group_name (sp_group p) = ?o then p\<lparr>sp_group := ?n\<rparr> else p) (ss_sessions s) =
    map (\<lambda>p. p\<lparr>sp_group := if sp_group p = ?o then ?n else sp_group p\<rparr>) (ss_sessions s)"
    using assms(2) by (intro map_cong) (auto simp: groups_ok_def)
  with r show ?thesis
    using update_first_replace [OF d r(2)] by (auto simp: Let_def inj_on_def)
qed

theorem rename_group_exact_witness:
  "\<exists>s' :: unit session_store. rename_group ''a'' ''b'' (empty_store\<lparr>ss_groups := [''a'']\<rparr>) = Inr (s', True) \<and>
     ss_groups s' = [''b''] \<and> inj_on (\<lambda>g. if g = ''a'' then ''b'' else g) {''a''}"
proof -
  have n: "normalize_group_name ''a'' = ''a''" "normalize_group_name ''b'' = ''b''"
    by (simp_all add: normalize_group_name_def trim_plain plain_char_def eq_ignore_ascii_case_def
        to_ascii_lowercase_def)
  have v: "validate_group_name ''a'' False = Inr ()" "validate_group_name ''b'' False = Inr ()"
    by (simp_all add: validate_group_name_def n MAX_GROUP_NAME_CHARS_def char_count_def is_continuation_def)
  have r: "rename_group ''a'' ''b'' (empty_store\<lparr>ss_groups := [''a'']\<rparr>) =
      Inr (empty_store\<lparr>ss_groups := [''b'']\<rparr>, True)"
    by (simp add: rename_group_def n v empty_store_def)
  have "groups_ok (empty_store\<lparr>ss_groups := [''a'']\<rparr>)" by (simp add: groups_ok_def empty_store_def n)
  from rename_group_exact [OF r this]
  have "inj_on (\<lambda>g. if g = normalize_group_name ''a'' then normalize_group_name ''b'' else g)
      (set (ss_groups (empty_store\<lparr>ss_groups := [''a'']\<rparr>)))"
    unfolding Let_def by blast
  then show ?thesis unfolding n using r by (intro exI [of _ "empty_store\<lparr>ss_groups := [''b'']\<rparr>"]) simp
qed

end
