(* ===== verification/Private_File.thy ===== *)
theory Private_File
  imports Prelude "HOL-Library.Mapping"
begin

text \<open>
  \<^verbatim>\<open>src/config/persistence.rs\<close>: the atomic, private replacement of a configuration file on Unix. A
  file is named by its directory and its name. The state keeps every version of the files that was ever
  on the disk, so that what a crash may leave behind can be stated. The file system's answers are a
  record of faults; \<open>suffix\<close> gives the fresh uuid of each attempt.
\<close>

section \<open>The disk\<close>

type_synonym file_path = "string \<times> string"

record file_entry =
  fe_bytes :: string
  fe_mode :: nat

record disk =
  dk_files :: "file_path \<Rightarrow> file_entry option"
  dk_dirs :: "string \<Rightarrow> nat option"
  dk_past :: "(file_path \<Rightarrow> file_entry option) list"

definition set_files :: "(file_path \<Rightarrow> file_entry option) \<Rightarrow> disk \<Rightarrow> disk" where
  "set_files fs d = d\<lparr>dk_files := fs, dk_past := fs # dk_past d\<rparr>"

text \<open>\<open>fl_written\<close> is the number of bytes written before \<^verbatim>\<open>write_all\<close> fails.\<close>

record write_faults =
  fl_mkdir :: bool
  fl_dir_metadata :: bool
  fl_dir_chmod :: bool
  fl_open :: "nat \<Rightarrow> bool"
  fl_metadata :: bool
  fl_not_regular :: bool
  fl_chmod :: bool
  fl_written :: "nat option"
  fl_sync :: bool
  fl_rename :: bool
  fl_sync_dir :: bool
  fl_cleanup :: bool

datatype write_error =
  MkdirFailed | DirMetadataFailed | DirChmodFailed | CreateFailed | MetadataFailed | NotRegular
| NoUniqueName | ChmodFailed | WriteFailed | ReplaceFailed | SyncDirFailed

section \<open>Operations\<close>

definition PRIVATE_FILE_MODE :: nat where "PRIVATE_FILE_MODE = 384"
definition PRIVATE_DIR_MODE :: nat where "PRIVATE_DIR_MODE = 448"

definition create_dir_all :: "write_faults \<Rightarrow> nat \<Rightarrow> string \<Rightarrow> disk \<Rightarrow> disk \<times> (write_error + unit)" where
  "create_dir_all fl umask_mode dir d =
     (if fl_mkdir fl then (d, Inl MkdirFailed)
      else if dk_dirs d dir \<noteq> None then (d, Inr ())
      else (d\<lparr>dk_dirs := (dk_dirs d)(dir \<mapsto> umask_mode)\<rparr>, Inr ()))"

definition set_private_directory_permissions :: "write_faults \<Rightarrow> string \<Rightarrow> disk \<Rightarrow> disk \<times> (write_error + unit)" where
  "set_private_directory_permissions fl dir d =
     (if fl_dir_metadata fl \<or> dk_dirs d dir = None then (d, Inl DirMetadataFailed)
      else if dk_dirs d dir = Some PRIVATE_DIR_MODE then (d, Inr ())
      else if fl_dir_chmod fl then (d, Inl DirChmodFailed)
      else (d\<lparr>dk_dirs := (dk_dirs d)(dir \<mapsto> PRIVATE_DIR_MODE)\<rparr>, Inr ()))"

definition cleanup_temporary_file :: "write_faults \<Rightarrow> file_path \<Rightarrow> disk \<Rightarrow> disk" where
  "cleanup_temporary_file fl p d =
     (if fl_cleanup fl \<or> dk_files d p = None then d else set_files ((dk_files d)(p := None)) d)"

definition temporary_name :: "string \<Rightarrow> string \<Rightarrow> string" where
  "temporary_name file_name suffix = ''.'' @ file_name @ ''.'' @ suffix @ ''.tmp''"

text \<open>One attempt at a name, the \<open>k\<close>-th of at most eight.\<close>

fun try_temporary ::
  "write_faults \<Rightarrow> (nat \<Rightarrow> string) \<Rightarrow> file_path \<Rightarrow> nat \<Rightarrow> nat \<Rightarrow> disk \<Rightarrow> disk \<times> (write_error + file_path)" where
  "try_temporary fl suffix path k 0 d = (d, Inl NoUniqueName)"
| "try_temporary fl suffix path k (Suc left) d =
     (let temp = (fst path, temporary_name (snd path) (suffix k)) in
      if fl_open fl k then (d, Inl CreateFailed)
      else if dk_files d temp \<noteq> None then try_temporary fl suffix path (Suc k) left d
      else
        let d1 = set_files ((dk_files d)(temp \<mapsto> \<lparr>fe_bytes = [], fe_mode = PRIVATE_FILE_MODE\<rparr>)) d in
        if fl_metadata fl then (cleanup_temporary_file fl temp d1, Inl MetadataFailed)
        else if fl_not_regular fl then (cleanup_temporary_file fl temp d1, Inl NotRegular)
        else (d1, Inr temp))"

definition create_private_temporary_file ::
  "write_faults \<Rightarrow> (nat \<Rightarrow> string) \<Rightarrow> file_path \<Rightarrow> disk \<Rightarrow> disk \<times> (write_error + file_path)" where
  "create_private_temporary_file fl suffix path d = try_temporary fl suffix path 0 8 d"

text \<open>\<^verbatim>\<open>write_all\<close> and \<^verbatim>\<open>sync_all\<close> on the temporary file.\<close>

definition fill_file :: "write_faults \<Rightarrow> file_path \<Rightarrow> string \<Rightarrow> disk \<Rightarrow> disk \<times> bool" where
  "fill_file fl temp bytes d =
     (case fl_written fl of
        Some n \<Rightarrow>
          (set_files ((dk_files d)(temp \<mapsto> \<lparr>fe_bytes = take n bytes, fe_mode = PRIVATE_FILE_MODE\<rparr>)) d, False)
      | None \<Rightarrow>
          (set_files ((dk_files d)(temp \<mapsto> \<lparr>fe_bytes = bytes, fe_mode = PRIVATE_FILE_MODE\<rparr>)) d, \<not> fl_sync fl))"

definition replace_file_atomically :: "file_path \<Rightarrow> file_path \<Rightarrow> disk \<Rightarrow> disk" where
  "replace_file_atomically temp path d =
     set_files ((dk_files d)(path := dk_files d temp, temp := None)) d"

text \<open>The temporary file is removed when it goes out of scope, unless it was renamed.\<close>

definition write_file_contents_with_sync ::
  "write_faults \<Rightarrow> (nat \<Rightarrow> string) \<Rightarrow> file_path \<Rightarrow> string \<Rightarrow> disk \<Rightarrow> disk \<times> (write_error + unit)" where
  "write_file_contents_with_sync fl suffix path bytes d =
     (case create_private_temporary_file fl suffix path d of
        (d1, Inl e) \<Rightarrow> (d1, Inl e)
      | (d1, Inr temp) \<Rightarrow>
          if fl_chmod fl then (cleanup_temporary_file fl temp d1, Inl ChmodFailed)
          else
            case fill_file fl temp bytes d1 of
              (d2, False) \<Rightarrow> (cleanup_temporary_file fl temp d2, Inl WriteFailed)
            | (d2, True) \<Rightarrow>
                if fl_rename fl then (cleanup_temporary_file fl temp d2, Inl ReplaceFailed)
                else
                  let d3 = replace_file_atomically temp path d2 in
                  if fl_sync_dir fl then (d3, Inl SyncDirFailed) else (d3, Inr ()))"

definition write_private_file_atomically ::
  "write_faults \<Rightarrow> nat \<Rightarrow> (nat \<Rightarrow> string) \<Rightarrow> file_path \<Rightarrow> string \<Rightarrow> disk \<Rightarrow> disk \<times> (write_error + unit)" where
  "write_private_file_atomically fl umask_mode suffix path bytes d =
     (case create_dir_all fl umask_mode (fst path) d of
        (d1, Inl e) \<Rightarrow> (d1, Inl e)
      | (d1, Inr _) \<Rightarrow>
          case set_private_directory_permissions fl (fst path) d1 of
            (d2, Inl e) \<Rightarrow> (d2, Inl e)
          | (d2, Inr _) \<Rightarrow> write_file_contents_with_sync fl suffix path bytes d2)"

definition write_user_file_atomically ::
  "write_faults \<Rightarrow> nat \<Rightarrow> (nat \<Rightarrow> string) \<Rightarrow> file_path \<Rightarrow> string \<Rightarrow> disk \<Rightarrow> disk \<times> (write_error + unit)" where
  "write_user_file_atomically fl umask_mode suffix path bytes d =
     (case create_dir_all fl umask_mode (fst path) d of
        (d1, Inl e) \<Rightarrow> (d1, Inl e)
      | (d1, Inr _) \<Rightarrow> write_file_contents_with_sync fl suffix path bytes d1)"

section \<open>Facts\<close>

text \<open>The names an attempt may create.\<close>

definition is_temporary_of :: "file_path \<Rightarrow> (nat \<Rightarrow> string) \<Rightarrow> file_path \<Rightarrow> bool" where
  "is_temporary_of path suffix p \<longleftrightarrow> (\<exists>k. p = (fst path, temporary_name (snd path) (suffix k)))"

lemma temporary_differs: "is_temporary_of path suffix p \<Longrightarrow> p \<noteq> path"
  by (cases path) (auto simp: is_temporary_of_def temporary_name_def dest: arg_cong [where f = length])

text \<open>
  A version of the files that a crash may leave: the destination is as it was or complete, and of the
  other files none that existed has changed.
\<close>

definition version_ok ::
  "(file_path \<Rightarrow> file_entry option) \<Rightarrow> file_path \<Rightarrow> string \<Rightarrow> (nat \<Rightarrow> string) \<Rightarrow>
   (file_path \<Rightarrow> file_entry option) \<Rightarrow> bool" where
  "version_ok fs0 path bytes suffix fs \<longleftrightarrow>
     (fs path = fs0 path \<or> fs path = Some \<lparr>fe_bytes = bytes, fe_mode = PRIVATE_FILE_MODE\<rparr>) \<and>
     (\<forall>p. p \<noteq> path \<longrightarrow> fs p = fs0 p \<or> fs0 p = None \<and> is_temporary_of path suffix p)"

definition versions_ok ::
  "(file_path \<Rightarrow> file_entry option) \<Rightarrow> file_path \<Rightarrow> string \<Rightarrow> (nat \<Rightarrow> string) \<Rightarrow> disk \<Rightarrow> bool" where
  "versions_ok fs0 path bytes suffix d \<longleftrightarrow>
     version_ok fs0 path bytes suffix (dk_files d) \<and> list_all (version_ok fs0 path bytes suffix) (dk_past d)"

lemma versions_ok_set [simp]:
  "versions_ok fs0 path bytes suffix (set_files fs d) \<longleftrightarrow>
   version_ok fs0 path bytes suffix fs \<and> list_all (version_ok fs0 path bytes suffix) (dk_past d)"
  by (auto simp: versions_ok_def set_files_def)

lemma dk_files_set [simp]: "dk_files (set_files fs d) = fs" "dk_dirs (set_files fs d) = dk_dirs d"
  "dk_past (set_files fs d) = fs # dk_past d"
  by (simp_all add: set_files_def)

text \<open>The temporary file that was created is new, and nothing else has changed.\<close>

lemma cleanup_dirs [simp]: "dk_dirs (cleanup_temporary_file fl temp x) = dk_dirs x"
  by (simp add: cleanup_temporary_file_def)

lemma try_temporary_cases:
  assumes "try_temporary fl suffix path k n d = (d', r)"
  shows "dk_dirs d' = dk_dirs d \<and>
    (case r of
      Inr temp \<Rightarrow> is_temporary_of path suffix temp \<and> dk_files d temp = None \<and>
        d' = set_files ((dk_files d)(temp \<mapsto> \<lparr>fe_bytes = [], fe_mode = PRIVATE_FILE_MODE\<rparr>)) d
    | Inl e \<Rightarrow> e \<noteq> SyncDirFailed \<and> (d' = d \<or> (\<exists>temp. is_temporary_of path suffix temp \<and> dk_files d temp = None \<and>
        d' = cleanup_temporary_file fl temp
          (set_files ((dk_files d)(temp \<mapsto> \<lparr>fe_bytes = [], fe_mode = PRIVATE_FILE_MODE\<rparr>)) d))))"
  using assms
proof (induction n arbitrary: k)
  case (Suc n)
  let ?t = "(fst path, temporary_name (snd path) (suffix k))"
  have t: "is_temporary_of path suffix ?t" by (auto simp: is_temporary_of_def)
  show ?case
  proof (cases "dk_files d ?t = None")
    case True
    let ?d1 = "set_files ((dk_files d)(?t \<mapsto> \<lparr>fe_bytes = [], fe_mode = PRIVATE_FILE_MODE\<rparr>)) d"
    from True Suc.prems consider "d' = d" "r = Inl CreateFailed" | "d' = ?d1" "r = Inr ?t"
      | e where "d' = cleanup_temporary_file fl ?t ?d1" "r = Inl e" "e \<noteq> SyncDirFailed"
      by (auto simp: Let_def split: if_splits)
    then show ?thesis
    proof cases
      case 3
      then have "\<exists>temp. is_temporary_of path suffix temp \<and> dk_files d temp = None \<and>
        d' = cleanup_temporary_file fl temp
          (set_files ((dk_files d)(temp \<mapsto> \<lparr>fe_bytes = [], fe_mode = PRIVATE_FILE_MODE\<rparr>)) d)"
        using t True by (intro exI [of _ ?t]) simp
      then show ?thesis using 3 by simp
    qed (use True t in simp_all)
  next
    case False
    then show ?thesis using Suc.IH [of "Suc k"] Suc.prems by (auto simp: Let_def split: if_splits)
  qed
qed auto

lemma version_ok_refl [simp]: "version_ok fs0 path bytes suffix fs0"
  by (simp add: version_ok_def)

lemma version_ok_temp:
  "is_temporary_of path suffix temp \<Longrightarrow> fs0 temp = None \<Longrightarrow> version_ok fs0 path bytes suffix (fs0(temp := e))"
  using temporary_differs [of path suffix temp] by (auto simp: version_ok_def)

lemma cleanup_back:
  assumes "is_temporary_of path suffix temp" "fs0 temp = None" "dk_files d = fs0(temp \<mapsto> e)"
    "versions_ok fs0 path bytes suffix d"
  shows "versions_ok fs0 path bytes suffix (cleanup_temporary_file fl temp d) \<and>
    dk_files (cleanup_temporary_file fl temp d) path = fs0 path \<and>
    (\<not> fl_cleanup fl \<longrightarrow> dk_files (cleanup_temporary_file fl temp d) = fs0)"
proof -
  have "fs0(temp := None) = fs0" using assms(2) by auto
  then show ?thesis
    using assms temporary_differs [OF assms(1)]
    by (auto simp: cleanup_temporary_file_def versions_ok_def)
qed

lemma fill_file_cases:
  "\<exists>b. fst (fill_file fl temp bytes d) =
      set_files ((dk_files d)(temp \<mapsto> \<lparr>fe_bytes = b, fe_mode = PRIVATE_FILE_MODE\<rparr>)) d \<and>
    (snd (fill_file fl temp bytes d) \<longrightarrow> b = bytes)"
  by (cases "fl_written fl") (auto simp: fill_file_def)

text \<open>What an atomic write does, from any disk.\<close>

definition write_outcome ::
  "write_faults \<Rightarrow> (file_path \<Rightarrow> file_entry option) \<Rightarrow> file_path \<Rightarrow> string \<Rightarrow> disk \<Rightarrow> write_error + unit \<Rightarrow> bool" where
  "write_outcome fl fs0 path bytes d r \<longleftrightarrow>
     (if r = Inr () \<or> r = Inl SyncDirFailed
      then dk_files d = fs0(path \<mapsto> \<lparr>fe_bytes = bytes, fe_mode = PRIVATE_FILE_MODE\<rparr>)
      else dk_files d path = fs0 path \<and> (\<not> fl_cleanup fl \<longrightarrow> dk_files d = fs0))"

lemma write_file_contents_atomic:
  assumes "write_file_contents_with_sync fl suffix path bytes d = (d', r)" "dk_past d = []"
  shows "versions_ok (dk_files d) path bytes suffix d' \<and> write_outcome fl (dk_files d) path bytes d' r \<and>
    dk_dirs d' = dk_dirs d"
proof -
  let ?fs = "dk_files d"
  obtain d1 r1 where c: "create_private_temporary_file fl suffix path d = (d1, r1)" by fastforce
  note tc = try_temporary_cases [OF c [unfolded create_private_temporary_file_def]]
  have start: "versions_ok ?fs path bytes suffix d" using assms(2) by (simp add: versions_ok_def)
  show ?thesis
  proof (cases r1)
    case (Inl e)
    then have r: "r = Inl e" "d' = d1" using assms(1) c by (simp_all add: write_file_contents_with_sync_def)
    from tc Inl consider "d1 = d" | temp where "is_temporary_of path suffix temp" "?fs temp = None"
      "d1 = cleanup_temporary_file fl temp (set_files (?fs(temp \<mapsto> \<lparr>fe_bytes = [], fe_mode = PRIVATE_FILE_MODE\<rparr>)) d)"
      by auto
    then show ?thesis
    proof cases
      case 1
      then show ?thesis using start r tc Inl by (simp add: write_outcome_def)
    next
      case 2
      then show ?thesis
        using cleanup_back [where temp = temp and ?fs0.0 = ?fs and path = path and suffix = suffix and bytes = bytes
            and fl = fl and d = "set_files (?fs(temp \<mapsto> \<lparr>fe_bytes = [], fe_mode = PRIVATE_FILE_MODE\<rparr>)) d"]
          r tc Inl assms(2) version_ok_temp [where temp = temp and ?fs0.0 = ?fs and path = path and suffix = suffix]
        by (auto simp: write_outcome_def)
    qed
  next
    case (Inr temp)
    let ?e = "\<lambda>b. \<lparr>fe_bytes = b, fe_mode = PRIVATE_FILE_MODE\<rparr>"
    from tc Inr have t: "is_temporary_of path suffix temp" "?fs temp = None" and d1: "d1 = set_files (?fs(temp \<mapsto> ?e [])) d"
      by simp_all
    have vt: "version_ok ?fs path bytes suffix (?fs(temp := e))" for e
      using version_ok_temp [where ?fs0.0 = ?fs, OF t(1)] t(2) by blast
    have neq: "temp \<noteq> path" by (rule temporary_differs [OF t(1)])
    define d2 where "d2 = fst (fill_file fl temp bytes d1)"
    obtain b where "d2 = set_files ((dk_files d1)(temp \<mapsto> ?e b)) d1" and b: "snd (fill_file fl temp bytes d1) \<Longrightarrow> b = bytes"
      using fill_file_cases [of fl temp bytes d1] by (auto simp: d2_def)
    then have d2: "dk_files d2 = ?fs(temp \<mapsto> ?e b)" "versions_ok ?fs path bytes suffix d2" "dk_dirs d2 = dk_dirs d"
      using vt assms(2) d1 by simp_all
    note back1 = cleanup_back [where ?fs0.0 = ?fs and bytes = bytes and fl = fl and d = d1, OF t(1)]
    note back2 = cleanup_back [where ?fs0.0 = ?fs and bytes = bytes and fl = fl and d = d2, OF t(1)]
    have ren: "(?fs(temp \<mapsto> ?e bytes))(path := (?fs(temp \<mapsto> ?e bytes)) temp, temp := None) = ?fs(path \<mapsto> ?e bytes)"
      using t(2) neq by (auto simp: fun_eq_iff)
    have final: "version_ok ?fs path bytes suffix (?fs(path \<mapsto> ?e bytes))" by (simp add: version_ok_def)
    have ff: "fill_file fl temp bytes d1 = (d2, snd (fill_file fl temp bytes d1))" by (simp add: d2_def)
    from assms(1) consider "d' = cleanup_temporary_file fl temp d1" "r = Inl ChmodFailed"
      | e where "d' = cleanup_temporary_file fl temp d2" "r = Inl e" "e \<noteq> SyncDirFailed"
      | "d' = replace_file_atomically temp path d2" "snd (fill_file fl temp bytes d1)" "r = Inr () \<or> r = Inl SyncDirFailed"
      unfolding write_file_contents_with_sync_def c Inr prod.case sum.case
      by (subst (asm) ff) (auto simp: Let_def split: if_splits bool.splits)
    then show ?thesis
    proof cases
      case 1
      then show ?thesis using back1 t d1 vt assms(2) by (simp add: write_outcome_def)
    next
      case (2 e)
      then show ?thesis using back2 t d2 by (simp add: write_outcome_def)
    next
      case 3
      have "dk_files d' = ?fs(path \<mapsto> ?e bytes)"
        using 3(1) d2(1) b [OF 3(2)] ren by (simp add: replace_file_atomically_def)
      moreover have "versions_ok ?fs path bytes suffix d'"
        using 3(1) d2(1,2) b [OF 3(2)] ren final by (simp add: replace_file_atomically_def versions_ok_def)
      ultimately show ?thesis using 3 d2(3) by (auto simp: write_outcome_def replace_file_atomically_def)
    qed
  qed
qed

lemma directory_steps:
  assumes "create_dir_all fl m dir d = (d1, r)" "dk_past d = []"
  shows "dk_files d1 = dk_files d \<and> dk_past d1 = [] \<and> r \<noteq> Inl SyncDirFailed \<and>
    (\<forall>x. dk_dirs d x \<noteq> None \<longrightarrow> dk_dirs d1 x = dk_dirs d x)"
  using assms by (auto simp: create_dir_all_def split: if_splits)

lemma permission_steps:
  assumes "set_private_directory_permissions fl dir d = (d1, r)" "dk_past d = []"
  shows "dk_files d1 = dk_files d \<and> dk_past d1 = [] \<and> r \<noteq> Inl SyncDirFailed \<and>
    (r = Inr () \<longrightarrow> dk_dirs d1 dir = Some PRIVATE_DIR_MODE)"
  using assms by (auto simp: set_private_directory_permissions_def split: if_splits)

lemma private_write:
  assumes "write_private_file_atomically fl umask_mode suffix path bytes d = (d', r)" "dk_past d = []"
  shows "list_all (version_ok (dk_files d) path bytes suffix) (dk_files d' # dk_past d') \<and>
    (if r = Inr () \<or> r = Inl SyncDirFailed
     then dk_files d' = (dk_files d)(path \<mapsto> \<lparr>fe_bytes = bytes, fe_mode = PRIVATE_FILE_MODE\<rparr>) \<and>
       dk_dirs d' (fst path) = Some PRIVATE_DIR_MODE
     else dk_files d' path = dk_files d path \<and> (fl_cleanup fl \<or> dk_files d' = dk_files d))"
proof -
  obtain d1 r1 where c: "create_dir_all fl umask_mode (fst path) d = (d1, r1)" by fastforce
  obtain d2 r2 where p: "set_private_directory_permissions fl (fst path) d1 = (d2, r2)" by fastforce
  note d1 = directory_steps [OF c assms(2)]
  note d2 = permission_steps [OF p]
  consider e where "d' = d1" "r = Inl e" "e \<noteq> SyncDirFailed" | e where "d' = d2" "r = Inl e" "e \<noteq> SyncDirFailed"
    | "write_file_contents_with_sync fl suffix path bytes d2 = (d', r)" "r2 = Inr ()"
    using assms(1) d1 d2 by (auto simp: write_private_file_atomically_def c p split: sum.splits)
  then show ?thesis
  proof cases
    case 3
    then show ?thesis
      using write_file_contents_atomic [OF 3(1)] d1 d2 by (auto simp: versions_ok_def write_outcome_def)
  qed (use d1 d2 in auto)
qed

text \<open>
  C10. Replacing a configuration file is atomic: at every moment, also when the program dies, the file
  holds its old or its new content, complete, and no other existing file has changed. When the call
  succeeds the new content is in place with mode 0600 in a directory of mode 0700, and nothing else was
  left. When it fails the old content stays, and the temporary file is gone unless removing it failed,
  too. Only when syncing the directory fails is an error returned although the new content is in place.
\<close>

theorem private_write_atomic:
  assumes "write_private_file_atomically fl umask_mode suffix path bytes d = (d', r)" "dk_past d = []"
  shows "list_all (version_ok (dk_files d) path bytes suffix) (dk_files d' # dk_past d') \<and>
    (if r = Inr () \<or> r = Inl SyncDirFailed
     then dk_files d' = (dk_files d)(path \<mapsto> \<lparr>fe_bytes = bytes, fe_mode = PRIVATE_FILE_MODE\<rparr>) \<and>
       dk_dirs d' (fst path) = Some PRIVATE_DIR_MODE
     else dk_files d' path = dk_files d path \<and> (fl_cleanup fl \<or> dk_files d' = dk_files d))"
  using private_write [OF assms] .

definition no_write_faults :: write_faults where
  "no_write_faults = \<lparr>fl_mkdir = False, fl_dir_metadata = False, fl_dir_chmod = False, fl_open = (\<lambda>_. False),
     fl_metadata = False, fl_not_regular = False, fl_chmod = False, fl_written = None, fl_sync = False,
     fl_rename = False, fl_sync_dir = False, fl_cleanup = False\<rparr>"

definition blank_disk :: disk where
  "blank_disk = \<lparr>dk_files = (\<lambda>_. None), dk_dirs = (\<lambda>_. None), dk_past = []\<rparr>"

theorem private_write_atomic_witness:
  "dk_files (fst (write_private_file_atomically no_write_faults 493 (\<lambda>_. ''u'') (''c'', ''s'') ''new'' blank_disk)) (''c'', ''s'')
     = Some \<lparr>fe_bytes = ''new'', fe_mode = PRIVATE_FILE_MODE\<rparr>"
proof -
  have r: "snd (write_private_file_atomically no_write_faults 493 (\<lambda>_. ''u'') (''c'', ''s'') ''new'' blank_disk) = Inr ()"
    by (simp add: write_private_file_atomically_def no_write_faults_def blank_disk_def create_dir_all_def
        set_private_directory_permissions_def PRIVATE_DIR_MODE_def write_file_contents_with_sync_def
        create_private_temporary_file_def numeral_eq_Suc fill_file_def set_files_def Let_def)
  have "dk_past blank_disk = []" by (simp add: blank_disk_def)
  from private_write_atomic [OF prod.collapse [symmetric] this] r show ?thesis
    by (smt (verit) fun_upd_same prod.collapse)
qed

text \<open>A file of the user leaves the permissions of an existing directory alone.\<close>

lemma user_write_keeps_directory:
  assumes "write_user_file_atomically fl m suffix path bytes d = (d', r)" "dk_past d = []" "dk_dirs d x = Some k"
  shows "dk_dirs d' x = Some k"
proof -
  obtain d1 r1 where c: "create_dir_all fl m (fst path) d = (d1, r1)" by fastforce
  note d1 = directory_steps [OF c assms(2)]
  then have "dk_dirs d1 x = Some k" using assms(3) by simp
  moreover have "d' = d1 \<or> write_file_contents_with_sync fl suffix path bytes d1 = (d', r)"
    using assms(1) by (auto simp: write_user_file_atomically_def c split: sum.splits)
  ultimately show ?thesis using write_file_contents_atomic d1 by metis
qed

end
