(* ===== verification/Session_Transfer.thy ===== *)
theory Session_Transfer
  imports Session_Store Private_File "HOL-Library.Sublist"
begin

text \<open>
  \<^verbatim>\<open>src/app/workspace/session_management.rs\<close>: copying, exporting and importing sessions and groups,
  and the transaction that writes a changed store. Reading and writing JSON is serde: \<open>encode\<close> and
  \<open>decode\<close> are parameters. Fresh uuids are an argument, the \<open>k\<close>-th call takes the \<open>k\<close>-th of them.
\<close>

section \<open>Envelopes\<close>

definition SESSION_TRANSFER_FORMAT :: string where "SESSION_TRANSFER_FORMAT = ''axssh-session-export''"
definition SESSION_TRANSFER_VERSION :: nat where "SESSION_TRANSFER_VERSION = 1"
definition MAX_SESSION_TRANSFER_BYTES :: nat where "MAX_SESSION_TRANSFER_BYTES = 256 * 1024"
definition MAX_SESSION_TRANSFER_PROFILES :: nat where "MAX_SESSION_TRANSFER_PROFILES = 128"

datatype transfer_kind = KindServer | KindGroup

record transfer_envelope =
  en_format :: string
  en_version :: nat
  en_kind :: transfer_kind
  en_group :: "string option"
  en_profiles :: "session_profile list"

datatype import_mode = SingleServer | IntoGroup | AutomaticImport

datatype transfer_error =
  StoreError store_error
| NotAnExport | UnsupportedVersion | TooManyServers | NotExactlyOneServer | GroupNameMissing
| TransferTextEmpty | TransferTextInvalid | ClipboardEmpty | ClipboardTooLarge | NotSessionJson
| ExportTooLarge | GroupNotFound | SessionNotFound | InvalidSessionId | SingleServerRequired | NoServers
| TooManyNames | UnknownAction | GroupNotChanged

fun and_then :: "transfer_error + 'a \<Rightarrow> ('a \<Rightarrow> transfer_error + 'b) \<Rightarrow> transfer_error + 'b" where
  "and_then (Inl e) f = Inl e"
| "and_then (Inr x) f = f x"

fun store_result :: "store_error + 'a \<Rightarrow> transfer_error + 'a" where
  "store_result (Inl e) = Inl (StoreError e)"
| "store_result (Inr x) = Inr x"

lemma and_then_Inr: "and_then r f = Inr y \<longleftrightarrow> (\<exists>x. r = Inr x \<and> f x = Inr y)"
  by (cases r) auto

lemma store_result_Inr [simp]: "store_result r = Inr y \<longleftrightarrow> r = Inr y"
  by (cases r) auto

text \<open>\<^verbatim>\<open>normalized_transfer_group_name\<close> adds the name to an empty store to have it validated.\<close>

definition normalized_transfer_group_name :: "string \<Rightarrow> transfer_error + string" where
  "normalized_transfer_group_name name =
     (let n = normalize_group_name name in
      and_then (store_result (add_group n \<lparr>ss_version = CURRENT_SCHEMA_VERSION, ss_groups = [],
                  ss_sessions = [], ss_recent = [], ss_settings = ()\<rparr>)) (\<lambda>_. Inr n))"

definition validate_transfer_text :: "string \<Rightarrow> nat \<Rightarrow> transfer_error + unit" where
  "validate_transfer_text value max_chars =
     (let v = trim value in
      if v = [] then Inl TransferTextEmpty
      else if max_chars < char_count v \<or> has_control v then Inl TransferTextInvalid
      else Inr ())"

fun validate_transferred_connection :: "connection_profile \<Rightarrow> transfer_error + unit" where
  "validate_transferred_connection (ConnSsh c) =
     and_then (validate_transfer_text (sc_host c) MAX_HOST_CHARS) (\<lambda>_.
     and_then (validate_transfer_text (sc_username c) MAX_USERNAME_CHARS) (\<lambda>_.
     case sc_auth c of
       PrivateKeyAuth path \<Rightarrow> validate_transfer_text path MAX_PRIVATE_KEY_PATH_CHARS
     | _ \<Rightarrow> Inr ()))"
| "validate_transferred_connection (ConnTelnet c) = validate_transfer_text (tc_host c) MAX_HOST_CHARS"
| "validate_transferred_connection (ConnSerial c) =
     and_then (validate_transfer_text (rc_port_name c) MAX_HOST_CHARS) (\<lambda>_.
     case rc_usb_serial c of None \<Rightarrow> Inr () | Some n \<Rightarrow> validate_transfer_text n 256)"

definition validate_transferred_profile :: "session_profile \<Rightarrow> transfer_error + unit" where
  "validate_transferred_profile p =
     and_then (store_result (validate_profile p)) (\<lambda>_.
     and_then (validate_transfer_text (sp_name p) MAX_SESSION_NAME_CHARS) (\<lambda>_.
     validate_transferred_connection (sp_connection p)))"

fun validate_all_transferred :: "session_profile list \<Rightarrow> transfer_error + unit" where
  "validate_all_transferred [] = Inr ()"
| "validate_all_transferred (p # ps) = and_then (validate_transferred_profile p) (\<lambda>_. validate_all_transferred ps)"

definition validate_session_transfer :: "transfer_envelope \<Rightarrow> transfer_error + unit" where
  "validate_session_transfer e =
     (if en_format e \<noteq> SESSION_TRANSFER_FORMAT then Inl NotAnExport
      else if en_version e \<noteq> SESSION_TRANSFER_VERSION then Inl UnsupportedVersion
      else if MAX_SESSION_TRANSFER_PROFILES < length (en_profiles e) then Inl TooManyServers
      else
        and_then
          (case en_kind e of
             KindServer \<Rightarrow>
               if en_group e \<noteq> None \<or> length (en_profiles e) \<noteq> 1 then Inl NotExactlyOneServer else Inr ()
           | KindGroup \<Rightarrow>
               (case en_group e of
                  None \<Rightarrow> Inl GroupNameMissing
                | Some g \<Rightarrow> and_then (normalized_transfer_group_name g) (\<lambda>_. Inr ())))
          (\<lambda>_. validate_all_transferred (en_profiles e)))"

definition sanitize_transferred_profile :: "session_profile \<Rightarrow> session_profile" where
  "sanitize_transferred_profile p =
     modify_ssh (\<lambda>c. c\<lparr>sc_credential_storage := None, sc_vault_key_saved := False, sc_fingerprint := None\<rparr>)
       (p\<lparr>sp_id := 0, sp_detected := None, sp_group := normalize_group_name (sp_group p)\<rparr>)"

definition serialize_session_transfer ::
  "(transfer_envelope \<Rightarrow> string) \<Rightarrow> transfer_envelope \<Rightarrow> transfer_error + string" where
  "serialize_session_transfer encode e =
     and_then (validate_session_transfer e) (\<lambda>_.
       let text_out = encode e in
       if MAX_SESSION_TRANSFER_BYTES < length text_out then Inl ExportTooLarge else Inr text_out)"

definition parse_session_transfer ::
  "(string \<Rightarrow> transfer_envelope option) \<Rightarrow> string \<Rightarrow> transfer_error + transfer_envelope" where
  "parse_session_transfer decode input =
     (if trim input = [] then Inl ClipboardEmpty
      else if MAX_SESSION_TRANSFER_BYTES < length input then Inl ClipboardTooLarge
      else
        case decode input of
          None \<Rightarrow> Inl NotSessionJson
        | Some raw \<Rightarrow>
            let e = raw\<lparr>en_profiles := map sanitize_transferred_profile (en_profiles raw)\<rparr> in
            and_then (validate_session_transfer e) (\<lambda>_. Inr e))"

section \<open>Exporting\<close>

text \<open>The id as \<^verbatim>\<open>Uuid::parse_str\<close> reads it.\<close>

definition export_session_profile ::
  "(transfer_envelope \<Rightarrow> string) \<Rightarrow> uuid option \<Rightarrow> 's session_store \<Rightarrow> transfer_error + string" where
  "export_session_profile encode session_id s =
     (case session_id of
        None \<Rightarrow> Inl InvalidSessionId
      | Some i \<Rightarrow>
          (case find (\<lambda>p. sp_id p = i) (ss_sessions s) of
             None \<Rightarrow> Inl SessionNotFound
           | Some p \<Rightarrow>
               serialize_session_transfer encode
                 \<lparr>en_format = SESSION_TRANSFER_FORMAT, en_version = SESSION_TRANSFER_VERSION,
                  en_kind = KindServer, en_group = None, en_profiles = [sanitize_transferred_profile p]\<rparr>))"

definition group_members :: "string \<Rightarrow> 's session_store \<Rightarrow> session_profile list" where
  "group_members g s = filter (\<lambda>p. normalize_group_name (sp_group p) = g) (ss_sessions s)"

definition export_session_group ::
  "(transfer_envelope \<Rightarrow> string) \<Rightarrow> string \<Rightarrow> 's session_store \<Rightarrow> transfer_error + string" where
  "export_session_group encode group_name s =
     and_then (normalized_transfer_group_name group_name) (\<lambda>g.
       if g \<notin> set (ss_groups s) then Inl GroupNotFound
       else if MAX_SESSION_TRANSFER_PROFILES < length (group_members g s) then Inl TooManyServers
       else
         serialize_session_transfer encode
           \<lparr>en_format = SESSION_TRANSFER_FORMAT, en_version = SESSION_TRANSFER_VERSION,
            en_kind = KindGroup, en_group = Some g,
            en_profiles = map sanitize_transferred_profile (group_members g s)\<rparr>)"

section \<open>Free names\<close>

text \<open>
  The three loops over copy numbers, a \<^verbatim>\<open>u32\<close> that is advanced with \<^verbatim>\<open>checked_add\<close>: \<open>candidate\<close>
  is what the body builds (and may reject), \<open>taken\<close> its test.
\<close>

function free_name ::
  "(nat \<Rightarrow> transfer_error + string) \<Rightarrow> (string \<Rightarrow> bool) \<Rightarrow> nat \<Rightarrow> transfer_error + string" where
  "free_name candidate taken n =
     (case candidate n of
        Inl e \<Rightarrow> Inl e
      | Inr name \<Rightarrow>
          if \<not> taken name then Inr name
          else if 2 ^ 32 - 1 \<le> n then Inl TooManyNames
          else free_name candidate taken (n + 1))"
  by pat_completeness auto
termination
  by (relation "measure (\<lambda>(c, t, n). 2 ^ 32 - n)") auto

declare free_name.simps [simp del]

definition copy_suffix :: "nat \<Rightarrow> string" where
  "copy_suffix n = (if n = 1 then '' Copy'' else '' Copy '' @ show_nat n)"

definition copy_name :: "nat \<Rightarrow> string \<Rightarrow> nat \<Rightarrow> string" where
  "copy_name max_chars name n =
     (let suffix = copy_suffix n; stem_limit = max_chars - char_count suffix in
      trim_end (take_chars stem_limit name) @ suffix)"

definition duplicate_group_name :: "'s session_store \<Rightarrow> string \<Rightarrow> transfer_error + string" where
  "duplicate_group_name s name =
     and_then (normalized_transfer_group_name name) (\<lambda>n.
       free_name
         (\<lambda>k. let candidate = copy_name 64 n k in
              and_then (normalized_transfer_group_name candidate) (\<lambda>_. Inr candidate))
         (\<lambda>candidate. candidate \<in> set (ss_groups s)) 1)"

definition unique_imported_group_name :: "'s session_store \<Rightarrow> string \<Rightarrow> transfer_error + string" where
  "unique_imported_group_name s name =
     and_then (normalized_transfer_group_name name) (\<lambda>n.
       if n \<notin> set (ss_groups s) then Inr n else duplicate_group_name s n)"

definition unique_imported_session_name :: "'s session_store \<Rightarrow> string \<Rightarrow> transfer_error + string" where
  "unique_imported_session_name s name =
     (if \<not> (\<exists>p \<in> set (ss_sessions s). sp_name p = name) then Inr name
      else
        free_name (\<lambda>k. Inr (copy_name MAX_SESSION_NAME_CHARS name k))
          (\<lambda>candidate. \<exists>p \<in> set (ss_sessions s). sp_name p = candidate) 1)"

definition duplicate_session_name :: "'s session_store \<Rightarrow> string \<Rightarrow> transfer_error + string" where
  "duplicate_session_name s name =
     (let base = name @ '' Copy'' in
      if \<not> (\<exists>p \<in> set (ss_sessions s). sp_name p = base) then Inr base
      else
        free_name (\<lambda>k. Inr (base @ '' '' @ show_nat k))
          (\<lambda>candidate. \<exists>p \<in> set (ss_sessions s). sp_name p = candidate) 2)"

section \<open>Importing and duplicating\<close>

definition sanitize_imported_profile :: "session_profile \<Rightarrow> session_profile" where
  "sanitize_imported_profile p =
     (sanitize_transferred_profile p)\<lparr>sp_id := sp_id p, sp_group := sp_group p\<rparr>"

definition ensure_session_group :: "string \<Rightarrow> 's session_store \<Rightarrow> transfer_error + 's session_store" where
  "ensure_session_group g s =
     (if g = [] \<or> g \<in> set (ss_groups s) then Inr s
      else and_then (store_result (add_group g s)) (\<lambda>(s1, _). Inr s1))"

fun import_profiles ::
  "(nat \<Rightarrow> uuid) \<Rightarrow> string option \<Rightarrow> session_profile list \<Rightarrow> nat \<Rightarrow> 's session_store \<Rightarrow>
   transfer_error + 's session_store" where
  "import_profiles fresh imported_group [] k s = Inr s"
| "import_profiles fresh imported_group (p # ps) k s =
     (let destination = (case imported_group of Some g \<Rightarrow> g | None \<Rightarrow> normalize_group_name (sp_group p)) in
      and_then (if destination \<noteq> [] then ensure_session_group destination s else Inr s) (\<lambda>s1.
      and_then (unique_imported_session_name s1 (sp_name p)) (\<lambda>name.
        let p1 = sanitize_imported_profile (p\<lparr>sp_id := fresh k, sp_group := destination, sp_name := name\<rparr>) in
        and_then (validate_transferred_profile p1) (\<lambda>_.
          import_profiles fresh imported_group ps (k + 1) (upsert p1 s1)))))"

definition prepare_import_group ::
  "transfer_envelope \<Rightarrow> import_mode \<Rightarrow> string \<Rightarrow> 's session_store \<Rightarrow> transfer_error + ('s session_store \<times> string option)" where
  "prepare_import_group e mode target s =
     (case mode of
        SingleServer \<Rightarrow>
          if en_kind e \<noteq> KindServer then Inl SingleServerRequired
          else and_then (if target \<noteq> [] then ensure_session_group target s else Inr s) (\<lambda>s1. Inr (s1, Some target))
      | IntoGroup \<Rightarrow>
          and_then (normalized_transfer_group_name target) (\<lambda>g.
            if en_profiles e = [] then Inl NoServers
            else and_then (ensure_session_group g s) (\<lambda>s1. Inr (s1, Some g)))
      | AutomaticImport \<Rightarrow>
          (case en_kind e of
             KindServer \<Rightarrow> Inr (s, None)
           | KindGroup \<Rightarrow>
               (case en_group e of
                  None \<Rightarrow> Inl GroupNameMissing
                | Some source \<Rightarrow>
                    and_then (unique_imported_group_name s source) (\<lambda>g.
                    and_then (store_result (add_group g s)) (\<lambda>(s1, _). Inr (s1, Some g))))))"

definition import_session_transfer_into_store ::
  "(string \<Rightarrow> transfer_envelope option) \<Rightarrow> (nat \<Rightarrow> uuid) \<Rightarrow> string \<Rightarrow> import_mode \<Rightarrow> string \<Rightarrow>
   's session_store \<Rightarrow> transfer_error + ('s session_store \<times> nat \<times> string option)" where
  "import_session_transfer_into_store decode fresh input mode target_group s =
     and_then (parse_session_transfer decode input) (\<lambda>e.
     and_then (prepare_import_group e mode (normalize_group_name target_group) s) (\<lambda>(s1, imported_group).
     and_then (import_profiles fresh imported_group (en_profiles e) 0 s1) (\<lambda>s2.
       Inr (s2, length (en_profiles e),
         case imported_group of None \<Rightarrow> None | Some g \<Rightarrow> if g = [] then None else Some g))))"

definition forget_credentials :: "session_profile \<Rightarrow> session_profile" where
  "forget_credentials = modify_ssh (\<lambda>c. c\<lparr>sc_credential_storage := None, sc_vault_key_saved := False\<rparr>)"

definition duplicate_session_profile ::
  "uuid \<Rightarrow> uuid \<Rightarrow> 's session_store \<Rightarrow> transfer_error + 's session_store" where
  "duplicate_session_profile fresh session_id s =
     (case find (\<lambda>p. sp_id p = session_id) (ss_sessions s) of
        None \<Rightarrow> Inl SessionNotFound
      | Some source \<Rightarrow>
          and_then (duplicate_session_name s (sp_name source)) (\<lambda>name.
            let duplicate = forget_credentials (source\<lparr>sp_id := fresh, sp_name := name\<rparr>) in
            and_then (store_result (validate_profile duplicate)) (\<lambda>_. Inr (upsert duplicate s))))"

fun duplicate_members ::
  "(nat \<Rightarrow> uuid) \<Rightarrow> string \<Rightarrow> session_profile list \<Rightarrow> nat \<Rightarrow> 's session_store \<Rightarrow> transfer_error + 's session_store" where
  "duplicate_members fresh g [] k s = Inr s"
| "duplicate_members fresh g (source # ps) k s =
     and_then (duplicate_session_name s (sp_name source)) (\<lambda>name.
       let duplicate = forget_credentials (source\<lparr>sp_id := fresh k, sp_name := name, sp_group := g\<rparr>) in
       and_then (store_result (validate_profile duplicate)) (\<lambda>_.
         duplicate_members fresh g ps (k + 1) (upsert duplicate s)))"

definition duplicate_session_group ::
  "(nat \<Rightarrow> uuid) \<Rightarrow> string \<Rightarrow> 's session_store \<Rightarrow> transfer_error + ('s session_store \<times> string)" where
  "duplicate_session_group fresh group_name s =
     and_then (normalized_transfer_group_name group_name) (\<lambda>source_group.
       if source_group \<notin> set (ss_groups s) then Inl GroupNotFound
       else if MAX_SESSION_TRANSFER_PROFILES < length (group_members source_group s) then Inl TooManyServers
       else
         and_then (duplicate_group_name s source_group) (\<lambda>g.
         and_then (store_result (add_group g s)) (\<lambda>(s1, _).
         and_then (duplicate_members fresh g (group_members source_group s) 0 s1) (\<lambda>s2. Inr (s2, g)))))"

definition update_session_group :: "string \<Rightarrow> string \<Rightarrow> string \<Rightarrow> 's session_store \<Rightarrow> transfer_error + 's session_store" where
  "update_session_group action target v s =
     and_then
       (if action = ''new-group'' then store_result (add_group (normalize_group_name v) s)
        else if action = ''rename-group'' then
          store_result (rename_group (normalize_group_name target) (normalize_group_name v) s)
        else if action = ''delete-group'' then Inr (remove_group (normalize_group_name target) s)
        else Inl UnknownAction)
       (\<lambda>(s1, changed). if changed then Inr s1 else Inl GroupNotChanged)"

section \<open>The search for a free name\<close>

lemma free_name_found:
  assumes "free_name candidate taken n = Inr x" "n < 2 ^ 32"
  shows "\<not> taken x \<and> (\<exists>k \<ge> n. k < 2 ^ 32 \<and> candidate k = Inr x)"
  using assms
proof (induction candidate taken n rule: free_name.induct)
  case (1 candidate taken n)
  from 1(2) consider "candidate n = Inr x" "\<not> taken x"
    | b where "candidate n = Inr b" "taken b" "\<not> 2 ^ 32 - 1 \<le> n" "free_name candidate taken (n + 1) = Inr x"
    by (simp add: free_name.simps [of candidate taken n] split: sum.splits if_splits)
  then show ?case
  proof cases
    case (2 b)
    then have "\<not> taken x \<and> (\<exists>k \<ge> n + 1. k < 2 ^ 32 \<and> candidate k = Inr x)" by (intro 1(1)) simp_all
    then show ?thesis by (meson add_leD1)
  qed (use 1(3) in auto)
qed

lemma free_name_reaches:
  assumes "\<not> taken (f k)" "n \<le> k" "k < 2 ^ 32" "\<And>j. n \<le> j \<Longrightarrow> j \<le> k \<Longrightarrow> candidate j = Inr (f j)"
  shows "\<exists>x. free_name candidate taken n = Inr x"
  using assms
proof (induction "k - n" arbitrary: n)
  case 0
  then show ?case by (subst free_name.simps) simp
next
  case (Suc m)
  show ?case
  proof (cases "taken (f n)")
    case True
    then have "n < k" using Suc.prems by (cases "n = k") auto
    then have "\<exists>x. free_name candidate taken (n + 1) = Inr x" using Suc by (intro Suc.hyps(1)) auto
    then show ?thesis using True \<open>n < k\<close> Suc.prems by (subst free_name.simps) simp
  next
    case False
    then show ?thesis using Suc.prems by (subst free_name.simps) simp
  qed
qed

text \<open>
  With a different candidate for every number the search ends with a free one as soon as the numbers
  outlast the names in use.
\<close>

lemma free_name_succeeds:
  assumes "\<And>k. n \<le> k \<Longrightarrow> k < 2 ^ 32 \<Longrightarrow> candidate k = Inr (f k)"
    and "inj_on f {n..n + card T}" "finite T" "\<And>x. taken x \<Longrightarrow> x \<in> T" "n + card T < 2 ^ 32"
  shows "\<exists>x. free_name candidate taken n = Inr x"
proof -
  have "\<not> f ` {n..n + card T} \<subseteq> T"
  proof
    assume "f ` {n..n + card T} \<subseteq> T"
    then have "card {n..n + card T} \<le> card T" using card_inj_on_le assms(2,3) by blast
    then show False by simp
  qed
  then obtain k where "k \<in> {n..n + card T}" "f k \<notin> T" by blast
  then have "n \<le> k" "k \<le> n + card T" "\<not> taken (f k)" using assms(4) by auto
  then show ?thesis using assms(1,5) by (intro free_name_reaches [of taken f k]) auto
qed

lemma length_show_nat: "n < 10 ^ Suc d \<Longrightarrow> length (show_nat n) \<le> Suc d"
proof (induction d arbitrary: n)
  case (Suc d)
  show ?case
  proof (cases "n < 10")
    case False
    have "n div 10 < 10 ^ Suc d" using Suc.prems by (simp add: less_mult_imp_div_less)
    then show ?thesis using Suc.IH False by (simp add: show_nat.simps [of n])
  qed (simp add: show_nat.simps [of n])
next
  case 0
  then show ?case by (simp add: show_nat.simps [of n])
qed

lemma show_nat_plain: "c \<in> set (show_nat n) \<Longrightarrow> plain_char c"
  using show_nat_digits [of c n] by (simp add: is_digit_def plain_char_def)

lemma numbered_inj:
  assumes "s @ CHR '' '' # show_nat m = t @ CHR '' '' # show_nat n"
  shows "m = n \<and> s = t"
proof -
  have eq: "rev (show_nat m) @ CHR '' '' # rev s = rev (show_nat n) @ CHR '' '' # rev t"
    using arg_cong [OF assms, of rev] by simp
  have "rev (show_nat m) = rev (show_nat n) \<and> rev s = rev t"
    using digits_split [OF _ _ _ _ eq] show_nat_digits by (auto simp: is_digit_def)
  then show ?thesis using show_nat_inj by simp
qed

lemma copy_suffix_inj:
  assumes "s @ copy_suffix m = t @ copy_suffix n"
  shows "m = n"
proof -
  have y_end: "last (x @ '' Copy '' @ show_nat k) \<noteq> CHR ''y''" for x k
    using show_nat_digits [of "last (show_nat k)" k] by (auto simp: is_digit_def)
  show ?thesis
  proof (cases "m = 1 \<or> n = 1")
    case True
    have "last (s @ '' Copy'') = CHR ''y''" "last (t @ '' Copy'') = CHR ''y''" by simp_all
    then show ?thesis using True assms y_end by (metis copy_suffix_def)
  next
    case False
    then have "(s @ '' Copy'') @ CHR '' '' # show_nat m = (t @ '' Copy'') @ CHR '' '' # show_nat n"
      using assms by (simp add: copy_suffix_def)
    then show ?thesis by (rule numbered_inj [THEN conjunct1])
  qed
qed

lemma copy_name_inj: "copy_name m name a = copy_name m name b \<Longrightarrow> a = b"
  unfolding copy_name_def Let_def by (rule copy_suffix_inj)

lemma copy_suffix_shape:
  "\<exists>p c. copy_suffix n = p @ [c] \<and> plain_char c"
  "c \<in> set (copy_suffix n) \<Longrightarrow> plain_char c \<or> c = CHR '' ''"
  "copy_suffix n = CHR '' '' # tl (copy_suffix n)"
proof -
  show "\<exists>p c. copy_suffix n = p @ [c] \<and> plain_char c"
  proof (cases "n = 1")
    case True
    then show ?thesis by (intro exI [of _ "'' Cop''"] exI [of _ "CHR ''y''"]) (simp add: copy_suffix_def plain_char_def)
  next
    case False
    have "show_nat n = butlast (show_nat n) @ [last (show_nat n)]" by simp
    then have "copy_suffix n = ('' Copy '' @ butlast (show_nat n)) @ [last (show_nat n)]"
      using False unfolding copy_suffix_def by simp
    then show ?thesis using show_nat_plain [of "last (show_nat n)" n] by fastforce
  qed
  show "c \<in> set (copy_suffix n) \<Longrightarrow> plain_char c \<or> c = CHR '' ''"
    using show_nat_plain [of c n] by (auto simp: copy_suffix_def plain_char_def split: if_splits)
  show "copy_suffix n = CHR '' '' # tl (copy_suffix n)" by (simp add: copy_suffix_def)
qed

lemma copy_suffix_count: "n < 2 ^ 32 \<Longrightarrow> char_count (copy_suffix n) \<le> 16"
proof -
  assume "n < 2 ^ 32"
  then have "length (show_nat n) \<le> Suc 9" by (intro length_show_nat) simp
  then have "length (copy_suffix n) \<le> 16" by (simp add: copy_suffix_def)
  moreover have "char_count (copy_suffix n) = length (copy_suffix n)"
    using copy_suffix_shape(2) by (intro plain_count) blast
  ultimately show ?thesis by simp
qed

text \<open>What a copy is called: not blank, trimmed at its end, within the limit, and without controls.\<close>

lemma copy_name_ok:
  assumes "n < 2 ^ 32" "16 \<le> max_chars" "\<not> has_control name"
  shows "char_count (copy_name max_chars name n) \<le> max_chars" "\<not> has_control (copy_name max_chars name n)"
    "trim (copy_name max_chars name n) \<noteq> []"
proof -
  let ?stem = "take_chars (max_chars - char_count (copy_suffix n)) name"
  obtain r where r: "?stem = trim_end ?stem @ r" using trim_end_prefix by blast
  have "char_count (trim_end ?stem) \<le> char_count ?stem" by (subst (2) r) simp
  also have "\<dots> \<le> max_chars - char_count (copy_suffix n)" by (rule char_count_take_chars)
  finally show "char_count (copy_name max_chars name n) \<le> max_chars"
    using copy_suffix_count [OF assms(1)] assms(2) by (simp add: copy_name_def Let_def)
  obtain r' where r': "name = ?stem @ r'" using take_chars_prefix by blast
  then have "name = trim_end ?stem @ r @ r'" using r by (metis append.assoc)
  then have stem: "\<not> has_control (trim_end ?stem)" using has_control_prefix assms(3) by metis
  have suffix: "\<not> has_control (copy_suffix n)" using copy_suffix_shape(2) by (intro plain_no_control) blast
  have "(of_char (hd (copy_suffix n)) :: nat) < 128" by (subst copy_suffix_shape(3)) simp
  then show "\<not> has_control (copy_name max_chars name n)"
    using stem suffix by (simp add: copy_name_def Let_def has_control_append)
  obtain p c where pc: "copy_suffix n = p @ [c]" "plain_char c" using copy_suffix_shape(1) by blast
  then show "trim (copy_name max_chars name n) \<noteq> []"
    using trim_ends_plain [OF pc(2), of "trim_end ?stem @ p"] by (auto simp: copy_name_def Let_def)
qed

lemma normalized_transfer_group_iff:
  "normalized_transfer_group_name g = Inr n \<longleftrightarrow> n = normalize_group_name g \<and> validate_group_name g False = Inr ()"
  by (auto simp: normalized_transfer_group_name_def and_then_Inr add_group_def Let_def split: sum.splits)

lemma take_chars_boundary: "\<exists>r. s = take_chars n s @ r \<and> (r = [] \<or> \<not> is_continuation (hd r))"
  by (induction n s rule: take_chars.induct) auto

lemma take_chars_nonempty: "0 < n \<Longrightarrow> s \<noteq> [] \<Longrightarrow> take_chars n s \<noteq> []"
  by (cases s) auto

text \<open>The copy of a normalised group name is a normalised group name.\<close>

lemma copy_group_ok:
  assumes "normalize_group_name name = name" "validate_group_name name False = Inr ()" "n < 2 ^ 32"
  shows "normalize_group_name (copy_name 64 name n) = copy_name 64 name n \<and>
    validate_group_name (copy_name 64 name n) False = Inr ()"
proof -
  have name: "name \<noteq> []" "\<not> has_control name" "trim name = name"
    using assms(1,2) by (auto simp: validate_group_name_def normalize_group_name_def Let_def split: if_splits)
  let ?lim = "64 - char_count (copy_suffix n)"
  let ?stem = "take_chars ?lim name"
  have lim: "0 < ?lim" using copy_suffix_count [OF assms(3)] by simp
  obtain r where r: "name = ?stem @ r" "r = [] \<or> \<not> is_continuation (hd r)" using take_chars_boundary by blast
  have ne: "?stem \<noteq> []" by (rule take_chars_nonempty [OF lim name(1)])
  have "leading_space name = 0" using trim_no_leading [of name] name(3) by simp
  then have stem0: "leading_space ?stem = 0" using leading_space_append [OF ne r(2)] r(1) by simp
  let ?c = "copy_name 64 name n"
  have c: "?c = trim_end ?stem @ copy_suffix n" by (simp add: copy_name_def Let_def)
  have "\<not> is_continuation (hd (copy_suffix n))" by (subst copy_suffix_shape(3)) (simp add: is_continuation_def)
  then have "leading_space ?c = 0"
    unfolding c using leading_space_append [OF trim_end_nonempty [OF stem0 ne]] trim_end_no_space [OF stem0] by simp
  moreover obtain p x where "copy_suffix n = p @ [x]" "plain_char x" using copy_suffix_shape(1) by blast
  ultimately have tr: "trim ?c = ?c" using trim_keeps [of ?c x "trim_end ?stem @ p"] c by simp
  have "CHR '' '' \<in> set (to_ascii_lowercase ?c)"
    unfolding c by (subst copy_suffix_shape(3)) (simp add: to_ascii_lowercase_def)
  moreover have "CHR '' '' \<notin> set (to_ascii_lowercase ''Ungrouped'')" by code_simp
  ultimately have "\<not> eq_ignore_ascii_case ?c ''Ungrouped''" by (auto simp: eq_ignore_ascii_case_def)
  then have "normalize_group_name ?c = ?c" by (simp add: normalize_group_name_def tr)
  then show ?thesis
    using copy_name_ok [OF assms(3) _ name(2), of 64]
    by (auto simp: validate_group_name_def MAX_GROUP_NAME_CHARS_def Let_def)
qed

lemma duplicate_group_name_free:
  assumes "duplicate_group_name s name = Inr g"
  shows "g \<notin> set (ss_groups s) \<and> g \<noteq> [] \<and> normalize_group_name g = g \<and> validate_group_name g False = Inr ()"
proof -
  let ?n = "normalize_group_name name"
  have n: "validate_group_name name False = Inr ()"
    and fr: "free_name (\<lambda>k. let candidate = copy_name 64 ?n k in
              and_then (normalized_transfer_group_name candidate) (\<lambda>_. Inr candidate))
         (\<lambda>candidate. candidate \<in> set (ss_groups s)) 1 = Inr g"
    using assms by (auto simp: duplicate_group_name_def and_then_Inr normalized_transfer_group_iff)
  from free_name_found [OF fr] obtain k where k: "g \<notin> set (ss_groups s)" "g = copy_name 64 ?n k" "k < 2 ^ 32"
    "validate_group_name g False = Inr ()"
    by (auto simp: Let_def and_then_Inr normalized_transfer_group_iff)
  show ?thesis using copy_group_ok [of ?n k] n k valid_group_nonempty [of g] by simp
qed

section \<open>What an import and a copy add\<close>

text \<open>Nothing of the machine it came from: no stored credential, no pinned host key, no detection.\<close>

definition clean_profile :: "session_profile \<Rightarrow> bool" where
  "clean_profile p \<longleftrightarrow> sp_detected p = None \<and>
     (case profile_ssh p of
        None \<Rightarrow> True
      | Some c \<Rightarrow> sc_credential_storage c = None \<and> \<not> sc_vault_key_saved c \<and> sc_fingerprint c = None)"

lemma profile_ssh_update [simp]:
  "profile_ssh (p\<lparr>sp_id := i\<rparr>) = profile_ssh p" "profile_ssh (p\<lparr>sp_name := n\<rparr>) = profile_ssh p"
  "profile_ssh (p\<lparr>sp_group := g\<rparr>) = profile_ssh p"
  by (simp_all add: profile_ssh_def)

lemma modify_ssh_fields [simp]:
  "sp_id (modify_ssh f p) = sp_id p" "sp_name (modify_ssh f p) = sp_name p"
  "sp_group (modify_ssh f p) = sp_group p" "sp_detected (modify_ssh f p) = sp_detected p"
  "profile_ssh (modify_ssh f p) = map_option f (profile_ssh p)"
  by (auto simp: modify_ssh_def profile_ssh_def split: connection_profile.splits)

lemma sanitized_clean: "clean_profile (sanitize_transferred_profile p)"
  by (auto simp: clean_profile_def sanitize_transferred_profile_def profile_ssh_def modify_ssh_def
      split: connection_profile.splits option.splits)

lemma clean_profile_update [simp]:
  "clean_profile (p\<lparr>sp_id := i\<rparr>) = clean_profile p" "clean_profile (p\<lparr>sp_name := n\<rparr>) = clean_profile p"
  "clean_profile (p\<lparr>sp_group := g\<rparr>) = clean_profile p"
  by (simp_all add: clean_profile_def)

lemma validate_profile_normalized [simp]:
  "validate_profile (p\<lparr>sp_group := normalize_group_name (sp_group p)\<rparr>) = validate_profile p"
  by (simp add: validate_profile_def)

lemma add_group_keeps: "add_group g s = Inr (s', b) \<Longrightarrow> ss_sessions s' = ss_sessions s \<and> prefix (ss_groups s) (ss_groups s')"
  by (cases "validate_group_name g False") (auto simp: add_group_def Let_def split: if_splits)

lemma ensure_session_group_keeps:
  "ensure_session_group g s = Inr s' \<Longrightarrow> ss_sessions s' = ss_sessions s \<and> prefix (ss_groups s) (ss_groups s') \<and>
   (groups_ok s \<longrightarrow> groups_ok s')"
  using add_group_keeps [of g s] add_group_ok [of g s]
  by (fastforce simp: ensure_session_group_def and_then_Inr split: if_splits)

lemma upsert_fresh:
  "sp_id p \<notin> sp_id ` set (ss_sessions s) \<Longrightarrow>
   ss_sessions (upsert p s) = ss_sessions s @ [p\<lparr>sp_group := normalize_group_name (sp_group p)\<rparr>] \<and>
   prefix (ss_groups s) (ss_groups (upsert p s))"
proof -
  assume "sp_id p \<notin> sp_id ` set (ss_sessions s)"
  then have "\<not> (\<exists>item \<in> set (ss_sessions s). sp_id item = sp_id p)" by (metis imageI)
  then show ?thesis by (simp add: upsert_def Let_def)
qed

lemma unique_session_name_free:
  "unique_imported_session_name s name = Inr n \<Longrightarrow> n \<notin> sp_name ` set (ss_sessions s)"
  by (auto simp: unique_imported_session_name_def split: if_splits dest!: free_name_found)

lemma duplicate_session_name_free:
  "duplicate_session_name s name = Inr n \<Longrightarrow> n \<notin> sp_name ` set (ss_sessions s)"
  by (auto simp: duplicate_session_name_def Let_def split: if_splits dest!: free_name_found)

text \<open>\<open>sessions_added\<close>: what was there stays; what is new has fresh ids and names of its own.\<close>

definition sessions_added :: "(nat \<Rightarrow> uuid) \<Rightarrow> nat \<Rightarrow> nat \<Rightarrow> 's session_store \<Rightarrow> 's session_store \<Rightarrow>
    (session_profile \<Rightarrow> bool) \<Rightarrow> bool" where
  "sessions_added fresh k n s s' good \<longleftrightarrow>
     (\<exists>new. ss_sessions s' = ss_sessions s @ new \<and> map sp_id new = map fresh [k..<k + n] \<and>
        distinct (map sp_name new) \<and> sp_name ` set new \<inter> sp_name ` set (ss_sessions s) = {} \<and>
        list_all good new) \<and>
     prefix (ss_groups s) (ss_groups s')"

lemma sessions_added_none [simp]: "ss_sessions s' = ss_sessions s \<Longrightarrow> prefix (ss_groups s) (ss_groups s') \<Longrightarrow>
    sessions_added fresh k 0 s s' good"
  by (simp add: sessions_added_def)

lemma sessions_added_step:
  assumes "ss_sessions s1 = ss_sessions s" "prefix (ss_groups s) (ss_groups s1)"
    and "sp_id p = fresh k" "fresh k \<notin> sp_id ` set (ss_sessions s)" "sp_name p \<notin> sp_name ` set (ss_sessions s)"
    and "good (p\<lparr>sp_group := normalize_group_name (sp_group p)\<rparr>)"
    and "sessions_added fresh (k + 1) n (upsert p s1) s' good"
  shows "sessions_added fresh k (n + 1) s s' good"
proof -
  let ?q = "p\<lparr>sp_group := normalize_group_name (sp_group p)\<rparr>"
  have up: "ss_sessions (upsert p s1) = ss_sessions s @ [?q]" "prefix (ss_groups s1) (ss_groups (upsert p s1))"
    using upsert_fresh [of p s1] assms(1,3,4) by auto
  obtain new where new: "ss_sessions s' = (ss_sessions s @ [?q]) @ new"
    "map sp_id new = map fresh [k + 1..<k + 1 + n]" "distinct (map sp_name new)"
    "sp_name ` set new \<inter> sp_name ` set (ss_sessions s @ [?q]) = {}" "list_all good new"
    "prefix (ss_groups (upsert p s1)) (ss_groups s')"
    using assms(7) unfolding sessions_added_def up by blast
  have "[k..<k + (n + 1)] = k # [k + 1..<k + 1 + n]" by (simp add: upt_conv_Cons)
  then have "map sp_id (?q # new) = map fresh [k..<k + (n + 1)]" using new(2) assms(3) by simp
  moreover have "distinct (map sp_name (?q # new))" "sp_name ` set (?q # new) \<inter> sp_name ` set (ss_sessions s) = {}"
    using new(3,4) assms(5) by auto
  moreover have "prefix (ss_groups s) (ss_groups s')"
    using assms(2) up(2) new(6) by (meson prefix_order.trans)
  ultimately show ?thesis
    unfolding sessions_added_def using new(1,5) assms(6) by (intro conjI exI [of _ "?q # new"]) simp_all
qed

lemma import_profiles_added:
  assumes "import_profiles fresh ig ps k s = Inr s'" "inj fresh"
    "\<And>j. k \<le> j \<Longrightarrow> fresh j \<notin> sp_id ` set (ss_sessions s)"
  shows "sessions_added fresh k (length ps) s s' (\<lambda>p. clean_profile p \<and> validate_profile p = Inr ()) \<and>
    (groups_ok s \<longrightarrow> groups_ok s')"
  using assms
proof (induction ps arbitrary: k s)
  case (Cons p ps)
  obtain d s1 n p1 where p1: "p1 = sanitize_imported_profile (p\<lparr>sp_id := fresh k, sp_group := d, sp_name := n\<rparr>)"
    and s1: "s1 = s \<or> ensure_session_group d s = Inr s1"
    and n: "unique_imported_session_name s1 (sp_name p) = Inr n" and v: "validate_transferred_profile p1 = Inr ()"
    and rest: "import_profiles fresh ig ps (k + 1) (upsert p1 s1) = Inr s'"
    using Cons.prems(1) by (auto simp: Let_def and_then_Inr split: if_splits)
  have s1': "ss_sessions s1 = ss_sessions s" "prefix (ss_groups s) (ss_groups s1)" "groups_ok s \<longrightarrow> groups_ok s1"
    using s1 ensure_session_group_keeps [of d s s1] by auto
  have p1': "sp_id p1 = fresh k" "sp_name p1 = n" "clean_profile p1"
    unfolding p1 sanitize_imported_profile_def clean_profile_update
    by (simp_all add: sanitized_clean) (simp_all add: sanitize_transferred_profile_def)
  have "fresh k \<notin> sp_id ` set (ss_sessions s1)" using Cons.prems(3) s1'(1) by simp
  then have up: "ss_sessions (upsert p1 s1) = ss_sessions s @ [p1\<lparr>sp_group := normalize_group_name (sp_group p1)\<rparr>]"
    using upsert_fresh [of p1 s1] p1'(1) s1'(1) by simp
  have "fresh j \<notin> sp_id ` set (ss_sessions (upsert p1 s1))" if "k + 1 \<le> j" for j
    unfolding up using that Cons.prems(2,3) p1'(1) by (auto dest: injD)
  then have ih: "sessions_added fresh (k + 1) (length ps) (upsert p1 s1) s'
      (\<lambda>p. clean_profile p \<and> validate_profile p = Inr ())" "groups_ok (upsert p1 s1) \<longrightarrow> groups_ok s'"
    using Cons.IH [OF rest Cons.prems(2)] by blast+
  have "validate_profile p1 = Inr ()" using v by (auto simp: validate_transferred_profile_def and_then_Inr)
  then have "sessions_added fresh k (length ps + 1) s s' (\<lambda>p. clean_profile p \<and> validate_profile p = Inr ())"
    using p1' s1' n unique_session_name_free [OF n] Cons.prems(3) [of k]
    by (intro sessions_added_step [OF s1'(1,2) p1'(1) _ _ _ ih(1)]) simp_all
  then show ?case using ih(2) s1'(3) upsert_ok [of s1 p1] by simp
qed simp

lemma add_new_group:
  "add_group g s = Inr (s', b) \<Longrightarrow> groups_ok s \<longrightarrow> groups_ok s'"
  using add_group_ok by blast

lemma prepare_import_keeps:
  assumes "prepare_import_group e mode target s = Inr (s', ig)"
  shows "ss_sessions s' = ss_sessions s \<and> prefix (ss_groups s) (ss_groups s') \<and> (groups_ok s \<longrightarrow> groups_ok s')"
proof (cases mode)
  case SingleServer
  then show ?thesis
    using assms ensure_session_group_keeps [of target s]
    by (auto simp: prepare_import_group_def and_then_Inr split: if_splits)
next
  case IntoGroup
  then show ?thesis
    using assms ensure_session_group_keeps
    by (fastforce simp: prepare_import_group_def and_then_Inr split: if_splits)
next
  case AutomaticImport
  then show ?thesis
    using assms add_group_keeps add_new_group
    by (fastforce simp: prepare_import_group_def and_then_Inr split: transfer_kind.splits option.splits)
qed

section \<open>Properties\<close>

text \<open>
  C12. An import only adds: the sessions and groups that were there stay as they are, and every imported
  session is valid, has a fresh id and a name that no other session has, and carries neither stored
  credentials nor a pinned host key nor a detected system, whatever the imported text says.
\<close>

theorem import_adds_clean_sessions:
  assumes "import_session_transfer_into_store decode fresh input mode target s = Inr (s', n, g)"
    and "inj fresh" "\<forall>j. fresh j \<notin> sp_id ` set (ss_sessions s)" "groups_ok s"
  shows "groups_ok s' \<and> prefix (ss_groups s) (ss_groups s') \<and>
    (\<exists>new. ss_sessions s' = ss_sessions s @ new \<and> map sp_id new = map fresh [0..<n] \<and>
       distinct (map sp_name new) \<and> sp_name ` set new \<inter> sp_name ` set (ss_sessions s) = {} \<and>
       list_all (\<lambda>p. clean_profile p \<and> validate_profile p = Inr ()) new)"
proof -
  obtain e s1 ig where prep: "prepare_import_group e mode (normalize_group_name target) s = Inr (s1, ig)"
    and imp: "import_profiles fresh ig (en_profiles e) 0 s1 = Inr s'" and n: "n = length (en_profiles e)"
    using assms(1) by (auto simp: import_session_transfer_into_store_def and_then_Inr)
  note keep = prepare_import_keeps [OF prep]
  have "sessions_added fresh 0 n s1 s' (\<lambda>p. clean_profile p \<and> validate_profile p = Inr ()) \<and> (groups_ok s1 \<longrightarrow> groups_ok s')"
    unfolding n using import_profiles_added [OF imp assms(2)] assms(3) keep by simp
  then show ?thesis
    using keep assms(4) unfolding sessions_added_def by (auto intro: prefix_order.trans)
qed

definition sample_profile :: session_profile where
  "sample_profile = \<lparr>sp_id = 7, sp_name = ''web'', sp_group = [], sp_icon_override = None, sp_detected = None,
     sp_connection = ConnTelnet \<lparr>tc_host = ''h'', tc_port = 23\<rparr>\<rparr>"

definition sample_envelope :: transfer_envelope where
  "sample_envelope = \<lparr>en_format = SESSION_TRANSFER_FORMAT, en_version = 1, en_kind = KindServer,
     en_group = None, en_profiles = [sample_profile]\<rparr>"

lemma sample_texts: "trim ''web'' = ''web''" "trim ''h'' = ''h''" "trim ''x'' = ''x''"
  by (simp_all add: trim_plain plain_char_def)

lemma sample_valid: "validate_profile (sample_profile\<lparr>sp_id := i\<rparr>) = Inr ()"
  by (simp add: validate_profile_def sample_profile_def validate_required_text_def validate_optional_text_def
      validate_group_name_def validate_host_and_port_def sample_texts char_count_def is_continuation_def
      MAX_SESSION_NAME_CHARS_def MAX_HOST_CHARS_def MAX_GROUP_NAME_CHARS_def)

lemma sample_transferred: "validate_transferred_profile (sample_profile\<lparr>sp_id := i\<rparr>) = Inr ()"
  by (simp add: validate_transferred_profile_def sample_valid)
    (simp add: sample_profile_def validate_transfer_text_def sample_texts char_count_def is_continuation_def
      MAX_SESSION_NAME_CHARS_def MAX_HOST_CHARS_def)

lemma sample_sanitized: "sanitize_transferred_profile (sample_profile\<lparr>sp_id := i\<rparr>) = sample_profile\<lparr>sp_id := 0\<rparr>"
  by (simp add: sanitize_transferred_profile_def sample_profile_def modify_ssh_def)

lemma sample_parsed:
  "parse_session_transfer (\<lambda>_. Some sample_envelope) ''x'' = Inr (sample_envelope\<lparr>en_profiles := [sample_profile\<lparr>sp_id := 0\<rparr>]\<rparr>)"
  using sample_sanitized [of 7] sample_transferred [of 0]
  by (simp add: parse_session_transfer_def sample_texts MAX_SESSION_TRANSFER_BYTES_def sample_envelope_def
      validate_session_transfer_def SESSION_TRANSFER_VERSION_def MAX_SESSION_TRANSFER_PROFILES_def sample_profile_def)

theorem import_adds_clean_sessions_witness:
  "\<exists>s' n g. import_session_transfer_into_store (\<lambda>_. Some sample_envelope) (\<lambda>k. k + 100) ''x'' SingleServer []
      (empty_store) = Inr (s', n, g) \<and> groups_ok s' \<and> map sp_id (ss_sessions s') = [100]"
proof -
  let ?p = "sample_profile\<lparr>sp_id := 100\<rparr>"
  have san: "sanitize_imported_profile (sample_profile\<lparr>sp_id := 100, sp_group := [], sp_name := ''web''\<rparr>) = ?p"
    by (simp add: sanitize_imported_profile_def sanitize_transferred_profile_def sample_profile_def modify_ssh_def)
  have prep: "prepare_import_group (sample_envelope\<lparr>en_profiles := ps\<rparr>) SingleServer [] empty_store = Inr (empty_store, Some [])" for ps
    by (simp add: prepare_import_group_def sample_envelope_def)
  have name: "unique_imported_session_name empty_store ''web'' = Inr ''web''"
    by (simp add: unique_imported_session_name_def empty_store_def)
  have "sp_name sample_profile = ''web''" by (simp add: sample_profile_def)
  then have profiles: "import_profiles (\<lambda>k. k + 100) (Some []) [sample_profile\<lparr>sp_id := 0\<rparr>] 0 empty_store =
      Inr (upsert ?p empty_store)"
    using san sample_transferred [of 100] by (simp add: name Let_def)
  have imp: "import_session_transfer_into_store (\<lambda>_. Some sample_envelope) (\<lambda>k. k + 100) ''x'' SingleServer []
      empty_store = Inr (upsert ?p empty_store, 1, None)"
    by (simp add: import_session_transfer_into_store_def sample_parsed prep profiles del: import_profiles.simps)
  have "groups_ok empty_store" by (simp add: groups_ok_def empty_store_def)
  from import_adds_clean_sessions [OF imp _ _ this] show ?thesis
    using imp by (auto simp: inj_def empty_store_def)
qed

text \<open>
  C25. A copy of a session always gets a name, as long as fewer than \<open>2 ^ 32 - 2\<close> sessions exist: the
  searches end, and with a name that no session has. The name of an imported session is valid as soon as
  the one it came with is: at most 128 characters, no controls, not blank.
\<close>

theorem copies_find_names:
  assumes "length (ss_sessions s) < 2 ^ 32 - 2"
  shows "(\<exists>n. duplicate_session_name s name = Inr n \<and> n \<notin> sp_name ` set (ss_sessions s)) \<and>
    (\<exists>n. unique_imported_session_name s name = Inr n \<and> n \<notin> sp_name ` set (ss_sessions s) \<and>
      (validate_required_text SessionName name MAX_SESSION_NAME_CHARS = Inr () \<longrightarrow>
       validate_required_text SessionName n MAX_SESSION_NAME_CHARS = Inr ()))"
proof -
  let ?T = "sp_name ` set (ss_sessions s)"
  let ?taken = "\<lambda>x. \<exists>p \<in> set (ss_sessions s). sp_name p = x"
  have card: "card ?T \<le> length (ss_sessions s)" by (rule order.trans [OF card_image_le card_length]) simp
  have "\<exists>x. free_name (\<lambda>k. Inr ((name @ '' Copy'') @ '' '' @ show_nat k)) ?taken 2 = Inr x"
  proof (rule free_name_succeeds [where T = ?T])
    show "inj_on (\<lambda>k. (name @ '' Copy'') @ '' '' @ show_nat k) {2..2 + card ?T}"
      using numbered_inj [of "name @ '' Copy''" _ "name @ '' Copy''"] by (intro inj_onI) simp
  qed (use card assms in auto)
  then have dup: "\<exists>n. duplicate_session_name s name = Inr n"
    by (auto simp: duplicate_session_name_def Let_def)
  have "\<exists>x. free_name (\<lambda>k. Inr (copy_name MAX_SESSION_NAME_CHARS name k)) ?taken 1 = Inr x"
  proof (rule free_name_succeeds [where T = ?T])
    show "inj_on (copy_name MAX_SESSION_NAME_CHARS name) {1..1 + card ?T}"
      by (intro inj_onI) (rule copy_name_inj)
  qed (use card assms in auto)
  then obtain n where n: "unique_imported_session_name s name = Inr n"
    unfolding unique_imported_session_name_def by (cases "\<exists>p \<in> set (ss_sessions s). sp_name p = name") auto
  have "validate_required_text SessionName n MAX_SESSION_NAME_CHARS = Inr ()"
    if v: "validate_required_text SessionName name MAX_SESSION_NAME_CHARS = Inr ()"
  proof (cases "n = name")
    case False
    then obtain k where "k < 2 ^ 32" "n = copy_name MAX_SESSION_NAME_CHARS name k"
      using n by (auto simp: unique_imported_session_name_def split: if_splits dest!: free_name_found)
    then show ?thesis
      using v copy_name_ok [of k MAX_SESSION_NAME_CHARS name]
      by (auto simp: validate_required_text_def validate_optional_text_def MAX_SESSION_NAME_CHARS_def split: if_splits)
  qed (use v in simp)
  then show ?thesis
    using dup n duplicate_session_name_free unique_session_name_free by blast
qed

theorem copies_find_names_witness:
  "\<exists>n. duplicate_session_name (empty_store\<lparr>ss_sessions := [sample_profile]\<rparr>) ''web'' = Inr n \<and>
     n \<notin> sp_name ` set (ss_sessions (empty_store\<lparr>ss_sessions := [sample_profile]\<rparr>))"
  using copies_find_names [of "empty_store\<lparr>ss_sessions := [sample_profile]\<rparr>" "''web''"] by simp

lemma sanitize_twice: "sanitize_transferred_profile (sanitize_transferred_profile p) = sanitize_transferred_profile p"
  by (auto simp: sanitize_transferred_profile_def modify_ssh_def split: connection_profile.splits)

text \<open>
  C26. What was exported can be read again: parsing the text of an exported group gives exactly the
  sessions of the group, in order, without ids, credentials, pinned keys and detections. \<open>decode\<close> is
  only assumed to read what \<open>encode\<close> writes.
\<close>

theorem exported_group_parses:
  assumes "export_session_group encode name s = Inr out" "trim out \<noteq> []"
    and "\<forall>e. encode e = out \<longrightarrow> decode out = Some e"
  shows "parse_session_transfer decode out = Inr
    \<lparr>en_format = SESSION_TRANSFER_FORMAT, en_version = SESSION_TRANSFER_VERSION, en_kind = KindGroup,
     en_group = Some (normalize_group_name name),
     en_profiles = map sanitize_transferred_profile (group_members (normalize_group_name name) s)\<rparr>"
proof -
  let ?ps = "map sanitize_transferred_profile (group_members (normalize_group_name name) s)"
  let ?e = "\<lparr>en_format = SESSION_TRANSFER_FORMAT, en_version = SESSION_TRANSFER_VERSION, en_kind = KindGroup,
     en_group = Some (normalize_group_name name), en_profiles = ?ps\<rparr>"
  have e: "out = encode ?e" "validate_session_transfer ?e = Inr ()" "length out \<le> MAX_SESSION_TRANSFER_BYTES"
    using assms(1)
    by (auto simp: export_session_group_def serialize_session_transfer_def and_then_Inr
        normalized_transfer_group_iff Let_def split: if_splits)
  have "decode out = Some ?e" using e(1) assms(3) by simp
  then show ?thesis
    using e(2,3) assms(2) by (simp add: parse_session_transfer_def sanitize_twice comp_def Let_def)
qed

definition grouped_store :: "unit session_store" where
  "grouped_store = empty_store\<lparr>ss_groups := [''g''], ss_sessions := [sample_profile\<lparr>sp_group := ''g''\<rparr>]\<rparr>"

theorem exported_group_parses_witness:
  "let e = \<lparr>en_format = SESSION_TRANSFER_FORMAT, en_version = SESSION_TRANSFER_VERSION, en_kind = KindGroup,
      en_group = Some (normalize_group_name ''g''),
      en_profiles = map sanitize_transferred_profile (group_members (normalize_group_name ''g'') grouped_store)\<rparr> in
   parse_session_transfer (\<lambda>_. Some e) ''x'' = Inr e"
proof -
  have g: "normalize_group_name ''g'' = ''g''"
    by (simp add: normalize_group_name_def trim_plain plain_char_def eq_ignore_ascii_case_def to_ascii_lowercase_def)
  let ?p = "sample_profile\<lparr>sp_id := 0, sp_group := ''g''\<rparr>"
  let ?e = "\<lparr>en_format = SESSION_TRANSFER_FORMAT, en_version = SESSION_TRANSFER_VERSION, en_kind = KindGroup,
     en_group = Some ''g'', en_profiles = [?p]\<rparr>"
  have members: "group_members ''g'' grouped_store = [sample_profile\<lparr>sp_group := ''g''\<rparr>]"
    by (simp add: group_members_def grouped_store_def g)
  have san: "sanitize_transferred_profile (sample_profile\<lparr>sp_group := ''g''\<rparr>) = ?p"
    by (simp add: sanitize_transferred_profile_def sample_profile_def modify_ssh_def g)
  have vg: "validate_group_name ''g'' a = Inr ()" for a
    by (simp add: validate_group_name_def g char_count_def is_continuation_def MAX_GROUP_NAME_CHARS_def)
  have "validate_profile ?p = Inr ()"
    using sample_valid [of 0] vg by (simp add: validate_profile_def split: sum.splits)
  then have "validate_transferred_profile ?p = Inr ()"
    using sample_transferred [of 0] by (simp add: validate_transferred_profile_def and_then_Inr)
  then have v: "validate_session_transfer ?e = Inr ()"
    using vg by (simp add: validate_session_transfer_def MAX_SESSION_TRANSFER_PROFILES_def
        normalized_transfer_group_name_def add_group_def g)
  have groups: "ss_groups grouped_store = [''g'']" by (simp add: grouped_store_def)
  let ?enc = "\<lambda>e. if e = ?e then ''x'' else ''yy''"
  have "normalized_transfer_group_name ''g'' = Inr ''g''"
    by (simp add: normalized_transfer_group_iff g vg)
  then have ex: "export_session_group ?enc ''g'' grouped_store = Inr ''x''"
    using v by (simp add: export_session_group_def members san serialize_session_transfer_def
        MAX_SESSION_TRANSFER_PROFILES_def MAX_SESSION_TRANSFER_BYTES_def groups)
  have "parse_session_transfer (\<lambda>_. Some ?e) ''x'' = Inr
    \<lparr>en_format = SESSION_TRANSFER_FORMAT, en_version = SESSION_TRANSFER_VERSION, en_kind = KindGroup,
     en_group = Some (normalize_group_name ''g''),
     en_profiles = map sanitize_transferred_profile (group_members (normalize_group_name ''g'') grouped_store)\<rparr>"
    by (rule exported_group_parses [OF ex]) (simp_all add: sample_texts)
  then show ?thesis by (simp add: g members san)
qed

end
