(* ===== verification/Config_Store.thy ===== *)
theory Config_Store
  imports Session_Transfer
begin

text \<open>
  Loading and saving the session store (\<^verbatim>\<open>ConfigStore\<close> in \<^verbatim>\<open>src/config/persistence.rs\<close>) and
  the transaction around every change of sessions and groups (\<^verbatim>\<open>update_session_store_with\<close> in
  \<^verbatim>\<open>src/app/workspace/session_management.rs\<close>). JSON is serde: a \<open>codec\<close> of the store is a
  parameter, and so is the default store of a first start.
\<close>

section \<open>Loading and saving\<close>

definition MAX_CONFIG_FILE_BYTES :: nat where "MAX_CONFIG_FILE_BYTES = 8 * 1024 * 1024"

record 's codec =
  cd_encode :: "'s session_store \<Rightarrow> string option"
  cd_decode :: "string \<Rightarrow> 's session_store option"
  cd_default :: "'s session_store"

record read_faults =
  rf_open :: bool
  rf_metadata :: bool
  rf_read :: bool

datatype config_error =
  OpenFailed | InspectFailed | ReadFailed | FileTooLarge | InvalidStore | ValidationFailed store_error
| EncodeFailed | EncodedTooLarge | WriteError write_error | UpdateFailed transfer_error

definition config_load :: "'s codec \<Rightarrow> read_faults \<Rightarrow> file_path \<Rightarrow> disk \<Rightarrow> config_error + 's session_store" where
  "config_load cd rf path d =
     (case dk_files d path of
        None \<Rightarrow> Inr (cd_default cd)
      | Some f \<Rightarrow>
          if rf_open rf then Inl OpenFailed
          else if rf_metadata rf then Inl InspectFailed
          else if MAX_CONFIG_FILE_BYTES < length (fe_bytes f) then Inl FileTooLarge
          else if rf_read rf then Inl ReadFailed
          else (case cd_decode cd (fe_bytes f) of None \<Rightarrow> Inl InvalidStore | Some s \<Rightarrow> Inr s))"

definition config_save ::
  "'s codec \<Rightarrow> write_faults \<Rightarrow> nat \<Rightarrow> (nat \<Rightarrow> string) \<Rightarrow> file_path \<Rightarrow> 's session_store \<Rightarrow> disk \<Rightarrow>
   disk \<times> (config_error + unit)" where
  "config_save cd fl umask_mode sfx path s d =
     (case validate_store s of
        Inl e \<Rightarrow> (d, Inl (ValidationFailed e))
      | Inr _ \<Rightarrow>
          case cd_encode cd s of
            None \<Rightarrow> (d, Inl EncodeFailed)
          | Some bytes \<Rightarrow>
              if MAX_CONFIG_FILE_BYTES < length bytes then (d, Inl EncodedTooLarge)
              else
                case write_private_file_atomically fl umask_mode sfx path bytes d of
                  (d1, Inl e) \<Rightarrow> (d1, Inl (WriteError e))
                | (d1, Inr _) \<Rightarrow> (d1, Inr ()))"

section \<open>The transaction\<close>

definition update_session_store_with ::
  "'s codec \<Rightarrow> read_faults \<Rightarrow> write_faults \<Rightarrow> nat \<Rightarrow> (nat \<Rightarrow> string) \<Rightarrow> file_path \<Rightarrow>
   ('s session_store \<Rightarrow> transfer_error + 's session_store \<times> 'r) \<Rightarrow> 's session_store \<Rightarrow> disk \<Rightarrow>
   's session_store \<times> disk \<times> (config_error + 'r)" where
  "update_session_store_with cd rf fl umask_mode sfx path update mem d =
     (case config_load cd rf path d of
        Inl e \<Rightarrow> (mem, d, Inl e)
      | Inr loaded \<Rightarrow>
          let candidate = loaded\<lparr>ss_groups := ss_groups mem, ss_sessions := ss_sessions mem\<rparr> in
          case update candidate of
            Inl e \<Rightarrow> (mem, d, Inl (UpdateFailed e))
          | Inr (candidate1, res) \<Rightarrow>
              case config_save cd fl umask_mode sfx path candidate1 d of
                (d1, Inl e) \<Rightarrow> (mem, d1, Inl e)
              | (d1, Inr _) \<Rightarrow>
                  (mem\<lparr>ss_groups := ss_groups candidate1, ss_sessions := ss_sessions candidate1\<rparr>, d1, Inr res))"

section \<open>Facts\<close>

lemma config_save_Inr:
  assumes "config_save cd fl m sfx path s d = (d', Inr u)" "dk_past d = []"
  shows "\<exists>bytes. cd_encode cd s = Some bytes \<and> length bytes \<le> MAX_CONFIG_FILE_BYTES \<and> validate_store s = Inr () \<and>
    dk_files d' = (dk_files d)(path \<mapsto> \<lparr>fe_bytes = bytes, fe_mode = PRIVATE_FILE_MODE\<rparr>)"
proof -
  obtain bytes where b: "validate_store s = Inr ()" "cd_encode cd s = Some bytes" "length bytes \<le> MAX_CONFIG_FILE_BYTES"
    "write_private_file_atomically fl m sfx path bytes d = (d', Inr ())"
    using assms(1) by (auto simp: config_save_def split: sum.splits option.splits if_splits prod.splits)
  then show ?thesis using private_write [OF b(4) assms(2)] by simp
qed

lemma config_save_Inl:
  assumes "config_save cd fl m sfx path s d = (d', Inl e)" "dk_past d = []" "e \<noteq> WriteError SyncDirFailed"
  shows "dk_files d' path = dk_files d path"
proof -
  consider "d' = d" | bytes e' where "write_private_file_atomically fl m sfx path bytes d = (d', Inl e')" "e' \<noteq> SyncDirFailed"
    using assms by (auto simp: config_save_def split: sum.splits option.splits if_splits prod.splits)
  then show ?thesis
  proof cases
    case 2
    then show ?thesis using private_write [OF 2(1) assms(2)] by simp
  qed simp
qed

section \<open>Properties\<close>


definition sample_codec :: "unit codec" where
  "sample_codec = \<lparr>cd_encode = (\<lambda>s. if s = empty_store then Some ''x'' else None),
     cd_decode = (\<lambda>_. Some empty_store), cd_default = empty_store\<rparr>"

lemma plain_write_succeeds:
  "\<exists>d'. write_private_file_atomically no_write_faults 493 (\<lambda>_. ''u'') (''c'', ''s'') bytes blank_disk = (d', Inr ())"
  by (simp add: write_private_file_atomically_def no_write_faults_def blank_disk_def create_dir_all_def
      set_private_directory_permissions_def PRIVATE_DIR_MODE_def write_file_contents_with_sync_def
      create_private_temporary_file_def numeral_eq_Suc fill_file_def set_files_def Let_def)


end
