(* ===== verification/Connection_Latency.thy ===== *)
theory Connection_Latency
  imports Prelude
begin

text \<open>
  \<^verbatim>\<open>src/app/state/latency.rs\<close>: the latency shown for a connection. Instants and durations are
  nanoseconds; the current instant is the argument \<open>now\<close>, and \<open>stamp\<close> the wall clock time of the sample
  as \<^verbatim>\<open>chrono\<close> formats it.
\<close>

section \<open>State\<close>

definition SAMPLE_LIFETIME :: nat where "SAMPLE_LIFETIME = 90 * 10 ^ 9"

datatype latency_phase = Measuring | Measured | TimedOut | Stale | Unavailable

datatype quality = Good | Moderate | High | Poor

definition quality_for_micros :: "nat \<Rightarrow> quality" where
  "quality_for_micros micros =
     (if micros < 100000 then Good
      else if micros < 250000 then Moderate
      else if micros < 500000 then High
      else Poor)"

fun quality_name :: "quality \<Rightarrow> string" where
  "quality_name Good = ''good''"
| "quality_name Moderate = ''moderate''"
| "quality_name High = ''high''"
| "quality_name Poor = ''poor''"

record latency =
  la_phase :: latency_phase
  la_smoothed :: "nat option"
  la_quality :: "quality option"
  la_candidate :: "quality option"
  la_measured_at :: "nat option"
  la_observed_at :: "nat option"
  la_updated_at :: string

definition latency_default :: latency where
  "latency_default = \<lparr>la_phase = Measuring, la_smoothed = None, la_quality = None, la_candidate = None,
     la_measured_at = None, la_observed_at = None, la_updated_at = []\<rparr>"

section \<open>Operations\<close>

definition sample_fresh :: "nat \<Rightarrow> latency \<Rightarrow> bool" where
  "sample_fresh now l \<longleftrightarrow> la_phase l = Measured \<and>
     (case la_observed_at l of None \<Rightarrow> False | Some at \<Rightarrow> now - at < SAMPLE_LIFETIME)"

definition smooth :: "nat \<Rightarrow> nat \<Rightarrow> latency \<Rightarrow> nat" where
  "smooth now sample l =
     (if sample_fresh now l then
        case la_smoothed l of None \<Rightarrow> sample | Some previous \<Rightarrow> (previous * 4 + sample) div 5
      else sample)"

definition record_sample :: "nat \<Rightarrow> string \<Rightarrow> nat \<Rightarrow> nat \<Rightarrow> latency \<Rightarrow> latency" where
  "record_sample now stamp duration measured_at l =
     (if (case la_measured_at l of None \<Rightarrow> False | Some previous \<Rightarrow> measured_at \<le> previous) then l
      else if SAMPLE_LIFETIME \<le> now - measured_at then l\<lparr>la_phase := Stale\<rparr>
      else
        let sample = min (duration div 1000) (2 ^ 64 - 1);
            smoothed = smooth now sample l;
            q = quality_for_micros smoothed;
            l1 = (if \<not> sample_fresh now l \<or> la_quality l = Some q \<or> la_candidate l = Some q
                  then l\<lparr>la_quality := Some q, la_candidate := None\<rparr>
                  else l\<lparr>la_candidate := Some q\<rparr>) in
        l1\<lparr>la_smoothed := Some smoothed, la_measured_at := Some measured_at,
           la_observed_at := Some measured_at, la_phase := Measured, la_updated_at := stamp\<rparr>)"

definition record_timeout :: "nat \<Rightarrow> latency \<Rightarrow> latency" where
  "record_timeout now l = l\<lparr>la_phase := TimedOut, la_observed_at := Some now, la_candidate := None\<rparr>"

definition latency_expire :: "latency \<Rightarrow> latency" where
  "latency_expire l = l\<lparr>la_phase := Stale\<rparr>"

definition latency_unavailable :: "latency \<Rightarrow> latency" where
  "latency_unavailable l = l\<lparr>la_phase := Unavailable\<rparr>"

record latency_view =
  ls_state :: string
  ls_milliseconds :: nat
  ls_updated_at :: string

definition latency_state :: "nat \<Rightarrow> latency \<Rightarrow> string" where
  "latency_state now l =
     (if la_phase l \<in> {Measured, TimedOut} \<and>
         (case la_observed_at l of None \<Rightarrow> False | Some at \<Rightarrow> SAMPLE_LIFETIME \<le> now - at) then ''stale''
      else
        case la_phase l of
          Measuring \<Rightarrow> ''measuring''
        | Measured \<Rightarrow> (case la_quality l of None \<Rightarrow> ''measuring'' | Some q \<Rightarrow> quality_name q)
        | TimedOut \<Rightarrow> ''timeout''
        | Stale \<Rightarrow> ''stale''
        | Unavailable \<Rightarrow> ''unavailable'')"

text \<open>\<^verbatim>\<open>div_ceil(1000).min(i32::MAX)\<close>\<close>

definition latency_snapshot :: "nat \<Rightarrow> latency \<Rightarrow> latency_view" where
  "latency_snapshot now l =
     \<lparr>ls_state = latency_state now l,
      ls_milliseconds = min (((case la_smoothed l of None \<Rightarrow> 0 | Some s \<Rightarrow> s) + 999) div 1000) (2 ^ 31 - 1),
      ls_updated_at = la_updated_at l\<rparr>"

section \<open>Reachable states\<close>

inductive latency_step :: "latency \<Rightarrow> latency \<Rightarrow> bool" where
  sample: "latency_step l (record_sample now stamp duration measured_at l)"
| timeout: "latency_step l (record_timeout now l)"
| expire: "latency_step l (latency_expire l)"
| unavailable: "latency_step l (latency_unavailable l)"

text \<open>A waiting colour is the colour of the last smoothed value and not the one shown.\<close>

definition latency_ok :: "latency \<Rightarrow> bool" where
  "latency_ok l \<longleftrightarrow>
     (\<forall>c. la_candidate l = Some c \<longrightarrow> la_quality l \<noteq> Some c \<and>
        (\<exists>s. la_smoothed l = Some s \<and> quality_for_micros s = c)) \<and>
     (la_phase l = Measured \<longrightarrow> la_quality l \<noteq> None \<and> la_smoothed l \<noteq> None)"

lemma latency_step_ok: "latency_step l l' \<Longrightarrow> latency_ok l \<Longrightarrow> latency_ok l'"
  by (induction rule: latency_step.induct)
     (auto simp: latency_ok_def record_sample_def Let_def record_timeout_def latency_expire_def
       latency_unavailable_def sample_fresh_def split: option.splits if_splits)

lemma latency_reachable_ok:
  assumes "latency_step\<^sup>*\<^sup>* latency_default l"
  shows "latency_ok l"
  using assms
proof (induction rule: rtranclp_induct)
  case base
  show ?case by (simp add: latency_ok_def latency_default_def)
next
  case step
  then show ?case by (blast intro: latency_step_ok)
qed

lemma smooth_between:
  assumes "\<And>p. la_smoothed l = Some p \<Longrightarrow> lo \<le> p \<and> p \<le> hi" "lo \<le> s" "s \<le> hi"
  shows "lo \<le> smooth now s l \<and> smooth now s l \<le> hi"
proof (cases "la_smoothed l")
  case None
  then show ?thesis using assms(2,3) by (simp add: smooth_def)
next
  case (Some p)
  with assms show ?thesis by (auto simp: smooth_def less_eq_div_iff_mult_less_eq div_le_mono
    intro!: less_mult_imp_div_less [THEN less_Suc_eq_le [THEN iffD1]])
qed

section \<open>Properties\<close>

text \<open>
  The colour shown for the latency of a connection is stable: in every reachable state a fresh sample
  changes the colour only when the smoothed value before it was already in the new band, so it takes two
  smoothed values in a row; and the smoothed value never leaves the range of the previous value and
  the sample.
\<close>

theorem latency_colour_needs_two_samples:
  assumes "latency_step\<^sup>*\<^sup>* latency_default l" "sample_fresh now l"
    and "la_quality (record_sample now stamp duration measured_at l) \<noteq> la_quality l"
  shows "\<exists>before after. la_smoothed l = Some before \<and>
    la_smoothed (record_sample now stamp duration measured_at l) = Some after \<and>
    quality_for_micros before = quality_for_micros after \<and>
    la_quality (record_sample now stamp duration measured_at l) = Some (quality_for_micros after) \<and>
    min before (min (duration div 1000) (2 ^ 64 - 1)) \<le> after \<and>
    after \<le> max before (min (duration div 1000) (2 ^ 64 - 1))"
proof -
  let ?s = "min (duration div 1000) (2 ^ 64 - 1)"
  have ok: "latency_ok l" by (rule latency_reachable_ok [OF assms(1)])
  then obtain b where b: "la_smoothed l = Some b"
    using assms(2) by (auto simp: latency_ok_def sample_fresh_def)
  have "min b ?s \<le> smooth now ?s l \<and> smooth now ?s l \<le> max b ?s"
    by (rule smooth_between) (auto simp: b)
  with ok b assms(2,3) show ?thesis
    by (auto simp: latency_ok_def record_sample_def Let_def split: if_splits)
qed

text \<open>Two samples in the band of moderate latency after a good one.\<close>

definition latency_example :: latency where
  "latency_example = record_sample 20 ''b'' 700000000 20 (record_sample 10 ''a'' 90000000 10 latency_default)"

lemma latency_example_eq:
  "latency_example = \<lparr>la_phase = Measured, la_smoothed = Some 212000, la_quality = Some Good,
     la_candidate = Some Moderate, la_measured_at = Some 20, la_observed_at = Some 20, la_updated_at = ''b''\<rparr>"
  by (simp add: latency_example_def record_sample_def latency_default_def Let_def smooth_def sample_fresh_def
    SAMPLE_LIFETIME_def quality_for_micros_def)

theorem latency_colour_needs_two_samples_witness:
  "\<exists>before. la_smoothed latency_example = Some before \<and> quality_for_micros before = Moderate"
proof -
  have r: "latency_step\<^sup>*\<^sup>* latency_default latency_example"
    unfolding latency_example_def by (meson latency_step.sample r_into_rtranclp rtranclp_trans)
  have f: "sample_fresh 30 latency_example"
    by (simp add: latency_example_eq sample_fresh_def SAMPLE_LIFETIME_def)
  have q: "la_quality (record_sample 30 ''c'' 110000000 30 latency_example) = Some Moderate"
    using f by (simp add: record_sample_def latency_example_eq Let_def smooth_def SAMPLE_LIFETIME_def
      quality_for_micros_def)
  have "la_quality (record_sample 30 ''c'' 110000000 30 latency_example) \<noteq> la_quality latency_example"
    unfolding q by (simp add: latency_example_eq)
  from latency_colour_needs_two_samples [OF r f this] show ?thesis by (auto simp: q)
qed

end
