(* ===== verification/Terminal_Tab.thy ===== *)
theory Terminal_Tab
  imports Sftp_Transfers Connection_Latency Rust_Ascii
begin

text \<open>
  The state of one terminal or SFTP tab: \<^verbatim>\<open>TerminalTabState\<close> of \<^verbatim>\<open>src/app/state.rs\<close> with its
  operations in \<^verbatim>\<open>src/app/state/terminal.rs\<close>, the delays of \<^verbatim>\<open>src/app/connection/reconnect.rs\<close>,
  and what is offered to the user when a connection ended. The frames waiting to be drawn are left out.
  A worker is the identity of its handle; of the terminal model only its OSC 52 setting is read here,
  so \<^verbatim>\<open>Option<TerminalModel>\<close> is a \<open>bool option\<close>.
\<close>

section \<open>State\<close>

datatype connection_target = TargetTerminal | TargetSftp

fun opposite :: "connection_target \<Rightarrow> connection_target" where
  "opposite TargetTerminal = TargetSftp"
| "opposite TargetSftp = TargetTerminal"

lemma opposite_opposite [simp]: "opposite (opposite t) = t"
  by (cases t) simp_all

lemma opposite_neq [simp]: "opposite t \<noteq> t" "t \<noteq> opposite t"
  by (cases t; simp)+

datatype backend =
  SshBackend uuid "uuid option"
| SftpBackend uuid "uuid option"
| TelnetBackend uuid "uuid option"
| SerialBackend uuid "uuid option"
| LocalBackend

datatype worker = SshWorker uuid | TelnetWorker uuid | SerialWorker uuid | LocalWorker uuid

record media_state =
  md_job :: "uuid option"
  md_image_token :: "uuid option"
  md_files :: "uuid list"
  md_status :: string
  md_transcript :: string

definition media_default :: media_state where
  "media_default = \<lparr>md_job = None, md_image_token = None, md_files = [], md_status = [], md_transcript = []\<rparr>"

definition media_cancel :: "media_state \<Rightarrow> media_state" where
  "media_cancel m =
     m\<lparr>md_job := None, md_image_token := None, md_transcript := [], md_status := [], md_files := []\<rparr>"

record pending_host_key =
  hk_tab :: uuid
  hk_profile :: uuid
  hk_host :: string
  hk_port :: u16
  hk_fingerprint :: string
  hk_public_key :: "string option"
  hk_changed :: bool
  hk_revoked :: bool

text \<open>\<open>pb_cancel\<close> is the identity of the channel that cancels the probe.\<close>

record pending_probe =
  pb_tab :: uuid
  pb_profile :: uuid
  pb_cancel :: uuid

datatype ssh_phase =
  PhaseIdle
| Probing pending_probe
| AwaitingHostKey pending_host_key
| ConfirmingHostKey pending_host_key
| AwaitingAuthentication (vault_unlock_only: bool)
| LoadingStoredCredential

fun is_awaiting_authentication :: "ssh_phase \<Rightarrow> bool" where
  "is_awaiting_authentication (AwaitingAuthentication _) = True"
| "is_awaiting_authentication _ = False"

record pending_read =
  rd_formatter :: uuid
  rd_token :: u64
  rd_generation :: u64

record 'x terminal_tab =
  tt_media :: media_state
  tt_backend :: backend
  tt_worker :: "worker option"
  tt_terminal :: "bool option"
  tt_status :: string
  tt_connected :: bool
  tt_latency :: latency
  tt_system_release :: "string option"
  tt_worker_running :: bool
  tt_selection_revision :: int
  tt_sftp :: "'x sftp_browser"
  tt_sftp_initial_path :: "string option"
  tt_phase :: ssh_phase
  tt_generation :: u64
  tt_attempt :: nat
  tt_reconnecting :: bool
  tt_reconnect_enabled :: bool
  tt_pending_secret :: "string option"
  tt_pending_read :: "pending_read option"
  tt_read_token :: u64

section \<open>What a tab is connected to\<close>

definition is_local :: "'x terminal_tab \<Rightarrow> bool" where
  "is_local t \<longleftrightarrow> tt_backend t = LocalBackend"

definition is_sftp :: "'x terminal_tab \<Rightarrow> bool" where
  "is_sftp t \<longleftrightarrow> (case tt_backend t of SftpBackend _ _ \<Rightarrow> True | _ \<Rightarrow> False)"

definition connection_target_of :: "'x terminal_tab \<Rightarrow> connection_target" where
  "connection_target_of t = (if is_sftp t then TargetSftp else TargetTerminal)"

definition profile_id :: "'x terminal_tab \<Rightarrow> uuid option" where
  "profile_id t =
     (case tt_backend t of
        SshBackend p _ \<Rightarrow> Some p | SftpBackend p _ \<Rightarrow> Some p | TelnetBackend p _ \<Rightarrow> Some p
      | SerialBackend p _ \<Rightarrow> Some p | LocalBackend \<Rightarrow> None)"

definition ssh_route :: "'x terminal_tab \<Rightarrow> (uuid \<times> uuid option) option" where
  "ssh_route t =
     (case tt_backend t of
        SshBackend p a \<Rightarrow> Some (p, a) | SftpBackend p a \<Rightarrow> Some (p, a) | _ \<Rightarrow> None)"

definition telnet_route :: "'x terminal_tab \<Rightarrow> (uuid \<times> uuid option) option" where
  "telnet_route t = (case tt_backend t of TelnetBackend p a \<Rightarrow> Some (p, a) | _ \<Rightarrow> None)"

definition serial_route :: "'x terminal_tab \<Rightarrow> (uuid \<times> uuid option) option" where
  "serial_route t = (case tt_backend t of SerialBackend p a \<Rightarrow> Some (p, a) | _ \<Rightarrow> None)"

definition set_ssh_attempt :: "uuid option \<Rightarrow> 'x terminal_tab \<Rightarrow> 'x terminal_tab \<times> bool" where
  "set_ssh_attempt a t =
     (case tt_backend t of
        SshBackend p cur \<Rightarrow>
          ((if cur \<noteq> a then t\<lparr>tt_latency := latency_default\<rparr> else t)\<lparr>tt_backend := SshBackend p a\<rparr>, True)
      | SftpBackend p cur \<Rightarrow>
          ((if cur \<noteq> a then t\<lparr>tt_latency := latency_default\<rparr> else t)\<lparr>tt_backend := SftpBackend p a\<rparr>, True)
      | _ \<Rightarrow> (t, False))"

definition set_telnet_attempt :: "uuid option \<Rightarrow> 'x terminal_tab \<Rightarrow> 'x terminal_tab \<times> bool" where
  "set_telnet_attempt a t =
     (case tt_backend t of TelnetBackend p _ \<Rightarrow> (t\<lparr>tt_backend := TelnetBackend p a\<rparr>, True) | _ \<Rightarrow> (t, False))"

definition set_serial_attempt :: "uuid option \<Rightarrow> 'x terminal_tab \<Rightarrow> 'x terminal_tab \<times> bool" where
  "set_serial_attempt a t =
     (case tt_backend t of SerialBackend p _ \<Rightarrow> (t\<lparr>tt_backend := SerialBackend p a\<rparr>, True) | _ \<Rightarrow> (t, False))"

section \<open>The phase before a worker is started\<close>

definition is_ssh :: "'x terminal_tab \<Rightarrow> bool" where
  "is_ssh t \<longleftrightarrow> (case tt_backend t of SshBackend _ _ \<Rightarrow> True | SftpBackend _ _ \<Rightarrow> True | _ \<Rightarrow> False)"

definition ssh_phase_of :: "'x terminal_tab \<Rightarrow> ssh_phase option" where
  "ssh_phase_of t = (if is_ssh t then Some (tt_phase t) else None)"

definition set_ssh_phase :: "ssh_phase \<Rightarrow> 'x terminal_tab \<Rightarrow> 'x terminal_tab \<times> bool" where
  "set_ssh_phase ph t =
     (if \<not> is_ssh t then (t, False)
      else ((if ph = PhaseIdle then t\<lparr>tt_pending_secret := None\<rparr> else t)\<lparr>tt_phase := ph\<rparr>, True))"

definition set_pending_auth_secret :: "string \<Rightarrow> 'x terminal_tab \<Rightarrow> 'x terminal_tab \<times> bool" where
  "set_pending_auth_secret secret t =
     (if \<not> is_ssh t then (t, False) else (t\<lparr>tt_pending_secret := Some secret\<rparr>, True))"

definition take_pending_auth_secret :: "'x terminal_tab \<Rightarrow> 'x terminal_tab \<times> string option" where
  "take_pending_auth_secret t =
     (if \<not> is_ssh t then (t, None) else (t\<lparr>tt_pending_secret := None\<rparr>, tt_pending_secret t))"

definition take_pending_probe :: "'x terminal_tab \<Rightarrow> 'x terminal_tab \<times> pending_probe option" where
  "take_pending_probe t =
     (if \<not> is_ssh t then (t, None)
      else
        case tt_phase t of
          Probing probe \<Rightarrow> (t\<lparr>tt_phase := PhaseIdle\<rparr>, Some probe)
        | _ \<Rightarrow> (t, None))"

section \<open>Reading the clipboard for the remote program (OSC 52)\<close>

definition clipboard_ready :: "'x terminal_tab \<Rightarrow> bool" where
  "clipboard_ready t \<longleftrightarrow>
     tt_terminal t = Some True \<and> tt_connected t \<and> tt_worker_running t \<and> tt_worker t \<noteq> None"

definition offer_clipboard_read :: "uuid \<Rightarrow> 'x terminal_tab \<Rightarrow> 'x terminal_tab \<times> (u64 \<times> u64) option" where
  "offer_clipboard_read formatter t =
     (if \<not> clipboard_ready t then (t, None)
      else
        let next_token = (if tt_read_token t + 1 = 0 then 1 else tt_read_token t + 1) in
        (t\<lparr>tt_read_token := next_token,
           tt_pending_read := Some \<lparr>rd_formatter = formatter, rd_token = next_token,
             rd_generation = tt_generation t\<rparr>\<rparr>,
         Some (next_token, tt_generation t)))"

definition clipboard_read_key :: "'x terminal_tab \<Rightarrow> (u64 \<times> u64) option" where
  "clipboard_read_key t =
     (case tt_pending_read t of
        None \<Rightarrow> None
      | Some r \<Rightarrow>
          if rd_generation r = tt_generation t \<and> clipboard_ready t
          then Some (rd_token r, rd_generation r) else None)"

definition take_pending_clipboard_read :: "'x terminal_tab \<Rightarrow> 'x terminal_tab \<times> uuid option" where
  "take_pending_clipboard_read t =
     (case clipboard_read_key t of
        None \<Rightarrow> (t, None)
      | Some (token, generation) \<Rightarrow>
          if generation \<noteq> tt_generation t \<or> \<not> tt_connected t \<or> \<not> tt_worker_running t \<or> tt_worker t = None
          then (t, None)
          else
            (t\<lparr>tt_pending_read := None\<rparr>,
             case tt_pending_read t of
               None \<Rightarrow> None
             | Some r \<Rightarrow>
                 if rd_token r = token \<and> rd_generation r = generation then Some (rd_formatter r) else None))"

definition clear_clipboard_read :: "u64 \<Rightarrow> u64 \<Rightarrow> 'x terminal_tab \<Rightarrow> 'x terminal_tab \<times> bool" where
  "clear_clipboard_read token generation t =
     (case tt_pending_read t of
        None \<Rightarrow> (t, False)
      | Some r \<Rightarrow>
          if rd_token r = token \<and> rd_generation r = generation \<and> generation = tt_generation t
          then (t\<lparr>tt_pending_read := None\<rparr>, True) else (t, False))"

definition clear_pending_clipboard_read :: "'x terminal_tab \<Rightarrow> 'x terminal_tab \<times> bool" where
  "clear_pending_clipboard_read t = (t\<lparr>tt_pending_read := None\<rparr>, tt_pending_read t \<noteq> None)"

definition invalidate_selection :: "'x terminal_tab \<Rightarrow> 'x terminal_tab" where
  "invalidate_selection t =
     t\<lparr>tt_selection_revision :=
         (if tt_selection_revision t = 2 ^ 31 - 1 then 1 else tt_selection_revision t + 1)\<rparr>"

section \<open>Reconnecting\<close>

definition MAX_RECONNECT_ATTEMPTS :: nat where "MAX_RECONNECT_ATTEMPTS = 5"
definition RECONNECT_BASE_DELAY :: nat where "RECONNECT_BASE_DELAY = 1"
definition RECONNECT_MAX_DELAY :: nat where "RECONNECT_MAX_DELAY = 30"

text \<open>In seconds; the attempt is a \<^verbatim>\<open>u8\<close>.\<close>

definition reconnect_delay :: "nat \<Rightarrow> nat" where
  "reconnect_delay attempt =
     (let shift = min (attempt - 1) 5 in min (RECONNECT_BASE_DELAY * min (2 ^ shift) (2 ^ 32 - 1)) RECONNECT_MAX_DELAY)"

definition begin_reconnect :: "'x terminal_tab \<Rightarrow> 'x terminal_tab \<times> (u64 \<times> nat) option" where
  "begin_reconnect t =
     (if \<not> tt_reconnect_enabled t \<or> tt_reconnecting t \<or> tt_worker t \<noteq> None then (t, None)
      else if tt_attempt t + 1 > 2 ^ 8 - 1 then (t, None)
      else if tt_attempt t + 1 > MAX_RECONNECT_ATTEMPTS then (t, None)
      else (t\<lparr>tt_attempt := tt_attempt t + 1, tt_reconnecting := True\<rparr>,
            Some (tt_generation t, tt_attempt t + 1)))"

definition reconnect_current :: "u64 \<Rightarrow> 'x terminal_tab \<Rightarrow> bool" where
  "reconnect_current generation t \<longleftrightarrow>
     tt_reconnect_enabled t \<and> tt_generation t = generation \<and> tt_reconnecting t"

definition finish_reconnect_attempt :: "u64 \<Rightarrow> 'x terminal_tab \<Rightarrow> 'x terminal_tab \<times> bool" where
  "finish_reconnect_attempt generation t =
     (if tt_generation t \<noteq> generation then (t, False) else (t\<lparr>tt_reconnecting := False\<rparr>, True))"

definition mark_reconnect_connected :: "u64 \<Rightarrow> 'x terminal_tab \<Rightarrow> 'x terminal_tab \<times> bool" where
  "mark_reconnect_connected generation t =
     (if tt_generation t \<noteq> generation then (t, False)
      else (t\<lparr>tt_attempt := 0, tt_reconnecting := False, tt_reconnect_enabled := True\<rparr>, True))"

definition cancel_reconnect :: "'x terminal_tab \<Rightarrow> 'x terminal_tab" where
  "cancel_reconnect t =
     (let t1 = t\<lparr>tt_generation := tt_generation t + 1, tt_reconnecting := False, tt_reconnect_enabled := False\<rparr>;
          t2 = fst (clear_pending_clipboard_read t1) in
      t2\<lparr>tt_media := media_cancel (tt_media t2)\<rparr>)"

definition prepare_manual_retry :: "'x terminal_tab \<Rightarrow> 'x terminal_tab" where
  "prepare_manual_retry t =
     (let t1 = t\<lparr>tt_generation := tt_generation t + 1, tt_attempt := 0, tt_reconnecting := False,
            tt_reconnect_enabled := \<not> is_local t\<rparr>;
          t2 = fst (clear_pending_clipboard_read t1) in
      t2\<lparr>tt_media := media_cancel (tt_media t2)\<rparr>)"

definition enable_reconnect :: "'x terminal_tab \<Rightarrow> 'x terminal_tab" where
  "enable_reconnect t = t\<lparr>tt_reconnect_enabled := True\<rparr>"

text \<open>
  The part of \<^verbatim>\<open>schedule_reconnect\<close> under the lock: the generation and the attempt that the sleeping
  task keeps, and its delay.
\<close>

definition schedule_reconnect :: "'x terminal_tab \<Rightarrow> 'x terminal_tab \<times> (u64 \<times> nat \<times> nat) option" where
  "schedule_reconnect t =
     (case begin_reconnect t of
        (t1, None) \<Rightarrow>
          (if MAX_RECONNECT_ATTEMPTS \<le> tt_attempt t1
           then t1\<lparr>tt_status := ''Reconnect failed after '' @ show_nat MAX_RECONNECT_ATTEMPTS @
             '' attempts; retry manually''\<rparr> else t1, None)
      | (t1, Some (generation, attempt)) \<Rightarrow>
          (let delay = reconnect_delay attempt in
           (t1\<lparr>tt_status := ''Connection lost; reconnecting in '' @ show_nat delay @ ''s ('' @
              show_nat attempt @ ''/'' @ show_nat MAX_RECONNECT_ATTEMPTS @ '')''\<rparr>,
            Some (generation, attempt, delay))))"

text \<open>\<^verbatim>\<open>clear_reconnect_attempt\<close> on the tab that was found.\<close>

definition clear_reconnect_attempt :: "u64 \<Rightarrow> string \<Rightarrow> 'x terminal_tab \<Rightarrow> 'x terminal_tab \<times> bool" where
  "clear_reconnect_attempt generation status t =
     (case finish_reconnect_attempt generation t of
        (t1, False) \<Rightarrow> (t1, False)
      | (t1, True) \<Rightarrow> (t1\<lparr>tt_status := status\<rparr>, True))"

section \<open>What the user is offered when a connection ended\<close>

datatype notice_kind = NoticeNone | NoticeClipboardRead | NoticeReconnecting | NoticeEnded | NoticeFailed

record notice =
  nt_visible :: bool
  nt_severity :: string
  nt_kind :: notice_kind
  nt_message :: string
  nt_primary :: string
  nt_restart :: bool
  nt_secondary :: string

definition notice_default :: notice where
  "notice_default = \<lparr>nt_visible = False, nt_severity = [], nt_kind = NoticeNone, nt_message = [],
     nt_primary = [], nt_restart = False, nt_secondary = []\<rparr>"

definition notice_clipboard_read :: notice where
  "notice_clipboard_read = \<lparr>nt_visible = True, nt_severity = ''warning'', nt_kind = NoticeClipboardRead,
     nt_message = [], nt_primary = ''allow-osc52-clipboard-read'', nt_restart = False,
     nt_secondary = ''deny-osc52-clipboard-read''\<rparr>"

definition notice_reconnecting :: "string \<Rightarrow> notice" where
  "notice_reconnecting message = \<lparr>nt_visible = True, nt_severity = ''warning'', nt_kind = NoticeReconnecting,
     nt_message = message, nt_primary = [], nt_restart = False, nt_secondary = ''close-tab''\<rparr>"

definition notice_ended :: "string \<Rightarrow> bool \<Rightarrow> notice" where
  "notice_ended message restart = \<lparr>nt_visible = True, nt_severity = ''warning'', nt_kind = NoticeEnded,
     nt_message = message, nt_primary = ''retry'', nt_restart = restart, nt_secondary = ''close-tab''\<rparr>"

definition notice_failed :: "string \<Rightarrow> bool \<Rightarrow> notice" where
  "notice_failed message restart = \<lparr>nt_visible = True, nt_severity = ''error'', nt_kind = NoticeFailed,
     nt_message = (case strip_prefix ''Connection failed: '' message of Some m \<Rightarrow> m | None \<Rightarrow> message),
     nt_primary = ''retry'', nt_restart = restart, nt_secondary = ''close-tab''\<rparr>"

definition security_prompt_pending :: "'x terminal_tab \<Rightarrow> bool" where
  "security_prompt_pending t \<longleftrightarrow> tt_phase t \<noteq> PhaseIdle"

definition user_requested_disconnect_status :: "string \<Rightarrow> 'x terminal_tab \<Rightarrow> bool" where
  "user_requested_disconnect_status status t \<longleftrightarrow> \<not> tt_reconnect_enabled t \<and>
     (status = ''Disconnected'' \<or> status = ''Disconnecting...'' \<or> ends_with '' worker stopped'' status)"

definition failure_status :: "string \<Rightarrow> bool" where
  "failure_status text =
     (let status = to_ascii_lowercase text in
      contains_text ''failed'' status \<or> contains_text ''cannot '' status \<or>
      contains_text ''unavailable'' status \<or> contains_text ''not found'' status \<or>
      contains_text ''invalid'' status)"

definition ended_status :: "string \<Rightarrow> bool" where
  "ended_status status \<longleftrightarrow> status = ''Disconnected'' \<or> ends_with ''disconnected'' status \<or>
     ends_with ''worker stopped'' status \<or> starts_with ''Local shell exited:'' status"

definition notice_snapshot :: "'x terminal_tab \<Rightarrow> notice" where
  "notice_snapshot t =
     (if tt_pending_read t \<noteq> None then notice_clipboard_read
      else
        let status = trim (tt_status t) in
        if status = [] \<or> tt_connected t \<or> tt_worker_running t \<or> security_prompt_pending t \<or>
            user_requested_disconnect_status status t then notice_default
        else if tt_reconnecting t \<or> starts_with ''Connection lost; reconnecting'' status
        then notice_reconnecting status
        else if failure_status status then notice_failed status (is_local t)
        else if ended_status status then notice_ended status (is_local t)
        else notice_default)"

end
