(* ===== verification/Workspace_Tabs.thy ===== *)
theory Workspace_Tabs
  imports Terminal_Tab Session_Store Workspace_Snapshot
begin

text \<open>
  The tabs of the application: the part of \<^verbatim>\<open>AppState\<close> in \<^verbatim>\<open>src/app/state.rs\<close> that
  \<^verbatim>\<open>state/tabs.rs\<close>, \<^verbatim>\<open>state/tabs/terminal.rs\<close>, \<^verbatim>\<open>state/tabs/snapshots.rs\<close> and
  \<^verbatim>\<open>state/editor.rs\<close> work on. Fresh uuids are arguments; of the settings only the one for OSC 52 is
  read here. \<open>edits0\<close> is the empty state of the external editors and \<open>home_dir\<close> the default local
  directory.
\<close>

section \<open>State\<close>

record app_settings =
  se_osc52 :: bool

record editor_state =
  ed_draft :: uuid
  ed_profile :: "uuid option"
  ed_group :: string

datatype 'x tab_kind = TerminalKind "'x terminal_tab" | SettingsKind | EditorKind editor_state

record 'x app_tab =
  at_id :: uuid
  at_title :: string
  at_default_title :: string
  at_kind :: "'x tab_kind"
  at_companion :: "uuid option"

record 'x app_state =
  as_sessions :: "app_settings session_store"
  as_tabs :: "'x app_tab list"
  as_active :: "uuid option"
  as_numbers :: "(uuid, nat) mapping"
  as_mutations :: "(uuid, uuid) mapping"
  as_local_number :: nat
  as_serial_ports :: "string list"

definition app_state_new :: "app_settings session_store \<Rightarrow> 'x app_state" where
  "app_state_new sessions = \<lparr>as_sessions = sessions, as_tabs = [], as_active = None,
     as_numbers = Mapping.empty, as_mutations = Mapping.empty, as_local_number = 0, as_serial_ports = []\<rparr>"

section \<open>Lists of tabs\<close>

fun position :: "('a \<Rightarrow> bool) \<Rightarrow> 'a list \<Rightarrow> nat option" where
  "position p [] = None"
| "position p (x # xs) = (if p x then Some 0 else map_option Suc (position p xs))"

definition insert_at :: "nat \<Rightarrow> 'a \<Rightarrow> 'a list \<Rightarrow> 'a list" where
  "insert_at i x xs = take i xs @ x # drop i xs"

definition remove_at :: "nat \<Rightarrow> 'a list \<Rightarrow> 'a list" where
  "remove_at i xs = take i xs @ drop (Suc i) xs"

definition find_tab :: "uuid \<Rightarrow> 'x app_state \<Rightarrow> 'x app_tab option" where
  "find_tab i s = find (\<lambda>t. at_id t = i) (as_tabs s)"

definition has_tab :: "uuid \<Rightarrow> 'x app_state \<Rightarrow> bool" where
  "has_tab i s \<longleftrightarrow> (\<exists>t \<in> set (as_tabs s). at_id t = i)"

definition update_tab :: "uuid \<Rightarrow> ('x app_tab \<Rightarrow> 'x app_tab) \<Rightarrow> 'x app_state \<Rightarrow> 'x app_state" where
  "update_tab i f s = s\<lparr>as_tabs := update_first (\<lambda>t. at_id t = i) f (as_tabs s)\<rparr>"

fun kind_terminal :: "'x tab_kind \<Rightarrow> 'x terminal_tab option" where
  "kind_terminal (TerminalKind t) = Some t"
| "kind_terminal _ = None"

text \<open>\<^verbatim>\<open>find_map\<close> goes on after a tab with the id that is not a terminal.\<close>

definition terminal_of :: "uuid \<Rightarrow> 'x app_state \<Rightarrow> 'x terminal_tab option" where
  "terminal_of i s =
     (case find (\<lambda>t. at_id t = i \<and> kind_terminal (at_kind t) \<noteq> None) (as_tabs s) of
        None \<Rightarrow> None | Some t \<Rightarrow> kind_terminal (at_kind t))"

text \<open>\<^verbatim>\<open>if let Some(terminal) = app.terminal_mut(tab_id) { .. }\<close>\<close>

definition update_terminal :: "uuid \<Rightarrow> ('x terminal_tab \<Rightarrow> 'x terminal_tab) \<Rightarrow> 'x app_state \<Rightarrow> 'x app_state" where
  "update_terminal i f s =
     s\<lparr>as_tabs := update_first (\<lambda>t. at_id t = i \<and> kind_terminal (at_kind t) \<noteq> None)
        (\<lambda>t. t\<lparr>at_kind := (case at_kind t of TerminalKind x \<Rightarrow> TerminalKind (f x) | k \<Rightarrow> k)\<rparr>) (as_tabs s)\<rparr>"

definition ssh_connection_target :: "'x app_tab \<Rightarrow> (uuid \<times> connection_target \<times> uuid option) option" where
  "ssh_connection_target t =
     (case kind_terminal (at_kind t) of
        None \<Rightarrow> None
      | Some x \<Rightarrow>
          (case ssh_route x of
             None \<Rightarrow> None
           | Some (p, _) \<Rightarrow> Some (p, connection_target_of x, at_companion t)))"

definition profile_of :: "uuid \<Rightarrow> 'x app_state \<Rightarrow> session_profile option" where
  "profile_of p s = find (\<lambda>q. sp_id q = p) (ss_sessions (as_sessions s))"

section \<open>Opening tabs\<close>

definition for_standalone_tab :: "'x \<Rightarrow> string \<Rightarrow> string \<Rightarrow> 'x sftp_browser" where
  "for_standalone_tab edits0 home_dir local_dir =
     (let path = trim local_dir in
      (sftp_browser_default edits0)\<lparr>sb_local := local_directory_default
         \<lparr>ld_path := (if path = [] then home_dir else path), ld_status := ''Local directory ready''\<rparr>\<rparr>)"

definition new_terminal_state ::
  "backend \<Rightarrow> bool option \<Rightarrow> string \<Rightarrow> bool \<Rightarrow> bool \<Rightarrow> 'x sftp_browser \<Rightarrow> string option \<Rightarrow> 'x terminal_tab" where
  "new_terminal_state b term status running enabled browser initial =
     \<lparr>tt_media = media_default, tt_backend = b, tt_worker = None, tt_terminal = term, tt_status = status,
      tt_connected = False, tt_latency = latency_default, tt_system_release = None,
      tt_worker_running = running, tt_selection_revision = 0, tt_sftp = browser,
      tt_sftp_initial_path = initial, tt_phase = PhaseIdle, tt_generation = 0, tt_attempt = 0,
      tt_reconnecting = False, tt_reconnect_enabled = enabled, tt_pending_secret = None,
      tt_pending_read = None, tt_read_token = 0\<rparr>"

definition new_tab :: "uuid \<Rightarrow> string \<Rightarrow> 'x tab_kind \<Rightarrow> 'x app_tab" where
  "new_tab i title kind = \<lparr>at_id = i, at_title = title, at_default_title = title, at_kind = kind, at_companion = None\<rparr>"

definition push_tab :: "'x app_tab \<Rightarrow> 'x app_state \<Rightarrow> 'x app_state" where
  "push_tab t s = s\<lparr>as_tabs := as_tabs s @ [t], as_active := Some (at_id t)\<rparr>"

fun same_page :: "'x tab_kind \<Rightarrow> 'x tab_kind \<Rightarrow> bool" where
  "same_page SettingsKind SettingsKind = True"
| "same_page (EditorKind _) (EditorKind _) = True"
| "same_page _ _ = False"

definition open_singleton_tab :: "uuid \<Rightarrow> 'x tab_kind \<Rightarrow> string \<Rightarrow> 'x app_state \<Rightarrow> 'x app_state \<times> uuid" where
  "open_singleton_tab fresh kind title s =
     (case find (\<lambda>t. same_page (at_kind t) kind) (as_tabs s) of
        Some t \<Rightarrow> (s\<lparr>as_active := Some (at_id t)\<rparr>, at_id t)
      | None \<Rightarrow> (push_tab (new_tab fresh title kind) s, fresh))"

definition open_settings_tab :: "uuid \<Rightarrow> 'x app_state \<Rightarrow> 'x app_state \<times> uuid" where
  "open_settings_tab fresh s = open_singleton_tab fresh SettingsKind ''Settings'' s"

definition is_editor :: "'x app_tab \<Rightarrow> bool" where
  "is_editor t \<longleftrightarrow> (case at_kind t of EditorKind _ \<Rightarrow> True | _ \<Rightarrow> False)"

definition open_session_editor :: "uuid \<Rightarrow> editor_state \<Rightarrow> 'x app_state \<Rightarrow> 'x app_state \<times> uuid" where
  "open_session_editor fresh editor s =
     (let title = (case ed_profile editor of
                     None \<Rightarrow> ''New session''
                   | Some p \<Rightarrow>
                       (case profile_of p s of None \<Rightarrow> ''New session'' | Some q \<Rightarrow> ''Edit '' @ sp_name q)) in
      case find is_editor (as_tabs s) of
        Some t \<Rightarrow>
          (s\<lparr>as_tabs := update_first is_editor (\<lambda>t. t\<lparr>at_title := title, at_kind := EditorKind editor\<rparr>) (as_tabs s),
             as_active := Some (at_id t)\<rparr>, at_id t)
      | None \<Rightarrow> (push_tab (new_tab fresh title (EditorKind editor)) s, fresh))"

definition open_session_editor_for_profile :: "uuid \<Rightarrow> uuid \<Rightarrow> uuid \<Rightarrow> 'x app_state \<Rightarrow> 'x app_state \<times> bool" where
  "open_session_editor_for_profile fresh draft p s =
     (if profile_of p s = None then (s, False)
      else (fst (open_session_editor fresh \<lparr>ed_draft = draft, ed_profile = Some p, ed_group = []\<rparr> s), True))"

definition open_session_editor_for_group :: "uuid \<Rightarrow> uuid \<Rightarrow> string \<Rightarrow> 'x app_state \<Rightarrow> 'x app_state \<times> uuid" where
  "open_session_editor_for_group fresh draft g s =
     open_session_editor fresh \<lparr>ed_draft = draft, ed_profile = None, ed_group = normalize_group_name g\<rparr> s"

section \<open>Companions: the terminal and the SFTP tab of one session\<close>

definition unlink_companion :: "uuid \<Rightarrow> 'x app_state \<Rightarrow> 'x app_state" where
  "unlink_companion i s =
     (case find_tab i s of
        None \<Rightarrow> s
      | Some t \<Rightarrow>
          let s1 = update_tab i (\<lambda>t. t\<lparr>at_companion := None\<rparr>) s in
          case at_companion t of
            None \<Rightarrow> s1
          | Some c \<Rightarrow> update_tab c (\<lambda>u. if at_companion u = Some i then u\<lparr>at_companion := None\<rparr> else u) s1)"

definition link_companions :: "uuid \<Rightarrow> uuid \<Rightarrow> 'x app_state \<Rightarrow> 'x app_state" where
  "link_companions a b s =
     (let s1 = unlink_companion b (unlink_companion a s) in
      update_tab b (\<lambda>t. t\<lparr>at_companion := Some a\<rparr>) (update_tab a (\<lambda>t. t\<lparr>at_companion := Some b\<rparr>) s1))"

definition companion_fits :: "uuid \<Rightarrow> uuid \<Rightarrow> connection_target \<Rightarrow> 'x app_state \<Rightarrow> bool" where
  "companion_fits c p target s \<longleftrightarrow>
     (\<exists>t \<in> set (as_tabs s). at_id t = c \<and>
        (case ssh_connection_target t of None \<Rightarrow> False | Some (p', target', _) \<Rightarrow> p' = p \<and> target' = target))"

definition insert_connection_tab ::
  "'x app_tab \<Rightarrow> uuid \<Rightarrow> connection_target \<Rightarrow> uuid option \<Rightarrow> 'x app_state \<Rightarrow> 'x app_state \<times> uuid" where
  "insert_connection_tab t p target companion s =
     (let c = (case companion of None \<Rightarrow> None | Some c \<Rightarrow> if companion_fits c p (opposite target) s then Some c else None);
          index = (case c of
                     None \<Rightarrow> None
                   | Some c \<Rightarrow> map_option (\<lambda>i. case target of TargetTerminal \<Rightarrow> i | TargetSftp \<Rightarrow> i + 1)
                       (position (\<lambda>t. at_id t = c) (as_tabs s)));
          s1 = s\<lparr>as_tabs := insert_at (case index of None \<Rightarrow> length (as_tabs s) | Some i \<Rightarrow> i) t (as_tabs s)\<rparr>;
          s2 = (case c of None \<Rightarrow> s1 | Some c \<Rightarrow> link_companions (at_id t) c s1) in
      (s2\<lparr>as_active := Some (at_id t)\<rparr>, at_id t))"

fun terminal_backend :: "uuid \<Rightarrow> connection_profile \<Rightarrow> backend" where
  "terminal_backend p (ConnSsh _) = SshBackend p None"
| "terminal_backend p (ConnTelnet _) = TelnetBackend p None"
| "terminal_backend p (ConnSerial _) = SerialBackend p None"

definition open_terminal_tab_with_companion ::
  "'x \<Rightarrow> uuid \<Rightarrow> session_profile \<Rightarrow> uuid option \<Rightarrow> 'x app_state \<Rightarrow> 'x app_state \<times> uuid" where
  "open_terminal_tab_with_companion edits0 fresh profile companion s =
     (let number = sat_add (2 ^ 32 - 1) (case Mapping.lookup (as_numbers s) (sp_id profile) of None \<Rightarrow> 0 | Some n \<Rightarrow> n) 1;
          s1 = s\<lparr>as_numbers := Mapping.update (sp_id profile) number (as_numbers s)\<rparr>;
          state = new_terminal_state (terminal_backend (sp_id profile) (sp_connection profile))
            (Some (se_osc52 (ss_settings (as_sessions s)))) ''Preparing connection...'' False True
            (sftp_browser_default edits0) None;
          t = new_tab fresh (sp_name profile @ '' #'' @ show_nat number) (TerminalKind state) in
      insert_connection_tab t (sp_id profile) TargetTerminal companion s1)"

definition open_sftp_tab_with_companion_at_path ::
  "'x \<Rightarrow> string \<Rightarrow> uuid \<Rightarrow> session_profile \<Rightarrow> uuid option \<Rightarrow> string option \<Rightarrow> 'x app_state \<Rightarrow> 'x app_state \<times> uuid" where
  "open_sftp_tab_with_companion_at_path edits0 home_dir fresh profile companion initial s =
     (let dir = (case profile_ssh profile of None \<Rightarrow> [] | Some c \<Rightarrow> sc_local_path c);
          state = new_terminal_state (SftpBackend (sp_id profile) None) None
            ''Preparing SFTP connection...'' False True (for_standalone_tab edits0 home_dir dir) initial;
          t = new_tab fresh (sp_name profile @ '' SFTP'') (TerminalKind state) in
      insert_connection_tab t (sp_id profile) TargetSftp companion s)"

definition open_local_shell_tab :: "'x \<Rightarrow> uuid \<Rightarrow> 'x app_state \<Rightarrow> 'x app_state \<times> uuid" where
  "open_local_shell_tab edits0 fresh s =
     (let number = sat_add (2 ^ 32 - 1) (as_local_number s) 1;
          state = new_terminal_state LocalBackend (Some (se_osc52 (ss_settings (as_sessions s))))
            ''Starting local shell...'' True False (sftp_browser_default edits0) None in
      (push_tab (new_tab fresh (''Local Shell #'' @ show_nat number) (TerminalKind state))
         (s\<lparr>as_local_number := number\<rparr>), fresh))"

section \<open>Activating, moving and closing tabs\<close>

definition activate_tab :: "uuid \<Rightarrow> 'x app_state \<Rightarrow> 'x app_state \<times> bool" where
  "activate_tab i s = (if has_tab i s then (s\<lparr>as_active := Some i\<rparr>, True) else (s, False))"

datatype ssh_sftp_navigation = NavActivated uuid | NavConnect uuid connection_target uuid

definition switch_ssh_sftp_tab :: "'x app_state \<Rightarrow> 'x app_state \<times> ssh_sftp_navigation option" where
  "switch_ssh_sftp_tab s =
     (case as_active s of
        None \<Rightarrow> (s, None)
      | Some a \<Rightarrow>
          (case find_tab a s of
             None \<Rightarrow> (s, None)
           | Some t \<Rightarrow>
               (case ssh_connection_target t of
                  None \<Rightarrow> (s, None)
                | Some (p, cur, companion) \<Rightarrow>
                    let target = opposite cur in
                    case companion of
                      None \<Rightarrow> (s, Some (NavConnect p target a))
                    | Some c \<Rightarrow>
                        if companion_fits c p target s
                        then (s\<lparr>as_active := Some c\<rparr>, Some (NavActivated c))
                        else (unlink_companion a s, Some (NavConnect p target a)))))"

definition move_tab_for :: "uuid \<Rightarrow> nat \<Rightarrow> uuid list \<Rightarrow> 'x app_state \<Rightarrow> 'x app_state \<times> bool" where
  "move_tab_for i target_index visible s =
     (case position (\<lambda>v. v = i) visible of
        None \<Rightarrow> (s, False)
      | Some source \<Rightarrow>
          let target = min target_index (length visible - 1) in
          if source = target then (s, True)
          else
            let desired = insert_at target (visible ! source) (remove_at source visible) in
            case position (\<lambda>t. at_id t = i) (as_tabs s) of
              None \<Rightarrow> (s, False)
            | Some global \<Rightarrow>
                let t = as_tabs s ! global; rest = remove_at global (as_tabs s);
                    index = (if target + 1 < length desired
                             then position (\<lambda>u. at_id u = desired ! (target + 1)) rest
                             else if 0 < target
                             then map_option (\<lambda>k. k + 1) (position (\<lambda>u. at_id u = desired ! (target - 1)) rest)
                             else Some 0) in
                case index of
                  None \<Rightarrow> (s\<lparr>as_tabs := insert_at (min global (length rest)) t rest\<rparr>, False)
                | Some k \<Rightarrow> (s\<lparr>as_tabs := insert_at k t rest\<rparr>, True))"

text \<open>What a closed tab leaves behind: \<open>cl_probe\<close> was cancelled, \<open>cl_worker\<close> was asked to disconnect.\<close>

datatype closed_kind = ClosedTerminal (release_file_icon_cache: bool) | ClosedSettings | ClosedEditor

record closed_tab =
  cl_kind :: closed_kind
  cl_worker :: "worker option"
  cl_probe :: "pending_probe option"

definition is_sftp_tab :: "'x app_tab \<Rightarrow> bool" where
  "is_sftp_tab t \<longleftrightarrow> (case kind_terminal (at_kind t) of None \<Rightarrow> False | Some x \<Rightarrow> is_sftp x)"

definition close_tab :: "uuid \<Rightarrow> 'x app_state \<Rightarrow> 'x app_state \<times> closed_tab option" where
  "close_tab i s =
     (case position (\<lambda>t. at_id t = i) (as_tabs s) of
        None \<Rightarrow> (s, None)
      | Some index \<Rightarrow>
          let t = as_tabs s ! index;
              rest = remove_at index (as_tabs s);
              s1 = s\<lparr>as_tabs := rest\<rparr>;
              s2 = (case at_companion t of
                      None \<Rightarrow> s1
                    | Some c \<Rightarrow> update_tab c (\<lambda>u. if at_companion u = Some i then u\<lparr>at_companion := None\<rparr> else u) s1);
              closed = (case at_kind t of
                  TerminalKind x \<Rightarrow>
                    let (x1, probe) = take_pending_probe (cancel_reconnect x) in
                    \<lparr>cl_kind = ClosedTerminal (is_sftp x1 \<and> \<not> (\<exists>u \<in> set (as_tabs s2). is_sftp_tab u)),
                     cl_worker = tt_worker x1, cl_probe = probe\<rparr>
                | SettingsKind \<Rightarrow> \<lparr>cl_kind = ClosedSettings, cl_worker = None, cl_probe = None\<rparr>
                | EditorKind _ \<Rightarrow> \<lparr>cl_kind = ClosedEditor, cl_worker = None, cl_probe = None\<rparr>);
              s3 = (case at_kind t of EditorKind _ \<Rightarrow> s2\<lparr>as_serial_ports := []\<rparr> | _ \<Rightarrow> s2);
              s4 = (if as_active s3 = Some i
                    then s3\<lparr>as_active :=
                      (if index < length (as_tabs s3) then Some (at_id (as_tabs s3 ! index))
                       else if as_tabs s3 = [] then None else Some (at_id (last (as_tabs s3))))\<rparr>
                    else s3) in
          (s4, Some closed))"

definition take_resources :: "'x app_tab \<Rightarrow> 'x app_tab \<times> worker list \<times> pending_probe list" where
  "take_resources t =
     (case at_kind t of
        TerminalKind x \<Rightarrow>
          let (x1, probe) = take_pending_probe (x\<lparr>tt_media := media_cancel (tt_media x), tt_worker := None\<rparr>) in
          (t\<lparr>at_kind := TerminalKind x1\<rparr>,
           case tt_worker x of None \<Rightarrow> [] | Some w \<Rightarrow> [w], case probe of None \<Rightarrow> [] | Some pr \<Rightarrow> [pr])
      | _ \<Rightarrow> (t, [], []))"

definition drain_runtime_resources :: "'x app_state \<Rightarrow> 'x app_state \<times> worker list \<times> pending_probe list" where
  "drain_runtime_resources s =
     (let rs = map take_resources (as_tabs s) in
      (s\<lparr>as_tabs := map fst rs\<rparr>, concat (map (fst \<circ> snd) rs), concat (map (snd \<circ> snd) rs)))"

datatype security_prompt =
  NoPrompt | HostKeyPrompt pending_host_key | AuthenticationPrompt uuid session_profile bool

definition security_prompt_for :: "uuid option \<Rightarrow> 'x app_state \<Rightarrow> security_prompt" where
  "security_prompt_for tab s =
     (case tab of
        None \<Rightarrow> NoPrompt
      | Some i \<Rightarrow>
          (case terminal_of i s of
             None \<Rightarrow> NoPrompt
           | Some x \<Rightarrow>
               (case ssh_route x of
                  None \<Rightarrow> NoPrompt
                | Some (p, _) \<Rightarrow>
                    (case profile_of p s of
                       None \<Rightarrow> NoPrompt
                     | Some profile \<Rightarrow>
                         (case ssh_phase_of x of
                            Some (AwaitingHostKey prompt) \<Rightarrow>
                              if hk_tab prompt = i \<and> hk_profile prompt = p then HostKeyPrompt prompt else NoPrompt
                          | Some (AwaitingAuthentication vault_only) \<Rightarrow> AuthenticationPrompt i profile vault_only
                          | _ \<Rightarrow> NoPrompt)))))"

section \<open>Titles, settings, mutations\<close>

definition apply_terminal_title :: "uuid \<Rightarrow> string option \<Rightarrow> 'x app_state \<Rightarrow> 'x app_state \<times> bool" where
  "apply_terminal_title i title s =
     (case find_tab i s of
        None \<Rightarrow> (s, False)
      | Some t \<Rightarrow>
          if kind_terminal (at_kind t) = None then (s, False)
          else
            let new_title = (case title of None \<Rightarrow> at_default_title t | Some x \<Rightarrow> x) in
            if at_title t = new_title then (s, False)
            else (update_tab i (\<lambda>t. t\<lparr>at_title := new_title\<rparr>) s, True))"

text \<open>The part of \<^verbatim>\<open>apply_scrollback_setting\<close> that is about OSC 52.\<close>

definition apply_clipboard_setting :: "'x app_state \<Rightarrow> 'x app_state" where
  "apply_clipboard_setting s =
     (let allowed = se_osc52 (ss_settings (as_sessions s)) in
      s\<lparr>as_tabs := map (\<lambda>t. case at_kind t of
          TerminalKind x \<Rightarrow>
            if tt_terminal x = None then t
            else
              let x1 = x\<lparr>tt_terminal := Some allowed\<rparr> in
              t\<lparr>at_kind := TerminalKind (if allowed then x1 else fst (clear_pending_clipboard_read x1))\<rparr>
        | _ \<Rightarrow> t) (as_tabs s)\<rparr>)"

definition microphone_in_use :: "'x app_state \<Rightarrow> bool" where
  "microphone_in_use s \<longleftrightarrow>
     (\<exists>t \<in> set (as_tabs s). case kind_terminal (at_kind t) of None \<Rightarrow> False | Some x \<Rightarrow> md_job (tt_media x) \<noteq> None)"

definition begin_profile_mutation :: "uuid \<Rightarrow> uuid \<Rightarrow> 'x app_state \<Rightarrow> 'x app_state" where
  "begin_profile_mutation token p s = s\<lparr>as_mutations := Mapping.update p token (as_mutations s)\<rparr>"

definition profile_mutation_is_current :: "uuid \<Rightarrow> uuid \<Rightarrow> 'x app_state \<Rightarrow> bool" where
  "profile_mutation_is_current p token s \<longleftrightarrow> Mapping.lookup (as_mutations s) p = Some token"

definition profile_mutation_is_pending :: "uuid \<Rightarrow> 'x app_state \<Rightarrow> bool" where
  "profile_mutation_is_pending p s \<longleftrightarrow> Mapping.lookup (as_mutations s) p \<noteq> None"

definition finish_profile_mutation :: "uuid \<Rightarrow> uuid \<Rightarrow> 'x app_state \<Rightarrow> 'x app_state" where
  "finish_profile_mutation p token s =
     (if profile_mutation_is_current p token s then s\<lparr>as_mutations := Mapping.delete p (as_mutations s)\<rparr> else s)"

definition active_editor_identity :: "'x app_state \<Rightarrow> (uuid \<times> uuid \<times> uuid option) option" where
  "active_editor_identity s =
     (case as_active s of
        None \<Rightarrow> None
      | Some a \<Rightarrow>
          (case find_tab a s of
             None \<Rightarrow> None
           | Some t \<Rightarrow>
               (case at_kind t of EditorKind e \<Rightarrow> Some (at_id t, ed_draft e, ed_profile e) | _ \<Rightarrow> None)))"

definition editor_matches :: "uuid \<Rightarrow> uuid \<Rightarrow> 'x app_state \<Rightarrow> bool" where
  "editor_matches i draft s \<longleftrightarrow>
     (\<exists>t \<in> set (as_tabs s). at_id t = i \<and> (case at_kind t of EditorKind e \<Rightarrow> ed_draft e = draft | _ \<Rightarrow> False))"

definition terminal_companion_id :: "uuid \<Rightarrow> 'x app_state \<Rightarrow> uuid option" where
  "terminal_companion_id i s =
     (case find_tab i s of
        None \<Rightarrow> None
      | Some t \<Rightarrow>
          (case at_companion t of
             None \<Rightarrow> None
           | Some c \<Rightarrow>
               (case terminal_of c s of None \<Rightarrow> None | Some x \<Rightarrow> if \<not> is_sftp x then Some c else None)))"

definition sftp_companion_id :: "uuid \<Rightarrow> 'x app_state \<Rightarrow> uuid option" where
  "sftp_companion_id i s =
     (case find_tab i s of
        None \<Rightarrow> None
      | Some t \<Rightarrow>
          (case at_companion t of
             None \<Rightarrow> None
           | Some c \<Rightarrow>
               (case terminal_of c s of None \<Rightarrow> None | Some x \<Rightarrow> if is_sftp x then Some c else None)))"

section \<open>Saving and restoring tabs\<close>

fun backend_kind :: "backend \<Rightarrow> string" where
  "backend_kind (SftpBackend _ _) = ''sftp''"
| "backend_kind _ = ''terminal''"

fun kind_name :: "'x tab_kind \<Rightarrow> string" where
  "kind_name (TerminalKind x) = backend_kind (tt_backend x)"
| "kind_name SettingsKind = ''settings''"
| "kind_name (EditorKind _) = ''session-editor''"

text \<open>\<open>contents\<close> is the text of the terminal of a tab, as the terminal model gives it.\<close>

definition tab_snapshot :: "(uuid \<Rightarrow> string) \<Rightarrow> bool \<Rightarrow> 'x app_tab \<Rightarrow> workspace_tab" where
  "tab_snapshot contents include_text t =
     (case at_kind t of
        TerminalKind x \<Rightarrow>
          \<lparr>wt_id = at_id t, wt_title = at_default_title t, wt_kind = backend_kind (tt_backend x),
           wt_profile = profile_id x, wt_companion = at_companion t,
           wt_terminal_text = (if tt_terminal x \<noteq> None \<and> include_text then contents (at_id t) else []),
           wt_remote_path = sb_path (tt_sftp x), wt_local_path = ld_path (sb_local (tt_sftp x)),
           wt_status = tt_status x\<rparr>
      | SettingsKind \<Rightarrow>
          \<lparr>wt_id = at_id t, wt_title = at_title t, wt_kind = ''settings'', wt_profile = None,
           wt_companion = at_companion t, wt_terminal_text = [], wt_remote_path = [], wt_local_path = [],
           wt_status = []\<rparr>
      | EditorKind e \<Rightarrow>
          \<lparr>wt_id = at_id t, wt_title = at_title t, wt_kind = ''session-editor'', wt_profile = ed_profile e,
           wt_companion = at_companion t, wt_terminal_text = [], wt_remote_path = [], wt_local_path = [],
           wt_status = []\<rparr>)"

definition workspace_tab_snapshots :: "(uuid \<Rightarrow> string) \<Rightarrow> bool \<Rightarrow> 'x app_state \<Rightarrow> workspace_tab list" where
  "workspace_tab_snapshots contents include_text s = map (tab_snapshot contents include_text) (as_tabs s)"

definition workspace_snapshot :: "(uuid \<Rightarrow> string) \<Rightarrow> 'x app_state \<Rightarrow> workspace" where
  "workspace_snapshot contents s = \<lparr>ws_version = WORKSPACE_SNAPSHOT_VERSION,
     ws_tabs = workspace_tab_snapshots contents True s, ws_active = as_active s, ws_windows = []\<rparr>"

definition set_active_tab_from_snapshot :: "uuid option \<Rightarrow> 'x app_state \<Rightarrow> 'x app_state" where
  "set_active_tab_from_snapshot tab s =
     (case tab of None \<Rightarrow> s | Some i \<Rightarrow> if has_tab i s then s\<lparr>as_active := Some i\<rparr> else s)"

definition restored_connection_targets :: "'x app_state \<Rightarrow> (uuid \<times> uuid \<times> connection_target) list" where
  "restored_connection_targets s =
     List.map_filter (\<lambda>t. case kind_terminal (at_kind t) of
         None \<Rightarrow> None
       | Some x \<Rightarrow> map_option (\<lambda>p. (at_id t, p, connection_target_of x)) (profile_id x)) (as_tabs s)"

definition restored_local_tabs :: "'x app_state \<Rightarrow> uuid list" where
  "restored_local_tabs s =
     map at_id (filter (\<lambda>t. case kind_terminal (at_kind t) of None \<Rightarrow> False | Some x \<Rightarrow> is_local x) (as_tabs s))"

definition restore_backend :: "uuid \<Rightarrow> connection_profile \<Rightarrow> string \<Rightarrow> backend option" where
  "restore_backend p c kind =
     (if kind = ''sftp'' then (case c of ConnSsh _ \<Rightarrow> Some (SftpBackend p None) | _ \<Rightarrow> None)
      else Some (terminal_backend p c))"

definition restore_terminal :: "'x \<Rightarrow> string \<Rightarrow> 'x app_state \<Rightarrow> workspace_tab \<Rightarrow> 'x terminal_tab option" where
  "restore_terminal edits0 home_dir s w =
     (let allowed = se_osc52 (ss_settings (as_sessions s)) in
      case wt_profile w of
        None \<Rightarrow>
          Some (new_terminal_state LocalBackend (Some allowed) (wt_status w) False False (sftp_browser_default edits0) None)
      | Some p \<Rightarrow>
          (case profile_of p s of
             None \<Rightarrow> None
           | Some profile \<Rightarrow>
               (case restore_backend p (sp_connection profile) (wt_kind w) of
                  None \<Rightarrow> None
                | Some b \<Rightarrow>
                    let dir = (if wt_local_path w = []
                               then (case profile_ssh profile of None \<Rightarrow> [] | Some c \<Rightarrow> sc_local_path c)
                               else wt_local_path w);
                        browser = (if wt_kind w = ''sftp'' then for_standalone_tab edits0 home_dir dir
                                   else sftp_browser_default edits0)\<lparr>sb_path := wt_remote_path w\<rparr> in
                    Some (new_terminal_state b (if wt_kind w = ''sftp'' then None else Some allowed)
                      (if wt_status w = [] then ''Restored; reconnecting...'' else wt_status w) False True
                      browser (if wt_remote_path w = [] then None else Some (wt_remote_path w))))))"

definition restore_kind :: "'x \<Rightarrow> string \<Rightarrow> (uuid \<Rightarrow> uuid) \<Rightarrow> 'x app_state \<Rightarrow> workspace_tab \<Rightarrow> 'x tab_kind option" where
  "restore_kind edits0 home_dir draft s w =
     (if wt_kind w = ''terminal'' \<or> wt_kind w = ''sftp'' then map_option TerminalKind (restore_terminal edits0 home_dir s w)
      else if wt_kind w = ''settings'' then Some SettingsKind
      else if wt_kind w = ''session-editor''
      then Some (EditorKind \<lparr>ed_draft = draft (wt_id w), ed_profile = wt_profile w, ed_group = []\<rparr>)
      else None)"

fun restore_tabs :: "(workspace_tab \<Rightarrow> 'x tab_kind option) \<Rightarrow> workspace_tab list \<Rightarrow> 'x app_tab list \<Rightarrow> 'x app_tab list" where
  "restore_tabs kind_of [] tabs = tabs"
| "restore_tabs kind_of (w # ws) tabs =
     (if \<exists>t \<in> set tabs. at_id t = wt_id w then restore_tabs kind_of ws tabs
      else
        case kind_of w of
          None \<Rightarrow> restore_tabs kind_of ws tabs
        | Some k \<Rightarrow> restore_tabs kind_of ws (tabs @ [new_tab (wt_id w) (wt_title w) k]))"

definition kept_companion :: "uuid list \<Rightarrow> workspace_tab \<Rightarrow> uuid option" where
  "kept_companion restored w =
     (case wt_companion w of None \<Rightarrow> None | Some c \<Rightarrow> if c \<in> set restored then Some c else None)"

fun restore_companions :: "uuid list \<Rightarrow> workspace_tab list \<Rightarrow> 'x app_tab list \<Rightarrow> 'x app_tab list" where
  "restore_companions restored [] tabs = tabs"
| "restore_companions restored (w # ws) tabs =
     restore_companions restored ws
       (if wt_id w \<notin> set restored then tabs
        else update_first (\<lambda>t. at_id t = wt_id w)
          (\<lambda>t. t\<lparr>at_companion := kept_companion restored w\<rparr>) tabs)"

definition restore_workspace_tabs ::
  "'x \<Rightarrow> string \<Rightarrow> (uuid \<Rightarrow> uuid) \<Rightarrow> workspace_tab list \<Rightarrow> 'x app_state \<Rightarrow> 'x app_state \<times> uuid list" where
  "restore_workspace_tabs edits0 home_dir draft ws s =
     (let tabs = restore_tabs (restore_kind edits0 home_dir draft s) ws [];
          restored = map at_id tabs in
      (s\<lparr>as_serial_ports := [], as_tabs := restore_companions restored ws tabs,
         as_active := (case restored of [] \<Rightarrow> None | i # _ \<Rightarrow> Some i)\<rparr>, restored))"

record workspace_transfer =
  wx_source :: uuid
  wx_tabs :: "uuid list"
  wx_active :: "uuid option"

definition workspace_transfer_for_terminal_panes ::
  "uuid list \<Rightarrow> uuid \<Rightarrow> uuid \<Rightarrow> 'x app_state \<Rightarrow> workspace_transfer option" where
  "workspace_transfer_for_terminal_panes panes source act s =
     (if panes = [] \<or> \<not> (\<forall>i \<in> set panes. case terminal_of i s of None \<Rightarrow> False | Some x \<Rightarrow> \<not> is_sftp x) then None
      else
        let companions = List.map_filter (\<lambda>i. Option.bind (find_tab i s) at_companion) panes;
            included = set panes \<union> set companions in
        Some \<lparr>wx_source = source,
          wx_tabs = map at_id (filter (\<lambda>t. at_id t \<in> included) (as_tabs s)), wx_active = Some act\<rparr>)"

definition workspace_transfer_for_sftp :: "uuid \<Rightarrow> uuid \<Rightarrow> 'x app_state \<Rightarrow> workspace_transfer option" where
  "workspace_transfer_for_sftp i source s =
     (case terminal_of i s of
        None \<Rightarrow> None
      | Some x \<Rightarrow>
          if is_sftp x then Some \<lparr>wx_source = source, wx_tabs = [i], wx_active = Some i\<rparr> else None)"

end
