(* ===== verification/Tab_Facts.thy ===== *)
theory Tab_Facts
  imports Workspace_Tabs
begin

text \<open>
  What holds of the tabs in every reachable state, what moving and closing a tab do, and that the tabs
  a snapshot was taken of are the ones it restores.
\<close>

section \<open>Lists\<close>

lemma position_Some: "position p xs = Some i \<Longrightarrow> i < length xs \<and> p (xs ! i) \<and> (\<forall>j < i. \<not> p (xs ! j))"
  by (induction xs arbitrary: i) (auto split: if_splits simp: nth_Cons less_Suc_eq_0_disj split: nat.splits)

lemma position_None [simp]: "position p xs = None \<longleftrightarrow> (\<forall>x \<in> set xs. \<not> p x)"
  by (induction xs) auto

lemma position_split: "position p xs = Some i \<Longrightarrow> \<exists>ys x zs. xs = ys @ x # zs \<and> p x \<and> length ys = i \<and> (\<forall>y \<in> set ys. \<not> p y)"
proof -
  assume a: "position p xs = Some i"
  note f = position_Some [OF a]
  then have "xs = take i xs @ xs ! i # drop (Suc i) xs" by (simp add: id_take_nth_drop)
  moreover have "\<forall>y \<in> set (take i xs). \<not> p y" using f by (auto simp: in_set_conv_nth)
  ultimately show ?thesis using f by (metis length_take min.absorb4)
qed

lemma insert_at_split: "insert_at (length ys) x (ys @ zs) = ys @ x # zs"
  by (simp add: insert_at_def)

lemma remove_at_split: "remove_at (length ys) (ys @ x # zs) = ys @ zs"
  by (simp add: remove_at_def)

lemma mset_insert_at [simp]: "mset (insert_at i x xs) = add_mset x (mset xs)"
  by (simp add: insert_at_def) (metis append_take_drop_id mset_append)

lemma set_insert_at [simp]: "set (insert_at i x xs) = insert x (set xs)"
  by (metis mset_insert_at set_mset_add_mset_insert set_mset_mset)

lemma distinct_insert_at: "distinct (map f xs) \<Longrightarrow> f x \<notin> f ` set xs \<Longrightarrow> distinct (map f (insert_at i x xs))"
proof -
  assume a: "distinct (map f xs)" "f x \<notin> f ` set xs"
  have "mset (map f (insert_at i x xs)) = mset (f x # map f xs)" by simp
  then show ?thesis using a by (metis distinct.simps(2) list.set_map mset_eq_imp_distinct_iff)
qed

lemma filter_insert_at: "\<not> p x \<Longrightarrow> filter p (insert_at i x xs) = filter p xs"
proof -
  assume "\<not> p x"
  then have "filter p (insert_at i x xs) = filter p (take i xs @ drop i xs)"
    unfolding insert_at_def filter_append by simp
  then show ?thesis by simp
qed

lemma length_filter_insert_at: "length (filter p (insert_at i x xs)) = length (filter p (x # xs))"
proof -
  have "mset (filter p (insert_at i x xs)) = mset (filter p (x # xs))" by simp
  then show ?thesis by (metis size_mset)
qed

section \<open>The invariant\<close>

definition companions_ok :: "'x app_tab set \<Rightarrow> bool" where
  "companions_ok ts \<longleftrightarrow>
     (\<forall>t \<in> ts. \<forall>c. at_companion t = Some c \<longrightarrow>
        c \<noteq> at_id t \<and> (\<exists>u \<in> ts. at_id u = c \<and> at_companion u = Some (at_id t)))"

definition is_settings :: "'x app_tab \<Rightarrow> bool" where
  "is_settings t \<longleftrightarrow> at_kind t = SettingsKind"

definition tab_list_ok :: "'x app_tab list \<Rightarrow> uuid option \<Rightarrow> bool" where
  "tab_list_ok ts act \<longleftrightarrow>
     distinct (map at_id ts) \<and> companions_ok (set ts) \<and>
     length (filter is_settings ts) \<le> 1 \<and> length (filter is_editor ts) \<le> 1 \<and>
     (case act of None \<Rightarrow> ts = [] | Some a \<Rightarrow> a \<in> at_id ` set ts)"

definition tabs_ok :: "'x app_state \<Rightarrow> bool" where
  "tabs_ok s \<longleftrightarrow> tab_list_ok (as_tabs s) (as_active s)"

lemma update_first_key:
  "distinct (map h xs) \<Longrightarrow> update_first (\<lambda>x. h x = k) f xs = map (\<lambda>x. if h x = k then f x else x) xs"
proof (induction xs)
  case (Cons x xs)
  have "h x = k \<Longrightarrow> map (\<lambda>y. if h y = k then f y else y) xs = xs"
    using Cons.prems by (intro map_idI) (auto simp: rev_image_eqI)
  with Cons show ?case by auto
qed simp

lemma same_id: "distinct (map at_id xs) \<Longrightarrow> t \<in> set xs \<Longrightarrow> u \<in> set xs \<Longrightarrow> at_id t = at_id u \<Longrightarrow> t = u"
  by (auto simp: distinct_map dest: inj_onD)

lemma find_tab_Some: "find_tab i s = Some t \<Longrightarrow> t \<in> set (as_tabs s) \<and> at_id t = i"
  unfolding find_tab_def by (auto dest: find_SomeD)

lemma find_tab_None: "find_tab i s = None \<Longrightarrow> t \<in> set (as_tabs s) \<Longrightarrow> at_id t \<noteq> i"
  unfolding find_tab_def by (auto dest: find_NoneD)

text \<open>A change of one tab that keeps its id, its kind and its companion keeps the invariant.\<close>

lemma length_filter_map: "length (filter p xs) = length (filter (\<lambda>b. b) (map p xs))"
  by (induction xs) auto

lemma tab_list_ok_shape:
  assumes "tab_list_ok ts act" "map at_id us = map at_id ts" "map is_settings us = map is_settings ts"
    "map is_editor us = map is_editor ts" "companions_ok (set us)"
  shows "tab_list_ok us act"
proof -
  have "at_id ` set us = at_id ` set ts" using assms(2) by (metis list.set_map)
  moreover have "us = [] \<longleftrightarrow> ts = []" using assms(2) by (metis map_is_Nil_conv)
  ultimately show ?thesis
    using assms unfolding tab_list_ok_def length_filter_map [of is_settings] length_filter_map [of is_editor]
    by (simp split: option.splits)
qed

lemma tab_list_okI2:
  assumes "distinct (map at_id ts)" "length (filter is_settings ts) \<le> 1" "length (filter is_editor ts) \<le> 1"
    "map at_id us = map at_id ts" "map is_settings us = map is_settings ts"
    "map is_editor us = map is_editor ts" "companions_ok (set us)"
    "case act of None \<Rightarrow> us = [] | Some a \<Rightarrow> a \<in> at_id ` set us"
  shows "tab_list_ok us act"
  using assms(1-3,7,8) unfolding tab_list_ok_def length_filter_map [of is_settings] length_filter_map [of is_editor]
    assms(4-6) by simp

lemma tab_list_ok_map:
  assumes "tab_list_ok ts act" "\<And>t. at_id (g t) = at_id t \<and> at_companion (g t) = at_companion t \<and>
      is_settings (g t) = is_settings t \<and> is_editor (g t) = is_editor t"
  shows "tab_list_ok (map g ts) act"
proof (rule tab_list_ok_shape [OF assms(1)])
  show "companions_ok (set (map g ts))"
    using assms by (fastforce simp: tab_list_ok_def companions_ok_def)
qed (use assms(2) in simp_all)

lemma tabs_ok_active: "tabs_ok s \<Longrightarrow> has_tab i s \<Longrightarrow> tabs_ok (s\<lparr>as_active := Some i\<rparr>)"
  by (auto simp: tabs_ok_def tab_list_ok_def has_tab_def)

lemma tabs_ok_other [simp]:
  "tabs_ok (s\<lparr>as_sessions := x\<rparr>) = tabs_ok s" "tabs_ok (s\<lparr>as_numbers := n\<rparr>) = tabs_ok s"
  "tabs_ok (s\<lparr>as_mutations := m\<rparr>) = tabs_ok s" "tabs_ok (s\<lparr>as_local_number := k\<rparr>) = tabs_ok s"
  "tabs_ok (s\<lparr>as_serial_ports := ps\<rparr>) = tabs_ok s"
  by (simp_all add: tabs_ok_def)

lemma companions_insert: "companions_ok ts \<Longrightarrow> at_companion t = None \<Longrightarrow> companions_ok (insert t ts)"
  by (fastforce simp: companions_ok_def)

text \<open>A new tab without a companion, anywhere.\<close>

lemma tabs_ok_insert:
  assumes "tabs_ok s" "at_id t \<notin> at_id ` set (as_tabs s)" "at_companion t = None"
    "is_settings t \<longrightarrow> \<not> (\<exists>u \<in> set (as_tabs s). is_settings u)" "is_editor t \<longrightarrow> \<not> (\<exists>u \<in> set (as_tabs s). is_editor u)"
  shows "tabs_ok (s\<lparr>as_tabs := insert_at i t (as_tabs s), as_active := Some (at_id t)\<rparr>)"
  using assms
  by (auto simp: tabs_ok_def tab_list_ok_def distinct_insert_at companions_insert length_filter_insert_at
      filter_empty_conv)

lemma insert_at_end: "insert_at (length xs) x xs = xs @ [x]"
  by (simp add: insert_at_def)

lemma push_tab_ok:
  assumes "tabs_ok s" "at_id t \<notin> at_id ` set (as_tabs s)" "at_companion t = None"
    "is_settings t \<longrightarrow> \<not> (\<exists>u \<in> set (as_tabs s). is_settings u)" "is_editor t \<longrightarrow> \<not> (\<exists>u \<in> set (as_tabs s). is_editor u)"
  shows "tabs_ok (push_tab t s)"
  using tabs_ok_insert [OF assms, of "length (as_tabs s)"] by (simp add: push_tab_def insert_at_end)

section \<open>Companions stay pairs\<close>

text \<open>Unlinking frees the tab and the one that points to it, and no other.\<close>

definition freed :: "uuid \<Rightarrow> 'x app_tab \<Rightarrow> 'x app_tab" where
  "freed i t = (if at_id t = i \<or> at_companion t = Some i then t\<lparr>at_companion := None\<rparr> else t)"

lemma freed_simps [simp]:
  "at_id (freed i t) = at_id t" "is_settings (freed i t) = is_settings t" "is_editor (freed i t) = is_editor t"
  by (simp_all add: freed_def is_settings_def is_editor_def)

lemma freed_sftp [simp]: "is_sftp_tab (freed i t) = is_sftp_tab t"
  by (simp add: freed_def is_sftp_tab_def)

lemma freed_away: "at_companion (freed i t) \<noteq> Some i"
  by (simp add: freed_def)

lemma freed_keeps: "at_companion t \<noteq> Some k \<Longrightarrow> at_companion (freed i t) \<noteq> Some k"
  by (simp add: freed_def)

lemma companions_freed: "companions_ok ts \<Longrightarrow> companions_ok (freed i ` ts)"
  unfolding companions_ok_def
proof (intro ballI allI impI)
  fix x c
  assume ok: "\<forall>t \<in> ts. \<forall>c. at_companion t = Some c \<longrightarrow>
      c \<noteq> at_id t \<and> (\<exists>u \<in> ts. at_id u = c \<and> at_companion u = Some (at_id t))"
    and x: "x \<in> freed i ` ts" "at_companion x = Some c"
  then obtain t where t: "t \<in> ts" "x = freed i t" by blast
  with x(2) have free: "at_id t \<noteq> i" "c \<noteq> i" "x = t" by (auto simp: freed_def split: if_splits)
  then have "at_companion t = Some c" using x(2) by simp
  with ok t(1) obtain u where u: "c \<noteq> at_id t" "u \<in> ts" "at_id u = c" "at_companion u = Some (at_id t)" by blast
  then have "freed i u = u" using free by (simp add: freed_def)
  then show "c \<noteq> at_id x \<and> (\<exists>u \<in> freed i ` ts. at_id u = c \<and> at_companion u = Some (at_id x))"
    using u free by (metis image_eqI)
qed

text \<open>For paired tabs \<open>unlink_companion\<close> is exactly that.\<close>

lemma unlink_tabs:
  assumes "tab_list_ok (as_tabs s) act" "has_tab i s"
  shows "as_tabs (unlink_companion i s) = map (freed i) (as_tabs s)"
proof -
  have d: "distinct (map at_id (as_tabs s))" and ok: "companions_ok (set (as_tabs s))"
    using assms(1) by (simp_all add: tab_list_ok_def)
  obtain t where f: "find_tab i s = Some t"
    using assms(2) find_tab_None [of i s] by (cases "find_tab i s") (auto simp: has_tab_def)
  note t = find_tab_Some [OF f]
  have upd: "as_tabs (update_tab i (\<lambda>t. t\<lparr>at_companion := None\<rparr>) s) =
      map (\<lambda>t. if at_id t = i then t\<lparr>at_companion := None\<rparr> else t) (as_tabs s)"
    by (simp add: update_tab_def update_first_key [OF d])
  show ?thesis
  proof (cases "at_companion t")
    case None
    have "freed i u = (if at_id u = i then u\<lparr>at_companion := None\<rparr> else u)" if "u \<in> set (as_tabs s)" for u
    proof (cases "at_companion u = Some i")
      case True
      with ok that obtain v where "v \<in> set (as_tabs s)" "at_id v = i" "at_companion v = Some (at_id u)"
        unfolding companions_ok_def by blast
      then have "v = t" using same_id [OF d] t by metis
      with None \<open>at_companion v = Some (at_id u)\<close> show ?thesis by simp
    qed (simp add: freed_def)
    then show ?thesis using f None upd by (simp add: unlink_companion_def)
  next
    case (Some c)
    have d': "distinct (map at_id (map (\<lambda>t. if at_id t = i then t\<lparr>at_companion := None\<rparr> else t) (as_tabs s)))"
      using d by (simp add: comp_def if_distrib cong: if_cong)
    have "as_tabs (unlink_companion i s) =
      map (\<lambda>u. if at_id u = c then (if at_companion u = Some i then u\<lparr>at_companion := None\<rparr> else u) else u)
        (map (\<lambda>t. if at_id t = i then t\<lparr>at_companion := None\<rparr> else t) (as_tabs s))"
      using f Some by (simp add: unlink_companion_def Let_def update_tab_def [of c] upd update_first_key [OF d']
          del: map_map)
    also have "\<dots> = map (freed i) (as_tabs s)"
    proof -
      have "(if at_id (if at_id u = i then u\<lparr>at_companion := None\<rparr> else u) = c
         then (if at_companion (if at_id u = i then u\<lparr>at_companion := None\<rparr> else u) = Some i
           then (if at_id u = i then u\<lparr>at_companion := None\<rparr> else u)\<lparr>at_companion := None\<rparr>
           else (if at_id u = i then u\<lparr>at_companion := None\<rparr> else u))
         else (if at_id u = i then u\<lparr>at_companion := None\<rparr> else u)) = freed i u"
        if "u \<in> set (as_tabs s)" for u
      proof (cases "at_companion u = Some i \<and> at_id u \<noteq> i")
        case True
        with ok that obtain v where v: "v \<in> set (as_tabs s)" "at_id v = i" "at_companion v = Some (at_id u)"
          unfolding companions_ok_def by blast
        then have "v = t" using same_id [OF d] t by metis
        with Some v have "at_id u = c" by simp
        with True show ?thesis by (simp add: freed_def)
      next
        case False
        then show ?thesis by (auto simp: freed_def)
      qed
      then show ?thesis by simp
    qed
    finally show ?thesis .
  qed
qed

lemma unlink_other [simp]:
  "as_active (unlink_companion i s) = as_active s" "as_sessions (unlink_companion i s) = as_sessions s"
  by (auto simp: unlink_companion_def update_tab_def Let_def split: option.splits)

lemma tab_list_ok_freed: "tab_list_ok ts act \<Longrightarrow> tab_list_ok (map (freed i) ts) act"
  by (rule tab_list_ok_shape) (auto simp: tab_list_ok_def companions_freed)

lemma unlink_ok: "tabs_ok s \<Longrightarrow> has_tab i s \<Longrightarrow> tabs_ok (unlink_companion i s)"
  using tab_list_ok_freed by (simp add: tabs_ok_def unlink_tabs)

text \<open>Linking two tabs that point to nobody.\<close>

definition joined :: "uuid \<Rightarrow> uuid \<Rightarrow> 'x app_tab \<Rightarrow> 'x app_tab" where
  "joined a b t = (if at_id t = a then t\<lparr>at_companion := Some b\<rparr>
     else if at_id t = b then t\<lparr>at_companion := Some a\<rparr> else t)"

lemma joined_simps [simp]:
  "at_id (joined a b t) = at_id t" "is_settings (joined a b t) = is_settings t" "is_editor (joined a b t) = is_editor t"
  by (simp_all add: joined_def is_settings_def is_editor_def)

lemma companions_joined:
  assumes "companions_ok ts" "a \<noteq> b" "a \<in> at_id ` ts" "b \<in> at_id ` ts"
    "\<And>t. t \<in> ts \<Longrightarrow> at_companion t \<noteq> Some a \<and> at_companion t \<noteq> Some b"
  shows "companions_ok (joined a b ` ts)"
  unfolding companions_ok_def
proof (intro ballI allI impI)
  fix x c
  assume "x \<in> joined a b ` ts" and c: "at_companion x = Some c"
  then obtain t where t: "t \<in> ts" "x = joined a b t" by blast
  obtain ta tb where ab: "ta \<in> ts" "at_id ta = a" "tb \<in> ts" "at_id tb = b" using assms(3,4) by blast
  consider "at_id t = a" | "at_id t = b" | "at_id t \<noteq> a" "at_id t \<noteq> b" by blast
  then show "c \<noteq> at_id x \<and> (\<exists>u \<in> joined a b ` ts. at_id u = c \<and> at_companion u = Some (at_id x))"
  proof cases
    case 1
    then have "c = b" using t c by (simp add: joined_def)
    moreover have "joined a b tb \<in> joined a b ` ts" using ab by blast
    ultimately show ?thesis using 1 t(2) ab assms(2) by (intro conjI bexI [of _ "joined a b tb"]) (simp_all add: joined_def)
  next
    case 2
    then have "c = a" using t c assms(2) by (simp add: joined_def)
    moreover have "joined a b ta \<in> joined a b ` ts" using ab by blast
    ultimately show ?thesis using 2 t(2) ab assms(2) by (intro conjI bexI [of _ "joined a b ta"]) (simp_all add: joined_def)
  next
    case 3
    then have "x = t" using t by (simp add: joined_def)
    then have tc: "at_companion t = Some c" using c by simp
    then obtain u where u: "c \<noteq> at_id t" "u \<in> ts" "at_id u = c" "at_companion u = Some (at_id t)"
      using assms(1) t(1) unfolding companions_ok_def by blast
    have "c \<noteq> a" "c \<noteq> b" using assms(5) [OF t(1)] tc by simp_all
    then have "joined a b u = u" using u(3) by (simp add: joined_def)
    then show ?thesis using u \<open>x = t\<close> by (metis image_eqI)
  qed
qed

lemma link_tabs:
  assumes "tab_list_ok (as_tabs s) act" "has_tab a s" "has_tab b s" "a \<noteq> b"
  shows "as_tabs (link_companions a b s) = map (joined a b) (map (freed b) (map (freed a) (as_tabs s)))"
proof -
  let ?s1 = "unlink_companion a s"
  have s1: "as_tabs ?s1 = map (freed a) (as_tabs s)" by (rule unlink_tabs [OF assms(1,2)])
  have ok1: "tab_list_ok (as_tabs ?s1) act" unfolding s1 by (rule tab_list_ok_freed [OF assms(1)])
  have "has_tab b ?s1" using assms(3) by (auto simp: has_tab_def s1)
  then have s2: "as_tabs (unlink_companion b ?s1) = map (freed b) (map (freed a) (as_tabs s))"
    using unlink_tabs [OF ok1] s1 by simp
  let ?ts = "map (freed b) (map (freed a) (as_tabs s))"
  have "map at_id ?ts = map at_id (as_tabs s)" by simp
  then have d: "distinct (map at_id ?ts)" using assms(1) by (simp only: tab_list_ok_def)
  have d2: "distinct (map at_id (map (\<lambda>t. if at_id t = a then t\<lparr>at_companion := Some b\<rparr> else t) ?ts))"
    using d by (simp add: comp_def if_distrib cong: if_cong)
  have "as_tabs (link_companions a b s) =
    map (\<lambda>t. if at_id t = b then t\<lparr>at_companion := Some a\<rparr> else t)
      (map (\<lambda>t. if at_id t = a then t\<lparr>at_companion := Some b\<rparr> else t) ?ts)"
    by (simp add: link_companions_def Let_def update_tab_def s2 update_first_key [OF d] update_first_key [OF d2]
        del: map_map)
  also have "\<dots> = map (joined a b) ?ts" using assms(4) by (simp add: joined_def cong: if_cong)
  finally show ?thesis .
qed

lemma link_ok:
  assumes "tabs_ok s" "has_tab a s" "has_tab b s" "a \<noteq> b"
  shows "tabs_ok (link_companions a b s)"
proof -
  let ?ts = "map (freed b) (map (freed a) (as_tabs s))"
  have ts: "tab_list_ok ?ts (as_active s)"
    using assms(1) by (intro tab_list_ok_freed) (simp add: tabs_ok_def)
  have "at_companion t \<noteq> Some a \<and> at_companion t \<noteq> Some b" if "t \<in> set ?ts" for t
  proof -
    from that obtain u where "t = freed b (freed a u)" by auto
    then show ?thesis using freed_away [of a u] freed_away [of b "freed a u"] freed_keeps [of "freed a u" a b] by simp
  qed
  then have "companions_ok (joined a b ` set ?ts)"
  proof (intro companions_joined)
    show "companions_ok (set ?ts)" using ts by (simp only: tab_list_ok_def)
    have "at_id ` set ?ts = at_id ` set (as_tabs s)" by (simp add: image_image)
    then show "a \<in> at_id ` set ?ts" "b \<in> at_id ` set ?ts" using assms(2,3) by (auto simp: has_tab_def)
  qed (use assms(4) in blast)+
  then have "tab_list_ok (map (joined a b) ?ts) (as_active s)"
    by (intro tab_list_ok_shape [OF ts]) (simp_all add: image_image)
  moreover have "as_active (link_companions a b s) = as_active s"
    by (simp add: link_companions_def Let_def update_tab_def)
  ultimately show ?thesis
    using link_tabs [of s "as_active s" a b] assms by (simp add: tabs_ok_def)
qed

section \<open>Every operation keeps the invariant\<close>

lemma companion_fits_has: "companion_fits c p target s \<Longrightarrow> has_tab c s"
  by (auto simp: companion_fits_def has_tab_def)

lemma insert_connection_ok:
  assumes "tabs_ok s" "at_id t \<notin> at_id ` set (as_tabs s)" "at_companion t = None" "\<not> is_settings t" "\<not> is_editor t"
  shows "tabs_ok (fst (insert_connection_tab t p target companion s))"
proof -
  define c where "c = (case companion of None \<Rightarrow> None | Some c \<Rightarrow> if companion_fits c p (opposite target) s then Some c else None)"
  define i where "i = (case (case c of
      None \<Rightarrow> None
    | Some c \<Rightarrow> map_option (\<lambda>i. case target of TargetTerminal \<Rightarrow> i | TargetSftp \<Rightarrow> i + 1)
        (position (\<lambda>t. at_id t = c) (as_tabs s))) of None \<Rightarrow> length (as_tabs s) | Some i \<Rightarrow> i)"
  let ?s1 = "s\<lparr>as_tabs := insert_at i t (as_tabs s)\<rparr>"
  have r: "fst (insert_connection_tab t p target companion s) =
      (case c of None \<Rightarrow> ?s1 | Some c \<Rightarrow> link_companions (at_id t) c ?s1)\<lparr>as_active := Some (at_id t)\<rparr>"
    unfolding insert_connection_tab_def Let_def fst_conv c_def i_def ..
  have ok1: "tabs_ok (?s1\<lparr>as_active := Some (at_id t)\<rparr>)"
    using tabs_ok_insert [of s t i] assms by simp
  show ?thesis
  proof (cases c)
    case None
    then show ?thesis using ok1 r by simp
  next
    case (Some k)
    then have "companion_fits k p (opposite target) s" by (auto simp: c_def split: option.splits if_splits)
    then have k: "has_tab k s" by (rule companion_fits_has)
    have "at_id t \<noteq> k" using k assms(2) by (auto simp: has_tab_def)
    then have "tabs_ok (link_companions (at_id t) k (?s1\<lparr>as_active := Some (at_id t)\<rparr>))"
      using k by (intro link_ok [OF ok1]) (auto simp: has_tab_def)
    moreover have "as_tabs (link_companions (at_id t) k (?s1\<lparr>as_active := Some (at_id t)\<rparr>)) =
        as_tabs (link_companions (at_id t) k ?s1)"
      by (simp add: link_companions_def unlink_companion_def update_tab_def find_tab_def Let_def split: option.splits)
    ultimately have "tab_list_ok (as_tabs (link_companions (at_id t) k ?s1))
        (as_active (link_companions (at_id t) k (?s1\<lparr>as_active := Some (at_id t)\<rparr>)))"
      by (simp add: tabs_ok_def)
    moreover have "as_active (link_companions (at_id t) k (?s1\<lparr>as_active := Some (at_id t)\<rparr>)) = Some (at_id t)"
      by (simp add: link_companions_def Let_def update_tab_def)
    ultimately show ?thesis unfolding r by (simp add: Some tabs_ok_def)
  qed
qed

lemma kind_flags [simp]:
  "is_settings (new_tab i x (TerminalKind y)) = False" "is_editor (new_tab i x (TerminalKind y)) = False"
  "is_settings (new_tab i x (EditorKind e)) = False" "is_editor (new_tab i x (EditorKind e)) = True"
  "is_settings (new_tab i x SettingsKind) = True" "is_editor (new_tab i x SettingsKind) = False"
  "at_id (new_tab i x k) = i" "at_companion (new_tab i x k) = None" "at_kind (new_tab i x k) = k"
  by (simp_all add: new_tab_def is_settings_def is_editor_def)

lemma open_tabs_ok:
  assumes "tabs_ok s" "fresh \<notin> at_id ` set (as_tabs s)"
  shows "tabs_ok (fst (open_terminal_tab_with_companion edits0 fresh profile companion s))"
    "tabs_ok (fst (open_sftp_tab_with_companion_at_path edits0 home_dir fresh profile companion initial s))"
    "tabs_ok (fst (open_local_shell_tab edits0 fresh s))"
    "tabs_ok (fst (open_settings_tab fresh s))"
proof -
  show "tabs_ok (fst (open_terminal_tab_with_companion edits0 fresh profile companion s))"
    unfolding open_terminal_tab_with_companion_def Let_def
    using assms by (intro insert_connection_ok) (simp_all add: tabs_ok_def)
  show "tabs_ok (fst (open_sftp_tab_with_companion_at_path edits0 home_dir fresh profile companion initial s))"
    unfolding open_sftp_tab_with_companion_at_path_def Let_def
    using assms by (intro insert_connection_ok) simp_all
  show "tabs_ok (fst (open_local_shell_tab edits0 fresh s))"
    unfolding open_local_shell_tab_def Let_def fst_conv
    using assms by (intro push_tab_ok) (simp_all add: tabs_ok_def)
  show "tabs_ok (fst (open_settings_tab fresh s))"
  proof (cases "find (\<lambda>t. same_page (at_kind t) SettingsKind) (as_tabs s)")
    case None
    have "\<not> is_settings u" if "u \<in> set (as_tabs s)" for u
      using find_NoneD [OF None that] by (auto simp: is_settings_def)
    then show ?thesis
      unfolding open_settings_tab_def open_singleton_tab_def None option.case fst_conv
      using assms by (intro push_tab_ok) auto
  next
    case (Some t)
    then have "has_tab (at_id t) s" by (auto simp: has_tab_def dest: find_SomeD)
    then show ?thesis using tabs_ok_active [OF assms(1)] Some by (simp add: open_settings_tab_def open_singleton_tab_def)
  qed
qed

lemma update_first_unique:
  "length (filter p xs) \<le> 1 \<Longrightarrow> update_first p f xs = map (\<lambda>x. if p x then f x else x) xs"
proof (induction xs)
  case (Cons x xs)
  have "map (\<lambda>y. if p y then f y else y) xs = xs" if "filter p xs = []"
    using that by (intro map_idI) (auto simp: filter_empty_conv)
  with Cons show ?case by (auto split: if_splits)
qed simp

lemma open_editor_ok:
  assumes "tabs_ok s" "fresh \<notin> at_id ` set (as_tabs s)"
  shows "tabs_ok (fst (open_session_editor fresh editor s))"
proof (cases "find is_editor (as_tabs s)")
  case None
  have "\<not> is_editor u" if "u \<in> set (as_tabs s)" for u
    using find_NoneD [OF None that] .
  then show ?thesis
    unfolding open_session_editor_def Let_def None option.case fst_conv
    using assms by (intro push_tab_ok) auto
next
  case (Some t)
  then have t: "t \<in> set (as_tabs s)" by (auto dest: find_SomeD)
  define title where "title = (case ed_profile editor of
      None \<Rightarrow> ''New session''
    | Some p \<Rightarrow> (case profile_of p s of None \<Rightarrow> ''New session'' | Some q \<Rightarrow> ''Edit '' @ sp_name q))"
  let ?g = "\<lambda>t. if is_editor t then t\<lparr>at_title := title, at_kind := EditorKind editor\<rparr> else t"
  have "tab_list_ok (map ?g (as_tabs s)) (as_active s)"
    using assms(1) by (intro tab_list_ok_map) (auto simp: tabs_ok_def is_editor_def is_settings_def split: tab_kind.splits)
  moreover have "update_first is_editor (\<lambda>t. t\<lparr>at_title := title, at_kind := EditorKind editor\<rparr>) (as_tabs s) = map ?g (as_tabs s)"
    using assms(1) by (intro update_first_unique) (simp add: tabs_ok_def tab_list_ok_def)
  moreover have "at_id t \<in> at_id ` set (map ?g (as_tabs s))"
  proof -
    have "map at_id (map ?g (as_tabs s)) = map at_id (as_tabs s)" by simp
    then show ?thesis using t by (metis (no_types, lifting) image_eqI list.set_map)
  qed
  ultimately show ?thesis
    unfolding open_session_editor_def Let_def Some option.case fst_conv title_def [symmetric]
    by (simp add: tabs_ok_def tab_list_ok_def)
qed

section \<open>Closing\<close>

lemma filter_not_id: "distinct (map at_id (xs @ t # ys)) \<Longrightarrow> filter (\<lambda>u. at_id u \<noteq> at_id t) (xs @ t # ys) = xs @ ys"
proof -
  assume "distinct (map at_id (xs @ t # ys))"
  then have "\<forall>u \<in> set xs. at_id u \<noteq> at_id t" "\<forall>u \<in> set ys. at_id u \<noteq> at_id t" by (auto simp: rev_image_eqI)
  then show ?thesis by (simp add: filter_id_conv)
qed

lemma position_here: "distinct (map at_id (xs @ t # ys)) \<Longrightarrow> position (\<lambda>u. at_id u = at_id t) (xs @ t # ys) = Some (length xs)"
  by (induction xs) auto

lemma companions_without:
  assumes "companions_ok ts" "\<And>t. t \<in> ts \<Longrightarrow> at_companion t \<noteq> Some i"
  shows "companions_ok {t \<in> ts. at_id t \<noteq> i}"
  unfolding companions_ok_def
proof (intro ballI allI impI)
  fix t c
  assume t: "t \<in> {t \<in> ts. at_id t \<noteq> i}" "at_companion t = Some c"
  then obtain u where "c \<noteq> at_id t" "u \<in> ts" "at_id u = c" "at_companion u = Some (at_id t)"
    using assms(1) unfolding companions_ok_def by blast
  moreover have "c \<noteq> i" using assms(2) [of t] t by auto
  ultimately show "c \<noteq> at_id t \<and> (\<exists>u \<in> {t \<in> ts. at_id t \<noteq> i}. at_id u = c \<and> at_companion u = Some (at_id t))"
    by blast
qed

lemma close_tab_parts:
  assumes "tabs_ok s" "as_tabs s = xs @ t # ys"
  shows "as_tabs (fst (close_tab (at_id t) s)) = map (freed (at_id t)) (xs @ ys)"
    "as_active (fst (close_tab (at_id t) s)) =
       (if as_active s \<noteq> Some (at_id t) then as_active s
        else case ys of u # _ \<Rightarrow> Some (at_id u) | [] \<Rightarrow> if xs = [] then None else Some (at_id (last xs)))"
    "\<exists>c. snd (close_tab (at_id t) s) = Some c \<and>
       (case at_kind t of
          TerminalKind x \<Rightarrow> cl_worker c = tt_worker x \<and>
            cl_probe c = (case ssh_phase_of x of Some (Probing pr) \<Rightarrow> Some pr | _ \<Rightarrow> None) \<and>
            cl_kind c = ClosedTerminal (is_sftp x \<and> \<not> (\<exists>u \<in> set (xs @ ys). is_sftp_tab u))
        | SettingsKind \<Rightarrow> cl_kind c = ClosedSettings | EditorKind _ \<Rightarrow> cl_kind c = ClosedEditor)"
proof -
  let ?i = "at_id t"
  have d: "distinct (map at_id (xs @ t # ys))" and ok: "companions_ok (set (xs @ t # ys))"
    using assms by (simp_all add: tabs_ok_def tab_list_ok_def)
  have dr: "distinct (map at_id (xs @ ys))" using d by auto
  have no: "at_id u \<noteq> ?i" if "u \<in> set (xs @ ys)" for u using d that by (auto simp: rev_image_eqI)
  let ?s1 = "s\<lparr>as_tabs := xs @ ys\<rparr>"
  define s2 where "s2 = (case at_companion t of
      None \<Rightarrow> ?s1
    | Some c \<Rightarrow> update_tab c (\<lambda>u. if at_companion u = Some ?i then u\<lparr>at_companion := None\<rparr> else u) ?s1)"
  have s2: "as_tabs s2 = map (freed ?i) (xs @ ys)"
  proof (cases "at_companion t")
    case None
    have "freed ?i u = u" if "u \<in> set (xs @ ys)" for u
    proof -
      have "at_companion u \<noteq> Some ?i"
      proof
        assume c: "at_companion u = Some ?i"
        with ok that obtain v where v: "v \<in> set (xs @ t # ys)" "at_id v = ?i" "at_companion v = Some (at_id u)"
          unfolding companions_ok_def by (metis Un_iff insert_iff list.set(2) set_append)
        then have "v = t" using same_id [OF d] by simp
        with v None show False by simp
      qed
      then show ?thesis using no [OF that] by (simp add: freed_def)
    qed
    then show ?thesis using None by (simp add: s2_def map_idI)
  next
    case (Some c)
    have "(if at_id u = c then (if at_companion u = Some ?i then u\<lparr>at_companion := None\<rparr> else u) else u) = freed ?i u"
      if u: "u \<in> set (xs @ ys)" for u
    proof (cases "at_companion u = Some ?i")
      case True
      with ok u obtain v where v: "v \<in> set (xs @ t # ys)" "at_id v = ?i" "at_companion v = Some (at_id u)"
        unfolding companions_ok_def by (metis Un_iff insert_iff list.set(2) set_append)
      then have "v = t" using same_id [OF d] by simp
      with v Some have "at_id u = c" by simp
      with True show ?thesis by (simp add: freed_def)
    next
      case False
      then show ?thesis using no [OF u] by (simp add: freed_def)
    qed
    then show ?thesis using Some by (simp add: s2_def update_tab_def update_first_key [OF dr])
  qed
  have s2a: "as_active s2 = as_active s" by (simp add: s2_def update_tab_def split: option.splits)
  have sftp_any: "(\<exists>u \<in> set (map (freed ?i) (xs @ ys)). is_sftp_tab u) \<longleftrightarrow> (\<exists>u \<in> set (xs @ ys). is_sftp_tab u)"
    by (simp add: bex_Un)
  have nth: "(xs @ t # ys) ! length xs = t" by simp
  have pos: "position (\<lambda>u. at_id u = ?i) (xs @ t # ys) = Some (length xs)"
    by (rule position_here [OF d])
  define s3 where "s3 = (case at_kind t of EditorKind _ \<Rightarrow> s2\<lparr>as_serial_ports := []\<rparr> | _ \<Rightarrow> s2)"
  have s3: "as_tabs s3 = map (freed ?i) (xs @ ys)" "as_active s3 = as_active s"
    by (simp_all add: s3_def s2 s2a split: tab_kind.splits)
  have act: "(if length xs < length (as_tabs s3) then Some (at_id (as_tabs s3 ! length xs))
      else if as_tabs s3 = [] then None else Some (at_id (last (as_tabs s3)))) =
    (case ys of u # _ \<Rightarrow> Some (at_id u) | [] \<Rightarrow> if xs = [] then None else Some (at_id (last xs)))"
    unfolding s3 by (cases ys) (auto simp: nth_append last_map)
  have run: "close_tab ?i s =
    (if as_active s3 = Some ?i
     then s3\<lparr>as_active := (case ys of u # _ \<Rightarrow> Some (at_id u) | [] \<Rightarrow> if xs = [] then None else Some (at_id (last xs)))\<rparr>
     else s3,
     Some (case at_kind t of
         TerminalKind x \<Rightarrow>
           let (x1, probe) = take_pending_probe (cancel_reconnect x) in
           \<lparr>cl_kind = ClosedTerminal (is_sftp x1 \<and> \<not> (\<exists>u \<in> set (as_tabs s2). is_sftp_tab u)),
            cl_worker = tt_worker x1, cl_probe = probe\<rparr>
       | SettingsKind \<Rightarrow> \<lparr>cl_kind = ClosedSettings, cl_worker = None, cl_probe = None\<rparr>
       | EditorKind _ \<Rightarrow> \<lparr>cl_kind = ClosedEditor, cl_worker = None, cl_probe = None\<rparr>))"
    unfolding close_tab_def pos option.case Let_def assms(2) nth remove_at_split s2_def [symmetric] s3_def [symmetric] act ..
  show "as_tabs (fst (close_tab ?i s)) = map (freed ?i) (xs @ ys)"
    unfolding run by (simp add: s3)
  show "as_active (fst (close_tab ?i s)) =
       (if as_active s \<noteq> Some ?i then as_active s
        else case ys of u # _ \<Rightarrow> Some (at_id u) | [] \<Rightarrow> if xs = [] then None else Some (at_id (last xs)))"
    unfolding run by (simp add: s3)
  have probe: "take_pending_probe (cancel_reconnect x) = (x1, pr) \<Longrightarrow>
      tt_worker x1 = tt_worker x \<and> is_sftp x1 = is_sftp x \<and>
      pr = (case ssh_phase_of x of Some (Probing q) \<Rightarrow> Some q | _ \<Rightarrow> None)" for x :: "'a terminal_tab" and x1 pr
    by (auto simp: take_pending_probe_def cancel_reconnect_def clear_pending_clipboard_read_def ssh_phase_of_def is_ssh_def
        is_sftp_def Let_def split: if_splits ssh_phase.splits)
  show "\<exists>c. snd (close_tab ?i s) = Some c \<and>
       (case at_kind t of
          TerminalKind x \<Rightarrow> cl_worker c = tt_worker x \<and>
            cl_probe c = (case ssh_phase_of x of Some (Probing pr) \<Rightarrow> Some pr | _ \<Rightarrow> None) \<and>
            cl_kind c = ClosedTerminal (is_sftp x \<and> \<not> (\<exists>u \<in> set (xs @ ys). is_sftp_tab u))
        | SettingsKind \<Rightarrow> cl_kind c = ClosedSettings | EditorKind _ \<Rightarrow> cl_kind c = ClosedEditor)"
    unfolding run s2 sftp_any using probe by (auto simp del: set_append split: tab_kind.splits prod.splits)
qed

lemma close_tab_ok: "tabs_ok s \<Longrightarrow> tabs_ok (fst (close_tab i s))"
proof (cases "position (\<lambda>t. at_id t = i) (as_tabs s)")
  case None
  then show "tabs_ok s \<Longrightarrow> ?thesis" unfolding close_tab_def None by simp
next
  case (Some k)
  assume ok: "tabs_ok s"
  obtain xs t ys where s: "as_tabs s = xs @ t # ys" "at_id t = i" using position_split [OF Some] by blast
  note parts = close_tab_parts [OF ok s(1), unfolded s(2)]
  have lok: "tab_list_ok (xs @ t # ys) (as_active s)" using ok s by (simp add: tabs_ok_def)
  have d: "distinct (map at_id (xs @ t # ys))" using lok by (simp add: tab_list_ok_def)
  have set: "set (map (freed i) (xs @ ys)) = {u \<in> freed i ` set (xs @ t # ys). at_id u \<noteq> i}"
    using d s(2) by (auto simp: rev_image_eqI)
  have "companions_ok (set (map (freed i) (xs @ ys)))"
    unfolding set using lok by (intro companions_without companions_freed) (auto simp: tab_list_ok_def freed_away)
  moreover have "map at_id (map (freed i) (xs @ ys)) = map at_id (xs @ ys)"
    "map is_settings (map (freed i) (xs @ ys)) = map is_settings (xs @ ys)"
    "map is_editor (map (freed i) (xs @ ys)) = map is_editor (xs @ ys)" by simp_all
  moreover have "distinct (map at_id (xs @ ys))" "length (filter is_settings (xs @ ys)) \<le> 1"
    "length (filter is_editor (xs @ ys)) \<le> 1"
    using lok by (auto simp: tab_list_ok_def split: if_splits)
  moreover have "case as_active (fst (close_tab i s)) of None \<Rightarrow> map (freed i) (xs @ ys) = []
      | Some a \<Rightarrow> a \<in> at_id ` set (map (freed i) (xs @ ys))"
    using lok s(2) unfolding parts(2) set_map image_image freed_simps
    by (cases ys) (auto simp: tab_list_ok_def split: option.splits)
  ultimately show ?thesis
    unfolding tabs_ok_def parts(1) by (intro tab_list_okI2 [where ts = "xs @ ys"])
qed

section \<open>Moving\<close>

lemma split_at_nth: "distinct (A @ x # B) \<Longrightarrow> k < length (A @ x # B) \<Longrightarrow> (A @ x # B) ! k = x \<Longrightarrow> length A = k"
  using nth_eq_iff_index_eq [of "A @ x # B" "length A" k] by simp

lemma position_Some_mem: "x \<in> set xs \<Longrightarrow> p x \<Longrightarrow> \<exists>i. position p xs = Some i"
  by (cases "position p xs") auto

lemma remove_at_remove1: "distinct xs \<Longrightarrow> position (\<lambda>v. v = i) xs = Some k \<Longrightarrow> remove_at k xs = remove1 i xs"
proof -
  assume d: "distinct xs" and "position (\<lambda>v. v = i) xs = Some k"
  then obtain ys x zs where s: "xs = ys @ x # zs" "x = i" "length ys = k" using position_split by blast
  then have "i \<notin> set ys" using d by auto
  with s show ?thesis using remove_at_split [of ys x zs] by (simp add: remove1_append)
qed

text \<open>
  The tab goes before the one that is to follow it, or behind the one that is to precede it; the tabs of
  the other windows do not matter.
\<close>

lemma move_tab_places:
  assumes d: "distinct (map at_id (xs @ t # ys))" and V: "at_id t \<in> V"
    and W: "W = filter (\<lambda>j. j \<in> V) (map at_id (xs @ ys))" and k: "k \<le> length W" "k \<noteq> 0 \<or> W \<noteq> []"
    and D: "D = insert_at k (at_id t) W"
    and ix: "ix = (if k + 1 < length D then position (\<lambda>u. at_id u = D ! (k + 1)) (xs @ ys)
      else if 0 < k then map_option (\<lambda>j. j + 1) (position (\<lambda>u. at_id u = D ! (k - 1)) (xs @ ys)) else Some 0)"
  shows "\<exists>j. ix = Some j \<and> filter (\<lambda>j. j \<in> V) (map at_id (insert_at j t (xs @ ys))) = D"
proof -
  have dW: "distinct W" using d unfolding W by (intro distinct_filter) auto
  have lenD: "length D = length W + 1" using k by (simp add: D insert_at_def)
  have split: "\<exists>p u q. xs @ ys = p @ u # q \<and> at_id u = w \<and> position (\<lambda>u. at_id u = w) (xs @ ys) = Some (length p) \<and>
      W = filter (\<lambda>j. j \<in> V) (map at_id p) @ w # filter (\<lambda>j. j \<in> V) (map at_id q)" if "w \<in> set W" for w
  proof -
    from that have w: "w \<in> V" "w \<in> at_id ` set (xs @ ys)" by (auto simp: W)
    then obtain v where "v \<in> set (xs @ ys)" "at_id v = w" by blast
    then obtain i where i: "position (\<lambda>u. at_id u = w) (xs @ ys) = Some i"
      using position_Some_mem [of v "xs @ ys" "\<lambda>u. at_id u = w"] by blast
    obtain p u q where "xs @ ys = p @ u # q" "at_id u = w" "length p = i" using position_split [OF i] by blast
    then show ?thesis using i w(1) by (intro exI [of _ p] exI [of _ u] exI [of _ q]) (simp add: W)
  qed
  show ?thesis
  proof (cases "k < length W")
    case True
    then have nth: "D ! (k + 1) = W ! k" by (simp add: D insert_at_def nth_append min_def)
    obtain p u q where s: "xs @ ys = p @ u # q" "position (\<lambda>u. at_id u = W ! k) (xs @ ys) = Some (length p)"
      "W = filter (\<lambda>j. j \<in> V) (map at_id p) @ W ! k # filter (\<lambda>j. j \<in> V) (map at_id q)" "at_id u = W ! k"
      using split [OF nth_mem [OF True]] by blast
    let ?A = "filter (\<lambda>j. j \<in> V) (map at_id p)" and ?B = "filter (\<lambda>j. j \<in> V) (map at_id q)"
    have lenA: "length ?A = k" using split_at_nth [of ?A "W ! k" ?B k] dW True s(3) by metis
    have "W ! k \<in> V" using True nth_mem [OF True] by (auto simp: W)
    then have "filter (\<lambda>j. j \<in> V) (map at_id (insert_at (length p) t (xs @ ys))) = ?A @ at_id t # W ! k # ?B"
      using V s(4) by (simp add: s(1) insert_at_split)
    also have "\<dots> = D" unfolding D insert_at_def using lenA s(3) by (metis append_eq_conv_conj)
    finally show ?thesis using ix True lenD nth s(2) by simp
  next
    case False
    then have kW: "k = length W" "0 < k" using k by auto
    then have nth: "D ! (k - 1) = W ! (k - 1)" by (simp add: D insert_at_def nth_append)
    have mem: "W ! (k - 1) \<in> set W" using kW by simp
    obtain p u q where s: "xs @ ys = p @ u # q" "position (\<lambda>u. at_id u = W ! (k - 1)) (xs @ ys) = Some (length p)"
      "W = filter (\<lambda>j. j \<in> V) (map at_id p) @ W ! (k - 1) # filter (\<lambda>j. j \<in> V) (map at_id q)" "at_id u = W ! (k - 1)"
      using split [OF mem] by blast
    let ?A = "filter (\<lambda>j. j \<in> V) (map at_id p)" and ?B = "filter (\<lambda>j. j \<in> V) (map at_id q)"
    have "length ?A = k - 1" using split_at_nth [of ?A "W ! (k - 1)" ?B "k - 1"] dW kW s(3)
      by (metis diff_less zero_less_one)
    moreover have "length W = length ?A + 1 + length ?B" using arg_cong [OF s(3), of length] by simp
    ultimately have "length ?B = 0" using kW by linarith
    then have B: "?B = []" by (simp only: length_0_conv)
    have "W ! (k - 1) \<in> V" using mem by (auto simp: W)
    moreover have "insert_at (length p + 1) t (xs @ ys) = p @ u # t # q" by (simp add: s(1) insert_at_def)
    ultimately have "filter (\<lambda>j. j \<in> V) (map at_id (insert_at (length p + 1) t (xs @ ys))) = ?A @ [W ! (k - 1), at_id t]"
      using V s(4) B by simp
    also have "\<dots> = W @ [at_id t]" using s(3) B by (metis append.assoc append_Cons append_Nil)
    also have "\<dots> = D" using kW by (simp add: D insert_at_def)
    finally show ?thesis using ix kW lenD nth s(2) by simp
  qed
qed

lemma move_tab_exact_parts:
  assumes ok: "tabs_ok s" and vis: "visible = filter (\<lambda>j. j \<in> V) (map at_id (as_tabs s))" and i: "i \<in> set visible"
    and target: "target = min target_index (length visible - 1)"
  shows "\<exists>tabs. move_tab_for i target_index visible s = (s\<lparr>as_tabs := tabs\<rparr>, True) \<and>
    mset tabs = mset (as_tabs s) \<and>
    filter (\<lambda>j. j \<in> V) (map at_id tabs) = insert_at target i (remove1 i visible) \<and>
    filter (\<lambda>u. at_id u \<noteq> i) tabs = filter (\<lambda>u. at_id u \<noteq> i) (as_tabs s)"
proof -
  have d: "distinct (map at_id (as_tabs s))" using ok by (simp add: tabs_ok_def tab_list_ok_def)
  have dv: "distinct visible" unfolding vis using d by (rule distinct_filter)
  obtain source where so: "position (\<lambda>v. v = i) visible = Some source"
    using position_Some_mem [of i visible "\<lambda>v. v = i"] i by blast
  note sp = position_Some [OF so]
  have vs: "visible ! source = i" using sp by blast
  have rem: "remove_at source visible = remove1 i visible" by (rule remove_at_remove1 [OF dv so])
  show ?thesis
  proof (cases "source = target")
    case True
    have "insert_at target i (remove1 i visible) = visible"
    proof -
      obtain as bs where ab: "visible = as @ i # bs" "length as = source" using position_split [OF so] by blast
      then show ?thesis
        unfolding rem [symmetric] True [symmetric] using remove_at_split [of as i bs] insert_at_split [of as i bs] by simp
    qed
    then show ?thesis
      using True so vis target by (intro exI [of _ "as_tabs s"]) (simp add: move_tab_for_def Let_def)
  next
    case False
    have "i \<in> at_id ` set (as_tabs s)" using i by (auto simp: vis)
    then obtain t where "t \<in> set (as_tabs s)" "at_id t = i" by blast
    then obtain g where g: "position (\<lambda>t. at_id t = i) (as_tabs s) = Some g"
      using position_Some_mem [of t "as_tabs s" "\<lambda>t. at_id t = i"] by blast
    obtain xs t ys where t: "as_tabs s = xs @ t # ys" "at_id t = i" "length xs = g" using position_split [OF g] by blast
    have iV: "at_id t \<in> V" using i t(2) by (auto simp: vis)
    have d': "distinct (map at_id (xs @ t # ys))" using d t(1) by simp
    let ?W = "filter (\<lambda>j. j \<in> V) (map at_id (xs @ ys))"
    have inot: "at_id t \<notin> at_id ` set (xs @ ys)" using d' by auto
    have W: "?W = remove1 i visible"
      unfolding vis t(1) using iV t(2) inot by (auto simp: remove1_append remove1_idem)
    have len: "length visible = length ?W + 1"
      unfolding W using i by (simp add: length_remove1) (metis Suc_pred length_pos_if_in_set)
    have k: "target \<le> length ?W" using target len by linarith
    have k': "target \<noteq> 0 \<or> ?W \<noteq> []"
    proof (rule ccontr)
      assume "\<not> ?thesis"
      then have "length visible = 1" "target = 0" using len by simp_all
      then show False using False sp by simp
    qed
    let ?D = "insert_at target i ?W"
    have D: "?D = insert_at target (at_id t) ?W" by (simp only: t(2))
    define ix where "ix = (if target + 1 < length ?D then position (\<lambda>u. at_id u = ?D ! (target + 1)) (xs @ ys)
      else if 0 < target then map_option (\<lambda>j. j + 1) (position (\<lambda>u. at_id u = ?D ! (target - 1)) (xs @ ys)) else Some 0)"
    obtain j where j: "ix = Some j" "filter (\<lambda>j. j \<in> V) (map at_id (insert_at j t (xs @ ys))) = ?D"
      using move_tab_places [OF d' iV refl k k' D ix_def] by blast
    have gl: "as_tabs s ! g = t" "remove_at g (as_tabs s) = xs @ ys"
      using t(1,3) remove_at_split [of xs t ys] by (simp_all add: nth_append)
    have run: "move_tab_for i target_index visible s = (s\<lparr>as_tabs := insert_at j t (xs @ ys)\<rparr>, True)"
      unfolding move_tab_for_def so option.case Let_def target [symmetric] if_not_P [OF False] g gl vs rem
        W [symmetric] ix_def [symmetric] j(1) ..
    have "filter (\<lambda>u. at_id u \<noteq> i) (insert_at j t (xs @ ys)) = filter (\<lambda>u. at_id u \<noteq> i) (as_tabs s)"
      using filter_insert_at [of "\<lambda>u. at_id u \<noteq> i" t j "xs @ ys"] t(1,2) by simp
    then show ?thesis
      using run j(2) t W by (intro exI [of _ "insert_at j t (xs @ ys)"]) simp
  qed
qed

section \<open>Restoring\<close>

lemma tab_list_ok_mset:
  assumes "mset us = mset ts" "tab_list_ok ts act"
  shows "tab_list_ok us act"
proof -
  have "set us = set ts" using assms(1) by (rule mset_eq_setD)
  moreover have "distinct (map at_id us) = distinct (map at_id ts)"
    using assms(1) by (intro mset_eq_imp_distinct_iff) (simp only: mset_map)
  moreover have "length (filter p us) = length (filter p ts)" for p :: "'a app_tab \<Rightarrow> bool"
    using assms(1) by (metis mset_filter size_mset)
  moreover have "us = [] \<longleftrightarrow> ts = []" using assms(1) by (metis mset_zero_iff)
  ultimately show ?thesis using assms(2) by (simp add: tab_list_ok_def split: option.splits)
qed

definition restored_tab :: "(workspace_tab \<Rightarrow> 'x tab_kind option) \<Rightarrow> workspace_tab \<Rightarrow> 'x app_tab" where
  "restored_tab kind_of w = new_tab (wt_id w) (wt_title w) (the (kind_of w))"

lemma restored_tab_simps [simp]:
  "at_id (restored_tab kind_of w) = wt_id w" "at_companion (restored_tab kind_of w) = None"
  "at_kind (restored_tab kind_of w) = the (kind_of w)"
  by (simp_all add: restored_tab_def)

lemma restore_tabs_distinct:
  assumes "distinct (map wt_id ws)" "\<And>w t. w \<in> set ws \<Longrightarrow> t \<in> set tabs \<Longrightarrow> at_id t \<noteq> wt_id w"
  shows "restore_tabs kind_of ws tabs = tabs @ map (restored_tab kind_of) (filter (\<lambda>w. kind_of w \<noteq> None) ws)"
  using assms
proof (induction ws arbitrary: tabs)
  case (Cons w ws)
  have new: "\<not> (\<exists>t \<in> set tabs. at_id t = wt_id w)" using Cons.prems(2) by auto
  show ?case
  proof (cases "kind_of w")
    case None
    then show ?thesis using new Cons by simp
  next
    case (Some k)
    have "restore_tabs kind_of ws (tabs @ [restored_tab kind_of w]) =
        (tabs @ [restored_tab kind_of w]) @ map (restored_tab kind_of) (filter (\<lambda>w. kind_of w \<noteq> None) ws)"
      using Cons.prems by (intro Cons.IH) (auto simp: rev_image_eqI)
    then show ?thesis using Some new by (simp add: restored_tab_def)
  qed
qed simp

lemma restore_companions_map:
  assumes "distinct (map wt_id ws)" "distinct (map at_id tabs)"
  shows "restore_companions restored ws tabs =
    map (\<lambda>t. case find (\<lambda>w. wt_id w = at_id t) ws of
        None \<Rightarrow> t
      | Some w \<Rightarrow> if at_id t \<in> set restored then t\<lparr>at_companion := kept_companion restored w\<rparr> else t) tabs"
  using assms
proof (induction ws arbitrary: tabs)
  case (Cons w ws)
  let ?g = "\<lambda>t. if at_id t = wt_id w \<and> wt_id w \<in> set restored then t\<lparr>at_companion := kept_companion restored w\<rparr> else t"
  have "(if wt_id w \<notin> set restored then tabs
        else update_first (\<lambda>t. at_id t = wt_id w) (\<lambda>t. t\<lparr>at_companion := kept_companion restored w\<rparr>) tabs) = map ?g tabs"
    by (auto simp: update_first_key [OF Cons.prems(2)] map_idI)
  then have "restore_companions restored (w # ws) tabs = restore_companions restored ws (map ?g tabs)"
    by simp
  also have "\<dots> = map (\<lambda>t. case find (\<lambda>w. wt_id w = at_id t) ws of
        None \<Rightarrow> t
      | Some w \<Rightarrow> if at_id t \<in> set restored then t\<lparr>at_companion := kept_companion restored w\<rparr> else t) (map ?g tabs)"
  proof (rule Cons.IH)
    have "map at_id (map ?g tabs) = map at_id tabs" by simp
    then show "distinct (map at_id (map ?g tabs))" using Cons.prems(2) by (simp only:)
  qed (use Cons.prems(1) in simp)
  also have "\<dots> = map (\<lambda>t. case find (\<lambda>w. wt_id w = at_id t) (w # ws) of
        None \<Rightarrow> t
      | Some w \<Rightarrow> if at_id t \<in> set restored then t\<lparr>at_companion := kept_companion restored w\<rparr> else t) tabs"
  proof -
    have none: "find (\<lambda>v. wt_id v = wt_id w) ws = None"
      using Cons.prems(1) by (auto simp: find_None_iff rev_image_eqI)
    show ?thesis using none by (auto split: option.splits)
  qed
  finally show ?case .
qed simp

text \<open>The tabs after a restore of snapshots with different ids.\<close>

lemma restored_tabs:
  fixes edits0 :: 'x and home_dir :: string and draft :: "uuid \<Rightarrow> uuid" and s :: "'x app_state"
  assumes "distinct (map wt_id ws)"
  defines "kind_of \<equiv> restore_kind edits0 home_dir draft s"
  defines "kept \<equiv> filter (\<lambda>w. kind_of w \<noteq> None) ws"
  shows "as_tabs (fst (restore_workspace_tabs edits0 home_dir draft ws s)) =
      map (\<lambda>w. (restored_tab kind_of w)\<lparr>at_companion := kept_companion (map wt_id kept) w\<rparr>) kept"
    "as_active (fst (restore_workspace_tabs edits0 home_dir draft ws s)) =
      (case map wt_id kept of [] \<Rightarrow> None | i # _ \<Rightarrow> Some i)"
proof -
  have tabs: "restore_tabs kind_of ws [] = map (restored_tab kind_of) kept"
    using restore_tabs_distinct [OF assms(1), of "[]" kind_of] by (simp add: kept_def)
  have ids: "map at_id (map (restored_tab kind_of) kept) = map wt_id kept" by simp
  have dk: "distinct (map wt_id kept)"
    unfolding kept_def using assms(1) by (rule distinct_map_filter)
  have found: "find (\<lambda>v. wt_id v = wt_id w) ws = Some w" if "w \<in> set kept" for w
    using find_distinct_key [OF assms(1), of w] that by (simp add: kept_def)
  have "restore_companions (map wt_id kept) ws (map (restored_tab kind_of) kept) =
      map (\<lambda>w. (restored_tab kind_of w)\<lparr>at_companion := kept_companion (map wt_id kept) w\<rparr>) kept"
    using restore_companions_map [OF assms(1), of "map (restored_tab kind_of) kept" "map wt_id kept"] dk found
    by (simp add: comp_def)
  then show "as_tabs (fst (restore_workspace_tabs edits0 home_dir draft ws s)) =
      map (\<lambda>w. (restored_tab kind_of w)\<lparr>at_companion := kept_companion (map wt_id kept) w\<rparr>) kept"
    by (simp add: restore_workspace_tabs_def Let_def kind_of_def [symmetric] tabs comp_def)
  show "as_active (fst (restore_workspace_tabs edits0 home_dir draft ws s)) =
      (case map wt_id kept of [] \<Rightarrow> None | i # _ \<Rightarrow> Some i)"
    by (simp add: restore_workspace_tabs_def Let_def kind_of_def [symmetric] tabs comp_def)
qed

definition snapshots_ok :: "workspace_tab list \<Rightarrow> bool" where
  "snapshots_ok ws \<longleftrightarrow> distinct (map wt_id ws) \<and>
     (\<forall>w \<in> set ws. \<forall>c. wt_companion w = Some c \<longrightarrow>
        c \<noteq> wt_id w \<and> (\<exists>v \<in> set ws. wt_id v = c \<and> wt_companion v = Some (wt_id w))) \<and>
     length (filter (\<lambda>w. wt_kind w = ''settings'') ws) \<le> 1 \<and>
     length (filter (\<lambda>w. wt_kind w = ''session-editor'') ws) \<le> 1"

lemma restored_kind:
  assumes "restore_kind edits0 home_dir draft s w \<noteq> None"
  shows "is_settings ((restored_tab (restore_kind edits0 home_dir draft s) w)\<lparr>at_companion := c\<rparr>) \<Longrightarrow> wt_kind w = ''settings''"
    "is_editor ((restored_tab (restore_kind edits0 home_dir draft s) w)\<lparr>at_companion := c\<rparr>) \<Longrightarrow> wt_kind w = ''session-editor''"
  using assms by (auto simp: is_settings_def is_editor_def restore_kind_def split: if_splits)

lemma filter_le_subset: "(\<And>x. x \<in> set xs \<Longrightarrow> r x \<Longrightarrow> p x \<Longrightarrow> q x) \<Longrightarrow> length (filter p (filter r xs)) \<le> length (filter q xs)"
  by (induction xs) auto

lemma restore_ok:
  assumes "snapshots_ok ws"
  shows "tabs_ok (fst (restore_workspace_tabs edits0 home_dir draft ws s))"
proof -
  let ?k = "restore_kind edits0 home_dir draft s"
  define kept where "kept = filter (\<lambda>w. ?k w \<noteq> None) ws"
  let ?f = "\<lambda>w. (restored_tab ?k w)\<lparr>at_companion := kept_companion (map wt_id kept) w\<rparr>"
  have d: "distinct (map wt_id ws)" using assms by (simp add: snapshots_ok_def)
  note tabs = restored_tabs [OF d, of edits0 home_dir draft s, folded kept_def]
  have "length (filter (\<lambda>w. is_settings (?f w)) kept) \<le> length (filter (\<lambda>w. wt_kind w = ''settings'') ws)"
    "length (filter (\<lambda>w. is_editor (?f w)) kept) \<le> length (filter (\<lambda>w. wt_kind w = ''session-editor'') ws)"
    by (subst (2) kept_def, intro filter_le_subset restored_kind, assumption+)+
  then have "length (filter is_settings (map ?f kept)) \<le> 1" "length (filter is_editor (map ?f kept)) \<le> 1"
    using assms by (simp_all add: filter_map comp_def snapshots_ok_def)
  moreover have "companions_ok (set (map ?f kept))"
    unfolding companions_ok_def
  proof (intro ballI allI impI)
    fix t c
    assume "t \<in> set (map ?f kept)" "at_companion t = Some c"
    then obtain w where w: "w \<in> set kept" "t = ?f w" and c: "wt_companion w = Some c" "c \<in> wt_id ` set kept"
      by (auto simp: kept_companion_def split: option.splits if_splits)
    then obtain v where v: "c \<noteq> wt_id w" "v \<in> set ws" "wt_id v = c" "wt_companion v = Some (wt_id w)"
      using assms unfolding snapshots_ok_def kept_def by fastforce
    obtain v' where v': "v' \<in> set kept" "wt_id v' = c" using c(2) by blast
    have "v = v'" using d v(2,3) v' by (auto simp: distinct_map kept_def dest: inj_onD)
    then have "?f v \<in> set (map ?f kept)" using v' by simp
    moreover have "kept_companion (map wt_id kept) v = Some (wt_id w)" using v(4) w(1) by (simp add: kept_companion_def)
    then have "at_id (?f v) = c" "at_companion (?f v) = Some (wt_id w)" using v(3) by simp_all
    moreover have "at_id t = wt_id w" using w(2) by simp
    ultimately show "c \<noteq> at_id t \<and> (\<exists>u \<in> set (map ?f kept). at_id u = c \<and> at_companion u = Some (at_id t))"
      using v(1) by metis
  qed
  moreover have "map at_id (map ?f kept) = map wt_id kept" by simp
  then have "distinct (map at_id (map ?f kept))"
    using distinct_map_filter [OF d, of "\<lambda>w. ?k w \<noteq> None"] unfolding kept_def [symmetric] by (simp only:)
  moreover have "case (case map wt_id kept of [] \<Rightarrow> None | i # _ \<Rightarrow> Some i) of None \<Rightarrow> map ?f kept = []
      | Some a \<Rightarrow> a \<in> at_id ` set (map ?f kept)"
    by (cases kept) auto
  ultimately show ?thesis
    unfolding tabs_ok_def tab_list_ok_def tabs by blast
qed

lemma update_first_cong:
  assumes "\<And>x. p x \<Longrightarrow> g (f x) = g x"
  shows "map g (update_first p f xs) = map g xs"
  using assms by (induction xs) auto

lemma update_first_companions:
  assumes "\<And>x. at_id (f x) = at_id x \<and> at_companion (f x) = at_companion x \<and>
      is_settings (f x) = is_settings x \<and> is_editor (f x) = is_editor x" "tab_list_ok ts act"
  shows "tab_list_ok (update_first p f ts) act"
proof -
  let ?us = "update_first p f ts"
  have key: "map (\<lambda>x. (at_id x, at_companion x)) ?us = map (\<lambda>x. (at_id x, at_companion x)) ts"
    using assms(1) by (intro update_first_cong) simp
  have co: "companions_ok A \<longleftrightarrow> (\<forall>(i, m) \<in> (\<lambda>x. (at_id x, at_companion x)) ` A. \<forall>c. m = Some c \<longrightarrow>
      c \<noteq> i \<and> (c, Some i) \<in> (\<lambda>x. (at_id x, at_companion x)) ` A)" for A :: "'a app_tab set"
    unfolding companions_ok_def by (simp add: image_iff) metis
  have "(\<lambda>x. (at_id x, at_companion x)) ` set ?us = (\<lambda>x. (at_id x, at_companion x)) ` set ts"
    using key by (metis list.set_map)
  then have "companions_ok (set ?us)" using assms(2) by (simp add: tab_list_ok_def co)
  then show ?thesis
    using assms(1) by (intro tab_list_ok_shape [OF assms(2)]) (simp_all add: update_first_cong)
qed

lemma update_terminal_ok: "tabs_ok s \<Longrightarrow> tabs_ok (update_terminal i f s)"
  unfolding tabs_ok_def update_terminal_def
  by (simp, rule update_first_companions) (auto simp: is_settings_def is_editor_def split: tab_kind.splits)

lemma title_ok: "tabs_ok s \<Longrightarrow> tabs_ok (fst (apply_terminal_title i title s))"
  unfolding apply_terminal_title_def Let_def
  by (auto simp: tabs_ok_def update_tab_def is_settings_def is_editor_def split: option.splits intro!: update_first_companions)

lemma fits_active: "companion_fits c p target s \<Longrightarrow> tabs_ok s \<Longrightarrow> tabs_ok (s\<lparr>as_active := Some c\<rparr>)"
  using companion_fits_has tabs_ok_active by blast

lemma switch_ok: "tabs_ok s \<Longrightarrow> tabs_ok (fst (switch_ssh_sftp_tab s))"
proof -
  assume ok: "tabs_ok s"
  show ?thesis
  proof (cases "as_active s")
    case (Some a)
    then have "has_tab a s" using ok by (auto simp: tabs_ok_def tab_list_ok_def has_tab_def)
    then show ?thesis
      using ok Some unlink_ok [OF ok] fits_active [OF _ ok]
      by (auto simp: switch_ssh_sftp_tab_def Let_def split: option.splits prod.splits)
  qed (use ok in \<open>simp add: switch_ssh_sftp_tab_def\<close>)
qed

lemma drain_ok: "tabs_ok s \<Longrightarrow> tabs_ok (fst (drain_runtime_resources s))"
proof -
  have same: "at_id (fst (take_resources t)) = at_id t" "at_companion (fst (take_resources t)) = at_companion t"
    "is_settings (fst (take_resources t)) = is_settings t" "is_editor (fst (take_resources t)) = is_editor t"
    for t :: "'a app_tab"
    by (auto simp: take_resources_def is_settings_def is_editor_def split: tab_kind.splits prod.splits)
  assume "tabs_ok s"
  then have "tab_list_ok (map (fst \<circ> take_resources) (as_tabs s)) (as_active s)"
    unfolding tabs_ok_def by (rule tab_list_ok_map) (simp add: same)
  then show ?thesis by (simp add: tabs_ok_def drain_runtime_resources_def Let_def)
qed

section \<open>Reachable states\<close>

text \<open>
  What can happen to the tabs. A fresh uuid differs from the ids in use. A workspace is restored from
  snapshots that were taken of tabs. \<open>run_terminal\<close> is any operation on one terminal.
\<close>

inductive tab_op :: "'x app_state \<Rightarrow> 'x app_state \<Rightarrow> bool" where
  op_terminal: "fresh \<notin> at_id ` set (as_tabs s) \<Longrightarrow>
    tab_op s (fst (open_terminal_tab_with_companion edits0 fresh profile companion s))"
| op_sftp: "fresh \<notin> at_id ` set (as_tabs s) \<Longrightarrow>
    tab_op s (fst (open_sftp_tab_with_companion_at_path edits0 home_dir fresh profile companion initial s))"
| op_local: "fresh \<notin> at_id ` set (as_tabs s) \<Longrightarrow> tab_op s (fst (open_local_shell_tab edits0 fresh s))"
| op_settings: "fresh \<notin> at_id ` set (as_tabs s) \<Longrightarrow> tab_op s (fst (open_settings_tab fresh s))"
| op_editor: "fresh \<notin> at_id ` set (as_tabs s) \<Longrightarrow> tab_op s (fst (open_session_editor fresh editor s))"
| op_activate: "tab_op s (fst (activate_tab i s))"
| op_switch: "tab_op s (fst (switch_ssh_sftp_tab s))"
| op_move: "tab_op s (fst (move_tab_for i k visible s))"
| op_close: "tab_op s (fst (close_tab i s))"
| op_title: "tab_op s (fst (apply_terminal_title i title s))"
| op_run_terminal: "tab_op s (update_terminal i f s)"
| op_drain: "tab_op s (fst (drain_runtime_resources s))"
| op_sessions: "tab_op s (s\<lparr>as_sessions := x\<rparr>)"
| op_restore: "snapshots_ok ws \<Longrightarrow> tab_op s (fst (restore_workspace_tabs edits0 home_dir draft ws s))"

lemma move_ok: "tabs_ok s \<Longrightarrow> tabs_ok (fst (move_tab_for i k visible s))"
proof -
  assume ok: "tabs_ok s"
  have "mset (as_tabs (fst (move_tab_for i k visible s))) = mset (as_tabs s) \<and>
    as_active (fst (move_tab_for i k visible s)) = as_active s"
  proof (cases "position (\<lambda>t. at_id t = i) (as_tabs s)")
    case (Some g)
    obtain xs t ys where "as_tabs s = xs @ t # ys" "length xs = g" using position_split [OF Some] by blast
    then have "add_mset (as_tabs s ! g) (mset (remove_at g (as_tabs s))) = mset (as_tabs s)"
      using remove_at_split [of xs t ys] by auto
    then show ?thesis unfolding move_tab_for_def Let_def Some option.case by (simp split: option.splits)
  next
    case None
    show ?thesis unfolding move_tab_for_def Let_def None option.case by (simp split: option.splits)
  qed
  then show ?thesis using tab_list_ok_mset ok by (metis tabs_ok_def)
qed

lemma tab_op_ok: "tab_op s s' \<Longrightarrow> tabs_ok s \<Longrightarrow> tabs_ok s'"
proof (induction rule: tab_op.induct)
  case (op_activate s i)
  then show ?case using tabs_ok_active by (auto simp: activate_tab_def)
next
  case (op_restore ws s edits0 home_dir draft)
  then show ?case by (simp add: restore_ok)
qed (simp_all add: open_tabs_ok open_editor_ok switch_ok move_ok close_tab_ok title_ok update_terminal_ok drain_ok)

lemma tabs_snapshots_ok: "tabs_ok s \<Longrightarrow> snapshots_ok (workspace_tab_snapshots contents include_text s)"
proof -
  assume ok: "tabs_ok s"
  have [simp]: "wt_id (tab_snapshot contents include_text t) = at_id t"
    "wt_companion (tab_snapshot contents include_text t) = at_companion t"
    "wt_kind (tab_snapshot contents include_text t) = kind_name (at_kind t)" for t :: "'a app_tab"
    by (auto simp: tab_snapshot_def split: tab_kind.splits)
  have kinds: "kind_name (at_kind t) = ''settings'' \<longleftrightarrow> is_settings t" "kind_name (at_kind t) = ''session-editor'' \<longleftrightarrow> is_editor t"
    for t :: "'a app_tab"
  proof -
    have "backend_kind b \<noteq> ''settings''" "backend_kind b \<noteq> ''session-editor''" for b by (cases b; simp)+
    then show "kind_name (at_kind t) = ''settings'' \<longleftrightarrow> is_settings t" "kind_name (at_kind t) = ''session-editor'' \<longleftrightarrow> is_editor t"
      by (cases "at_kind t"; simp add: is_settings_def is_editor_def)+
  qed
  show ?thesis
    using ok unfolding snapshots_ok_def workspace_tab_snapshots_def tabs_ok_def tab_list_ok_def companions_ok_def
    by (simp add: comp_def filter_map kinds)
qed

end
