(* ===== verification/Tab_Properties.thy ===== *)
theory Tab_Properties
  imports Tab_Facts
begin

text \<open>The properties of the tabs, on the facts of \<open>Tab_Facts\<close>.\<close>

section \<open>Reachable states\<close>

definition plain_sessions :: "app_settings session_store" where
  "plain_sessions = \<lparr>ss_version = 37, ss_groups = [], ss_sessions = [], ss_recent = [],
     ss_settings = \<lparr>se_osc52 = False\<rparr>\<rparr>"

lemma new_state_ok: "tabs_ok (app_state_new sessions)"
  by (simp add: tabs_ok_def tab_list_ok_def app_state_new_def companions_ok_def)


definition local_tabs :: "unit app_state" where
  "local_tabs = fst (open_settings_tab 8 (fst (open_local_shell_tab () 7 (app_state_new plain_sessions))))"

lemma local_tabs_reached: "tab_op\<^sup>*\<^sup>* (app_state_new plain_sessions) local_tabs"
proof -
  have "tab_op (app_state_new plain_sessions) (fst (open_local_shell_tab () 7 (app_state_new plain_sessions)))"
    by (rule op_local) (simp add: app_state_new_def)
  moreover have "tab_op (fst (open_local_shell_tab () 7 (app_state_new plain_sessions))) local_tabs"
    unfolding local_tabs_def
    by (rule op_settings) (simp add: open_local_shell_tab_def push_tab_def app_state_new_def new_tab_def Let_def)
  ultimately show ?thesis by (meson r_into_rtranclp rtranclp_trans)
qed

lemma local_tabs_ids: "map at_id (as_tabs local_tabs) = [7, 8]" "as_active local_tabs = Some 8"
  by (simp_all add: local_tabs_def open_settings_tab_def open_singleton_tab_def open_local_shell_tab_def push_tab_def
      app_state_new_def new_tab_def Let_def)

lemma local_tabs_ok: "tabs_ok local_tabs"
  using local_tabs_reached
proof (induction rule: rtranclp_induct)
  case base
  show ?case by (rule new_state_ok)
qed (rule tab_op_ok)


section \<open>Closing and moving\<close>

text \<open>
  Closing a tab removes exactly that tab and the pointers to it; its right neighbour becomes active,
  the last tab when there is none, and nothing changes when another tab was active. Its worker is handed
  over for shutdown, a running host-key probe is cancelled, and the file icon cache is given up with the
  last SFTP tab.
\<close>

theorem close_tab_exact:
  assumes "tabs_ok s" "as_tabs s = xs @ t # ys" "close_tab (at_id t) s = (s', gone)"
  shows "as_tabs s' = map (\<lambda>u. if at_companion u = Some (at_id t) then u\<lparr>at_companion := None\<rparr> else u) (xs @ ys) \<and>
    as_active s' =
       (if as_active s \<noteq> Some (at_id t) then as_active s
        else case ys of u # _ \<Rightarrow> Some (at_id u) | [] \<Rightarrow> if xs = [] then None else Some (at_id (last xs))) \<and>
    (\<exists>c. gone = Some c \<and>
       (case at_kind t of
          TerminalKind x \<Rightarrow> cl_worker c = tt_worker x \<and>
            cl_probe c = (case ssh_phase_of x of Some (Probing pr) \<Rightarrow> Some pr | _ \<Rightarrow> None) \<and>
            cl_kind c = ClosedTerminal (is_sftp x \<and> \<not> (\<exists>u \<in> set (xs @ ys). is_sftp_tab u))
        | SettingsKind \<Rightarrow> cl_kind c = ClosedSettings | EditorKind _ \<Rightarrow> cl_kind c = ClosedEditor))"
proof -
  note parts = close_tab_parts [OF assms(1,2), unfolded assms(3) fst_conv snd_conv]
  have "distinct (map at_id (xs @ t # ys))" using assms(1,2) by (simp add: tabs_ok_def tab_list_ok_def)
  then have "freed (at_id t) u = (if at_companion u = Some (at_id t) then u\<lparr>at_companion := None\<rparr> else u)"
    if "u \<in> set (xs @ ys)" for u
    using that by (auto simp: freed_def rev_image_eqI)
  then have "as_tabs s' = map (\<lambda>u. if at_companion u = Some (at_id t) then u\<lparr>at_companion := None\<rparr> else u) (xs @ ys)"
    unfolding parts(1) by (intro map_cong) auto
  then show ?thesis using parts(2,3) by blast
qed

theorem close_tab_exact_witness:
  "map at_id (as_tabs (fst (close_tab 8 local_tabs))) = [7] \<and> as_active (fst (close_tab 8 local_tabs)) = Some 7"
proof -
  obtain a b where ab: "as_tabs local_tabs = [a] @ b # []" "at_id a = 7" "at_id b = 8"
    using local_tabs_ids(1) by (auto simp: map_eq_Cons_conv)
  note ex = close_tab_exact [OF local_tabs_ok ab(1) prod.collapse [symmetric]]
  have "as_active (fst (close_tab (at_id b) local_tabs)) = Some 7"
    using ex ab local_tabs_ids(2) by simp
  moreover have "map at_id (as_tabs (fst (close_tab (at_id b) local_tabs))) = [7]"
    using ex ab by simp
  ultimately show ?thesis using ab(3) by simp
qed

text \<open>
  C22. Dragging a tab within the tabs a window shows puts it at exactly the place asked for (clamped to the
  last one) in the order of that window, keeps the order of all other tabs of the application, loses or
  duplicates none, and changes nothing else.
\<close>

theorem move_tab_exact:
  assumes "tabs_ok s" "visible = filter (\<lambda>j. j \<in> shown) (map at_id (as_tabs s))" "i \<in> set visible"
  shows "\<exists>tabs. move_tab_for i k visible s = (s\<lparr>as_tabs := tabs\<rparr>, True) \<and>
    mset tabs = mset (as_tabs s) \<and>
    filter (\<lambda>j. j \<in> shown) (map at_id tabs) = insert_at (min k (length visible - 1)) i (remove1 i visible) \<and>
    filter (\<lambda>u. at_id u \<noteq> i) tabs = filter (\<lambda>u. at_id u \<noteq> i) (as_tabs s)"
  using move_tab_exact_parts [OF assms refl] .

theorem move_tab_exact_witness:
  "\<exists>tabs. move_tab_for 8 0 [7, 8] local_tabs = (local_tabs\<lparr>as_tabs := tabs\<rparr>, True) \<and>
     filter (\<lambda>j. j \<in> {7, 8}) (map at_id tabs) = [8, 7]"
  using move_tab_exact [of local_tabs "[7, 8]" "{7, 8}" 8 0] local_tabs_ok local_tabs_ids
  by (auto simp: insert_at_def)

section \<open>Switching between a terminal and its SFTP tab\<close>

text \<open>
  Switching to the companion and switching again comes back to the tab it started from.
\<close>

theorem switch_there_and_back:
  assumes "tabs_ok s" "as_active s = Some a" "switch_ssh_sftp_tab s = (s', Some (NavActivated c))"
  shows "as_active s' = Some c \<and> switch_ssh_sftp_tab s' = (s, Some (NavActivated a))"
proof -
  have d: "distinct (map at_id (as_tabs s))" and ok: "companions_ok (set (as_tabs s))"
    using assms(1) by (simp_all add: tabs_ok_def tab_list_ok_def)
  from assms(2,3) obtain t p target where t: "find_tab a s = Some t" "ssh_connection_target t = Some (p, target, Some c)"
    "companion_fits c p (opposite target) s" "s' = s\<lparr>as_active := Some c\<rparr>"
    by (auto simp: switch_ssh_sftp_tab_def Let_def split: option.splits prod.splits if_splits)
  note ft = find_tab_Some [OF t(1)]
  have tc: "at_companion t = Some c" using t(2) by (auto simp: ssh_connection_target_def split: option.splits)
  then obtain u where u: "u \<in> set (as_tabs s)" "at_id u = c" "at_companion u = Some a"
    using ok ft unfolding companions_ok_def by blast
  from t(3) obtain v q where v: "v \<in> set (as_tabs s)" "at_id v = c" "ssh_connection_target v = Some (p, opposite target, q)"
    by (auto simp: companion_fits_def split: option.splits prod.splits)
  have "v = u" using same_id [OF d v(1) u(1)] v(2) u(2) by simp
  with v(3) u(3) have ut: "ssh_connection_target u = Some (p, opposite target, Some a)"
    by (auto simp: ssh_connection_target_def split: option.splits)
  have "find_tab c s' = Some u"
    using find_distinct_key [OF d u(1)] u(2) t(4) by (simp add: find_tab_def)
  moreover have "companion_fits a p (opposite (opposite target)) s'"
    using ft t(2,4) by (auto simp: companion_fits_def intro!: bexI [of _ t])
  ultimately show ?thesis
    using t(4) ut assms(2) by (simp add: switch_ssh_sftp_tab_def Let_def)
qed

definition ssh_sample :: session_profile where
  "ssh_sample = \<lparr>sp_id = 3, sp_name = ''web'', sp_group = [], sp_icon_override = None, sp_detected = None,
     sp_connection = ConnSsh \<lparr>sc_host = ''h'', sc_port = 22, sc_username = ''u'', sc_auth = PasswordAuth,
       sc_credential_storage = None, sc_vault_key_saved = False, sc_fingerprint = None, sc_x11 = X11Off,
       sc_remote_path = ''~'', sc_local_path = [], sc_policy = None\<rparr>\<rparr>"

definition pair_tabs :: "unit app_state" where
  "pair_tabs = fst (open_sftp_tab_with_companion_at_path () ''/'' 11 ssh_sample (Some 10) None
     (fst (open_terminal_tab_with_companion () 10 ssh_sample None (app_state_new plain_sessions))))"

lemma first_tab: "as_tabs (fst (open_terminal_tab_with_companion () 10 ssh_sample None (app_state_new plain_sessions))) =
    [new_tab 10 (''web #'' @ show_nat 1) (TerminalKind (new_terminal_state (SshBackend 3 None) (Some False)
      ''Preparing connection...'' False True (sftp_browser_default ()) None))]"
  by (simp add: open_terminal_tab_with_companion_def insert_connection_tab_def app_state_new_def ssh_sample_def
      plain_sessions_def insert_at_def sat_add_def)

lemma pair_tabs_ok: "tabs_ok pair_tabs"
proof -
  have "tabs_ok (fst (open_terminal_tab_with_companion () 10 ssh_sample None (app_state_new plain_sessions)))"
    by (rule open_tabs_ok(1) [OF new_state_ok]) (simp add: app_state_new_def)
  then show ?thesis unfolding pair_tabs_def by (rule open_tabs_ok(2)) (simp add: first_tab)
qed

lemma pair_tabs_switch:
  "as_active pair_tabs = Some 11 \<and> switch_ssh_sftp_tab pair_tabs = (pair_tabs\<lparr>as_active := Some 10\<rparr>, Some (NavActivated 10))"
proof -
  define one where "one = fst (open_terminal_tab_with_companion () 10 ssh_sample None (app_state_new plain_sessions))"
  define x where "x = new_terminal_state (SftpBackend 3 None) None ''Preparing SFTP connection...'' False True
      (for_standalone_tab () ''/'' []) None"
  define y where "y = new_terminal_state (SshBackend 3 None) (Some False)
      ''Preparing connection...'' False True (sftp_browser_default ()) None"
  have one: "as_tabs one = [new_tab 10 (''web #'' @ show_nat 1) (TerminalKind y)]"
    unfolding one_def y_def by (rule first_tab)
  have routes: "ssh_route x = Some (3, None)" "connection_target_of x = TargetSftp" "ssh_route y = Some (3, None)"
    "connection_target_of y = TargetTerminal"
    by (simp_all add: x_def y_def new_terminal_state_def ssh_route_def connection_target_of_def is_sftp_def)
  have "as_tabs pair_tabs = [(new_tab 10 (''web #'' @ show_nat 1) (TerminalKind y))\<lparr>at_companion := Some 11\<rparr>,
      (new_tab 11 (''web SFTP'') (TerminalKind x))\<lparr>at_companion := Some 10\<rparr>]" "as_active pair_tabs = Some 11"
    unfolding pair_tabs_def one_def [symmetric]
    by (simp_all add: open_sftp_tab_with_companion_at_path_def insert_connection_tab_def one companion_fits_def
        ssh_connection_target_def routes ssh_sample_def profile_ssh_def x_def [symmetric] insert_at_def
        link_companions_def unlink_companion_def update_tab_def find_tab_def new_tab_def)
  then show ?thesis
    by (simp add: switch_ssh_sftp_tab_def find_tab_def new_tab_def ssh_connection_target_def routes companion_fits_def)
qed

theorem switch_there_and_back_witness:
  "switch_ssh_sftp_tab (pair_tabs\<lparr>as_active := Some 10\<rparr>) = (pair_tabs, Some (NavActivated 11))"
  using switch_there_and_back [OF pair_tabs_ok] pair_tabs_switch by blast

section \<open>Saving and restoring\<close>

text \<open>What of a tab survives: which tab it is and where it leads, not the running connection.\<close>

fun idle_backend :: "backend \<Rightarrow> backend" where
  "idle_backend (SshBackend p _) = SshBackend p None"
| "idle_backend (SftpBackend p _) = SftpBackend p None"
| "idle_backend (TelnetBackend p _) = TelnetBackend p None"
| "idle_backend (SerialBackend p _) = SerialBackend p None"
| "idle_backend LocalBackend = LocalBackend"

lemma idle_idem [simp]: "idle_backend (idle_backend b) = idle_backend b"
  by (cases b) simp_all

datatype tab_content =
  TerminalContent backend string | SftpContent backend string string | SettingsContent | EditorContent "uuid option"

definition tab_content :: "'x app_tab \<Rightarrow> tab_content" where
  "tab_content t =
     (case at_kind t of
        TerminalKind x \<Rightarrow>
          if is_sftp x then SftpContent (idle_backend (tt_backend x)) (at_default_title t) (sb_path (tt_sftp x))
          else TerminalContent (idle_backend (tt_backend x)) (at_default_title t)
      | SettingsKind \<Rightarrow> SettingsContent
      | EditorKind e \<Rightarrow> EditorContent (ed_profile e))"

definition tab_idle :: "'x app_tab \<Rightarrow> bool" where
  "tab_idle t \<longleftrightarrow>
     (case kind_terminal (at_kind t) of
        None \<Rightarrow> True
      | Some x \<Rightarrow> tt_worker x = None \<and> \<not> tt_connected x \<and> \<not> tt_worker_running x \<and> tt_phase x = PhaseIdle \<and>
          tt_pending_secret x = None \<and> tt_pending_read x = None)"

text \<open>The profile of the tab still exists and is of the same protocol.\<close>

definition profile_kept :: "'x app_state \<Rightarrow> 'x app_tab \<Rightarrow> bool" where
  "profile_kept s t \<longleftrightarrow>
     (case kind_terminal (at_kind t) of
        None \<Rightarrow> True
      | Some x \<Rightarrow>
          (case profile_id x of
             None \<Rightarrow> True
           | Some p \<Rightarrow>
               (case profile_of p s of
                  None \<Rightarrow> False
                | Some q \<Rightarrow> restore_backend p (sp_connection q) (backend_kind (tt_backend x)) = Some (idle_backend (tt_backend x)))))"

lemma sftp_kind: "backend_kind b = ''sftp'' \<longleftrightarrow> (case b of SftpBackend _ _ \<Rightarrow> True | _ \<Rightarrow> False)"
  by (cases b) simp_all

lemma backend_kind_cases: "backend_kind b = ''terminal'' \<or> backend_kind b = ''sftp''"
  by (cases b) simp_all

lemma no_profile_local: "profile_id x = None \<longleftrightarrow> tt_backend x = LocalBackend"
  by (auto simp: profile_id_def split: backend.splits)

lemma restored_one:
  assumes "profile_kept s t"
  shows "\<exists>k. restore_kind edits0 home_dir draft s (tab_snapshot contents include_text t) = Some k \<and>
    (\<forall>c. let r = (new_tab (at_id t) (wt_title (tab_snapshot contents include_text t)) k)\<lparr>at_companion := c\<rparr> in
       tab_content r = tab_content t \<and> tab_idle r)"
proof (cases "at_kind t")
  case (TerminalKind x)
  let ?w = "tab_snapshot contents include_text t"
  have w: "wt_kind ?w = backend_kind (tt_backend x)" "wt_profile ?w = profile_id x" "wt_title ?w = at_default_title t"
    "wt_remote_path ?w = sb_path (tt_sftp x)"
    using TerminalKind by (simp_all add: tab_snapshot_def)
  have sftp: "is_sftp x \<longleftrightarrow> backend_kind (tt_backend x) = ''sftp''" by (simp add: is_sftp_def sftp_kind)
  show ?thesis
  proof (cases "profile_id x")
    case None
    then have b: "tt_backend x = LocalBackend" by (simp add: no_profile_local)
    then show ?thesis
      using TerminalKind w None
      by (simp add: restore_kind_def restore_terminal_def tab_content_def tab_idle_def new_tab_def Let_def is_sftp_def
          new_terminal_state_def)
  next
    case (Some p)
    then obtain q where q: "profile_of p s = Some q"
      "restore_backend p (sp_connection q) (backend_kind (tt_backend x)) = Some (idle_backend (tt_backend x))"
      using assms TerminalKind by (auto simp: profile_kept_def split: option.splits)
    obtain y where y: "restore_terminal edits0 home_dir s ?w = Some y" "tt_backend y = idle_backend (tt_backend x)"
      "sb_path (tt_sftp y) = sb_path (tt_sftp x)" "tt_worker y = None" "\<not> tt_connected y" "\<not> tt_worker_running y"
      "tt_phase y = PhaseIdle" "tt_pending_secret y = None" "tt_pending_read y = None"
      using q w Some by (simp add: restore_terminal_def Let_def new_terminal_state_def)
    have "is_sftp y = is_sftp x" using y(2) by (cases "tt_backend x") (simp_all add: is_sftp_def)
    then show ?thesis
      using TerminalKind w y backend_kind_cases [of "tt_backend x"]
      by (auto simp: restore_kind_def tab_content_def tab_idle_def new_tab_def Let_def idle_idem)
  qed
qed (simp_all add: restore_kind_def tab_snapshot_def tab_content_def tab_idle_def new_tab_def)

text \<open>
  C21. A saved workspace comes back: restoring the snapshot of the tabs, while their profiles still exist,
  gives the same tabs in the same order, with the same ids, companions and active tab, the same
  connection, title and remote directory to go to, and with no connection, worker, prompt or secret of
  the old ones.
\<close>

theorem workspace_tabs_restored:
  fixes s s0 :: "'x app_state"
  assumes "tabs_ok s" "\<forall>t \<in> set (as_tabs s). profile_kept s0 t"
    and s1_def: "s1 = set_active_tab_from_snapshot (as_active s)
      (fst (restore_workspace_tabs edits0 home_dir draft (workspace_tab_snapshots contents include_text s) s0))"
  shows "map (\<lambda>t. (at_id t, at_companion t, tab_content t)) (as_tabs s1) =
      map (\<lambda>t. (at_id t, at_companion t, tab_content t)) (as_tabs s) \<and>
    as_active s1 = as_active s \<and> list_all tab_idle (as_tabs s1) \<and> tabs_ok s1"
proof -
  let ?ws = "workspace_tab_snapshots contents include_text s"
  let ?k = "restore_kind edits0 home_dir draft s0"
  let ?r = "fst (restore_workspace_tabs edits0 home_dir draft ?ws s0)"
  have sok: "snapshots_ok ?ws" by (rule tabs_snapshots_ok [OF assms(1)])
  have d: "distinct (map wt_id ?ws)" using sok by (simp add: snapshots_ok_def)
  have ids: "wt_id (tab_snapshot contents include_text t) = at_id t"
    "wt_companion (tab_snapshot contents include_text t) = at_companion t" for t :: "'x app_tab"
    by (simp_all add: tab_snapshot_def split: tab_kind.splits)
  have some: "?k (tab_snapshot contents include_text t) \<noteq> None" if "t \<in> set (as_tabs s)" for t
    using restored_one [of s0 t edits0 home_dir draft contents include_text] assms(2) that by auto
  then have all: "filter (\<lambda>w. ?k w \<noteq> None) ?ws = ?ws"
    by (simp add: filter_id_conv workspace_tab_snapshots_def)
  have wids: "map wt_id ?ws = map at_id (as_tabs s)"
    by (simp add: workspace_tab_snapshots_def ids)
  note tabs = restored_tabs [OF d, of edits0 home_dir draft s0, unfolded all]
  let ?f = "\<lambda>t. (restored_tab ?k (tab_snapshot contents include_text t))
      \<lparr>at_companion := kept_companion (map wt_id ?ws) (tab_snapshot contents include_text t)\<rparr>"
  have r: "as_tabs ?r = map ?f (as_tabs s)"
    unfolding tabs(1) by (simp add: workspace_tab_snapshots_def)
  have s1: "as_tabs s1 = as_tabs ?r"
    by (simp add: s1_def set_active_tab_from_snapshot_def split: option.splits)
  have each: "at_id (?f t) = at_id t \<and> at_companion (?f t) = at_companion t \<and> tab_content (?f t) = tab_content t \<and> tab_idle (?f t)"
    if t: "t \<in> set (as_tabs s)" for t
  proof -
    let ?w = "tab_snapshot contents include_text t"
    obtain k where k: "?k ?w = Some k"
      and kt: "\<And>c. tab_content ((new_tab (at_id t) (wt_title ?w) k)\<lparr>at_companion := c\<rparr>) = tab_content t \<and>
        tab_idle ((new_tab (at_id t) (wt_title ?w) k)\<lparr>at_companion := c\<rparr>)"
      using restored_one [of s0 t edits0 home_dir draft contents include_text] assms(2) t by (auto simp: Let_def)
    have "restored_tab ?k ?w = new_tab (at_id t) (wt_title ?w) k" using k by (simp add: restored_tab_def ids)
    moreover have "kept_companion (map wt_id ?ws) ?w = at_companion t"
    proof -
      have "c \<in> at_id ` set (as_tabs s)" if "at_companion t = Some c" for c
        using assms(1) t that unfolding tabs_ok_def tab_list_ok_def companions_ok_def by blast
      then show ?thesis unfolding kept_companion_def ids wids by (auto split: option.splits)
    qed
    ultimately show ?thesis using kt by simp
  qed
  have "as_active s1 = as_active s"
  proof (cases "as_active s")
    case None
    then have "as_tabs s = []" using assms(1) by (simp add: tabs_ok_def tab_list_ok_def)
    then show ?thesis
      using None tabs(2) by (simp add: s1_def set_active_tab_from_snapshot_def workspace_tab_snapshots_def)
  next
    case (Some a)
    then have "a \<in> at_id ` set (as_tabs s)" using assms(1) by (simp add: tabs_ok_def tab_list_ok_def)
    then have "has_tab a ?r" unfolding has_tab_def r using each by auto
    then show ?thesis using Some by (simp add: s1_def set_active_tab_from_snapshot_def)
  qed
  moreover have "map (\<lambda>t. (at_id t, at_companion t, tab_content t)) (as_tabs s1) =
      map (\<lambda>t. (at_id t, at_companion t, tab_content t)) (as_tabs s)"
    unfolding s1 r map_map comp_def
  proof (rule map_cong [OF refl])
    show "(at_id (?f t), at_companion (?f t), tab_content (?f t)) = (at_id t, at_companion t, tab_content t)"
      if "t \<in> set (as_tabs s)" for t
      using each [OF that] by (simp only: prod.inject)
  qed
  moreover have "list_all tab_idle (as_tabs s1)"
    unfolding s1 r list_all_iff set_map using each by blast
  moreover have "tabs_ok s1"
    using restore_ok [OF sok, of edits0 home_dir draft s0] tabs_ok_active
    by (auto simp: s1_def set_active_tab_from_snapshot_def split: option.splits)
  ultimately show ?thesis by blast
qed

theorem workspace_tabs_restored_witness:
  "as_active (set_active_tab_from_snapshot (as_active local_tabs)
     (fst (restore_workspace_tabs () ''/'' (\<lambda>i. i) (workspace_tab_snapshots (\<lambda>_. ''$'') True local_tabs)
        (app_state_new plain_sessions)))) = Some 8"
proof -
  have "profile_kept (app_state_new plain_sessions) t" if "t \<in> set (as_tabs local_tabs)" for t
  proof -
    have "kind_terminal (at_kind t) = None \<or> (\<exists>x. kind_terminal (at_kind t) = Some x \<and> profile_id x = None)"
      using that by (auto simp: local_tabs_def open_settings_tab_def open_singleton_tab_def open_local_shell_tab_def
          push_tab_def app_state_new_def Let_def profile_id_def new_terminal_state_def)
    then show ?thesis by (auto simp: profile_kept_def)
  qed
  then have kept: "\<forall>t \<in> set (as_tabs local_tabs). profile_kept (app_state_new plain_sessions) t" by blast
  show ?thesis
    using workspace_tabs_restored [OF local_tabs_ok kept refl, of "()" "''/''" "\<lambda>i. i" "\<lambda>_. ''$''" True]
      local_tabs_ids(2) by simp
qed

end
