(* ===== verification/Connection_Attempts.thy ===== *)
theory Connection_Attempts
  imports Workspace_Tabs
begin

text \<open>
  How a tab gets its connection and loses it: \<^verbatim>\<open>src/app/state/transitions.rs\<close> and
  \<^verbatim>\<open>src/app/connection/\<close> (\<^verbatim>\<open>request.rs\<close>, \<^verbatim>\<open>authentication.rs\<close>, \<^verbatim>\<open>worker_start.rs\<close>,
  \<^verbatim>\<open>host_key.rs\<close>, \<^verbatim>\<open>reconnect.rs\<close>, \<^verbatim>\<open>direct.rs\<close>), with the profile mutations of
  \<^verbatim>\<open>src/app/workspace/session_editor.rs\<close> and the connection events of
  \<^verbatim>\<open>src/app/connection_monitor.rs\<close>. A definition is what one task does to the application state
  between two points where it waits; what the task waited for (an answer of the key ring, a probe, a file
  that was written) is an argument, and so are fresh ids. A started worker and a spawned task are results.
  Messages for the status line of the window are left out, messages of a tab are kept. An error is its
  text; \<open>saved\<close> is the error of writing the configuration, if any.
\<close>

section \<open>Texts\<close>

definition profile_endpoint :: "session_profile \<Rightarrow> string" where
  "profile_endpoint p =
     (case sp_connection p of
        ConnSsh c \<Rightarrow> sc_username c @ ''@'' @ sc_host c @ '':'' @ show_nat (unat (sc_port c))
      | ConnTelnet c \<Rightarrow> ''telnet://'' @ tc_host c @ '':'' @ show_nat (unat (tc_port c))
      | ConnSerial c \<Rightarrow> ''Serial '' @ rc_port_name c @ '' @ '' @ show_nat (rc_baud_rate c))"

section \<open>Looking at a tab\<close>

definition tab_ssh_profile :: "uuid \<Rightarrow> uuid \<Rightarrow> 'x app_state \<Rightarrow> bool" where
  "tab_ssh_profile tab p s \<longleftrightarrow>
     (case terminal_of tab s of
        None \<Rightarrow> False
      | Some t \<Rightarrow> (case ssh_route t of None \<Rightarrow> False | Some (q, _) \<Rightarrow> q = p))"

definition terminal_has_phase :: "uuid \<Rightarrow> uuid \<Rightarrow> (ssh_phase \<Rightarrow> bool) \<Rightarrow> 'x app_state \<Rightarrow> bool" where
  "terminal_has_phase tab p test s \<longleftrightarrow>
     tab_ssh_profile tab p s \<and>
     (case Option.bind (terminal_of tab s) ssh_phase_of of None \<Rightarrow> False | Some ph \<Rightarrow> test ph)"

definition matches_attempt :: "uuid \<Rightarrow> uuid \<Rightarrow> uuid \<Rightarrow> 'x app_state \<Rightarrow> bool" where
  "matches_attempt tab p a s \<longleftrightarrow> Option.bind (terminal_of tab s) ssh_route = Some (p, Some a)"

definition session_attempt_is_active :: "uuid \<Rightarrow> uuid \<Rightarrow> uuid \<Rightarrow> 'x app_state \<Rightarrow> bool" where
  "session_attempt_is_active tab p a s \<longleftrightarrow> matches_attempt tab p a s"

definition set_tab_status :: "uuid \<Rightarrow> string \<Rightarrow> 'x app_state \<Rightarrow> 'x app_state" where
  "set_tab_status tab message = update_terminal tab (\<lambda>t. t\<lparr>tt_status := message\<rparr>)"

definition set_phase :: "ssh_phase \<Rightarrow> 'x terminal_tab \<Rightarrow> 'x terminal_tab" where
  "set_phase ph t = fst (set_ssh_phase ph t)"

definition set_loading_stored_credential :: "uuid \<Rightarrow> uuid \<Rightarrow> 'x app_state \<Rightarrow> 'x app_state \<times> bool" where
  "set_loading_stored_credential tab p s =
     (if \<not> terminal_has_phase tab p is_awaiting_authentication s then (s, False)
      else (update_terminal tab (set_phase LoadingStoredCredential) s, True))"

fun is_awaiting_or_loading :: "ssh_phase \<Rightarrow> bool" where
  "is_awaiting_or_loading (AwaitingAuthentication _) = True"
| "is_awaiting_or_loading LoadingStoredCredential = True"
| "is_awaiting_or_loading _ = False"

definition set_awaiting_authentication :: "uuid \<Rightarrow> uuid \<Rightarrow> bool \<Rightarrow> 'x app_state \<Rightarrow> 'x app_state \<times> bool" where
  "set_awaiting_authentication tab p unlock_only s =
     (if \<not> terminal_has_phase tab p is_awaiting_or_loading s then (s, False)
      else (update_terminal tab (set_phase (AwaitingAuthentication unlock_only)) s, True))"

section \<open>The end of an attempt\<close>

text \<open>The lines that every way to end an attempt shares; \<open>forget\<close> clears the attempt of its protocol.\<close>

definition end_attempt :: "('x terminal_tab \<Rightarrow> 'x terminal_tab \<times> bool) \<Rightarrow> 'x terminal_tab \<Rightarrow> 'x terminal_tab" where
  "end_attempt forget t =
     (let t1 = fst (finish_reconnect_attempt (tt_generation t) t);
          t2 = fst (clear_pending_clipboard_read (t1\<lparr>tt_worker := None\<rparr>));
          t3 = fst (forget (t2\<lparr>tt_media := media_cancel (tt_media t2)\<rparr>)) in
      t3\<lparr>tt_connected := False, tt_worker_running := False\<rparr>)"

definition prepare_retry_with_phase :: "uuid \<Rightarrow> uuid \<Rightarrow> uuid \<Rightarrow> ssh_phase \<Rightarrow> 'x app_state \<Rightarrow> 'x app_state \<times> bool" where
  "prepare_retry_with_phase tab p a ph s =
     (if \<not> matches_attempt tab p a s then (s, False)
      else (update_terminal tab (\<lambda>t. set_phase ph (end_attempt (set_ssh_attempt None) t)) s, True))"

definition prepare_authentication_retry :: "uuid \<Rightarrow> uuid \<Rightarrow> uuid \<Rightarrow> 'x app_state \<Rightarrow> 'x app_state \<times> bool" where
  "prepare_authentication_retry tab p a s = prepare_retry_with_phase tab p a (AwaitingAuthentication False) s"

definition prepare_stored_credential_retry :: "uuid \<Rightarrow> uuid \<Rightarrow> uuid \<Rightarrow> 'x app_state \<Rightarrow> 'x app_state \<times> bool" where
  "prepare_stored_credential_retry tab p a s = prepare_retry_with_phase tab p a LoadingStoredCredential s"

definition finish_stored_credential_retry :: "uuid \<Rightarrow> uuid \<Rightarrow> 'x app_state \<Rightarrow> 'x app_state \<times> bool" where
  "finish_stored_credential_retry tab p s =
     (if \<not> terminal_has_phase tab p (\<lambda>ph. ph = LoadingStoredCredential) s then (s, False)
      else (update_terminal tab (set_phase (AwaitingAuthentication False)) s, True))"

definition prepare_host_key_retry :: "uuid \<Rightarrow> uuid \<Rightarrow> uuid \<Rightarrow> pending_host_key \<Rightarrow> 'x app_state \<Rightarrow> 'x app_state \<times> bool" where
  "prepare_host_key_retry tab p a prompt s =
     (if \<not> matches_attempt tab p a s then (s, False)
      else (update_terminal tab
        (\<lambda>t. set_phase (AwaitingHostKey prompt) (end_attempt (set_ssh_attempt None) t)) s, True))"

definition retire_terminal :: "'x \<Rightarrow> 'x terminal_tab \<Rightarrow> 'x terminal_tab" where
  "retire_terminal edits0 t =
     (let preserve = tt_reconnect_enabled t;
          t1 = end_attempt (set_ssh_attempt None) t;
          t2 = (if is_sftp t1 \<and> sb_path (tt_sftp t1) \<noteq> []
                then t1\<lparr>tt_sftp_initial_path := Some (sb_path (tt_sftp t1))\<rparr> else t1) in
      if is_sftp t2 \<and> preserve then t2\<lparr>tt_sftp := prepare_for_reconnect edits0 (tt_sftp t2)\<rparr>
      else t2\<lparr>tt_sftp := reset_browser edits0 (clear_transfer_intents (tt_sftp t2))\<rparr>)"

definition retire_session_attempt :: "'x \<Rightarrow> uuid \<Rightarrow> uuid \<Rightarrow> uuid \<Rightarrow> 'x app_state \<Rightarrow> 'x app_state \<times> bool" where
  "retire_session_attempt edits0 tab p a s =
     (if matches_attempt tab p a s then (update_terminal tab (retire_terminal edits0) s, True) else (s, False))"

section \<open>Changing what a session remembers\<close>

definition with_sessions :: "app_settings session_store \<Rightarrow> 'x app_state \<Rightarrow> 'x app_state" where
  "with_sessions store s = s\<lparr>as_sessions := store\<rparr>"

definition update_session ::
  "uuid \<Rightarrow> (session_profile \<Rightarrow> session_profile) \<Rightarrow> app_settings session_store \<Rightarrow> app_settings session_store" where
  "update_session p f store =
     store\<lparr>ss_sessions := update_first (\<lambda>q. sp_id q = p) f (ss_sessions store)\<rparr>"

definition set_credential_storage_while_loading ::
  "string option \<Rightarrow> uuid \<Rightarrow> uuid \<Rightarrow> credential_storage option \<Rightarrow> session_profile option \<Rightarrow> 'x app_state \<Rightarrow>
   'x app_state \<times> (string + bool)" where
  "set_credential_storage_while_loading saved tab p storage expected s =
     (if \<not> terminal_has_phase tab p (\<lambda>ph. ph = LoadingStoredCredential) s then (s, Inr False)
      else
        case profile_of p s of
          None \<Rightarrow> (s, Inl ''session not found while updating credential storage'')
        | Some profile \<Rightarrow>
            if expected \<noteq> None \<and> expected \<noteq> Some profile then (s, Inr False)
            else
              case profile_ssh profile of
                None \<Rightarrow> (s, Inl ''only SSH profiles can update credential storage'')
              | Some c \<Rightarrow>
                  if sc_credential_storage c = storage then (s, Inr True)
                  else if storage \<noteq> None \<and> sc_auth c \<noteq> PasswordAuth then (s, Inl ''non-password profiles cannot store password credentials'')
                  else if saved \<noteq> None then (s, Inl (the saved))
                  else
                    (with_sessions (update_session p
                       (modify_ssh (\<lambda>c. c\<lparr>sc_credential_storage := storage,
                          sc_vault_key_saved := (if storage = Some EncryptedVault then sc_vault_key_saved c else False)\<rparr>))
                       (as_sessions s)) s, Inr True))"

definition begin_checked_mutation ::
  "uuid \<Rightarrow> uuid \<Rightarrow> session_profile option \<Rightarrow> 'x app_state \<Rightarrow> 'x app_state \<times> (string + uuid)" where
  "begin_checked_mutation token p expected s =
     (if profile_of p s \<noteq> expected then (s, Inl ''session changed before the save started'')
      else if profile_mutation_is_pending p s then (s, Inl ''session is already being modified'')
      else (begin_profile_mutation token p s, Inr token))"

definition ensure_profile_mutation_current :: "uuid \<Rightarrow> uuid \<Rightarrow> session_profile option \<Rightarrow> 'x app_state \<Rightarrow> bool" where
  "ensure_profile_mutation_current p token expected s \<longleftrightarrow>
     profile_mutation_is_current p token s \<and> profile_of p s = expected"

definition commit_profile_save ::
  "string option \<Rightarrow> session_profile \<Rightarrow> session_profile option \<Rightarrow> uuid \<Rightarrow> 'x app_state \<Rightarrow> 'x app_state \<times> (string + unit)" where
  "commit_profile_save saved profile expected token s =
     (if \<not> profile_mutation_is_current (sp_id profile) token s then (s, Inl ''session save was superseded'')
      else if profile_of (sp_id profile) s \<noteq> expected
      then (finish_profile_mutation (sp_id profile) token s, Inl ''session changed while the save was running'')
      else if saved \<noteq> None then (finish_profile_mutation (sp_id profile) token s, Inl (the saved))
      else (finish_profile_mutation (sp_id profile) token (with_sessions (upsert profile (as_sessions s)) s), Inr ()))"

definition commit_profile_credential_storage ::
  "string option \<Rightarrow> session_profile \<Rightarrow> credential_storage \<Rightarrow> bool \<Rightarrow> uuid \<Rightarrow> 'x app_state \<Rightarrow>
   'x app_state \<times> (string + unit)" where
  "commit_profile_credential_storage saved expected storage generated token s =
     (if \<not> profile_mutation_is_current (sp_id expected) token s then (s, Inl ''credential storage update was superseded'')
      else
        let finish = finish_profile_mutation (sp_id expected) token in
        if profile_of (sp_id expected) s \<noteq> Some expected then (finish s, Inl ''session changed while saving credential storage'')
        else
          case profile_ssh expected of
            None \<Rightarrow> (finish s, Inl ''credential storage requires an SSH profile'')
          | Some c \<Rightarrow>
              if sc_auth c \<noteq> PasswordAuth then (finish s, Inl ''non-password profiles cannot store password credentials'')
              else if generated \<and> storage \<noteq> EncryptedVault then (finish s, Inl ''generated vault passwords require encrypted-vault storage'')
              else if sc_credential_storage c = Some storage \<and> sc_vault_key_saved c = generated
              then (finish s, Inr ())
              else if saved \<noteq> None then (finish s, Inl (the saved))
              else (finish (with_sessions (update_session (sp_id expected)
                (modify_ssh (\<lambda>c. c\<lparr>sc_credential_storage := Some storage, sc_vault_key_saved := generated\<rparr>))
                (as_sessions s)) s), Inr ()))"

text \<open>Deleting a session also closes its editor when that is the active tab.\<close>

definition active_editor_profile_id :: "'x app_state \<Rightarrow> uuid option option" where
  "active_editor_profile_id s = map_option (\<lambda>(_, _, p). p) (active_editor_identity s)"

definition commit_profile_delete :: "string option \<Rightarrow> session_profile \<Rightarrow> uuid \<Rightarrow> 'x app_state \<Rightarrow> 'x app_state \<times> (string + unit)" where
  "commit_profile_delete saved expected token s =
     (if \<not> profile_mutation_is_current (sp_id expected) token s then (s, Inl ''session delete was superseded'')
      else
        let finish = finish_profile_mutation (sp_id expected) token in
        if profile_of (sp_id expected) s \<noteq> Some expected then (finish s, Inl ''session changed while the delete was running'')
        else
          case remove_session (sp_id expected) (as_sessions s) of
            (store, False) \<Rightarrow> (finish s, Inl ''session not found'')
          | (store, True) \<Rightarrow>
              if saved \<noteq> None then (finish s, Inl (the saved))
              else
                let s1 = with_sessions store s;
                    s2 = (case (active_editor_profile_id s1 = Some (Some (sp_id expected)), as_active s1) of
                            (True, Some tab) \<Rightarrow> fst (close_tab tab s1)
                          | _ \<Rightarrow> s1) in
                (finish s2, Inr ()))"

section \<open>Starting a worker\<close>

datatype authentication_start = StartPrompt | StartStoredCredential

fun start_phase :: "authentication_start \<Rightarrow> ssh_phase \<Rightarrow> bool" where
  "start_phase StartPrompt ph = is_awaiting_authentication ph"
| "start_phase StartStoredCredential ph = (ph = LoadingStoredCredential)"

definition worker_profile :: "connection_target \<Rightarrow> 'x terminal_tab option \<Rightarrow> session_profile \<Rightarrow> session_profile" where
  "worker_profile target t profile =
     (case (target, Option.bind t tt_sftp_initial_path) of
        (TargetSftp, Some path) \<Rightarrow> modify_ssh (\<lambda>c. c\<lparr>sc_remote_path := path\<rparr>) profile
      | _ \<Rightarrow> profile)"

definition with_ssh_worker :: "uuid \<Rightarrow> uuid \<Rightarrow> session_profile \<Rightarrow> 'x terminal_tab \<Rightarrow> 'x terminal_tab" where
  "with_ssh_worker a w profile t =
     (let t1 = (fst (set_ssh_attempt (Some a) t))\<lparr>tt_worker := Some (SshWorker w)\<rparr>;
          t2 = (enable_reconnect t1)\<lparr>tt_worker_running := True, tt_connected := False,
            tt_status := ''Connecting to '' @ profile_endpoint profile @ ''...''\<rparr> in
      set_phase PhaseIdle t2)"

text \<open>The result is the profile the worker was started with; \<open>a\<close> and \<open>w\<close> are the fresh attempt and worker.\<close>

definition start_session_worker ::
  "uuid \<Rightarrow> uuid \<Rightarrow> uuid \<Rightarrow> session_profile \<Rightarrow> authentication_start \<Rightarrow> connection_target \<Rightarrow> 'x app_state \<Rightarrow>
   'x app_state \<times> (string + session_profile)" where
  "start_session_worker a w tab profile source target s =
     (if \<not> terminal_has_phase tab (sp_id profile) (start_phase source) s then (s, Inl ''terminal tab is not awaiting authentication'')
      else if profile_of (sp_id profile) s \<noteq> Some profile then (s, Inl ''session profile changed before the worker started'')
      else
        let launched = worker_profile target (terminal_of tab s) profile in
        case terminal_of tab s of
          None \<Rightarrow> (s, Inl ''terminal tab is missing or already has a worker'')
        | Some t \<Rightarrow>
            if tt_worker t \<noteq> None \<or> connection_target_of t \<noteq> target then (s, Inl ''terminal tab is missing or already has a worker'')
            else if \<not> is_ssh t then (s, Inl ''terminal tab is not an SSH terminal'')
            else (update_terminal tab (with_ssh_worker a w launched) s, Inr launched))"

section \<open>Authentication\<close>

text \<open>
  What a step starts: a worker (of an SSH session with its profile, its secret and whether the secret was
  a stored one), a task that waits for an answer, the sleep before a
  reconnection, or closing the tab.
\<close>

datatype launch =
  NoLaunch
| LaunchWorker session_profile string bool
| LaunchTelnet telnet_config
| LaunchSerial serial_config
| LookupKeyring
| LookupUnlockKey
| LookupVault string
| ProbeHostKey uuid
| ResolvePort serial_config
| ReconnectAfter nat u64
| DeleteCredential
| CloseTab

definition start_or_prompt ::
  "uuid \<Rightarrow> uuid \<Rightarrow> uuid \<Rightarrow> session_profile \<Rightarrow> connection_target \<Rightarrow> string \<Rightarrow> string \<Rightarrow> 'x app_state \<Rightarrow>
   'x app_state \<times> launch" where
  "start_or_prompt a w tab profile target secret failure s =
     (case start_session_worker a w tab profile StartPrompt target s of
        (s1, Inr launched) \<Rightarrow> (s1, LaunchWorker launched secret False)
      | (s1, Inl e) \<Rightarrow>
          (set_tab_status tab (failure @ '': '' @ e)
             (fst (set_awaiting_authentication tab (sp_id profile) False s1)), NoLaunch))"

definition take_one_time_password :: "uuid \<Rightarrow> uuid \<Rightarrow> 'x app_state \<Rightarrow> 'x app_state \<times> string option" where
  "take_one_time_password tab p s =
     (if \<not> terminal_has_phase tab p is_awaiting_authentication s then (s, None)
      else
        case terminal_of tab s of
          None \<Rightarrow> (s, None)
        | Some t \<Rightarrow> (update_terminal tab (\<lambda>t. fst (take_pending_auth_secret t)) s, snd (take_pending_auth_secret t)))"

definition ask_for_password :: "uuid \<Rightarrow> uuid \<Rightarrow> bool \<Rightarrow> string \<Rightarrow> 'x app_state \<Rightarrow> 'x app_state" where
  "ask_for_password tab p unlock_only message s =
     set_tab_status tab message (fst (set_awaiting_authentication tab p unlock_only s))"

definition begin_lookup :: "uuid \<Rightarrow> uuid \<Rightarrow> string \<Rightarrow> launch \<Rightarrow> 'x app_state \<Rightarrow> 'x app_state \<times> launch" where
  "begin_lookup tab p message task s =
     (case set_loading_stored_credential tab p s of
        (s1, False) \<Rightarrow> (s1, NoLaunch)
      | (s1, True) \<Rightarrow> (set_tab_status tab message s1, task))"

definition begin_authentication ::
  "uuid \<Rightarrow> uuid \<Rightarrow> uuid \<Rightarrow> session_profile \<Rightarrow> connection_target \<Rightarrow> 'x app_state \<Rightarrow> 'x app_state \<times> launch" where
  "begin_authentication a w tab profile target s =
     (case profile_ssh profile of
        None \<Rightarrow> (set_tab_status tab ''SSH authentication requires an SSH profile'' s, NoLaunch)
      | Some c \<Rightarrow>
          (case sc_auth c of
             PrivateKeyAuth _ \<Rightarrow>
               start_or_prompt a w tab profile target [] ''Cannot start private-key connection''
                 (set_tab_status tab ''Loading private key...'' s)
           | SshAgentAuth \<Rightarrow>
               start_or_prompt a w tab profile target [] ''Cannot start SSH-agent connection''
                 (set_tab_status tab ''Connecting with SSH agent...'' s)
           | PasswordAuth \<Rightarrow>
               (case take_one_time_password tab (sp_id profile) s of
                  (s1, Some password) \<Rightarrow>
                    start_or_prompt a w tab profile target password ''Cannot start password connection''
                      (set_tab_status tab ''Connecting with the one-time password...'' s1)
                | (s1, None) \<Rightarrow>
                    (case sc_credential_storage c of
                       None \<Rightarrow> (ask_for_password tab (sp_id profile) False ''Password required'' s1, NoLaunch)
                     | Some EncryptedVault \<Rightarrow>
                         if sc_vault_key_saved c
                         then begin_lookup tab (sp_id profile) ''Loading the hidden encrypted-vault unlock key...''
                           LookupUnlockKey s1
                         else (ask_for_password tab (sp_id profile) True
                           ''Unlocking the saved password requires the vault password'' s1, NoLaunch)
                     | Some SystemKeyring \<Rightarrow>
                         begin_lookup tab (sp_id profile) ''Loading password from system credential store...''
                           LookupKeyring s1))))"

text \<open>What a credential store answers.\<close>

datatype lookup = Found string | NotFound | LookupFailed string

definition start_stored ::
  "uuid \<Rightarrow> uuid \<Rightarrow> uuid \<Rightarrow> session_profile \<Rightarrow> connection_target \<Rightarrow> string \<Rightarrow> 'x app_state \<Rightarrow> 'x app_state \<times> launch" where
  "start_stored a w tab profile target secret s =
     (case start_session_worker a w tab profile StartStoredCredential target s of
        (s1, Inr launched) \<Rightarrow> (s1, LaunchWorker launched secret True)
      | (s1, Inl _) \<Rightarrow> (s1, NoLaunch))"

definition ask_again :: "uuid \<Rightarrow> uuid \<Rightarrow> string \<Rightarrow> 'x app_state \<Rightarrow> 'x app_state" where
  "ask_again tab p message s =
     (case set_awaiting_authentication tab p False s of
        (s1, False) \<Rightarrow> s1
      | (s1, True) \<Rightarrow> set_tab_status tab message s1)"

text \<open>The answer for a secret of the key ring, or of the vault that the user unlocked.\<close>

definition finish_secret_lookup ::
  "string option \<Rightarrow> string \<Rightarrow> string \<Rightarrow> uuid \<Rightarrow> uuid \<Rightarrow> uuid \<Rightarrow> session_profile \<Rightarrow> connection_target \<Rightarrow> lookup \<Rightarrow>
   'x app_state \<Rightarrow> 'x app_state \<times> launch" where
  "finish_secret_lookup saved missing trouble a w tab profile target res s =
     (case res of
        Found secret \<Rightarrow> start_stored a w tab profile target secret s
      | NotFound \<Rightarrow>
          (case set_credential_storage_while_loading saved tab (sp_id profile) None (Some profile) s of
             (s1, Inr False) \<Rightarrow> (s1, NoLaunch)
           | (s1, _) \<Rightarrow> (ask_again tab (sp_id profile) missing s1, NoLaunch))
      | LookupFailed e \<Rightarrow> (ask_again tab (sp_id profile) (trouble @ e) s, NoLaunch))"

definition is_loading :: "uuid \<Rightarrow> uuid \<Rightarrow> 'x app_state \<Rightarrow> bool" where
  "is_loading tab p s \<longleftrightarrow> terminal_has_phase tab p (\<lambda>ph. ph = LoadingStoredCredential) s"

definition finish_keyring_lookup ::
  "string option \<Rightarrow> uuid \<Rightarrow> uuid \<Rightarrow> uuid \<Rightarrow> session_profile \<Rightarrow> connection_target \<Rightarrow> lookup \<Rightarrow> 'x app_state \<Rightarrow>
   'x app_state \<times> launch" where
  "finish_keyring_lookup saved a w tab profile target res s =
     (if \<not> is_loading tab (sp_id profile) s then (s, NoLaunch)
      else finish_secret_lookup saved ''Saved password was not found; enter it again''
        ''System credential unavailable; enter password: '' a w tab profile target res s)"

definition finish_vault_lookup ::
  "string option \<Rightarrow> uuid \<Rightarrow> uuid \<Rightarrow> uuid \<Rightarrow> session_profile \<Rightarrow> connection_target \<Rightarrow> lookup \<Rightarrow> 'x app_state \<Rightarrow>
   'x app_state \<times> launch" where
  "finish_vault_lookup saved =
     finish_secret_lookup saved ''Saved vault password was not found; enter the SSH password''
       ''Cannot unlock saved password; enter the SSH password to continue: ''"

text \<open>\<open>deleted\<close>: whether the credential could be deleted from its store.\<close>

definition clear_missing_auto_vault_credential ::
  "string option \<Rightarrow> bool \<Rightarrow> uuid \<Rightarrow> session_profile \<Rightarrow> 'x app_state \<Rightarrow> 'x app_state" where
  "clear_missing_auto_vault_credential saved deleted tab profile s =
     (if \<not> deleted then s
      else fst (set_credential_storage_while_loading saved tab (sp_id profile) None (Some profile) s))"

text \<open>\<open>unlock\<close> answers for the key of the vault, \<open>res\<close> for the password that it unlocks.\<close>

definition finish_unlock_lookup ::
  "string option \<Rightarrow> bool \<Rightarrow> uuid \<Rightarrow> uuid \<Rightarrow> uuid \<Rightarrow> session_profile \<Rightarrow> connection_target \<Rightarrow> lookup \<Rightarrow> lookup \<Rightarrow>
   'x app_state \<Rightarrow> 'x app_state \<times> launch" where
  "finish_unlock_lookup saved deleted a w tab profile target unlock res s =
     (let p = sp_id profile;
          clear = clear_missing_auto_vault_credential saved deleted tab profile in
      if \<not> is_loading tab p s then (s, NoLaunch)
      else
        case unlock of
          Found _ \<Rightarrow>
            (case res of
               Found secret \<Rightarrow> start_stored a w tab profile target secret s
             | NotFound \<Rightarrow>
                 (ask_for_password tab p False ''Saved password was not found; enter it again'' (clear s), NoLaunch)
             | LookupFailed e \<Rightarrow>
                 (ask_for_password tab p False (''Cannot unlock saved password; enter it again: '' @ e) s, NoLaunch))
        | NotFound \<Rightarrow>
            (ask_for_password tab p False ''Saved password could not be unlocked; enter it again'' (clear s), NoLaunch)
        | LookupFailed e \<Rightarrow>
            (ask_for_password tab p False (''System credential unavailable; enter password: '' @ e) s, NoLaunch))"

text \<open>The answer of the user. The Boolean tells the dialog whether to close.\<close>

definition authentication_target :: "'x app_state \<Rightarrow> (uuid \<times> session_profile \<times> bool \<times> connection_target) option" where
  "authentication_target s =
     Option.bind (as_active s) (\<lambda>tab. Option.bind (terminal_of tab s) (\<lambda>t.
       Option.bind (ssh_route t) (\<lambda>(p, _).
         case tt_phase t of
           AwaitingAuthentication unlock_only \<Rightarrow>
             map_option (\<lambda>profile. (tab, profile, unlock_only, connection_target_of t)) (profile_of p s)
         | _ \<Rightarrow> None)))"

definition submit_authentication ::
  "uuid \<Rightarrow> uuid \<Rightarrow> string \<Rightarrow> string \<Rightarrow> 'x app_state \<Rightarrow> 'x app_state \<times> launch \<times> bool" where
  "submit_authentication a w password vault_password s =
     (case authentication_target s of
        None \<Rightarrow> (s, NoLaunch, False)
      | Some (tab, profile, unlock_only, target) \<Rightarrow>
          (case profile_ssh profile of
             None \<Rightarrow> (s, NoLaunch, False)
           | Some c \<Rightarrow>
               if unlock_only
               then
                 if vault_password = [] then (s, NoLaunch, False)
                 else
                   case set_loading_stored_credential tab (sp_id profile) s of
                     (s1, False) \<Rightarrow> (s1, NoLaunch, False)
                   | (s1, True) \<Rightarrow> (s1, LookupVault vault_password, True)
               else if sc_auth c = PasswordAuth \<and> password = [] then (s, NoLaunch, False)
               else
                 case start_session_worker a w tab profile StartPrompt target s of
                   (s1, Inr launched) \<Rightarrow> (s1, LaunchWorker launched password False, True)
                 | (s1, Inl _) \<Rightarrow> (s1, NoLaunch, False)))"

definition cancel_authentication :: "'x app_state \<Rightarrow> 'x app_state" where
  "cancel_authentication s =
     (case as_active s of
        None \<Rightarrow> s
      | Some tab \<Rightarrow>
          (case terminal_of tab s of
             None \<Rightarrow> s
           | Some t \<Rightarrow>
               if ssh_route t \<noteq> None \<and> is_awaiting_authentication (tt_phase t)
               then set_tab_status tab ''Authentication cancelled'' (update_terminal tab (set_phase PhaseIdle) s)
               else s))"

text \<open>The result is the worker that is asked to disconnect.\<close>

definition disconnect_session :: "'x app_state \<Rightarrow> 'x app_state \<times> worker option" where
  "disconnect_session s =
     (case as_active s of
        None \<Rightarrow> (s, None)
      | Some tab \<Rightarrow> (update_terminal tab cancel_reconnect s, Option.bind (terminal_of tab s) tt_worker))"

section \<open>Host keys\<close>

text \<open>The result of a probe that was not cancelled, and whether authentication goes on.\<close>

definition finish_host_key_probe ::
  "uuid \<Rightarrow> session_profile \<Rightarrow> connection_target \<Rightarrow> (string + host_key_probe) option \<Rightarrow> 'x terminal_tab \<Rightarrow>
   'x terminal_tab \<times> (string + bool) option" where
  "finish_host_key_probe tab profile target result t =
     (let cur = (case ssh_route t of None \<Rightarrow> False | Some (p, _) \<Rightarrow> p = sp_id profile) \<and>
                connection_target_of t = target \<and>
                (case ssh_phase_of t of
                   Some (Probing probe) \<Rightarrow> pb_tab probe = tab \<and> pb_profile probe = sp_id profile
                 | _ \<Rightarrow> False) in
      if \<not> cur then (t, None)
      else
        case result of
          None \<Rightarrow> (t, None)
        | Some (Inl e) \<Rightarrow> (set_phase PhaseIdle t, Some (Inl e))
        | Some (Inr probe) \<Rightarrow>
            if pr_decision probe = Trusted then (set_phase (AwaitingAuthentication False) t, Some (Inr True))
            else
              case profile_ssh profile of
                None \<Rightarrow> (t, None)
              | Some c \<Rightarrow>
                  (set_phase (AwaitingHostKey
                     \<lparr>hk_tab = tab, hk_profile = sp_id profile, hk_host = sc_host c, hk_port = sc_port c,
                      hk_fingerprint = pr_fingerprint probe, hk_public_key = pr_public_key probe,
                      hk_changed = (pr_decision probe = Changed), hk_revoked = (pr_decision probe = Revoked)\<rparr>) t,
                   Some (Inr False)))"

datatype probe_purpose = PurposeConnect | PurposeRestore

fun checking_status :: "probe_purpose \<Rightarrow> string" where
  "checking_status PurposeConnect = ''Checking SSH host key...''"
| "checking_status PurposeRestore = ''Checking SSH host key before reconnecting...''"

fun confirmation_status :: "probe_purpose \<Rightarrow> string" where
  "confirmation_status PurposeConnect = ''Verify the SSH host key before connecting''"
| "confirmation_status PurposeRestore = ''Verify the SSH host key before reconnecting''"

text \<open>The task of \<^verbatim>\<open>spawn_host_key_probe\<close>, from its answer on; \<open>None\<close> when the tab has cancelled it.\<close>

definition host_key_probed ::
  "uuid \<Rightarrow> uuid \<Rightarrow> uuid \<Rightarrow> session_profile \<Rightarrow> connection_target \<Rightarrow> probe_purpose \<Rightarrow>
   (string + host_key_probe) option \<Rightarrow> 'x app_state \<Rightarrow> 'x app_state \<times> launch" where
  "host_key_probed a w tab profile target purpose result s =
     (case terminal_of tab s of
        None \<Rightarrow> (s, NoLaunch)
      | Some t \<Rightarrow>
          let (t1, outcome) = finish_host_key_probe tab profile target result t;
              s1 = update_terminal tab (\<lambda>_. t1) s in
          case outcome of
            None \<Rightarrow> (s1, NoLaunch)
          | Some (Inr True) \<Rightarrow> begin_authentication a w tab profile target s1
          | Some (Inr False) \<Rightarrow> (set_tab_status tab (confirmation_status purpose) s1, NoLaunch)
          | Some (Inl e) \<Rightarrow> (set_tab_status tab (''Host-key check failed: '' @ e) s1, NoLaunch))"

text \<open>The user accepts the key that the active tab shows.\<close>

definition prompted_host_key :: "'x app_state \<Rightarrow> pending_host_key option" where
  "prompted_host_key s =
     Option.bind (as_active s) (\<lambda>tab. Option.bind (terminal_of tab s) (\<lambda>t.
       case ssh_phase_of t of
         Some (AwaitingHostKey prompt) \<Rightarrow>
           if hk_tab prompt = tab \<and>
              (case ssh_route t of None \<Rightarrow> False | Some (p, _) \<Rightarrow> p = hk_profile prompt)
           then Some prompt else None
       | _ \<Rightarrow> None))"

definition request_host_key_confirmation ::
  "uuid \<Rightarrow> 'x app_state \<Rightarrow> 'x app_state \<times> (string + pending_host_key \<times> session_profile)" where
  "request_host_key_confirmation token s =
     (case prompted_host_key s of
        None \<Rightarrow> (s, Inl ''No host key is awaiting confirmation'')
      | Some pending \<Rightarrow>
          (case profile_of (hk_profile pending) s of
             None \<Rightarrow> (s, Inl ''Session endpoint or tab changed; check the host key again'')
           | Some profile \<Rightarrow>
               if \<not> (case profile_ssh profile of None \<Rightarrow> False
                      | Some c \<Rightarrow> sc_host c = hk_host pending \<and> sc_port c = hk_port pending)
               then (s, Inl ''Session endpoint or tab changed; check the host key again'')
               else if hk_changed pending \<and> hk_public_key pending = None
               then (s, Inl ''Changed host key public data is unavailable; retry the probe'')
               else if profile_mutation_is_pending (hk_profile pending) s
               then (s, Inl ''Session is already being modified'')
               else
                 (update_terminal (hk_tab pending) (\<lambda>t. (set_phase (ConfirmingHostKey pending) t)\<lparr>tt_status :=
                    (if hk_revoked pending then ''Removing revoked host-key record...''
                     else ''Saving host-key trust...'')\<rparr>)
                    (begin_profile_mutation token (hk_profile pending) s),
                  Inr (pending, profile))))"

text \<open>The store with the confirmed key pinned, and the profile in it.\<close>

definition pin_candidate ::
  "pending_host_key \<Rightarrow> session_profile \<Rightarrow> 'x app_state \<Rightarrow> string + app_settings session_store \<times> session_profile" where
  "pin_candidate pending expected s =
     (case profile_of (hk_profile pending) s of
        None \<Rightarrow> Inl ''session was removed while confirming host key''
      | Some profile \<Rightarrow>
          if profile \<noteq> expected then Inl ''session changed while confirming host key''
          else
            case profile_ssh profile of
              None \<Rightarrow> Inl ''host-key confirmation requires an SSH profile''
            | Some c \<Rightarrow>
                if sc_host c \<noteq> hk_host pending \<or> sc_port c \<noteq> hk_port pending
                then Inl ''session endpoint changed while confirming host key''
                else
                  let pin = modify_ssh (\<lambda>c. c\<lparr>sc_fingerprint := Some (hk_fingerprint pending)\<rparr>) in
                  Inr (update_session (hk_profile pending) pin (as_sessions s), pin profile))"

definition confirming :: "pending_host_key \<Rightarrow> 'x app_state \<Rightarrow> bool" where
  "confirming pending s \<longleftrightarrow>
     (case Option.bind (terminal_of (hk_tab pending) s) ssh_phase_of of
        Some (ConfirmingHostKey cur) \<Rightarrow>
          hk_profile cur = hk_profile pending \<and> hk_fingerprint cur = hk_fingerprint pending
      | _ \<Rightarrow> False)"

definition commit_pin ::
  "pending_host_key \<Rightarrow> session_profile \<Rightarrow> uuid \<Rightarrow> app_settings session_store \<Rightarrow> session_profile \<Rightarrow> 'x app_state \<Rightarrow>
   'x app_state \<times> (string + (uuid \<times> session_profile \<times> connection_target) option)" where
  "commit_pin pending expected token store trusted s =
     (if \<not> ensure_profile_mutation_current (hk_profile pending) token (Some expected) s
      then (s, Inl ''session changed while confirming host key'')
      else
        let s1 = finish_profile_mutation (hk_profile pending) token (with_sessions store s) in
        case terminal_of (hk_tab pending) s1 of
          None \<Rightarrow> (s1, Inr None)
        | Some t \<Rightarrow>
            if confirming pending s1
            then (update_terminal (hk_tab pending) (set_phase (AwaitingAuthentication False)) s1,
                  Inr (Some (hk_tab pending, trusted, connection_target_of t)))
            else (s1, Inr None))"

text \<open>
  The whole confirmation. \<open>file\<close> is the error of writing the known hosts; while the task waits for that
  file and for the configuration, other tasks may change what \<open>during\<close> and \<open>after\<close> do to the state.
\<close>

definition confirm_host_key ::
  "string option \<Rightarrow> string option \<Rightarrow> ('x app_state \<Rightarrow> 'x app_state) \<Rightarrow> ('x app_state \<Rightarrow> 'x app_state) \<Rightarrow>
   pending_host_key \<Rightarrow> session_profile \<Rightarrow> uuid \<Rightarrow> 'x app_state \<Rightarrow>
   'x app_state \<times> (string + (uuid \<times> session_profile \<times> connection_target) option)" where
  "confirm_host_key file saved during after pending expected token s =
     (let cur = ensure_profile_mutation_current (hk_profile pending) token (Some expected) in
      if \<not> cur s then (s, Inl ''session mutation was superseded'')
      else if hk_public_key pending = None then (s, Inl ''confirmed host key has no public key'')
      else
        let s1 = during s in
        if file \<noteq> None then (s1, Inl (the file))
        else if \<not> cur s1 then (s1, Inl ''session mutation was superseded'')
        else
          case pin_candidate pending expected s1 of
            Inl e \<Rightarrow> (s1, Inl e)
          | Inr (store, trusted) \<Rightarrow>
              if saved \<noteq> None then (after s1, Inl (the saved))
              else commit_pin pending expected token store trusted (after s1))"

text \<open>
  A revoked key: the pin is cleared in memory and in the file before the revoked record is removed.
  \<open>removed\<close> is the result of that removal.
\<close>

definition unpin_candidate :: "pending_host_key \<Rightarrow> session_profile \<Rightarrow> 'x app_state \<Rightarrow> string + app_settings session_store" where
  "unpin_candidate pending expected s =
     (if profile_of (hk_profile pending) s \<noteq> Some expected
      then Inl ''session changed while confirming revoked host key''
      else
        case profile_ssh expected of
          None \<Rightarrow> Inl ''host-key confirmation requires an SSH profile''
        | Some c \<Rightarrow>
            if sc_host c \<noteq> hk_host pending \<or> sc_port c \<noteq> hk_port pending
            then Inl ''session endpoint changed while confirming revoked host key''
            else Inr (update_session (hk_profile pending) (modify_ssh (\<lambda>c. c\<lparr>sc_fingerprint := None\<rparr>))
              (as_sessions s)))"

definition revoked_key_removed :: "pending_host_key \<Rightarrow> bool \<Rightarrow> 'x app_state \<Rightarrow> 'x app_state" where
  "revoked_key_removed pending found s =
     (if \<not> confirming pending s then s
      else update_terminal (hk_tab pending) (\<lambda>t. (set_phase PhaseIdle t)\<lparr>tt_status :=
        (if found then ''Revoked host-key record removed; verify the replacement key before reconnecting''
         else ''Profile pin cleared; no revoked host-key record was found'')\<rparr>) s)"

definition confirm_revoked_host_key ::
  "string option \<Rightarrow> string + bool \<Rightarrow> ('x app_state \<Rightarrow> 'x app_state) \<Rightarrow> ('x app_state \<Rightarrow> 'x app_state) \<Rightarrow>
   pending_host_key \<Rightarrow> session_profile \<Rightarrow> uuid \<Rightarrow> 'x app_state \<Rightarrow>
   'x app_state \<times> (string + (uuid \<times> session_profile \<times> connection_target) option)" where
  "confirm_revoked_host_key saved removed during after pending expected token s =
     (let cur = ensure_profile_mutation_current (hk_profile pending) token (Some expected) in
      if \<not> cur s then (s, Inl ''session mutation was superseded'')
      else
        case unpin_candidate pending expected s of
          Inl e \<Rightarrow> (s, Inl e)
        | Inr store \<Rightarrow>
            let s1 = during s in
            if saved \<noteq> None then (s1, Inl (the saved))
            else if \<not> cur s1 then (s1, Inl ''session changed while confirming revoked host key'')
            else
              let s2 = after (finish_profile_mutation (hk_profile pending) token (with_sessions store s1)) in
              case removed of
                Inl e \<Rightarrow> (s2, Inl e)
              | Inr found \<Rightarrow> (revoked_key_removed pending found s2, Inr None))"

text \<open>What the task does with the result.\<close>

definition host_key_confirmed ::
  "uuid \<Rightarrow> uuid \<Rightarrow> pending_host_key \<Rightarrow> uuid \<Rightarrow> string + (uuid \<times> session_profile \<times> connection_target) option \<Rightarrow>
   'x app_state \<Rightarrow> 'x app_state \<times> launch" where
  "host_key_confirmed a w pending token result s =
     (case result of
        Inr (Some (tab, profile, target)) \<Rightarrow> begin_authentication a w tab profile target s
      | Inr None \<Rightarrow> (s, NoLaunch)
      | Inl e \<Rightarrow>
          let s1 = finish_profile_mutation (hk_profile pending) token s;
              s2 = (case Option.bind (terminal_of (hk_tab pending) s1) ssh_phase_of of
                      Some (ConfirmingHostKey _) \<Rightarrow> update_terminal (hk_tab pending) (set_phase (AwaitingHostKey pending)) s1
                    | _ \<Rightarrow> s1) in
          (set_tab_status (hk_tab pending) (''Host-key update failed: '' @ e) s2, NoLaunch))"

definition reject_host_key :: "'x app_state \<Rightarrow> 'x app_state" where
  "reject_host_key s =
     (case as_active s of
        None \<Rightarrow> s
      | Some tab \<Rightarrow>
          (case Option.bind (terminal_of tab s) ssh_phase_of of
             Some (AwaitingHostKey prompt) \<Rightarrow>
               if hk_tab prompt = tab
               then set_tab_status tab ''Connection cancelled; host key was not trusted''
                 (update_terminal tab (set_phase PhaseIdle) s)
               else s
           | _ \<Rightarrow> s))"

section \<open>Telnet and serial connections\<close>

datatype direct_protocol = DirectTelnet | DirectSerial

fun direct_label :: "direct_protocol \<Rightarrow> string" where
  "direct_label DirectTelnet = ''Telnet''"
| "direct_label DirectSerial = ''Serial''"

fun disconnected_status :: "direct_protocol \<Rightarrow> string" where
  "disconnected_status DirectTelnet = ''Disconnected''"
| "disconnected_status DirectSerial = ''Serial port disconnected''"

definition direct_attempt_matches :: "uuid \<Rightarrow> uuid \<Rightarrow> direct_protocol \<Rightarrow> 'x terminal_tab \<Rightarrow> bool" where
  "direct_attempt_matches p a protocol t \<longleftrightarrow>
     (case protocol of DirectTelnet \<Rightarrow> telnet_route t | DirectSerial \<Rightarrow> serial_route t) = Some (p, Some a)"

definition direct_attempt_active :: "uuid \<Rightarrow> uuid \<Rightarrow> uuid \<Rightarrow> direct_protocol \<Rightarrow> 'x app_state \<Rightarrow> bool" where
  "direct_attempt_active tab p a protocol s \<longleftrightarrow>
     (case terminal_of tab s of None \<Rightarrow> False | Some t \<Rightarrow> direct_attempt_matches p a protocol t)"

definition current_profile_matches :: "session_profile \<Rightarrow> 'x app_state \<Rightarrow> bool" where
  "current_profile_matches profile s \<longleftrightarrow> profile_of (sp_id profile) s = Some profile"

definition ensure_current_profile :: "session_profile \<Rightarrow> string \<Rightarrow> 'x app_state \<Rightarrow> string + unit" where
  "ensure_current_profile profile protocol s =
     (if current_profile_matches profile s then Inr ()
      else Inl (protocol @ '' session profile changed before the worker started''))"

definition start_telnet_connection ::
  "uuid \<Rightarrow> uuid \<Rightarrow> uuid \<Rightarrow> session_profile \<Rightarrow> 'x app_state \<Rightarrow> 'x app_state \<times> (string + launch)" where
  "start_telnet_connection a w tab profile s =
     (case profile_telnet profile of
        None \<Rightarrow> (s, Inl ''Telnet worker requires a Telnet profile'')
      | Some config \<Rightarrow>
          (case ensure_current_profile profile ''Telnet'' s of
             Inl e \<Rightarrow> (s, Inl e)
           | Inr _ \<Rightarrow>
               (case terminal_of tab s of
                  None \<Rightarrow> (s, Inl ''Telnet terminal tab disappeared'')
                | Some t \<Rightarrow>
                    if telnet_route t \<noteq> Some (sp_id profile, None) \<or> tt_worker t \<noteq> None
                    then (s, Inl ''Telnet terminal is stale or already has a worker'')
                    else
                      (update_terminal tab (\<lambda>t. (enable_reconnect (fst (set_telnet_attempt (Some a) t)))
                         \<lparr>tt_worker := Some (TelnetWorker w), tt_worker_running := True, tt_connected := False,
                          tt_status := ''Connecting to '' @ profile_endpoint profile @ ''...''\<rparr>) s,
                       Inr (LaunchTelnet config)))))"

definition start_serial_connection ::
  "uuid \<Rightarrow> uuid \<Rightarrow> session_profile \<Rightarrow> 'x app_state \<Rightarrow> 'x app_state \<times> (string + launch)" where
  "start_serial_connection a tab profile s =
     (case profile_serial profile of
        None \<Rightarrow> (s, Inl ''Serial worker requires a Serial profile'')
      | Some config \<Rightarrow>
          (case ensure_current_profile profile ''Serial'' s of
             Inl e \<Rightarrow> (s, Inl e)
           | Inr _ \<Rightarrow>
               (case terminal_of tab s of
                  None \<Rightarrow> (s, Inl ''Serial terminal tab disappeared'')
                | Some t \<Rightarrow>
                    if serial_route t \<noteq> Some (sp_id profile, None) \<or> tt_worker t \<noteq> None
                    then (s, Inl ''Serial terminal is stale or already has a worker'')
                    else
                      (update_terminal tab (\<lambda>t. (enable_reconnect (fst (set_serial_attempt (Some a) t)))
                         \<lparr>tt_worker_running := True, tt_connected := False,
                          tt_status := ''Locating '' @ rc_port_name config @ ''...''\<rparr>) s,
                       Inr (ResolvePort config)))))"

definition forget_direct :: "direct_protocol \<Rightarrow> 'x terminal_tab \<Rightarrow> 'x terminal_tab \<times> bool" where
  "forget_direct protocol = (case protocol of DirectTelnet \<Rightarrow> set_telnet_attempt None | DirectSerial \<Rightarrow> set_serial_attempt None)"

definition finish_direct_attempt ::
  "uuid \<Rightarrow> uuid \<Rightarrow> uuid \<Rightarrow> direct_protocol \<Rightarrow> string \<Rightarrow> 'x app_state \<Rightarrow> 'x app_state \<times> bool" where
  "finish_direct_attempt tab p a protocol status s =
     (if \<not> direct_attempt_active tab p a protocol s then (s, False)
      else (update_terminal tab (\<lambda>t. (end_attempt (forget_direct protocol) t)\<lparr>tt_status := status\<rparr>) s, True))"

definition mutate_direct_attempt ::
  "uuid \<Rightarrow> uuid \<Rightarrow> uuid \<Rightarrow> direct_protocol \<Rightarrow> ('x terminal_tab \<Rightarrow> 'x terminal_tab) \<Rightarrow> 'x app_state \<Rightarrow>
   'x app_state \<times> bool option" where
  "mutate_direct_attempt tab p a protocol f s =
     (if \<not> direct_attempt_active tab p a protocol s then (s, None) else (update_terminal tab f s, Some True))"

definition mutate_terminal_attempt ::
  "uuid \<Rightarrow> uuid \<Rightarrow> uuid \<Rightarrow> ('x terminal_tab \<Rightarrow> 'x terminal_tab) \<Rightarrow> 'x app_state \<Rightarrow> 'x app_state \<times> bool option" where
  "mutate_terminal_attempt tab p a f s =
     (if \<not> matches_attempt tab p a s then (s, None) else (update_terminal tab f s, Some True))"

section \<open>Reconnecting\<close>

datatype reconnect_protocol = ReconnectSsh | ReconnectTelnet | ReconnectSerial

fun direct_reconnect :: "direct_protocol \<Rightarrow> reconnect_protocol" where
  "direct_reconnect DirectTelnet = ReconnectTelnet"
| "direct_reconnect DirectSerial = ReconnectSerial"

fun profile_matches_reconnect_protocol :: "session_profile \<Rightarrow> reconnect_protocol \<Rightarrow> bool" where
  "profile_matches_reconnect_protocol p ReconnectSsh = (profile_ssh p \<noteq> None)"
| "profile_matches_reconnect_protocol p ReconnectTelnet = (profile_telnet p \<noteq> None)"
| "profile_matches_reconnect_protocol p ReconnectSerial = (profile_serial p \<noteq> None)"

definition schedule_tab_reconnect :: "uuid \<Rightarrow> 'x app_state \<Rightarrow> 'x app_state \<times> launch" where
  "schedule_tab_reconnect tab s =
     (case terminal_of tab s of
        None \<Rightarrow> (s, NoLaunch)
      | Some t \<Rightarrow>
          (update_terminal tab (\<lambda>t. fst (schedule_reconnect t)) s,
           case snd (schedule_reconnect t) of
             None \<Rightarrow> NoLaunch
           | Some (generation, attempt, delay) \<Rightarrow> ReconnectAfter delay generation))"

definition clear_tab_reconnect :: "uuid \<Rightarrow> u64 \<Rightarrow> string \<Rightarrow> 'x app_state \<Rightarrow> 'x app_state \<times> bool" where
  "clear_tab_reconnect tab generation status s =
     (case terminal_of tab s of
        None \<Rightarrow> (s, False)
      | Some t \<Rightarrow>
          (update_terminal tab (\<lambda>t. fst (clear_reconnect_attempt generation status t)) s,
           snd (clear_reconnect_attempt generation status t)))"

definition set_ssh_reconnect_phase :: "uuid \<Rightarrow> uuid \<Rightarrow> 'x app_state \<Rightarrow> 'x app_state \<times> bool" where
  "set_ssh_reconnect_phase tab p s =
     (case terminal_of tab s of
        None \<Rightarrow> (s, False)
      | Some t \<Rightarrow>
          if profile_id t = Some p \<and> is_ssh t
          then (update_terminal tab (set_phase (AwaitingAuthentication False)) s, True)
          else (s, False))"

definition reconnect_ssh ::
  "uuid \<Rightarrow> uuid \<Rightarrow> uuid \<Rightarrow> session_profile \<Rightarrow> connection_target \<Rightarrow> 'x app_state \<Rightarrow> 'x app_state \<times> (string + launch)" where
  "reconnect_ssh a w tab profile target s =
     (case profile_ssh profile of
        None \<Rightarrow> (s, Inl ''SSH profile is no longer available'')
      | Some c \<Rightarrow>
          if sc_auth c \<noteq> PasswordAuth \<or> sc_credential_storage c = Some SystemKeyring \<or>
             sc_credential_storage c = Some EncryptedVault \<and> sc_vault_key_saved c
          then
            case set_ssh_reconnect_phase tab (sp_id profile) s of
              (s1, False) \<Rightarrow> (s1, Inl ''SSH reconnect is no longer current'')
            | (s1, True) \<Rightarrow>
                (case begin_authentication a w tab profile target s1 of (s2, l) \<Rightarrow> (s2, Inr l))
          else
            (update_terminal tab (\<lambda>t. set_phase (AwaitingAuthentication (sc_credential_storage c = Some EncryptedVault))
               ((fst (finish_reconnect_attempt (tt_generation t) t))\<lparr>tt_status :=
                 (if sc_credential_storage c = Some EncryptedVault
                  then ''Reconnect paused; unlock the saved SSH password to continue''
                  else ''Reconnect paused; enter the SSH password to continue'')\<rparr>)) s,
             Inr NoLaunch))"

text \<open>The task of \<^verbatim>\<open>schedule_reconnect\<close> after its sleep.\<close>

definition reconnect_woken ::
  "uuid \<Rightarrow> uuid \<Rightarrow> uuid \<Rightarrow> uuid \<Rightarrow> u64 \<Rightarrow> reconnect_protocol \<Rightarrow> connection_target \<Rightarrow> 'x app_state \<Rightarrow>
   'x app_state \<times> launch" where
  "reconnect_woken a w tab p generation protocol target s =
     (let profile = Option.bind (terminal_of tab s) (\<lambda>t.
            if \<not> reconnect_current generation t \<or> profile_id t \<noteq> Some p then None
            else Option.bind (profile_of p s) (\<lambda>q.
              if profile_matches_reconnect_protocol q protocol then Some q else None)) in
      case profile of
        None \<Rightarrow>
          (fst (clear_tab_reconnect tab generation
             ''Session changed, uses a different protocol, or was removed; reconnect cancelled'' s), NoLaunch)
      | Some profile \<Rightarrow>
          let s1 = set_tab_status tab ''Reconnecting...'' s;
              (s2, result) = (case protocol of
                  ReconnectSsh \<Rightarrow> reconnect_ssh a w tab profile target s1
                | ReconnectTelnet \<Rightarrow> start_telnet_connection a w tab profile s1
                | ReconnectSerial \<Rightarrow> start_serial_connection a tab profile s1) in
          case result of
            Inr l \<Rightarrow> (s2, l)
          | Inl e \<Rightarrow>
              (case clear_tab_reconnect tab generation (''Reconnect failed: '' @ e) s2 of
                 (s3, False) \<Rightarrow> (s3, NoLaunch)
               | (s3, True) \<Rightarrow> schedule_tab_reconnect tab s3))"

text \<open>An attempt of a direct connection ended; unless it was superseded, the next one is scheduled.\<close>

definition direct_ended ::
  "uuid \<Rightarrow> uuid \<Rightarrow> uuid \<Rightarrow> direct_protocol \<Rightarrow> string \<Rightarrow> 'x app_state \<Rightarrow> 'x app_state \<times> launch" where
  "direct_ended tab p a protocol status s =
     (case finish_direct_attempt tab p a protocol status s of
        (s1, False) \<Rightarrow> (s1, NoLaunch)
      | (s1, True) \<Rightarrow> schedule_tab_reconnect tab s1)"

datatype port_scan = ScanFailed string | ScanPanicked string | ScanTimeout | Ports "string list" "string + serial_config"

text \<open>
  The task that \<^verbatim>\<open>start_serial_connection\<close> spawns: \<open>Ports\<close> has the names of the ports that were found
  and what the configured port resolves to among them.
\<close>

definition serial_ports_found ::
  "uuid \<Rightarrow> uuid \<Rightarrow> session_profile \<Rightarrow> uuid \<Rightarrow> port_scan \<Rightarrow> 'x app_state \<Rightarrow> 'x app_state \<times> launch" where
  "serial_ports_found w tab profile a scan s =
     (let ended = (\<lambda>status. direct_ended tab (sp_id profile) a DirectSerial status) in
      case scan of
        ScanFailed e \<Rightarrow> ended (''Cannot list serial ports: '' @ e) s
      | ScanPanicked e \<Rightarrow> ended (''Serial port scan failed: '' @ e) s
      | ScanTimeout \<Rightarrow> ended ''Serial port scan timed out'' s
      | Ports names resolved \<Rightarrow>
          let s1 = s\<lparr>as_serial_ports := names\<rparr> in
          (case resolved of
             Inl e \<Rightarrow> ended (''Cannot open serial session: '' @ e) s1
           | Inr config \<Rightarrow>
               if \<not> current_profile_matches profile s1
               then (fst (finish_direct_attempt tab (sp_id profile) a DirectSerial
                 ''Session changed before the serial worker started'' s1), NoLaunch)
               else
                 case terminal_of tab s1 of
                   None \<Rightarrow> (s1, NoLaunch)
                 | Some t \<Rightarrow>
                     if \<not> direct_attempt_matches (sp_id profile) a DirectSerial t \<or> tt_worker t \<noteq> None
                     then (s1, NoLaunch)
                     else (update_terminal tab (\<lambda>t. t\<lparr>tt_worker := Some (SerialWorker w),
                         tt_status := ''Opening serial port '' @ rc_port_name config @ ''...''\<rparr>) s1,
                       LaunchSerial config)))"

datatype direct_session_event = DirectConnected "string option" | DirectDisconnected | DirectFailed string | DirectStopped

text \<open>\<open>DirectStopped\<close>: the events ended without one that says why.\<close>

definition on_direct_event ::
  "uuid \<Rightarrow> session_profile \<Rightarrow> uuid \<Rightarrow> direct_protocol \<Rightarrow> direct_session_event \<Rightarrow> 'x app_state \<Rightarrow> 'x app_state \<times> launch" where
  "on_direct_event tab profile a protocol e s =
     (let p = sp_id profile in
      case e of
        DirectConnected port \<Rightarrow>
          (fst (mutate_direct_attempt tab p a protocol (\<lambda>t.
             (fst (mark_reconnect_connected (tt_generation t) (t\<lparr>tt_connected := True, tt_worker_running := True\<rparr>)))
               \<lparr>tt_status := (case port of
                  None \<Rightarrow> ''Connected to '' @ profile_endpoint profile
                | Some port \<Rightarrow> ''Connected to serial port '' @ port)\<rparr>) s), NoLaunch)
      | DirectDisconnected \<Rightarrow> direct_ended tab p a protocol (disconnected_status protocol) s
      | DirectFailed message \<Rightarrow>
          direct_ended tab p a protocol (direct_label protocol @ '' connection failed: '' @ message) s
      | DirectStopped \<Rightarrow> direct_ended tab p a protocol (direct_label protocol @ '' worker stopped'') s)"

section \<open>Requests of the user\<close>

definition start_direct_or_report ::
  "uuid \<Rightarrow> string \<Rightarrow> 'x app_state \<times> (string + launch) \<Rightarrow> 'x app_state \<times> launch" where
  "start_direct_or_report tab label r =
     (case r of
        (s1, Inr l) \<Rightarrow> (s1, l)
      | (s1, Inl e) \<Rightarrow> (set_tab_status tab (label @ e) s1, NoLaunch))"

definition start_probe :: "uuid \<Rightarrow> uuid \<Rightarrow> uuid \<Rightarrow> 'x app_state \<Rightarrow> 'x app_state" where
  "start_probe cancel tab p =
     update_terminal tab (set_phase (Probing \<lparr>pb_tab = tab, pb_profile = p, pb_cancel = cancel\<rparr>))"

definition spawn_host_key_probe :: "uuid \<Rightarrow> uuid \<Rightarrow> session_profile \<Rightarrow> probe_purpose \<Rightarrow> 'x app_state \<Rightarrow> 'x app_state \<times> launch" where
  "spawn_host_key_probe cancel tab profile purpose s =
     (let s1 = set_tab_status tab (checking_status purpose) s in
      if profile_ssh profile = None
      then (set_tab_status tab ''SSH profile is no longer available'' s1, NoLaunch)
      else (s1, ProbeHostKey cancel))"

text \<open>\<open>register\<close> attaches the tab to a window; \<open>i\<close> is the id of the new tab, \<open>cancel\<close> that of a probe.\<close>

definition request_profile_connection ::
  "'x \<Rightarrow> string \<Rightarrow> uuid \<Rightarrow> uuid \<Rightarrow> uuid \<Rightarrow> uuid \<Rightarrow> uuid \<Rightarrow> connection_target \<Rightarrow> uuid option \<Rightarrow> string option \<Rightarrow>
   string option \<Rightarrow> (uuid \<Rightarrow> 'x app_state \<Rightarrow> 'x app_state \<times> bool) \<Rightarrow> 'x app_state \<Rightarrow>
   'x app_state \<times> uuid option \<times> launch" where
  "request_profile_connection edits0 home_dir i cancel a w p target companion initial password register s =
     (case profile_of p s of
        None \<Rightarrow> (s, None, NoLaunch)
      | Some profile \<Rightarrow>
          if target = TargetSftp \<and> profile_ssh profile = None then (s, None, NoLaunch)
          else
            let (s1, tab) = (case target of
                    TargetTerminal \<Rightarrow> open_terminal_tab_with_companion edits0 i profile companion s
                  | TargetSftp \<Rightarrow> open_sftp_tab_with_companion_at_path edits0 home_dir i profile companion initial s);
                s2 = (case password of
                    None \<Rightarrow> s1
                  | Some secret \<Rightarrow>
                      if profile_ssh profile = None then s1
                      else update_terminal tab (\<lambda>t. fst (set_pending_auth_secret secret t)) s1) in
            case register tab s2 of
              (s3, False) \<Rightarrow> (fst (close_tab tab s3), None, NoLaunch)
            | (s3, True) \<Rightarrow>
                (case sp_connection profile of
                   ConnSsh c \<Rightarrow>
                     if terminal_of tab s3 = None then (s3, None, NoLaunch)
                     else if sc_fingerprint c \<noteq> None
                     then
                       let (s4, l) = begin_authentication a w tab profile target
                             (update_terminal tab (set_phase (AwaitingAuthentication False)) s3) in
                       (s4, Some tab, l)
                     else
                       let (s4, l) = spawn_host_key_probe cancel tab profile PurposeConnect
                             (start_probe cancel tab (sp_id profile) s3) in
                       (s4, Some tab, l)
                 | ConnTelnet _ \<Rightarrow>
                     let (s4, l) = start_direct_or_report tab ''Cannot start Telnet connection: ''
                           (start_telnet_connection a w tab profile s3) in
                     (s4, Some tab, l)
                 | ConnSerial _ \<Rightarrow>
                     let (s4, l) = start_direct_or_report tab ''Cannot start serial connection: ''
                           (start_serial_connection a tab profile s3) in
                     (s4, Some tab, l)))"

definition probe_existing_connection :: "uuid \<Rightarrow> uuid \<Rightarrow> session_profile \<Rightarrow> 'x app_state \<Rightarrow> 'x app_state \<times> launch" where
  "probe_existing_connection cancel tab profile s =
     (if profile_ssh profile = None then (set_tab_status tab ''Restored SSH profile is invalid'' s, NoLaunch)
      else if terminal_of tab s = None then (s, NoLaunch)
      else spawn_host_key_probe cancel tab profile PurposeRestore (start_probe cancel tab (sp_id profile) s))"

definition resume_existing_connection ::
  "uuid \<Rightarrow> uuid \<Rightarrow> uuid \<Rightarrow> uuid \<Rightarrow> uuid \<Rightarrow> connection_target \<Rightarrow> 'x app_state \<Rightarrow> 'x app_state \<times> launch" where
  "resume_existing_connection cancel a w tab p target s =
     (case profile_of p s of
        None \<Rightarrow> (s, NoLaunch)
      | Some profile \<Rightarrow>
          (case sp_connection profile of
             ConnSsh c \<Rightarrow>
               if sc_fingerprint c \<noteq> None
               then begin_authentication a w tab profile target
                 (update_terminal tab (\<lambda>t. (set_phase (AwaitingAuthentication False) t)
                    \<lparr>tt_status := ''Restored; authenticating...''\<rparr>) s)
               else probe_existing_connection cancel tab profile s
           | ConnTelnet _ \<Rightarrow>
               start_direct_or_report tab ''Reconnect unavailable: '' (start_telnet_connection a w tab profile s)
           | ConnSerial _ \<Rightarrow>
               start_direct_or_report tab ''Reconnect unavailable: '' (start_serial_connection a tab profile s)))"

section \<open>Local shells\<close>

definition resume_existing_local_shell :: "uuid \<Rightarrow> uuid \<Rightarrow> 'x app_state \<Rightarrow> 'x app_state \<times> (string + bool)" where
  "resume_existing_local_shell w tab s =
     (case terminal_of tab s of
        None \<Rightarrow> (s, Inl ''restored local tab disappeared'')
      | Some t \<Rightarrow>
          if tt_worker t \<noteq> None then (s, Inr False)
          else (update_terminal tab (\<lambda>t. t\<lparr>tt_worker := Some (LocalWorker w), tt_worker_running := True,
              tt_connected := False, tt_status := ''Restored; starting local shell...''\<rparr>) s, Inr True))"

definition mutate_local_terminal ::
  "uuid \<Rightarrow> ('x terminal_tab \<Rightarrow> 'x terminal_tab) \<Rightarrow> 'x app_state \<Rightarrow> 'x app_state \<times> bool option" where
  "mutate_local_terminal tab f s =
     (case terminal_of tab s of
        None \<Rightarrow> (s, None)
      | Some t \<Rightarrow> if \<not> is_local t then (s, None) else (update_terminal tab f s, Some True))"

definition local_shell_started :: "uuid \<Rightarrow> string \<Rightarrow> 'x app_state \<Rightarrow> 'x app_state" where
  "local_shell_started tab shell s =
     fst (mutate_local_terminal tab (\<lambda>t. t\<lparr>tt_connected := True, tt_worker_running := True,
       tt_status := ''Local shell: '' @ shell\<rparr>) s)"

text \<open>The worker that is to be shut down.\<close>

definition finish_local_terminal :: "uuid \<Rightarrow> string \<Rightarrow> 'x app_state \<Rightarrow> 'x app_state \<times> worker option" where
  "finish_local_terminal tab status s =
     (case terminal_of tab s of
        None \<Rightarrow> (s, None)
      | Some t \<Rightarrow>
          if \<not> is_local t then (s, None)
          else
            (update_terminal tab (\<lambda>t.
               let t1 = fst (clear_pending_clipboard_read (t\<lparr>tt_worker := None\<rparr>)) in
               t1\<lparr>tt_media := media_cancel (tt_media t1), tt_connected := False, tt_worker_running := False,
                  tt_status := status\<rparr>) s,
             tt_worker t))"

text \<open>The retry button of a terminal; \<open>owned\<close>: the pane is one of the window of the button.\<close>

definition retry_terminal_notice_tab ::
  "bool \<Rightarrow> uuid \<Rightarrow> uuid \<Rightarrow> uuid \<Rightarrow> uuid \<Rightarrow> 'x app_state \<Rightarrow> 'x app_state \<times> launch \<times> bool" where
  "retry_terminal_notice_tab owned cancel a w tab s =
     (if \<not> owned then (s, NoLaunch, False)
      else
        case terminal_of tab s of
          None \<Rightarrow> (s, NoLaunch, False)
        | Some t \<Rightarrow>
            if tt_worker t \<noteq> None \<or> tt_worker_running t then (s, NoLaunch, False)
            else
              let s1 = update_terminal tab prepare_manual_retry s in
              if is_local t
              then
                (case resume_existing_local_shell w tab s1 of
                   (s2, Inl e) \<Rightarrow> (set_tab_status tab (''Cannot restart terminal: '' @ e) s2, NoLaunch, False)
                 | (s2, Inr _) \<Rightarrow> (s2, NoLaunch, True))
              else
                case profile_id t of
                  None \<Rightarrow> (s1, NoLaunch, False)
                | Some p \<Rightarrow>
                    let (s2, l) = resume_existing_connection cancel a w tab p (connection_target_of t) s1 in
                    (s2, l, True))"

section \<open>Events of an SSH worker\<close>

datatype ssh_session_event =
  SshConnected
| LatencyMeasured nat nat nat string
| LatencyTimedOut nat
| LatencyExpired
| LatencyUnavailable
| X11ForwardingEnabled
| X11ForwardingUnavailable string
| MicrophoneUnavailable string
| ShellExited
| SshDisconnected
| HostKeyRejected "string option" string "string option"
| HostKeyRevoked string "string option"
| AuthenticationFailed
| PrivateKeyFailed string
| SshFailed string
| SshStopped bool

text \<open>
  \<open>LatencyMeasured now measured_at duration stamp\<close> carries the clock readings; \<open>SshStopped\<close> is the end of the
  events, after one that says why or not. Output, SFTP events and system detection are not among these.
\<close>

definition ssh_connected :: "session_profile \<Rightarrow> 'x terminal_tab \<Rightarrow> 'x terminal_tab" where
  "ssh_connected profile t =
     (fst (mark_reconnect_connected (tt_generation t)
        (t\<lparr>tt_latency := latency_default, tt_connected := True, tt_worker_running := True\<rparr>)))
       \<lparr>tt_status := ''Connected to '' @ profile_endpoint profile\<rparr>"

definition retire_and_reconnect :: "'x \<Rightarrow> uuid \<Rightarrow> uuid \<Rightarrow> uuid \<Rightarrow> 'x app_state \<Rightarrow> 'x app_state \<times> launch" where
  "retire_and_reconnect edits0 tab p a s =
     (case retire_session_attempt edits0 tab p a s of
        (s1, False) \<Rightarrow> (s1, NoLaunch)
      | (s1, True) \<Rightarrow> schedule_tab_reconnect tab s1)"

definition authentication_failed ::
  "'x \<Rightarrow> uuid \<Rightarrow> session_profile \<Rightarrow> uuid \<Rightarrow> ssh_config \<Rightarrow> bool \<Rightarrow> 'x app_state \<Rightarrow> 'x app_state \<times> launch" where
  "authentication_failed edits0 tab profile a c used_stored s =
     (let p = sp_id profile in
      if sc_auth c = SshAgentAuth
      then
        (case retire_session_attempt edits0 tab p a s of
           (s1, False) \<Rightarrow> (s1, NoLaunch)
         | (s1, True) \<Rightarrow>
             (set_tab_status tab ''The SSH server rejected the available agent identities'' s1, NoLaunch))
      else if used_stored
      then
        (case prepare_stored_credential_retry tab p a s of
           (s1, False) \<Rightarrow> (s1, NoLaunch)
         | (s1, True) \<Rightarrow> (s1, DeleteCredential))
      else
        (case prepare_authentication_retry tab p a s of
           (s1, False) \<Rightarrow> (s1, NoLaunch)
         | (s1, True) \<Rightarrow>
             (set_tab_status tab (case sc_auth c of
                PrivateKeyAuth _ \<Rightarrow> ''The server rejected this private key''
              | _ \<Rightarrow> ''Authentication failed; check the password and try again'') s1, NoLaunch)))"

text \<open>
  After \<open>DeleteCredential\<close>: \<open>deleted\<close> says whether the stored credential could be deleted. The Boolean of
  the result tells whether a deleted credential has to be restored.
\<close>

definition stored_credential_rejected ::
  "string option \<Rightarrow> bool \<Rightarrow> uuid \<Rightarrow> session_profile \<Rightarrow> ssh_config \<Rightarrow> 'x app_state \<Rightarrow> 'x app_state \<times> bool" where
  "stored_credential_rejected saved deleted tab profile c s =
     (let p = sp_id profile;
          finish = (\<lambda>s1. case finish_stored_credential_retry tab p s1 of
              (s2, False) \<Rightarrow> s2
            | (s2, True) \<Rightarrow> set_tab_status tab (case sc_auth c of
                PrivateKeyAuth _ \<Rightarrow> ''The server rejected this private key''
              | _ \<Rightarrow> ''Saved password was rejected; enter a new password'') s2) in
      if sc_credential_storage c = None \<or> \<not> deleted then (finish s, False)
      else if \<not> is_loading tab p s then (s, True)
      else
        case set_credential_storage_while_loading saved tab p None (Some profile) s of
          (s1, Inr True) \<Rightarrow> (finish s1, False)
        | (s1, Inr False) \<Rightarrow> (s1, True)
        | (s1, Inl _) \<Rightarrow> (finish s1, True))"

definition on_ssh_event ::
  "'x \<Rightarrow> uuid \<Rightarrow> session_profile \<Rightarrow> uuid \<Rightarrow> ssh_config \<Rightarrow> bool \<Rightarrow> ssh_session_event \<Rightarrow> 'x app_state \<Rightarrow> 'x app_state \<times> launch" where
  "on_ssh_event edits0 tab profile a c used_stored e s =
     (let p = sp_id profile;
          mutate = (\<lambda>f. (fst (mutate_terminal_attempt tab p a f s), NoLaunch));
          latency = (\<lambda>f. mutate (\<lambda>t. t\<lparr>tt_latency := f (tt_latency t)\<rparr>));
          status = (\<lambda>text. mutate (\<lambda>t. t\<lparr>tt_status := ''Connected to '' @ profile_endpoint profile @ text\<rparr>)) in
      case e of
        SshConnected \<Rightarrow> mutate (ssh_connected profile)
      | LatencyMeasured now measured_at duration stamp \<Rightarrow> latency (record_sample now stamp duration measured_at)
      | LatencyTimedOut now \<Rightarrow> latency (record_timeout now)
      | LatencyExpired \<Rightarrow> latency latency_expire
      | LatencyUnavailable \<Rightarrow> latency latency_unavailable
      | X11ForwardingEnabled \<Rightarrow> status '' - X11 forwarding enabled''
      | X11ForwardingUnavailable message \<Rightarrow> status (''; X11 unavailable: '' @ message)
      | MicrophoneUnavailable message \<Rightarrow> status (''; microphone unavailable: '' @ message)
      | ShellExited \<Rightarrow>
          (case retire_session_attempt edits0 tab p a s of
             (s1, False) \<Rightarrow> (s1, NoLaunch)
           | (s1, True) \<Rightarrow> (s1, CloseTab))
      | SshDisconnected \<Rightarrow> retire_and_reconnect edits0 tab p a s
      | HostKeyRejected expected actual public_key \<Rightarrow>
          (case prepare_host_key_retry tab p a
             \<lparr>hk_tab = tab, hk_profile = p, hk_host = sc_host c, hk_port = sc_port c, hk_fingerprint = actual,
              hk_public_key = public_key, hk_changed = (expected \<noteq> None), hk_revoked = False\<rparr> s of
             (s1, False) \<Rightarrow> (s1, NoLaunch)
           | (s1, True) \<Rightarrow> (set_tab_status tab ''SSH host key changed; verify it before reconnecting'' s1, NoLaunch))
      | HostKeyRevoked actual public_key \<Rightarrow>
          (case prepare_host_key_retry tab p a
             \<lparr>hk_tab = tab, hk_profile = p, hk_host = sc_host c, hk_port = sc_port c, hk_fingerprint = actual,
              hk_public_key = public_key, hk_changed = False, hk_revoked = True\<rparr> s of
             (s1, False) \<Rightarrow> (s1, NoLaunch)
           | (s1, True) \<Rightarrow> (set_tab_status tab ''SSH host key is revoked; remove the record explicitly'' s1, NoLaunch))
      | AuthenticationFailed \<Rightarrow> authentication_failed edits0 tab profile a c used_stored s
      | PrivateKeyFailed message \<Rightarrow>
          (case prepare_authentication_retry tab p a s of
             (s1, False) \<Rightarrow> (s1, NoLaunch)
           | (s1, True) \<Rightarrow> (set_tab_status tab (''Private key could not be loaded: '' @ message) s1, NoLaunch))
      | SshFailed message \<Rightarrow>
          (case retire_session_attempt edits0 tab p a s of
             (s1, False) \<Rightarrow> (s1, NoLaunch)
           | (s1, True) \<Rightarrow>
               (case schedule_tab_reconnect tab s1 of
                  (s2, l) \<Rightarrow> (set_tab_status tab (''Connection failed: '' @ message) s2, l)))
      | SshStopped explained \<Rightarrow>
          (case retire_session_attempt edits0 tab p a s of
             (s1, False) \<Rightarrow> (s1, NoLaunch)
           | (s1, True) \<Rightarrow> if explained then (s1, NoLaunch) else schedule_tab_reconnect tab s1))"

end
