(* ===== verification/Attempt_Facts.thy ===== *)
theory Attempt_Facts
  imports Connection_Attempts Tab_Facts
begin

text \<open>
  What every step of \<open>Connection_Attempts\<close> keeps: \<open>conn_ok\<close> relates the worker, the attempt, the prompts,
  the clipboard request and the reconnection counter of a tab; \<open>conn_inv\<close> adds that no two tabs share an
  attempt. \<open>attempt_step\<close> is any task doing its next piece of work, in any order and with any answer.
\<close>

section \<open>The terminals of a state\<close>

definition terminals :: "'x app_state \<Rightarrow> (uuid \<times> 'x terminal_tab) set" where
  "terminals s = {(at_id u, x) | u x. u \<in> set (as_tabs s) \<and> kind_terminal (at_kind u) = Some x}"

lemma terminal_of_mem: "terminal_of i s = Some x \<Longrightarrow> (i, x) \<in> terminals s"
  by (auto simp: terminal_of_def terminals_def split: option.splits dest!: find_SomeD)

lemma terminals_update_list:
  assumes "u \<in> set (update_first (\<lambda>t. at_id t = i \<and> kind_terminal (at_kind t) \<noteq> None)
      (\<lambda>t. t\<lparr>at_kind := (case at_kind t of TerminalKind x \<Rightarrow> TerminalKind (f x) | k \<Rightarrow> k)\<rparr>) ts)"
    "kind_terminal (at_kind u) = Some x"
  shows "(u \<in> set ts) \<or> at_id u = i \<and> (\<exists>t y. find (\<lambda>t. at_id t = i \<and> kind_terminal (at_kind t) \<noteq> None) ts = Some t \<and>
      kind_terminal (at_kind t) = Some y \<and> x = f y)"
  using assms
proof (induction ts)
  case (Cons t ts)
  then show ?case by (auto split: if_splits tab_kind.splits)
qed simp

lemma terminals_update:
  "terminals (update_terminal i f s) \<subseteq> terminals s \<union> {(i, f x) | x. terminal_of i s = Some x}"
proof
  fix p assume "p \<in> terminals (update_terminal i f s)"
  then obtain u x where p: "p = (at_id u, x)"
    and u: "u \<in> set (update_first (\<lambda>t. at_id t = i \<and> kind_terminal (at_kind t) \<noteq> None)
      (\<lambda>t. t\<lparr>at_kind := (case at_kind t of TerminalKind x \<Rightarrow> TerminalKind (f x) | k \<Rightarrow> k)\<rparr>) (as_tabs s))"
      "kind_terminal (at_kind u) = Some x"
    by (auto simp: terminals_def update_terminal_def)
  from terminals_update_list [OF u] show "p \<in> terminals s \<union> {(i, f x) | x. terminal_of i s = Some x}"
    using p u(2) by (auto simp: terminals_def terminal_of_def)
qed

lemma terminal_of_update [simp]: "terminal_of i (update_terminal i f s) = map_option f (terminal_of i s)"
proof -
  let ?P = "\<lambda>t. at_id t = i \<and> kind_terminal (at_kind t) \<noteq> None"
  let ?g = "\<lambda>t. t\<lparr>at_kind := (case at_kind t of TerminalKind x \<Rightarrow> TerminalKind (f x) | k \<Rightarrow> k)\<rparr>"
  have "find ?P (update_first ?P ?g (as_tabs s)) = map_option ?g (find ?P (as_tabs s))"
    by (rule find_update_first) (auto split: tab_kind.splits)
  then show ?thesis
    by (cases "find ?P (as_tabs s)")
      (auto simp: terminal_of_def update_terminal_def dest!: find_SomeD split: tab_kind.splits)
qed

lemma terminal_of_update_other [simp]: "j \<noteq> i \<Longrightarrow> terminal_of j (update_terminal i f s) = terminal_of j s"
  unfolding terminal_of_def update_terminal_def
  by (simp, subst find_update_first_other) (auto split: tab_kind.splits)

lemma terminal_of_sessions [simp]:
  "terminal_of i (s\<lparr>as_sessions := x\<rparr>) = terminal_of i s" "terminal_of i (s\<lparr>as_mutations := m\<rparr>) = terminal_of i s"
  "terminal_of i (s\<lparr>as_active := act\<rparr>) = terminal_of i s" "terminal_of i (s\<lparr>as_serial_ports := ports\<rparr>) = terminal_of i s"
  by (simp_all add: terminal_of_def)

lemma terminals_other [simp]:
  "terminals (s\<lparr>as_sessions := x\<rparr>) = terminals s" "terminals (s\<lparr>as_mutations := m\<rparr>) = terminals s"
  "terminals (s\<lparr>as_active := act\<rparr>) = terminals s" "terminals (s\<lparr>as_serial_ports := ports\<rparr>) = terminals s"
  by (simp_all add: terminals_def)

lemma profile_of_update [simp]:
  "profile_of p (update_terminal i f s) = profile_of p s" "profile_of p (s\<lparr>as_mutations := m\<rparr>) = profile_of p s"
  by (simp_all add: profile_of_def update_terminal_def)

section \<open>What holds of one tab\<close>

definition attempt_of :: "'x terminal_tab \<Rightarrow> uuid option" where
  "attempt_of t =
     (case tt_backend t of SshBackend _ a \<Rightarrow> a | SftpBackend _ a \<Rightarrow> a | TelnetBackend _ a \<Rightarrow> a
      | SerialBackend _ a \<Rightarrow> a | LocalBackend \<Rightarrow> None)"

fun worker_fits :: "worker \<Rightarrow> backend \<Rightarrow> bool" where
  "worker_fits (SshWorker _) b = (case b of SshBackend _ _ \<Rightarrow> True | SftpBackend _ _ \<Rightarrow> True | _ \<Rightarrow> False)"
| "worker_fits (TelnetWorker _) b = (case b of TelnetBackend _ _ \<Rightarrow> True | _ \<Rightarrow> False)"
| "worker_fits (SerialWorker _) b = (case b of SerialBackend _ _ \<Rightarrow> True | _ \<Rightarrow> False)"
| "worker_fits (LocalWorker _) b = (b = LocalBackend)"

definition worker_ok :: "'x terminal_tab \<Rightarrow> bool" where
  "worker_ok t \<longleftrightarrow>
     (tt_worker t \<noteq> None \<longrightarrow> tt_worker_running t \<and> worker_fits (the (tt_worker t)) (tt_backend t)) \<and>
     (tt_connected t \<longrightarrow> tt_worker_running t) \<and>
     (\<not> is_local t \<longrightarrow> tt_worker_running t = (attempt_of t \<noteq> None)) \<and>
     (is_ssh t \<or> telnet_route t \<noteq> None \<longrightarrow> (tt_worker t \<noteq> None) = (attempt_of t \<noteq> None))"

text \<open>A prompt is about the tab that shows it and its session.\<close>

definition phase_fits :: "uuid \<Rightarrow> uuid option \<Rightarrow> ssh_phase \<Rightarrow> bool" where
  "phase_fits i p ph \<longleftrightarrow>
     (case ph of
        Probing pb \<Rightarrow> pb_tab pb = i \<and> p = Some (pb_profile pb)
      | AwaitingHostKey pr \<Rightarrow> hk_tab pr = i \<and> p = Some (hk_profile pr)
      | ConfirmingHostKey pr \<Rightarrow> hk_tab pr = i \<and> p = Some (hk_profile pr)
      | _ \<Rightarrow> True)"

definition prompt_ok :: "uuid \<Rightarrow> 'x terminal_tab \<Rightarrow> bool" where
  "prompt_ok i t \<longleftrightarrow> (tt_phase t \<noteq> PhaseIdle \<longrightarrow> is_ssh t) \<and> phase_fits i (profile_id t) (tt_phase t)"

definition secret_ok :: "'x terminal_tab \<Rightarrow> bool" where
  "secret_ok t \<longleftrightarrow> (tt_pending_secret t \<noteq> None \<longrightarrow> is_ssh t \<and> tt_worker t = None)"

definition read_ok :: "'x terminal_tab \<Rightarrow> bool" where
  "read_ok t \<longleftrightarrow>
     (\<forall>r. tt_pending_read t = Some r \<longrightarrow>
        rd_generation r = tt_generation t \<and> tt_worker t \<noteq> None \<and> tt_connected t)"

definition reconnect_ok :: "'x terminal_tab \<Rightarrow> bool" where
  "reconnect_ok t \<longleftrightarrow>
     tt_attempt t \<le> MAX_RECONNECT_ATTEMPTS \<and>
     (tt_reconnecting t \<longrightarrow> tt_reconnect_enabled t \<and> 0 < tt_attempt t) \<and>
     (is_local t \<longrightarrow> \<not> tt_reconnect_enabled t)"

definition conn_ok :: "uuid \<Rightarrow> 'x terminal_tab \<Rightarrow> bool" where
  "conn_ok i t \<longleftrightarrow> worker_ok t \<and> prompt_ok i t \<and> secret_ok t \<and> read_ok t \<and> reconnect_ok t"

definition conn_inv :: "uuid set \<Rightarrow> 'x app_state \<Rightarrow> bool" where
  "conn_inv U s \<longleftrightarrow>
     (\<forall>i x. (i, x) \<in> terminals s \<longrightarrow> conn_ok i x \<and> (\<forall>a. attempt_of x = Some a \<longrightarrow> a \<in> U)) \<and>
     (\<forall>i x j y a. (i, x) \<in> terminals s \<and> (j, y) \<in> terminals s \<and> attempt_of x = Some a \<and> attempt_of y = Some a \<longrightarrow> i = j)"

lemma conn_invD:
  assumes "conn_inv U s"
  shows "(i, x) \<in> terminals s \<Longrightarrow> conn_ok i x" "(i, x) \<in> terminals s \<Longrightarrow> attempt_of x = Some a \<Longrightarrow> a \<in> U"
    "(i, x) \<in> terminals s \<Longrightarrow> (j, y) \<in> terminals s \<Longrightarrow> attempt_of x = Some a \<Longrightarrow> attempt_of y = Some a \<Longrightarrow> i = j"
  using assms unfolding conn_inv_def by blast+

lemma conn_invI:
  assumes "\<And>i x. (i, x) \<in> terminals s \<Longrightarrow> conn_ok i x"
    and "\<And>i x a. (i, x) \<in> terminals s \<Longrightarrow> attempt_of x = Some a \<Longrightarrow> a \<in> U"
    and "\<And>i x j y a. (i, x) \<in> terminals s \<Longrightarrow> (j, y) \<in> terminals s \<Longrightarrow> attempt_of x = Some a \<Longrightarrow>
      attempt_of y = Some a \<Longrightarrow> i = j"
  shows "conn_inv U s"
  using assms unfolding conn_inv_def by blast

lemma conn_inv_mono: "conn_inv U s \<Longrightarrow> U \<subseteq> V \<Longrightarrow> conn_inv V s"
  unfolding conn_inv_def by blast

lemma conn_inv_sub: "conn_inv U s \<Longrightarrow> terminals s' \<subseteq> terminals s \<Longrightarrow> conn_inv U s'"
  unfolding conn_inv_def by blast

lemma conn_inv_other [simp]:
  "conn_inv U (s\<lparr>as_sessions := x\<rparr>) = conn_inv U s" "conn_inv U (s\<lparr>as_mutations := m\<rparr>) = conn_inv U s"
  "conn_inv U (s\<lparr>as_active := act\<rparr>) = conn_inv U s" "conn_inv U (s\<lparr>as_serial_ports := ports\<rparr>) = conn_inv U s"
  by (simp_all add: conn_inv_def)

lemma conn_inv_terminal: "conn_inv U s \<Longrightarrow> terminal_of i s = Some x \<Longrightarrow> conn_ok i x"
  using conn_invD(1) terminal_of_mem by blast

text \<open>One tab changes: it keeps or drops its attempt, or gets a fresh one.\<close>

lemma conn_inv_update:
  assumes inv: "conn_inv U s" and UV: "U \<subseteq> V"
    and f: "\<And>x. terminal_of i s = Some x \<Longrightarrow> conn_ok i x \<Longrightarrow> conn_ok i (f x) \<and>
      (attempt_of (f x) = attempt_of x \<or> attempt_of (f x) = None \<or> (\<exists>a. attempt_of (f x) = Some a \<and> a \<in> V - U))"
  shows "conn_inv V (update_terminal i f s)"
proof (cases "terminal_of i s")
  case None
  then have "terminals (update_terminal i f s) \<subseteq> terminals s" using terminals_update [of i f s] by auto
  then show ?thesis using conn_inv_sub [OF inv] conn_inv_mono UV by blast
next
  case (Some x)
  note fx = f [OF Some conn_inv_terminal [OF inv Some]]
  have mem: "(i, x) \<in> terminals s" using Some by (rule terminal_of_mem)
  have sub: "(j, y) = (i, f x) \<or> (j, y) \<in> terminals s" if "(j, y) \<in> terminals (update_terminal i f s)" for j y
    using that terminals_update [of i f s] Some by auto
  have same: "j = i" if "(j, y) \<in> terminals s" "attempt_of y = Some b" "attempt_of (f x) = Some b" for j y b
    using fx that conn_invD(2) [OF inv that(1,2)] conn_invD(3) [OF inv that(1) mem that(2)] by auto
  show ?thesis
  proof (rule conn_invI)
    fix j y assume "(j, y) \<in> terminals (update_terminal i f s)"
    then show "conn_ok j y" using sub fx conn_invD(1) [OF inv] by blast
  next
    fix j y b assume "(j, y) \<in> terminals (update_terminal i f s)" "attempt_of y = Some b"
    then show "b \<in> V" using sub fx conn_invD(2) [OF inv] mem UV by fastforce
  next
    fix j y k z b
    assume "(j, y) \<in> terminals (update_terminal i f s)" "(k, z) \<in> terminals (update_terminal i f s)"
      "attempt_of y = Some b" "attempt_of z = Some b"
    then show "j = k" using sub [of j y] sub [of k z] same [of j y b] same [of k z b] conn_invD(3) [OF inv] by auto
  qed
qed

lemma conn_inv_keep:
  assumes "conn_inv U s"
    and "\<And>x. terminal_of i s = Some x \<Longrightarrow> conn_ok i x \<Longrightarrow>
      conn_ok i (f x) \<and> (attempt_of (f x) = attempt_of x \<or> attempt_of (f x) = None)"
  shows "conn_inv U (update_terminal i f s)"
  using conn_inv_update [OF assms(1) order_refl, of i f] assms(2) by blast

lemma conn_inv_fresh:
  assumes "conn_inv U s" "a \<notin> U"
    and "\<And>x. terminal_of i s = Some x \<Longrightarrow> conn_ok i x \<Longrightarrow> conn_ok i (f x) \<and> attempt_of (f x) = Some a"
  shows "conn_inv (insert a U) (update_terminal i f s)"
  using conn_inv_update [OF assms(1), of "insert a U" i f] assms(2,3) by blast

section \<open>Single steps\<close>

lemmas tab_parts = worker_ok_def prompt_ok_def secret_ok_def read_ok_def reconnect_ok_def is_ssh_def is_local_def
  attempt_of_def telnet_route_def profile_id_def

lemmas step_defs = end_attempt_def finish_reconnect_attempt_def clear_pending_clipboard_read_def set_ssh_attempt_def
  set_telnet_attempt_def set_serial_attempt_def set_phase_def set_ssh_phase_def enable_reconnect_def
  mark_reconnect_connected_def cancel_reconnect_def prepare_manual_retry_def Let_def

named_theorems keeps \<open>what a step does to the invariant of a tab and to its attempt\<close>

lemma keeps_status [keeps]: "conn_ok i (t\<lparr>tt_status := m\<rparr>) = conn_ok i t" "attempt_of (t\<lparr>tt_status := m\<rparr>) = attempt_of t"
  by (simp_all add: conn_ok_def tab_parts)

lemma keeps_latency [keeps]: "conn_ok i (t\<lparr>tt_latency := l\<rparr>) = conn_ok i t" "attempt_of (t\<lparr>tt_latency := l\<rparr>) = attempt_of t"
  by (simp_all add: conn_ok_def tab_parts)

lemma keeps_sftp [keeps]: "conn_ok i (t\<lparr>tt_sftp := b\<rparr>) = conn_ok i t" "attempt_of (t\<lparr>tt_sftp := b\<rparr>) = attempt_of t"
  "conn_ok i (t\<lparr>tt_sftp_initial_path := ip\<rparr>) = conn_ok i t" "attempt_of (t\<lparr>tt_sftp_initial_path := ip\<rparr>) = attempt_of t"
  "conn_ok i (t\<lparr>tt_media := md\<rparr>) = conn_ok i t" "attempt_of (t\<lparr>tt_media := md\<rparr>) = attempt_of t"
  by (simp_all add: conn_ok_def tab_parts)

lemma phase_fits_simps [simp]:
  "phase_fits i p PhaseIdle" "phase_fits i p (AwaitingAuthentication b)" "phase_fits i p LoadingStoredCredential"
  by (simp_all add: phase_fits_def)

lemma attempt_set_phase [keeps]: "attempt_of (set_phase ph t) = attempt_of t"
  by (simp add: step_defs attempt_of_def)

lemma keeps_phase: "conn_ok i t \<Longrightarrow> phase_fits i (profile_id t) ph \<Longrightarrow> conn_ok i (set_phase ph t)"
  by (auto simp: conn_ok_def tab_parts step_defs split: ssh_phase.splits backend.splits option.splits)

lemma keeps_end_ssh:
  assumes "conn_ok i t" "is_ssh t"
  shows "conn_ok i (end_attempt (set_ssh_attempt None) t)" "attempt_of (end_attempt (set_ssh_attempt None) t) = None"
  using assms by (auto simp: conn_ok_def tab_parts step_defs split: backend.splits)

lemma keeps_end_direct:
  assumes "conn_ok i t" "direct_attempt_matches p a protocol t"
  shows "conn_ok i (end_attempt (forget_direct protocol) t)" "attempt_of (end_attempt (forget_direct protocol) t) = None"
  using assms
  by (auto simp: conn_ok_def tab_parts step_defs forget_direct_def direct_attempt_matches_def serial_route_def
      split: backend.splits direct_protocol.splits)

lemma end_attempt_backend: "is_ssh (end_attempt (set_ssh_attempt None) t) = is_ssh t"
  "profile_id (end_attempt (set_ssh_attempt None) t) = profile_id t"
  by (auto simp: tab_parts step_defs split: backend.splits)

lemma keeps_retire:
  assumes "conn_ok i t" "is_ssh t"
  shows "conn_ok i (retire_terminal edits0 t)" "attempt_of (retire_terminal edits0 t) = None"
  using keeps_end_ssh [OF assms] by (simp_all add: retire_terminal_def Let_def keeps)

lemma keeps_start:
  assumes "conn_ok i t" "is_ssh t" "tt_worker t = None"
  shows "conn_ok i (with_ssh_worker a w p t)" "attempt_of (with_ssh_worker a w p t) = Some a"
  using assms by (auto simp: conn_ok_def tab_parts step_defs with_ssh_worker_def split: backend.splits)

lemma keeps_take_secret:
  "conn_ok i t \<Longrightarrow> conn_ok i (fst (take_pending_auth_secret t))" "attempt_of (fst (take_pending_auth_secret t)) = attempt_of t"
  by (auto simp: conn_ok_def tab_parts take_pending_auth_secret_def)

lemma keeps_set_secret:
  "conn_ok i t \<Longrightarrow> tt_worker t = None \<Longrightarrow> conn_ok i (fst (set_pending_auth_secret x t))"
  "attempt_of (fst (set_pending_auth_secret x t)) = attempt_of t"
  by (auto simp: conn_ok_def tab_parts set_pending_auth_secret_def)

lemma keeps_not_reconnecting:
  "conn_ok i t \<Longrightarrow> conn_ok i (t\<lparr>tt_reconnecting := False\<rparr>)" "attempt_of (t\<lparr>tt_reconnecting := False\<rparr>) = attempt_of t"
  by (simp_all add: conn_ok_def tab_parts)

lemma keeps_no_read:
  "conn_ok i t \<Longrightarrow> conn_ok i (t\<lparr>tt_pending_read := None\<rparr>)" "attempt_of (t\<lparr>tt_pending_read := None\<rparr>) = attempt_of t"
  by (simp_all add: conn_ok_def tab_parts)

lemma keeps_finish_reconnect:
  "conn_ok i t \<Longrightarrow> conn_ok i (fst (finish_reconnect_attempt g t))"
  "attempt_of (fst (finish_reconnect_attempt g t)) = attempt_of t"
  by (simp_all add: finish_reconnect_attempt_def keeps_not_reconnecting)

lemma keeps_clear_reconnect:
  "conn_ok i t \<Longrightarrow> conn_ok i (fst (clear_reconnect_attempt g m t))"
  "attempt_of (fst (clear_reconnect_attempt g m t)) = attempt_of t"
  by (simp_all add: clear_reconnect_attempt_def finish_reconnect_attempt_def keeps keeps_not_reconnecting)

lemma keeps_schedule:
  "conn_ok i t \<Longrightarrow> conn_ok i (fst (schedule_reconnect t))" "attempt_of (fst (schedule_reconnect t)) = attempt_of t"
proof -
  let ?go = "tt_reconnect_enabled t \<and> tt_attempt t + 1 \<le> MAX_RECONNECT_ATTEMPTS"
  have r: "(\<exists>m. fst (schedule_reconnect t) = t\<lparr>tt_status := m\<rparr>) \<or>
      (\<exists>m. fst (schedule_reconnect t) = t\<lparr>tt_attempt := tt_attempt t + 1, tt_reconnecting := True\<rparr>\<lparr>tt_status := m\<rparr> \<and> ?go)"
    by (cases "\<not> tt_reconnect_enabled t \<or> tt_reconnecting t \<or> tt_worker t \<noteq> None"; cases "tt_attempt t + 1 > MAX_RECONNECT_ATTEMPTS")
      (auto simp: schedule_reconnect_def begin_reconnect_def MAX_RECONNECT_ATTEMPTS_def Let_def intro: exI [of _ "tt_status t"])
  show "attempt_of (fst (schedule_reconnect t)) = attempt_of t" using r by (auto simp: attempt_of_def)
  assume ok: "conn_ok i t"
  have "conn_ok i (t\<lparr>tt_attempt := tt_attempt t + 1, tt_reconnecting := True\<rparr>)" if ?go
    using ok that by (simp add: conn_ok_def tab_parts)
  then show "conn_ok i (fst (schedule_reconnect t))" using r ok by (auto simp: keeps)
qed

lemma keeps_cancel: "conn_ok i t \<Longrightarrow> conn_ok i (cancel_reconnect t)" "attempt_of (cancel_reconnect t) = attempt_of t"
  by (auto simp: conn_ok_def tab_parts step_defs)

lemma keeps_manual_retry:
  "conn_ok i t \<Longrightarrow> conn_ok i (prepare_manual_retry t)" "attempt_of (prepare_manual_retry t) = attempt_of t"
  "is_local (prepare_manual_retry t) = is_local t" "tt_worker (prepare_manual_retry t) = tt_worker t"
  by (auto simp: conn_ok_def tab_parts step_defs)

lemma keeps_connected:
  assumes "conn_ok i t" "attempt_of t \<noteq> None"
  shows "conn_ok i (fst (mark_reconnect_connected (tt_generation t) (t\<lparr>tt_connected := True, tt_worker_running := True\<rparr>)))"
    "attempt_of (fst (mark_reconnect_connected (tt_generation t) (t\<lparr>tt_connected := True, tt_worker_running := True\<rparr>))) = attempt_of t"
proof -
  have local: "\<not> is_local t" using assms(2) by (auto simp: attempt_of_def is_local_def)
  then show "conn_ok i (fst (mark_reconnect_connected (tt_generation t) (t\<lparr>tt_connected := True, tt_worker_running := True\<rparr>)))"
    using assms unfolding conn_ok_def
    by (simp add: worker_ok_def prompt_ok_def secret_ok_def read_ok_def reconnect_ok_def mark_reconnect_connected_def
        is_ssh_def is_local_def attempt_of_def telnet_route_def profile_id_def)
  show "attempt_of (fst (mark_reconnect_connected (tt_generation t) (t\<lparr>tt_connected := True, tt_worker_running := True\<rparr>))) = attempt_of t"
    by (simp add: mark_reconnect_connected_def attempt_of_def)
qed

lemma keeps_ssh_connected:
  assumes "conn_ok i t" "attempt_of t \<noteq> None"
  shows "conn_ok i (ssh_connected p t)" "attempt_of (ssh_connected p t) = attempt_of t"
proof -
  have "conn_ok i (t\<lparr>tt_latency := latency_default\<rparr>)" "attempt_of (t\<lparr>tt_latency := latency_default\<rparr>) \<noteq> None"
    using assms by (simp_all add: keeps)
  from keeps_connected [OF this] show "conn_ok i (ssh_connected p t)" "attempt_of (ssh_connected p t) = attempt_of t"
    by (simp_all add: ssh_connected_def keeps)
qed

lemma keeps_start_telnet:
  assumes "conn_ok i t" "telnet_route t = Some (p, None)"
  shows "conn_ok i ((enable_reconnect (fst (set_telnet_attempt (Some a) t)))\<lparr>tt_worker := Some (TelnetWorker w),
      tt_worker_running := True, tt_connected := False, tt_status := m\<rparr>)"
    "attempt_of ((enable_reconnect (fst (set_telnet_attempt (Some a) t)))\<lparr>tt_worker := Some (TelnetWorker w),
      tt_worker_running := True, tt_connected := False, tt_status := m\<rparr>) = Some a"
  using assms by (auto simp: conn_ok_def tab_parts step_defs split: backend.splits)

lemma keeps_start_serial:
  assumes "conn_ok i t" "serial_route t = Some (p, None)" "tt_worker t = None"
  shows "conn_ok i ((enable_reconnect (fst (set_serial_attempt (Some a) t)))\<lparr>
      tt_worker_running := True, tt_connected := False, tt_status := m\<rparr>)"
    "attempt_of ((enable_reconnect (fst (set_serial_attempt (Some a) t)))\<lparr>
      tt_worker_running := True, tt_connected := False, tt_status := m\<rparr>) = Some a"
  using assms by (auto simp: conn_ok_def tab_parts step_defs serial_route_def split: backend.splits)

lemma keeps_serial_worker:
  assumes "conn_ok i t" "direct_attempt_matches p a DirectSerial t" "tt_worker t = None"
  shows "conn_ok i (t\<lparr>tt_worker := Some (SerialWorker w), tt_status := m\<rparr>)"
    "attempt_of (t\<lparr>tt_worker := Some (SerialWorker w), tt_status := m\<rparr>) = attempt_of t"
  using assms by (auto simp: conn_ok_def tab_parts direct_attempt_matches_def serial_route_def split: backend.splits)

lemma keeps_local_start:
  assumes "conn_ok i t" "is_local t" "tt_worker t = None"
  shows "conn_ok i (t\<lparr>tt_worker := Some (LocalWorker w), tt_worker_running := True, tt_connected := False, tt_status := m\<rparr>)"
    "attempt_of (t\<lparr>tt_worker := Some (LocalWorker w), tt_worker_running := True, tt_connected := False, tt_status := m\<rparr>) = attempt_of t"
  using assms by (auto simp: conn_ok_def tab_parts split: backend.splits)

lemma keeps_local_end:
  assumes "conn_ok i t" "is_local t"
  shows "conn_ok i ((fst (clear_pending_clipboard_read (t\<lparr>tt_worker := None\<rparr>)))\<lparr>tt_media := m, tt_connected := False,
      tt_worker_running := False, tt_status := st\<rparr>)"
    "attempt_of ((fst (clear_pending_clipboard_read (t\<lparr>tt_worker := None\<rparr>)))\<lparr>tt_media := m, tt_connected := False,
      tt_worker_running := False, tt_status := st\<rparr>) = attempt_of t"
  using assms by (auto simp: conn_ok_def tab_parts step_defs split: backend.splits)

lemma keeps_local_connected:
  assumes "conn_ok i t" "is_local t"
  shows "conn_ok i (t\<lparr>tt_connected := True, tt_worker_running := True, tt_status := st\<rparr>)"
    "attempt_of (t\<lparr>tt_connected := True, tt_worker_running := True, tt_status := st\<rparr>) = attempt_of t"
  using assms by (auto simp: conn_ok_def tab_parts split: backend.splits)

lemma keeps_read:
  assumes "conn_ok i t" "rd_generation r = tt_generation t" "tt_worker t \<noteq> None" "tt_connected t"
  shows "conn_ok i (t\<lparr>tt_read_token := k, tt_pending_read := Some r\<rparr>)"
proof -
  let ?u = "t\<lparr>tt_read_token := k, tt_pending_read := Some r\<rparr>"
  have "worker_ok ?u = worker_ok t" "prompt_ok i ?u = prompt_ok i t" "secret_ok ?u = secret_ok t"
    "reconnect_ok ?u = reconnect_ok t"
    by (simp_all add: tab_parts)
  moreover have "read_ok ?u" using assms(2-4) by (simp add: read_ok_def)
  ultimately show ?thesis using assms(1) by (simp add: conn_ok_def)
qed

lemma keeps_offer:
  "conn_ok i t \<Longrightarrow> conn_ok i (fst (offer_clipboard_read fm t))" "attempt_of (fst (offer_clipboard_read fm t)) = attempt_of t"
proof -
  show "attempt_of (fst (offer_clipboard_read fm t)) = attempt_of t"
    by (simp add: offer_clipboard_read_def attempt_of_def Let_def)
  assume "conn_ok i t"
  then show "conn_ok i (fst (offer_clipboard_read fm t))"
    by (simp only: offer_clipboard_read_def Let_def clipboard_ready_def split: if_split)
      (simp add: keeps_read)
qed

lemma keeps_clipboard:
  "conn_ok i t \<Longrightarrow> conn_ok i (fst (take_pending_clipboard_read t))" "attempt_of (fst (take_pending_clipboard_read t)) = attempt_of t"
  "conn_ok i t \<Longrightarrow> conn_ok i (fst (clear_clipboard_read k g t))" "attempt_of (fst (clear_clipboard_read k g t)) = attempt_of t"
  "conn_ok i t \<Longrightarrow> conn_ok i (fst (clear_pending_clipboard_read t))" "attempt_of (fst (clear_pending_clipboard_read t)) = attempt_of t"
  by (auto simp: take_pending_clipboard_read_def clear_clipboard_read_def clear_pending_clipboard_read_def
      keeps_no_read split: option.splits)

lemma probe_phase:
  "fst (finish_host_key_probe i profile target result t) = t \<or>
   (\<exists>ph. fst (finish_host_key_probe i profile target result t) = set_phase ph t \<and> phase_fits i (profile_id t) ph)"
proof (cases "case ssh_route t of None \<Rightarrow> False | Some (p, _) \<Rightarrow> p = sp_id profile")
  case False
  then show ?thesis by (simp add: finish_host_key_probe_def Let_def)
next
  case True
  then have p: "profile_id t = Some (sp_id profile)"
    by (auto simp: profile_id_def ssh_route_def split: backend.splits option.splits)
  show ?thesis
  proof (cases result)
    case None
    then show ?thesis by (simp add: finish_host_key_probe_def Let_def)
  next
    case (Some r)
    then show ?thesis
    proof (cases r)
      case (Inl e)
      then show ?thesis using Some by (auto simp: finish_host_key_probe_def Let_def)
    next
      case (Inr pr)
      show ?thesis
        unfolding finish_host_key_probe_def Let_def Some option.case Inr sum.case
        by (auto simp: p phase_fits_def split: option.split)
    qed
  qed
qed

lemma keeps_probe:
  assumes "conn_ok i t"
  shows "conn_ok i (fst (finish_host_key_probe i profile target result t))"
    "attempt_of (fst (finish_host_key_probe i profile target result t)) = attempt_of t"
  using probe_phase [of i profile target result t] keeps_phase [OF assms] assms by (auto simp: keeps)

section \<open>Operations that start nothing\<close>

named_theorems inv_ops \<open>operations that keep the invariant of all tabs\<close>

lemma inv_status [inv_ops]: "conn_inv U s \<Longrightarrow> conn_inv U (set_tab_status tab m s)"
  unfolding set_tab_status_def by (rule conn_inv_keep) (simp_all add: keeps)

lemma inv_phase:
  assumes "conn_inv U s" "\<And>x. terminal_of tab s = Some x \<Longrightarrow> phase_fits tab (profile_id x) ph"
  shows "conn_inv U (update_terminal tab (set_phase ph) s)"
  using assms(1) by (rule conn_inv_keep) (simp add: keeps keeps_phase assms(2))

lemma inv_phase_plain [inv_ops]:
  "conn_inv U s \<Longrightarrow> conn_inv U (update_terminal tab (set_phase PhaseIdle) s)"
  "conn_inv U s \<Longrightarrow> conn_inv U (update_terminal tab (set_phase (AwaitingAuthentication b)) s)"
  "conn_inv U s \<Longrightarrow> conn_inv U (update_terminal tab (set_phase LoadingStoredCredential) s)"
  by (rule inv_phase; simp)+

lemma inv_sessions [inv_ops]: "conn_inv U s \<Longrightarrow> conn_inv U (with_sessions x s)"
  by (simp add: with_sessions_def)

lemma inv_mutations [inv_ops]:
  "conn_inv U s \<Longrightarrow> conn_inv U (begin_profile_mutation k p s)"
  "conn_inv U s \<Longrightarrow> conn_inv U (finish_profile_mutation p k s)"
  by (simp_all add: begin_profile_mutation_def finish_profile_mutation_def)

lemma inv_awaiting [inv_ops]:
  "conn_inv U s \<Longrightarrow> conn_inv U (fst (set_loading_stored_credential tab p s))"
  "conn_inv U s \<Longrightarrow> conn_inv U (fst (set_awaiting_authentication tab p b s))"
  "conn_inv U s \<Longrightarrow> conn_inv U (fst (finish_stored_credential_retry tab p s))"
  by (simp_all add: set_loading_stored_credential_def set_awaiting_authentication_def
      finish_stored_credential_retry_def inv_ops)

lemma matches_ssh: "matches_attempt tab p a s \<Longrightarrow> terminal_of tab s = Some x \<Longrightarrow>
    is_ssh x \<and> profile_id x = Some p \<and> attempt_of x = Some a"
  by (auto simp: matches_attempt_def ssh_route_def is_ssh_def profile_id_def attempt_of_def split: backend.splits)

lemma inv_prepare_retry:
  assumes "conn_inv U s" "phase_fits tab (Some p) ph"
  shows "conn_inv U (fst (prepare_retry_with_phase tab p a ph s))"
proof (cases "matches_attempt tab p a s")
  case True
  then show ?thesis
    unfolding prepare_retry_with_phase_def
    by (simp, intro conn_inv_keep [OF assms(1)])
      (simp add: keeps keeps_phase keeps_end_ssh matches_ssh [OF True] end_attempt_backend assms(2))
qed (use assms in \<open>simp add: prepare_retry_with_phase_def\<close>)

lemma host_key_retry_phase:
  "prepare_host_key_retry tab p a prompt s = prepare_retry_with_phase tab p a (AwaitingHostKey prompt) s"
  by (simp add: prepare_host_key_retry_def prepare_retry_with_phase_def)

lemma inv_retries [inv_ops]:
  "conn_inv U s \<Longrightarrow> conn_inv U (fst (prepare_authentication_retry tab p a s))"
  "conn_inv U s \<Longrightarrow> conn_inv U (fst (prepare_stored_credential_retry tab p a s))"
  "conn_inv U s \<Longrightarrow> hk_tab prompt = tab \<Longrightarrow> hk_profile prompt = p \<Longrightarrow>
    conn_inv U (fst (prepare_host_key_retry tab p a prompt s))"
  by (simp_all add: prepare_authentication_retry_def prepare_stored_credential_retry_def host_key_retry_phase
      inv_prepare_retry phase_fits_def)

lemma inv_retire [inv_ops]: "conn_inv U s \<Longrightarrow> conn_inv U (fst (retire_session_attempt edits0 tab p a s))"
proof -
  assume inv: "conn_inv U s"
  show ?thesis
  proof (cases "matches_attempt tab p a s")
    case True
    then show ?thesis
      unfolding retire_session_attempt_def
      by (simp, intro conn_inv_keep [OF inv]) (simp add: keeps_retire matches_ssh [OF True])
  qed (use inv in \<open>simp add: retire_session_attempt_def\<close>)
qed

lemma inv_credential_storage [inv_ops]:
  "conn_inv U s \<Longrightarrow> conn_inv U (fst (set_credential_storage_while_loading saved tab p st ex s))"
  by (simp add: set_credential_storage_while_loading_def inv_ops split: option.split)

lemma inv_commits [inv_ops]:
  "conn_inv U s \<Longrightarrow> conn_inv U (fst (begin_checked_mutation k p ex s))"
  "conn_inv U s \<Longrightarrow> conn_inv U (fst (commit_profile_save saved q ex k s))"
  "conn_inv U s \<Longrightarrow> conn_inv U (fst (commit_profile_credential_storage saved q st g k s))"
  by (simp_all add: begin_checked_mutation_def commit_profile_save_def commit_profile_credential_storage_def
      inv_ops Let_def split: option.split)

lemma inv_schedule [inv_ops]: "conn_inv U s \<Longrightarrow> conn_inv U (fst (schedule_tab_reconnect tab s))"
  by (auto simp: schedule_tab_reconnect_def keeps_schedule intro: conn_inv_keep split: option.split)

lemma inv_clear_reconnect [inv_ops]: "conn_inv U s \<Longrightarrow> conn_inv U (fst (clear_tab_reconnect tab g m s))"
  by (auto simp: clear_tab_reconnect_def keeps_clear_reconnect intro: conn_inv_keep split: option.split)

lemma inv_reconnect_phase [inv_ops]: "conn_inv U s \<Longrightarrow> conn_inv U (fst (set_ssh_reconnect_phase tab p s))"
  by (simp add: set_ssh_reconnect_phase_def inv_ops split: option.split)

lemma inv_ask [inv_ops]:
  "conn_inv U s \<Longrightarrow> conn_inv U (ask_for_password tab p b m s)" "conn_inv U s \<Longrightarrow> conn_inv U (ask_again tab p m s)"
  "conn_inv U s \<Longrightarrow> conn_inv U (fst (begin_lookup tab p m l s))"
  by (simp_all add: ask_for_password_def ask_again_def begin_lookup_def case_prod_beta inv_ops split: bool.split)

lemma inv_take_password [inv_ops]: "conn_inv U s \<Longrightarrow> conn_inv U (fst (take_one_time_password tab p s))"
  by (auto simp: take_one_time_password_def keeps_take_secret intro: conn_inv_keep split: option.split)

lemma inv_clear_missing [inv_ops]: "conn_inv U s \<Longrightarrow> conn_inv U (clear_missing_auto_vault_credential saved d tab p s)"
  by (simp add: clear_missing_auto_vault_credential_def inv_ops)

lemma inv_user_ops [inv_ops]:
  "conn_inv U s \<Longrightarrow> conn_inv U (cancel_authentication s)" "conn_inv U s \<Longrightarrow> conn_inv U (reject_host_key s)"
  "conn_inv U s \<Longrightarrow> conn_inv U (fst (disconnect_session s))"
  by (auto simp: cancel_authentication_def reject_host_key_def disconnect_session_def inv_ops keeps_cancel
      intro: conn_inv_keep split: option.split ssh_phase.split)

lemma inv_direct_end [inv_ops]: "conn_inv U s \<Longrightarrow> conn_inv U (fst (finish_direct_attempt tab p a protocol m s))"
proof -
  assume inv: "conn_inv U s"
  show ?thesis
  proof (cases "direct_attempt_active tab p a protocol s")
    case True
    then have m: "direct_attempt_matches p a protocol x" if "terminal_of tab s = Some x" for x
      using that by (simp add: direct_attempt_active_def)
    show ?thesis
      using True unfolding finish_direct_attempt_def
      by (simp, intro conn_inv_keep [OF inv]) (simp add: keeps keeps_end_direct [OF _ m])
  qed (use inv in \<open>simp add: finish_direct_attempt_def\<close>)
qed

lemma inv_direct_ended [inv_ops]: "conn_inv U s \<Longrightarrow> conn_inv U (fst (direct_ended tab p a protocol m s))"
  by (simp add: direct_ended_def case_prod_beta inv_ops split: bool.split)

lemma direct_attempt: "direct_attempt_matches p a protocol x \<Longrightarrow> attempt_of x = Some a"
  by (auto simp: direct_attempt_matches_def telnet_route_def serial_route_def attempt_of_def
      split: backend.splits direct_protocol.splits)

lemma inv_direct_event [inv_ops]: "conn_inv U s \<Longrightarrow> conn_inv U (fst (on_direct_event tab profile a protocol e s))"
proof (cases e)
  case (DirectConnected port)
  assume inv: "conn_inv U s"
  have "conn_ok tab x \<Longrightarrow> direct_attempt_matches (sp_id profile) a protocol x \<Longrightarrow>
      conn_ok tab ((fst (mark_reconnect_connected (tt_generation x) (x\<lparr>tt_connected := True, tt_worker_running := True\<rparr>)))\<lparr>tt_status := m\<rparr>) \<and>
      attempt_of ((fst (mark_reconnect_connected (tt_generation x) (x\<lparr>tt_connected := True, tt_worker_running := True\<rparr>)))\<lparr>tt_status := m\<rparr>) = attempt_of x"
    for x :: "'a terminal_tab" and m
    using keeps_connected [of tab x] direct_attempt [of "sp_id profile" a protocol x] by (simp add: keeps)
  then show ?thesis
    using inv by (auto simp: on_direct_event_def DirectConnected mutate_direct_attempt_def direct_attempt_active_def
        intro!: conn_inv_keep split: option.splits)
qed (simp_all add: on_direct_event_def inv_ops)

section \<open>Operations that may start a worker\<close>

named_theorems starts \<open>operations that keep the invariant when the attempt they may start is fresh\<close>

lemma inv_insert: "conn_inv U s \<Longrightarrow> conn_inv (insert a U) s"
  by (erule conn_inv_mono) blast

lemma phase_terminal:
  assumes "terminal_has_phase tab p test s" "terminal_of tab s = Some x"
  shows "is_ssh x" "profile_id x = Some p" "test (tt_phase x)"
  using assms by (auto simp: terminal_has_phase_def tab_ssh_profile_def ssh_phase_of_def ssh_route_def is_ssh_def
      profile_id_def split: backend.splits option.splits if_splits)

lemma start_worker_cases:
  "start_session_worker a w tab profile source target s = (s, r) \<and> (\<exists>e. r = Inl e) \<or>
   (\<exists>x launched. terminal_of tab s = Some x \<and> tt_worker x = None \<and> is_ssh x \<and>
      start_session_worker a w tab profile source target s =
        (update_terminal tab (with_ssh_worker a w launched) s, Inr launched))"
  if "r = snd (start_session_worker a w tab profile source target s)"
  using that by (auto simp: start_session_worker_def Let_def split: option.splits)

lemma inv_start [starts]:
  assumes "conn_inv U s" "a \<notin> U"
  shows "conn_inv (insert a U) (fst (start_session_worker a w tab profile source target s))"
proof -
  consider "fst (start_session_worker a w tab profile source target s) = s"
    | x launched where "terminal_of tab s = Some x" "tt_worker x = None" "is_ssh x"
      "fst (start_session_worker a w tab profile source target s) = update_terminal tab (with_ssh_worker a w launched) s"
    using start_worker_cases [OF refl, of a w tab profile source target s] by fastforce
  then show ?thesis
  proof cases
    case 2
    show ?thesis
      unfolding 2(4) by (rule conn_inv_fresh [OF assms]) (use 2 keeps_start in auto)
  qed (use assms inv_insert in auto)
qed

lemma inv_start_or [starts]:
  assumes "conn_inv U s" "a \<notin> U"
  shows "conn_inv (insert a U) (fst (start_or_prompt a w tab profile target secret m s))"
    "conn_inv (insert a U) (fst (start_stored a w tab profile target secret s))"
  using inv_start [OF assms]
  by (simp_all add: start_or_prompt_def start_stored_def case_prod_beta inv_ops split: sum.split)

lemma inv_begin_authentication [starts]:
  assumes "conn_inv U s" "a \<notin> U"
  shows "conn_inv (insert a U) (fst (begin_authentication a w tab profile target s))"
  using assms
  by (simp add: begin_authentication_def case_prod_beta inv_ops starts inv_insert
      split: option.split auth_method.split credential_storage.split)

lemma inv_lookups [starts]:
  assumes "conn_inv U s" "a \<notin> U"
  shows "conn_inv (insert a U) (fst (finish_secret_lookup saved m1 m2 a w tab profile target res s))"
    "conn_inv (insert a U) (fst (finish_unlock_lookup saved d a w tab profile target unlock res s))"
  using assms
  by (simp_all add: finish_secret_lookup_def finish_unlock_lookup_def Let_def case_prod_beta inv_ops starts inv_insert
      split: lookup.split sum.split bool.split)

lemma inv_lookups2 [starts]:
  assumes "conn_inv U s" "a \<notin> U"
  shows "conn_inv (insert a U) (fst (finish_keyring_lookup saved a w tab profile target res s))"
    "conn_inv (insert a U) (fst (finish_vault_lookup saved a w tab profile target res s))"
  using assms by (simp_all add: finish_keyring_lookup_def finish_vault_lookup_def starts inv_insert)

lemma inv_submit [starts]:
  assumes "conn_inv U s" "a \<notin> U"
  shows "conn_inv (insert a U) (fst (submit_authentication a w password vault s))"
  using assms
  by (auto simp: submit_authentication_def case_prod_beta inv_ops starts inv_insert split: option.split sum.split bool.split)

lemma inv_probed [starts]:
  assumes "conn_inv U s" "a \<notin> U"
  shows "conn_inv (insert a U) (fst (host_key_probed a w tab profile target purpose result s))"
proof (cases "terminal_of tab s")
  case (Some t)
  have "conn_inv U (update_terminal tab (\<lambda>_. fst (finish_host_key_probe tab profile target result t)) s)"
    using assms(1) by (rule conn_inv_keep) (simp add: Some keeps_probe)
  then show ?thesis
    using assms(2) by (simp add: host_key_probed_def Some Let_def case_prod_beta inv_ops starts inv_insert
        split: option.split sum.split bool.split)
qed (use assms in \<open>simp add: host_key_probed_def inv_insert\<close>)

lemma inv_telnet [starts]:
  assumes "conn_inv U s" "a \<notin> U"
  shows "conn_inv (insert a U) (fst (start_telnet_connection a w tab profile s))"
  using assms
  by (auto simp: start_telnet_connection_def inv_insert keeps_start_telnet intro!: conn_inv_fresh
      split: option.split sum.split)

lemma inv_serial [starts]:
  assumes "conn_inv U s" "a \<notin> U"
  shows "conn_inv (insert a U) (fst (start_serial_connection a tab profile s))"
  using assms
  by (auto simp: start_serial_connection_def inv_insert keeps_start_serial intro!: conn_inv_fresh
      split: option.split sum.split)

lemma inv_serial_found [inv_ops]: "conn_inv U s \<Longrightarrow> conn_inv U (fst (serial_ports_found w tab profile a scan s))"
  by (auto simp: serial_ports_found_def Let_def inv_ops keeps_serial_worker intro!: conn_inv_keep
      split: port_scan.split sum.split option.split)

lemma inv_reconnect_ssh [starts]:
  assumes "conn_inv U s" "a \<notin> U"
  shows "conn_inv (insert a U) (fst (reconnect_ssh a w tab profile target s))"
proof -
  have "conn_inv U (update_terminal tab (\<lambda>t. set_phase (AwaitingAuthentication b)
      ((fst (finish_reconnect_attempt (tt_generation t) t))\<lparr>tt_status := m\<rparr>)) s)" for b m
    using assms(1) by (rule conn_inv_keep) (simp add: keeps keeps_phase keeps_finish_reconnect)
  then show ?thesis
    using assms by (simp add: reconnect_ssh_def case_prod_beta inv_ops starts inv_insert split: option.split bool.split)
qed

lemma inv_woken [starts]:
  assumes "conn_inv U s" "a \<notin> U"
  shows "conn_inv (insert a U) (fst (reconnect_woken a w tab p g protocol target s))"
  using assms
  by (simp add: reconnect_woken_def Let_def case_prod_beta inv_ops starts inv_insert
      split: option.split sum.split bool.split reconnect_protocol.split)

section \<open>Host keys, SSH events, local shells\<close>

lemma inv_commit_pin [inv_ops]: "conn_inv U s \<Longrightarrow> conn_inv U (fst (commit_pin pending ex k store trusted s))"
  by (simp add: commit_pin_def Let_def inv_ops split: option.split)

lemma inv_key_removed [inv_ops]: "conn_inv U s \<Longrightarrow> conn_inv U (revoked_key_removed pending found s)"
  by (auto simp: revoked_key_removed_def keeps keeps_phase intro!: conn_inv_keep)

lemma route_profile: "(case ssh_route t of None \<Rightarrow> False | Some (p, _) \<Rightarrow> p = q) \<Longrightarrow> profile_id t = Some q"
  by (auto simp: ssh_route_def profile_id_def split: backend.splits option.splits)

lemma prompted_terminal:
  assumes "prompted_host_key s = Some pending"
  obtains t where "terminal_of (hk_tab pending) s = Some t" "profile_id t = Some (hk_profile pending)"
    "ssh_phase_of t = Some (AwaitingHostKey pending)" "as_active s = Some (hk_tab pending)"
proof -
  obtain tab t where t: "as_active s = Some tab" "terminal_of tab s = Some t"
    "(case ssh_phase_of t of
       Some (AwaitingHostKey prompt) \<Rightarrow>
         if hk_tab prompt = tab \<and> (case ssh_route t of None \<Rightarrow> False | Some (p, _) \<Rightarrow> p = hk_profile prompt)
         then Some prompt else None
     | _ \<Rightarrow> None) = Some pending"
    using assms unfolding prompted_host_key_def bind_eq_Some_conv by blast
  then have "ssh_phase_of t = Some (AwaitingHostKey pending) \<and> hk_tab pending = tab \<and>
      (case ssh_route t of None \<Rightarrow> False | Some (p, _) \<Rightarrow> p = hk_profile pending)"
    by (cases "ssh_phase_of t") (auto split: ssh_phase.splits if_splits)
  then show thesis using that t route_profile by blast
qed

lemma inv_request_confirmation [inv_ops]:
  assumes "conn_inv U s"
  shows "conn_inv U (fst (request_host_key_confirmation k s))"
proof (cases "prompted_host_key s")
  case (Some pending)
  obtain t where t: "terminal_of (hk_tab pending) s = Some t" "profile_id t = Some (hk_profile pending)"
    using prompted_terminal [OF Some] .
  have "conn_inv U (update_terminal (hk_tab pending) (\<lambda>t. (set_phase (ConfirmingHostKey pending) t)\<lparr>tt_status := m\<rparr>)
      (begin_profile_mutation k (hk_profile pending) s))" for m
    by (rule conn_inv_keep)
      (use assms t in \<open>simp_all add: keeps begin_profile_mutation_def phase_fits_def keeps_phase\<close>)
  then show ?thesis
    using assms by (simp add: request_host_key_confirmation_def Some split: option.split)
qed (use assms in \<open>simp add: request_host_key_confirmation_def\<close>)

lemma inv_confirmed [starts]:
  assumes "conn_inv U s" "a \<notin> U"
    and "\<And>x. terminal_of (hk_tab pending) s = Some x \<Longrightarrow> profile_id x = Some (hk_profile pending)"
  shows "conn_inv (insert a U) (fst (host_key_confirmed a w pending k result s))"
proof -
  let ?s1 = "finish_profile_mutation (hk_profile pending) k s"
  have same: "terminal_of i ?s1 = terminal_of i s" for i by (simp add: finish_profile_mutation_def)
  have "conn_inv U (update_terminal (hk_tab pending) (set_phase (AwaitingHostKey pending)) ?s1)"
    by (rule inv_phase) (use assms in \<open>auto simp: same inv_ops phase_fits_def\<close>)
  then have reopened: "conn_inv U (case Option.bind (terminal_of (hk_tab pending) ?s1) ssh_phase_of of
      Some (ConfirmingHostKey _) \<Rightarrow> update_terminal (hk_tab pending) (set_phase (AwaitingHostKey pending)) ?s1
    | _ \<Rightarrow> ?s1)"
    using inv_mutations(2) [OF assms(1)] by (simp split: option.split ssh_phase.split)
  show ?thesis
  proof (cases result)
    case (Inl e)
    show ?thesis
      unfolding host_key_confirmed_def Inl sum.case Let_def fst_conv by (intro inv_insert inv_status reopened)
  next
    case (Inr r)
    then show ?thesis
      using inv_begin_authentication [OF assms(1,2)] inv_insert [OF assms(1)]
      by (cases r) (simp_all add: host_key_confirmed_def case_prod_beta)
  qed
qed

lemma inv_mutate_attempt:
  assumes "conn_inv U s"
    and "\<And>x. conn_ok tab x \<Longrightarrow> attempt_of x = Some a \<Longrightarrow> conn_ok tab (f x) \<and> attempt_of (f x) = attempt_of x"
  shows "conn_inv U (fst (mutate_terminal_attempt tab p a f s))"
proof (cases "matches_attempt tab p a s")
  case True
  then show ?thesis
    unfolding mutate_terminal_attempt_def
    by (simp, intro conn_inv_keep [OF assms(1)]) (simp add: assms(2) matches_ssh [OF True])
qed (use assms in \<open>simp add: mutate_terminal_attempt_def\<close>)

lemma inv_retire_reconnect [inv_ops]: "conn_inv U s \<Longrightarrow> conn_inv U (fst (retire_and_reconnect edits0 tab p a s))"
  by (simp add: retire_and_reconnect_def case_prod_beta inv_ops split: bool.split)

lemma inv_authentication_failed [inv_ops]:
  "conn_inv U s \<Longrightarrow> conn_inv U (fst (authentication_failed edits0 tab profile a c used s))"
  by (simp add: authentication_failed_def Let_def case_prod_beta inv_ops split: bool.split)

lemma inv_rejected [inv_ops]:
  assumes "conn_inv U s"
  shows "conn_inv U (fst (stored_credential_rejected saved deleted tab profile c s))"
proof -
  have fin: "conn_inv U (case finish_stored_credential_retry tab q s1 of
      (s2, False) \<Rightarrow> s2 | (s2, True) \<Rightarrow> set_tab_status tab m s2)" if "conn_inv U s1" for s1 q m
    using that by (simp add: case_prod_beta inv_ops split: bool.split)
  show ?thesis
    using assms unfolding stored_credential_rejected_def Let_def
    by (simp add: case_prod_beta inv_ops fin [unfolded case_prod_beta] split: sum.split bool.split)
qed

lemma inv_ssh_event [inv_ops]:
  assumes "conn_inv U s"
  shows "conn_inv U (fst (on_ssh_event edits0 tab profile a c used e s))"
proof -
  have mutate: "conn_inv U (fst (mutate_terminal_attempt tab (sp_id profile) a (ssh_connected profile) s))"
    "conn_inv U (fst (mutate_terminal_attempt tab (sp_id profile) a (\<lambda>t. t\<lparr>tt_latency := f (tt_latency t)\<rparr>) s))"
    "conn_inv U (fst (mutate_terminal_attempt tab (sp_id profile) a (\<lambda>t. t\<lparr>tt_status := m\<rparr>) s))" for f m
    by (rule inv_mutate_attempt [OF assms]; simp add: keeps keeps_ssh_connected)+
  show ?thesis
    using assms unfolding on_ssh_event_def Let_def
    by (cases e) (simp_all add: mutate case_prod_beta inv_ops split: bool.split)
qed

lemma inv_local [inv_ops]:
  "conn_inv U s \<Longrightarrow> conn_inv U (local_shell_started tab shell s)"
  "conn_inv U s \<Longrightarrow> conn_inv U (fst (finish_local_terminal tab m s))"
  by (auto simp: local_shell_started_def mutate_local_terminal_def finish_local_terminal_def Let_def
      keeps_local_connected keeps_local_end intro!: conn_inv_keep split: option.split)

lemma inv_resume_local:
  assumes "conn_inv U s" "\<And>x. terminal_of tab s = Some x \<Longrightarrow> is_local x"
  shows "conn_inv U (fst (resume_existing_local_shell w tab s))"
  using assms by (auto simp: resume_existing_local_shell_def keeps_local_start intro!: conn_inv_keep split: option.split)

lemma inv_clipboard [inv_ops]:
  "conn_inv U s \<Longrightarrow> conn_inv U (update_terminal tab (\<lambda>t. fst (offer_clipboard_read fm t)) s)"
  "conn_inv U s \<Longrightarrow> conn_inv U (update_terminal tab (\<lambda>t. fst (take_pending_clipboard_read t)) s)"
  "conn_inv U s \<Longrightarrow> conn_inv U (update_terminal tab (\<lambda>t. fst (clear_clipboard_read k g t)) s)"
  "conn_inv U s \<Longrightarrow> conn_inv U (update_terminal tab (\<lambda>t. fst (clear_pending_clipboard_read t)) s)"
  by (rule conn_inv_keep; simp add: keeps_offer keeps_clipboard)+

section \<open>Requests\<close>

lemma inv_start_or_report [inv_ops]:
  "conn_inv U (fst r) \<Longrightarrow> conn_inv U (fst (start_direct_or_report tab m r))"
  by (simp add: start_direct_or_report_def case_prod_beta inv_ops split: sum.split)

lemma inv_start_probe:
  assumes "conn_inv U s" "\<And>x. terminal_of tab s = Some x \<Longrightarrow> profile_id x = Some p"
  shows "conn_inv U (start_probe k tab p s)"
  unfolding start_probe_def by (rule inv_phase) (use assms in \<open>auto simp: phase_fits_def\<close>)

lemma inv_spawn_probe [inv_ops]: "conn_inv U s \<Longrightarrow> conn_inv U (fst (spawn_host_key_probe k tab profile pp s))"
  by (simp add: spawn_host_key_probe_def Let_def inv_ops)

lemma profile_of_id: "profile_of p s = Some q \<Longrightarrow> sp_id q = p"
  by (auto simp: profile_of_def dest: find_SomeD)

lemma inv_resume [starts]:
  assumes "conn_inv U s" "a \<notin> U" "\<And>x. terminal_of tab s = Some x \<Longrightarrow> profile_id x = Some p"
  shows "conn_inv (insert a U) (fst (resume_existing_connection k a w tab p target s))"
proof (cases "profile_of p s")
  case (Some profile)
  have auth: "conn_inv U (update_terminal tab (\<lambda>t. (set_phase (AwaitingAuthentication False) t)\<lparr>tt_status := m\<rparr>) s)" for m
    using assms(1) by (rule conn_inv_keep) (simp add: keeps keeps_phase)
  have probe: "conn_inv U (start_probe k tab (sp_id profile) s)"
    using inv_start_probe [OF assms(1), of tab] assms(3) profile_of_id [OF Some] by simp
  show ?thesis
    using assms(1,2) auth probe
    by (simp add: resume_existing_connection_def Some probe_existing_connection_def inv_ops starts inv_insert
        split: connection_profile.split)
qed (use assms in \<open>simp add: resume_existing_connection_def inv_insert\<close>)

lemma inv_retry [starts]:
  assumes "conn_inv U s" "a \<notin> U"
  shows "conn_inv (insert a U) (fst (retry_terminal_notice_tab owned k a w tab s))"
proof (cases "terminal_of tab s")
  case (Some t)
  let ?s1 = "update_terminal tab prepare_manual_retry s"
  have inv: "conn_inv U ?s1" using assms(1) by (rule conn_inv_keep) (simp add: keeps_manual_retry)
  have t1: "terminal_of tab ?s1 = Some (prepare_manual_retry t)" by (simp add: Some)
  have prof: "profile_id (prepare_manual_retry t) = profile_id t" by (simp add: profile_id_def step_defs)
  have local: "conn_inv (insert a U) (fst (resume_existing_local_shell w tab ?s1))" if "is_local t"
    by (rule inv_insert, rule inv_resume_local [OF inv]) (use that in \<open>auto simp: Some keeps_manual_retry\<close>)
  have resume: "conn_inv (insert a U) (fst (resume_existing_connection k a w tab p target ?s1))"
    if "profile_id t = Some p" for p target
    by (rule inv_resume [OF inv assms(2)]) (use that prof in \<open>auto simp: Some\<close>)
  show ?thesis
    using assms(1) inv local resume
    by (auto simp: retry_terminal_notice_tab_def Some Let_def case_prod_beta inv_ops inv_insert
        split: option.split sum.split)
qed (use assms in \<open>simp add: retry_terminal_notice_tab_def inv_insert\<close>)

text \<open>A new tab.\<close>

lemma conn_inv_add:
  assumes "conn_inv U s" "terminals s' \<subseteq> insert (i, x) (terminals s)" "conn_ok i x" "attempt_of x = None"
  shows "conn_inv U s'"
proof (rule conn_invI)
  fix j y assume "(j, y) \<in> terminals s'"
  then show "conn_ok j y" using assms(2,3) conn_invD(1) [OF assms(1)] by blast
next
  fix j y b assume "(j, y) \<in> terminals s'" "attempt_of y = Some b"
  then show "b \<in> U" using assms(2,4) conn_invD(2) [OF assms(1)] by auto
next
  fix j y k z b assume "(j, y) \<in> terminals s'" "(k, z) \<in> terminals s'" "attempt_of y = Some b" "attempt_of z = Some b"
  then have "(j, y) \<in> terminals s" "(k, z) \<in> terminals s" "attempt_of y = Some b" "attempt_of z = Some b"
    using assms(2,4) by auto
  then show "j = k" by (rule conn_invD(3) [OF assms(1)])
qed

lemma opened_terminal_ok:
  assumes "\<And>p a. b \<noteq> SshBackend p (Some a) \<and> b \<noteq> SftpBackend p (Some a) \<and> b \<noteq> TelnetBackend p (Some a) \<and>
      b \<noteq> SerialBackend p (Some a)"
    and "b = LocalBackend \<longleftrightarrow> running" "b = LocalBackend \<longleftrightarrow> \<not> enabled"
  shows "conn_ok i (new_terminal_state b term st running enabled browser initial)"
    "attempt_of (new_terminal_state b term st running enabled browser initial) = None"
  using assms
  by (auto simp: conn_ok_def tab_parts new_terminal_state_def split: backend.splits option.splits)
    (metis option.exhaust)+

lemma terminals_kept:
  assumes "\<And>t. at_id (f t) = at_id t \<and> at_kind (f t) = at_kind t"
  shows "terminals (update_tab c f s) = terminals s"
proof -
  have "map (\<lambda>t. (at_id t, at_kind t)) (update_first P f ts) = map (\<lambda>t. (at_id t, at_kind t)) ts" for P ts
    using assms by (induction ts) auto
  then have m: "(\<lambda>t. (at_id t, at_kind t)) ` set (update_first P f ts) = (\<lambda>t. (at_id t, at_kind t)) ` set ts" for P ts
    by (metis list.set_map)
  have t: "terminals s = {(i, x). \<exists>k. (i, k) \<in> (\<lambda>t. (at_id t, at_kind t)) ` set (as_tabs s) \<and> kind_terminal k = Some x}"
    for s :: "'a app_state" by (auto simp: terminals_def)
  show ?thesis unfolding t by (simp add: update_tab_def m)
qed

lemma terminals_unlink [simp]: "terminals (unlink_companion i s) = terminals s"
  by (simp add: unlink_companion_def Let_def terminals_kept split: option.split)

lemma terminals_link [simp]: "terminals (link_companions a b s) = terminals s"
  by (simp add: link_companions_def Let_def terminals_kept)

lemma terminals_insert:
  "terminals (fst (insert_connection_tab t p target companion s)) \<subseteq>
     (case kind_terminal (at_kind t) of None \<Rightarrow> {} | Some x \<Rightarrow> {(at_id t, x)}) \<union> terminals s"
proof -
  have "terminals (s\<lparr>as_tabs := insert_at k t (as_tabs s)\<rparr>) \<subseteq>
      (case kind_terminal (at_kind t) of None \<Rightarrow> {} | Some x \<Rightarrow> {(at_id t, x)}) \<union> terminals s" for k
    by (auto simp: terminals_def)
  moreover have "terminals ((case c of None \<Rightarrow> S | Some c \<Rightarrow> link_companions i c S)\<lparr>as_active := act\<rparr>) = terminals S"
    for c i act and S :: "'a app_state" by (cases c) simp_all
  ultimately show ?thesis
    unfolding insert_connection_tab_def Let_def fst_conv by simp
qed

lemma terminals_open:
  "terminals (fst (open_terminal_tab_with_companion edits0 i profile companion s)) \<subseteq>
     insert (i, new_terminal_state (terminal_backend (sp_id profile) (sp_connection profile))
       (Some (se_osc52 (ss_settings (as_sessions s)))) ''Preparing connection...'' False True
       (sftp_browser_default edits0) None) (terminals s)"
  "terminals (fst (open_sftp_tab_with_companion_at_path edits0 home_dir i profile companion initial s)) \<subseteq>
     insert (i, new_terminal_state (SftpBackend (sp_id profile) None) None ''Preparing SFTP connection...'' False True
       (for_standalone_tab edits0 home_dir (case profile_ssh profile of None \<Rightarrow> [] | Some c \<Rightarrow> sc_local_path c)) initial)
       (terminals s)"
  "terminals (fst (open_local_shell_tab edits0 i s)) \<subseteq>
     insert (i, new_terminal_state LocalBackend (Some (se_osc52 (ss_settings (as_sessions s))))
       ''Starting local shell...'' True False (sftp_browser_default edits0) None) (terminals s)"
proof -
  have n: "terminals (s\<lparr>as_numbers := m\<rparr>) = terminals s" for m :: "(uuid, nat) mapping" by (simp add: terminals_def)
  show "terminals (fst (open_terminal_tab_with_companion edits0 i profile companion s)) \<subseteq>
     insert (i, new_terminal_state (terminal_backend (sp_id profile) (sp_connection profile))
       (Some (se_osc52 (ss_settings (as_sessions s)))) ''Preparing connection...'' False True
       (sftp_browser_default edits0) None) (terminals s)"
    unfolding open_terminal_tab_with_companion_def Let_def
    by (rule order.trans [OF terminals_insert]) (simp add: new_tab_def n)
  show "terminals (fst (open_sftp_tab_with_companion_at_path edits0 home_dir i profile companion initial s)) \<subseteq>
     insert (i, new_terminal_state (SftpBackend (sp_id profile) None) None ''Preparing SFTP connection...'' False True
       (for_standalone_tab edits0 home_dir (case profile_ssh profile of None \<Rightarrow> [] | Some c \<Rightarrow> sc_local_path c)) initial)
       (terminals s)"
    unfolding open_sftp_tab_with_companion_at_path_def Let_def
    by (rule order.trans [OF terminals_insert]) (simp add: new_tab_def)
  show "terminals (fst (open_local_shell_tab edits0 i s)) \<subseteq>
     insert (i, new_terminal_state LocalBackend (Some (se_osc52 (ss_settings (as_sessions s))))
       ''Starting local shell...'' True False (sftp_browser_default edits0) None) (terminals s)"
    by (auto simp: open_local_shell_tab_def Let_def terminals_def push_tab_def new_tab_def)
qed

end
