(* ===== verification/Attempt_Steps.thy ===== *)
theory Attempt_Steps
  imports Attempt_Facts
begin

text \<open>
  The step relation of connections: any task doing its next piece of work, in any order. That the steps
  keep the invariant of the tabs follows from a simpler fact: but for opening and closing tabs, they leave
  the \<open>skeleton\<close> of the tab list as it is.
\<close>

section \<open>The skeleton of the tab list\<close>

definition skeleton :: "'x app_state \<Rightarrow> (uuid \<times> uuid option \<times> bool \<times> bool) list \<times> uuid option" where
  "skeleton s = (map (\<lambda>t. (at_id t, at_companion t, is_settings t, is_editor t)) (as_tabs s), as_active s)"

lemma tabs_ok_skeleton:
  fixes s s' :: "'x app_state"
  assumes "skeleton s' = skeleton s" "tabs_ok s"
  shows "tabs_ok s'"
proof -
  have m: "map (\<lambda>t. (at_id t, at_companion t, is_settings t, is_editor t)) (as_tabs s') =
      map (\<lambda>t. (at_id t, at_companion t, is_settings t, is_editor t)) (as_tabs s)" (is "map ?f _ = _")
    and act: "as_active s' = as_active s"
    using assms(1) by (simp_all add: skeleton_def)
  have proj: "map at_id (as_tabs s') = map at_id (as_tabs s)" "map is_settings (as_tabs s') = map is_settings (as_tabs s)"
    "map is_editor (as_tabs s') = map is_editor (as_tabs s)"
    using arg_cong [OF m, of "map (\<lambda>(a, _). a)"] arg_cong [OF m, of "map (\<lambda>(_, _, c, _). c)"]
      arg_cong [OF m, of "map (\<lambda>(_, _, _, d). d)"] by (simp_all add: o_def)
  have "map (\<lambda>x. (at_id x, at_companion x)) (as_tabs s') = map (\<lambda>x. (at_id x, at_companion x)) (as_tabs s)"
    using arg_cong [OF m, of "map (\<lambda>(a, b, _). (a, b))"] by (simp add: o_def)
  then have key: "(\<lambda>x. (at_id x, at_companion x)) ` set (as_tabs s') = (\<lambda>x. (at_id x, at_companion x)) ` set (as_tabs s)"
    by (metis list.set_map)
  have co: "companions_ok A \<longleftrightarrow> (\<forall>(i, m) \<in> (\<lambda>x. (at_id x, at_companion x)) ` A. \<forall>c. m = Some c \<longrightarrow>
      c \<noteq> i \<and> (c, Some i) \<in> (\<lambda>x. (at_id x, at_companion x)) ` A)" for A :: "'x app_tab set"
    unfolding companions_ok_def by (simp add: image_iff) metis
  have "companions_ok (set (as_tabs s'))"
    using assms(2) unfolding co key by (simp add: tabs_ok_def tab_list_ok_def co)
  then show ?thesis
    unfolding tabs_ok_def act
    by (rule tab_list_ok_shape [OF assms(2) [unfolded tabs_ok_def], rotated 3])
      (simp_all add: proj)
qed

named_theorems skel \<open>operations that leave the skeleton of the tab list as it is\<close>

lemma skel_update [skel]: "skeleton (update_terminal i f s) = skeleton s"
  unfolding skeleton_def update_terminal_def
  by (simp, rule update_first_cong) (auto simp: is_settings_def is_editor_def split: tab_kind.splits)

lemma skel_other [skel]:
  "skeleton (s\<lparr>as_sessions := x\<rparr>) = skeleton s" "skeleton (s\<lparr>as_mutations := m\<rparr>) = skeleton s"
  "skeleton (s\<lparr>as_serial_ports := ports\<rparr>) = skeleton s"
  by (simp_all add: skeleton_def)

lemma skel_basic [skel]:
  "skeleton (set_tab_status tab m s) = skeleton s" "skeleton (with_sessions x s) = skeleton s"
  "skeleton (begin_profile_mutation k p s) = skeleton s" "skeleton (finish_profile_mutation p k s) = skeleton s"
  "skeleton (start_probe k tab p s) = skeleton s"
  by (simp_all add: set_tab_status_def with_sessions_def begin_profile_mutation_def finish_profile_mutation_def
      start_probe_def skel)

lemma skel_phases [skel]:
  "skeleton (fst (set_loading_stored_credential tab p s)) = skeleton s"
  "skeleton (fst (set_awaiting_authentication tab p b s)) = skeleton s"
  "skeleton (fst (finish_stored_credential_retry tab p s)) = skeleton s"
  "skeleton (fst (prepare_retry_with_phase tab p a ph s)) = skeleton s"
  "skeleton (fst (retire_session_attempt edits0 tab p a s)) = skeleton s"
  "skeleton (fst (set_credential_storage_while_loading saved tab p st ex s)) = skeleton s"
  "skeleton (fst (schedule_tab_reconnect tab s)) = skeleton s"
  "skeleton (fst (clear_tab_reconnect tab g m s)) = skeleton s"
  "skeleton (fst (set_ssh_reconnect_phase tab p s)) = skeleton s"
  "skeleton (fst (take_one_time_password tab p s)) = skeleton s"
  "skeleton (fst (start_session_worker a w tab profile source target s)) = skeleton s"
  "skeleton (fst (finish_direct_attempt tab p a protocol m s)) = skeleton s"
  "skeleton (fst (mutate_direct_attempt tab p a protocol f s)) = skeleton s"
  "skeleton (fst (mutate_terminal_attempt tab p a f s)) = skeleton s"
  "skeleton (fst (begin_checked_mutation k p ex s)) = skeleton s"
  "skeleton (fst (commit_profile_save saved q ex k s)) = skeleton s"
  "skeleton (fst (commit_profile_credential_storage saved q st2 gen k s)) = skeleton s"
  by (simp_all add: set_loading_stored_credential_def set_awaiting_authentication_def finish_stored_credential_retry_def
      prepare_retry_with_phase_def retire_session_attempt_def set_credential_storage_while_loading_def
      schedule_tab_reconnect_def clear_tab_reconnect_def set_ssh_reconnect_phase_def take_one_time_password_def
      start_session_worker_def finish_direct_attempt_def mutate_direct_attempt_def mutate_terminal_attempt_def
      begin_checked_mutation_def commit_profile_save_def commit_profile_credential_storage_def skel Let_def
      split: option.split)

lemma skel_retries [skel]:
  "skeleton (fst (prepare_authentication_retry tab p a s)) = skeleton s"
  "skeleton (fst (prepare_stored_credential_retry tab p a s)) = skeleton s"
  "skeleton (fst (prepare_host_key_retry tab p a prompt s)) = skeleton s"
  "skeleton (ask_for_password tab p b m s) = skeleton s" "skeleton (ask_again tab p m s) = skeleton s"
  "skeleton (fst (begin_lookup tab p m l s)) = skeleton s"
  "skeleton (fst (start_or_prompt a w tab profile target secret m s)) = skeleton s"
  "skeleton (fst (start_stored a w tab profile target secret s)) = skeleton s"
  "skeleton (clear_missing_auto_vault_credential saved d tab profile s) = skeleton s"
  by (simp_all add: prepare_authentication_retry_def prepare_stored_credential_retry_def host_key_retry_phase
      ask_for_password_def ask_again_def begin_lookup_def start_or_prompt_def start_stored_def
      clear_missing_auto_vault_credential_def case_prod_beta skel split: bool.split sum.split)

lemma skel_begin [skel]: "skeleton (fst (begin_authentication a w tab profile target s)) = skeleton s"
  by (simp add: begin_authentication_def case_prod_beta skel
      split: option.split auth_method.split credential_storage.split)

lemma skel_lookups [skel]:
  "skeleton (fst (finish_secret_lookup saved m1 m2 a w tab profile target res s)) = skeleton s"
  "skeleton (fst (finish_unlock_lookup saved d a w tab profile target unlock res s)) = skeleton s"
  by (simp_all add: finish_secret_lookup_def finish_unlock_lookup_def Let_def case_prod_beta skel
      split: lookup.split sum.split bool.split)

lemma skel_user [skel]:
  "skeleton (fst (finish_keyring_lookup saved a w tab profile target res s)) = skeleton s"
  "skeleton (fst (finish_vault_lookup saved a w tab profile target res s)) = skeleton s"
  "skeleton (fst (submit_authentication a w password vault s)) = skeleton s"
  "skeleton (cancel_authentication s) = skeleton s" "skeleton (reject_host_key s) = skeleton s"
  "skeleton (fst (disconnect_session s)) = skeleton s"
  "skeleton (fst (request_host_key_confirmation k s)) = skeleton s"
  "skeleton (fst (commit_pin pending ex k store trusted s)) = skeleton s"
  "skeleton (revoked_key_removed pending found s) = skeleton s"
  by (simp_all add: finish_keyring_lookup_def finish_vault_lookup_def submit_authentication_def cancel_authentication_def
      reject_host_key_def disconnect_session_def request_host_key_confirmation_def commit_pin_def
      revoked_key_removed_def case_prod_beta Let_def skel split: option.split sum.split bool.split ssh_phase.split)

lemma skel_host_keys [skel]:
  "skeleton (fst (host_key_probed a w tab profile target purpose result s)) = skeleton s"
  "skeleton (fst (host_key_confirmed a w pending k r s)) = skeleton s"
  by (simp_all add: host_key_probed_def host_key_confirmed_def case_prod_beta Let_def skel
      split: option.split sum.split bool.split ssh_phase.split)

lemma skel_direct [skel]:
  "skeleton (fst (start_telnet_connection a w tab profile s)) = skeleton s"
  "skeleton (fst (start_serial_connection a tab profile s)) = skeleton s"
  "skeleton (fst (direct_ended tab p a protocol m s)) = skeleton s"
  "skeleton (fst (reconnect_ssh a w tab profile target s)) = skeleton s"
  by (simp_all add: start_telnet_connection_def start_serial_connection_def direct_ended_def reconnect_ssh_def
      case_prod_beta skel split: option.split sum.split bool.split)

lemma skel_events [skel]:
  "skeleton (fst (on_direct_event tab profile a protocol e s)) = skeleton s"
  "skeleton (fst (serial_ports_found w tab profile a scan s)) = skeleton s"
  "skeleton (fst (reconnect_woken a w tab p g rp target s)) = skeleton s"
  "skeleton (fst (authentication_failed edits0 tab profile a c used s)) = skeleton s"
  "skeleton (fst (retire_and_reconnect edits0 tab p a s)) = skeleton s"
  by (simp_all add: on_direct_event_def serial_ports_found_def reconnect_woken_def authentication_failed_def
      retire_and_reconnect_def Let_def case_prod_beta skel
      split: direct_session_event.split port_scan.split option.split sum.split bool.split reconnect_protocol.split)

lemma skel_ssh [skel]:
  "skeleton (fst (on_ssh_event edits0 tab profile a c used e s)) = skeleton s"
  "skeleton (fst (stored_credential_rejected saved deleted tab profile c s)) = skeleton s"
  unfolding on_ssh_event_def stored_credential_rejected_def Let_def
  by (simp_all add: case_prod_beta skel split: ssh_session_event.split bool.split sum.split)

lemma skel_local [skel]:
  "skeleton (local_shell_started tab shell s) = skeleton s"
  "skeleton (fst (finish_local_terminal tab m s)) = skeleton s"
  "skeleton (fst (resume_existing_local_shell w tab s)) = skeleton s"
  by (simp_all add: local_shell_started_def mutate_local_terminal_def finish_local_terminal_def
      resume_existing_local_shell_def skel split: option.split)

lemma skel_resume [skel]:
  "skeleton (fst (start_direct_or_report tab m r)) = skeleton (fst r)"
  "skeleton (fst (spawn_host_key_probe k tab profile purpose s)) = skeleton s"
  by (simp_all add: start_direct_or_report_def spawn_host_key_probe_def Let_def case_prod_beta skel split: sum.split)

lemma skel_resume2 [skel]: "skeleton (fst (resume_existing_connection k a w tab p target s)) = skeleton s"
  by (simp add: resume_existing_connection_def probe_existing_connection_def skel
      split: option.split connection_profile.split)

lemma skel_retry [skel]: "skeleton (fst (retry_terminal_notice_tab owned k a w tab s)) = skeleton s"
  by (simp add: retry_terminal_notice_tab_def Let_def case_prod_beta skel split: option.split sum.split)

section \<open>Opening and closing tabs\<close>

lemma terminals_close:
  assumes "tabs_ok s"
  shows "terminals (fst (close_tab i s)) \<subseteq> terminals s"
proof (cases "position (\<lambda>t. at_id t = i) (as_tabs s)")
  case None
  then have "fst (close_tab i s) = s" by (simp only: close_tab_def option.case fst_conv)
  then show ?thesis by simp
next
  case (Some k)
  obtain xs t ys where t: "as_tabs s = xs @ t # ys" "at_id t = i" using position_split [OF Some] by blast
  have "as_tabs (fst (close_tab i s)) = map (freed i) (xs @ ys)"
    using close_tab_parts(1) [OF assms t(1)] unfolding t(2) .
  then show ?thesis unfolding terminals_def t(1) by (auto simp: freed_def)
qed

lemma inv_close:
  assumes "tabs_ok s" "conn_inv U s"
  shows "conn_inv U (fst (close_tab i s))" "tabs_ok (fst (close_tab i s))"
  using terminals_close [OF assms(1)] conn_inv_sub [OF assms(2)] close_tab_ok [OF assms(1)] by blast+

text \<open>Attaching a tab to a window only makes it the active one.\<close>

definition only_activates :: "(uuid \<Rightarrow> 'x app_state \<Rightarrow> 'x app_state \<times> bool) \<Rightarrow> bool" where
  "only_activates register \<longleftrightarrow>
     (\<forall>tab s. fst (register tab s) = s \<or> fst (register tab s) = s\<lparr>as_active := Some tab\<rparr>)"

lemma opened_ids:
  "snd (open_terminal_tab_with_companion edits0 i profile companion s) = i"
  "snd (open_sftp_tab_with_companion_at_path edits0 home_dir i profile companion initial s) = i"
  by (simp_all add: open_terminal_tab_with_companion_def open_sftp_tab_with_companion_at_path_def
      insert_connection_tab_def Let_def)

lemma has_tab_update [simp]: "has_tab i (update_terminal j f s) = has_tab i s"
proof -
  have "map at_id (update_first P g ts) = map at_id ts" if "\<And>t. at_id (g t) = at_id t" for P g and ts :: "'a app_tab list"
    using that by (intro update_first_cong) simp
  then have "at_id ` set (as_tabs (update_terminal j f s)) = at_id ` set (as_tabs s)"
    unfolding update_terminal_def by (simp flip: set_map)
  then show ?thesis by (auto simp: has_tab_def image_iff) (metis (no_types, lifting) image_iff)+
qed

lemma insert_has_tab: "has_tab (at_id t) (fst (insert_connection_tab t p target companion s))"
proof -
  have "has_tab i (link_companions a b s) = has_tab i s" for i a b and s :: "'a app_state"
  proof -
    have "at_id ` set (update_first P g ts) = at_id ` set ts" if "\<And>t. at_id (g t) = at_id t" for P g and ts :: "'a app_tab list"
      using update_first_cong [of P at_id g ts] that by (metis list.set_map)
    then have "has_tab i (update_tab c g s) = has_tab i s" if "\<And>t. at_id (g t) = at_id t" for c g and s :: "'a app_state"
      using that by (simp add: has_tab_def update_tab_def) (metis (no_types, lifting) image_iff)
    then show ?thesis
      by (simp add: link_companions_def unlink_companion_def Let_def split: option.split)
  qed
  then have "has_tab i ((case c of None \<Rightarrow> S | Some c \<Rightarrow> link_companions j c S)\<lparr>as_active := act\<rparr>) = has_tab i S"
    for i j c act and S :: "'a app_state" by (cases c) (simp_all add: has_tab_def)
  then show ?thesis unfolding insert_connection_tab_def Let_def fst_conv by (simp add: has_tab_def)
qed

lemma opened_has_tab:
  "has_tab i (fst (open_terminal_tab_with_companion edits0 i profile companion s))"
  "has_tab i (fst (open_sftp_tab_with_companion_at_path edits0 home_dir i profile companion initial s))"
proof -
  show "has_tab i (fst (open_terminal_tab_with_companion edits0 i profile companion s))"
    unfolding open_terminal_tab_with_companion_def Let_def
    by (rule insert_has_tab [of "new_tab i _ _", simplified])
  show "has_tab i (fst (open_sftp_tab_with_companion_at_path edits0 home_dir i profile companion initial s))"
    unfolding open_sftp_tab_with_companion_at_path_def Let_def
    by (rule insert_has_tab [of "new_tab i _ _", simplified])
qed

text \<open>The tab that a request has opened.\<close>

lemma opened_tab:
  assumes "conn_inv U s" "tabs_ok s" "i \<notin> at_id ` set (as_tabs s)"
    and s1: "s1 = fst (open_terminal_tab_with_companion edits0 i profile companion s) \<or>
      s1 = fst (open_sftp_tab_with_companion_at_path edits0 home_dir i profile companion initial s)"
  shows "conn_inv U s1" "tabs_ok s1" "has_tab i s1"
    and "terminal_of i s1 = Some x \<Longrightarrow> profile_id x = Some (sp_id profile) \<and> tt_worker x = None"
proof -
  let ?new1 = "new_terminal_state (terminal_backend (sp_id profile) (sp_connection profile))
       (Some (se_osc52 (ss_settings (as_sessions s)))) ''Preparing connection...'' False True
       (sftp_browser_default edits0) None"
  let ?new2 = "new_terminal_state (SftpBackend (sp_id profile) None) None ''Preparing SFTP connection...'' False True
       (for_standalone_tab edits0 home_dir (case profile_ssh profile of None \<Rightarrow> [] | Some c \<Rightarrow> sc_local_path c)) initial"
  obtain new where new: "terminals s1 \<subseteq> insert (i, new) (terminals s)" "new = ?new1 \<or> new = ?new2"
    using s1 terminals_open by metis
  have ok: "conn_ok i new \<and> attempt_of new = None \<and> profile_id new = Some (sp_id profile) \<and> tt_worker new = None"
  proof (cases "new = ?new2")
    case True
    then show ?thesis
      by (intro conjI) (simp_all add: opened_terminal_ok, simp_all add: new_terminal_state_def profile_id_def)
  next
    case False
    then have n: "new = ?new1" using new(2) by blast
    have b: "terminal_backend (sp_id profile) (sp_connection profile) \<noteq> LocalBackend"
      by (cases "sp_connection profile") simp_all
    show ?thesis
      unfolding n
      by (intro conjI opened_terminal_ok; cases "sp_connection profile")
        (simp_all add: new_terminal_state_def profile_id_def)
  qed
  show "conn_inv U s1" using ok by (intro conn_inv_add [OF assms(1) new(1)]) simp_all
  show "tabs_ok s1" using s1 open_tabs_ok(1,2) [OF assms(2,3)] by metis
  show "has_tab i s1" using s1 opened_has_tab by metis
  assume "terminal_of i s1 = Some x"
  then have "(i, x) \<in> insert (i, new) (terminals s)" using terminal_of_mem new(1) by blast
  moreover have "(i, x) \<notin> terminals s" using assms(3) by (auto simp: terminals_def)
  ultimately show "profile_id x = Some (sp_id profile) \<and> tt_worker x = None" using ok by auto
qed

lemma registered:
  assumes "only_activates register" "tabs_ok s" "has_tab tab s" "conn_inv U s"
  shows "conn_inv U (fst (register tab s))" "tabs_ok (fst (register tab s))"
    "terminal_of i (fst (register tab s)) = terminal_of i s"
  using assms tabs_ok_active [OF assms(2,3)] unfolding only_activates_def by (metis conn_inv_other(3) terminal_of_sessions(3))+

lemma request_keeps:
  assumes "conn_inv U s" "tabs_ok s" "a \<notin> U" "i \<notin> at_id ` set (as_tabs s)" "only_activates register"
  shows "conn_inv (insert a U) (fst (request_profile_connection edits0 home_dir i k a w p target companion initial
      password register s)) \<and>
    tabs_ok (fst (request_profile_connection edits0 home_dir i k a w p target companion initial password register s))"
proof (cases "profile_of p s")
  case None
  then show ?thesis using assms by (simp add: request_profile_connection_def inv_insert)
next
  case (Some profile)
  let ?o = "case target of
      TargetTerminal \<Rightarrow> open_terminal_tab_with_companion edits0 i profile companion s
    | TargetSftp \<Rightarrow> open_sftp_tab_with_companion_at_path edits0 home_dir i profile companion initial s"
  define s1 where "s1 = fst ?o"
  have o: "?o = (s1, i)"
    by (cases target) (simp_all add: s1_def opened_ids prod_eq_iff)
  have s1: "s1 = fst (open_terminal_tab_with_companion edits0 i profile companion s) \<or>
      s1 = fst (open_sftp_tab_with_companion_at_path edits0 home_dir i profile companion initial s)"
    by (cases target) (simp_all add: s1_def)
  note opened = opened_tab [OF assms(1,2,4) s1]
  define s2 where "s2 = (case password of
      None \<Rightarrow> s1
    | Some secret \<Rightarrow> if profile_ssh profile = None then s1
        else update_terminal i (\<lambda>t. fst (set_pending_auth_secret secret t)) s1)"
  have secret: "conn_inv U (update_terminal i (\<lambda>t. fst (set_pending_auth_secret x t)) s1)" for x
    by (rule conn_inv_keep [OF opened(1)]) (simp add: keeps_set_secret opened(4))
  have same: "profile_id (fst (set_pending_auth_secret x t)) = profile_id t" for x and t :: "'a terminal_tab"
    by (simp add: set_pending_auth_secret_def profile_id_def)
  have two: "conn_inv U s2" "tabs_ok s2" "has_tab i s2"
    "\<And>x. terminal_of i s2 = Some x \<Longrightarrow> profile_id x = Some (sp_id profile)"
    using opened secret tabs_ok_skeleton [OF skel_update opened(2)]
    by (auto simp: s2_def same split: option.splits if_splits)
  define s3 where "s3 = fst (register i s2)"
  have three: "conn_inv U s3" "tabs_ok s3" "\<And>x. terminal_of i s3 = Some x \<Longrightarrow> profile_id x = Some (sp_id profile)"
    using registered [OF assms(5) two(2,3,1)] two(4) by (simp_all add: s3_def)
  have probe: "conn_inv U (start_probe k i (sp_id profile) s3)"
    by (rule inv_start_probe [OF three(1,3)])
  have auth: "conn_inv U (update_terminal i (set_phase (AwaitingAuthentication False)) s3)"
    by (rule inv_phase_plain(2) [OF three(1)])
  show ?thesis
  proof (cases "target = TargetSftp \<and> profile_ssh profile = None")
    case True
    then show ?thesis using assms Some by (simp add: request_profile_connection_def inv_insert)
  next
    case False
    have r: "request_profile_connection edits0 home_dir i k a w p target companion initial password register s =
        (case register i s2 of
              (s3, False) \<Rightarrow> (fst (close_tab i s3), None, NoLaunch)
            | (s3, True) \<Rightarrow>
                (case sp_connection profile of
                   ConnSsh c \<Rightarrow>
                     if terminal_of i s3 = None then (s3, None, NoLaunch)
                     else if sc_fingerprint c \<noteq> None
                     then
                       let (s4, l) = begin_authentication a w i profile target
                             (update_terminal i (set_phase (AwaitingAuthentication False)) s3) in
                       (s4, Some i, l)
                     else
                       let (s4, l) = spawn_host_key_probe k i profile PurposeConnect
                             (start_probe k i (sp_id profile) s3) in
                       (s4, Some i, l)
                 | ConnTelnet _ \<Rightarrow>
                     let (s4, l) = start_direct_or_report i ''Cannot start Telnet connection: ''
                           (start_telnet_connection a w i profile s3) in
                     (s4, Some i, l)
                 | ConnSerial _ \<Rightarrow>
                     let (s4, l) = start_direct_or_report i ''Cannot start serial connection: ''
                           (start_serial_connection a i profile s3) in
                     (s4, Some i, l)))"
      unfolding request_profile_connection_def Some option.case o Let_def prod.case s2_def by (simp only: False if_False)
    obtain went where reg: "register i s2 = (s3, went)" by (simp add: s3_def prod_eq_iff)
    show ?thesis
      unfolding r reg using inv_close [OF three(2,1)] probe three(1) assms(3)
      by (auto simp: case_prod_beta inv_ops starts auth probe inv_insert skel
          intro!: tabs_ok_skeleton [OF _ three(2)] split: bool.split connection_profile.split if_split)
  qed
qed

section \<open>Steps\<close>

text \<open>
  \<open>(s, U)\<close> is the state and the attempts that were ever started; a new attempt is not among them. A task
  may do its next piece of work at any time and with any arguments, but for what it keeps itself: a prompt
  is confirmed for the tab it was shown in, and a connection is resumed for the session of its tab.
  \<open>step_tabs\<close> are the operations on tabs that add or change no terminal.
\<close>

inductive attempt_step :: "'x app_state \<times> uuid set \<Rightarrow> 'x app_state \<times> uuid set \<Rightarrow> bool" where
  step_request: "a \<notin> U \<Longrightarrow> i \<notin> at_id ` set (as_tabs s) \<Longrightarrow> only_activates register \<Longrightarrow>
    attempt_step (s, U) (fst (request_profile_connection edits0 home_dir i k a w p target companion initial password
      register s), insert a U)"
| step_resume: "a \<notin> U \<Longrightarrow> (\<And>x. terminal_of tab s = Some x \<Longrightarrow> profile_id x = Some p) \<Longrightarrow>
    attempt_step (s, U) (fst (resume_existing_connection k a w tab p target s), insert a U)"
| step_retry: "a \<notin> U \<Longrightarrow> attempt_step (s, U) (fst (retry_terminal_notice_tab owned k a w tab s), insert a U)"
| step_local: "i \<notin> at_id ` set (as_tabs s) \<Longrightarrow>
    attempt_step (s, U) (update_terminal i (\<lambda>t. t\<lparr>tt_worker := Some (LocalWorker w)\<rparr>)
      (fst (open_local_shell_tab edits0 i s)), U)"
| step_probed: "a \<notin> U \<Longrightarrow>
    attempt_step (s, U) (fst (host_key_probed a w tab profile target purpose probe s), insert a U)"
| step_request_key: "attempt_step (s, U) (fst (request_host_key_confirmation k s), U)"
| step_commit_pin: "attempt_step (s, U) (fst (commit_pin pending ex k store trusted s), U)"
| step_commit_unpin: "attempt_step (s, U) (finish_profile_mutation p k (with_sessions store s), U)"
| step_key_removed: "attempt_step (s, U) (revoked_key_removed pending found s, U)"
| step_confirmed: "a \<notin> U \<Longrightarrow>
    (\<And>x. terminal_of (hk_tab pending) s = Some x \<Longrightarrow> profile_id x = Some (hk_profile pending)) \<Longrightarrow>
    attempt_step (s, U) (fst (host_key_confirmed a w pending k r s), insert a U)"
| step_reject_key: "attempt_step (s, U) (reject_host_key s, U)"
| step_submit: "a \<notin> U \<Longrightarrow> attempt_step (s, U) (fst (submit_authentication a w password vault s), insert a U)"
| step_cancel: "attempt_step (s, U) (cancel_authentication s, U)"
| step_disconnect: "attempt_step (s, U) (fst (disconnect_session s), U)"
| step_keyring: "a \<notin> U \<Longrightarrow>
    attempt_step (s, U) (fst (finish_keyring_lookup saved a w tab profile target res s), insert a U)"
| step_vault: "a \<notin> U \<Longrightarrow>
    attempt_step (s, U) (fst (finish_vault_lookup saved a w tab profile target res s), insert a U)"
| step_unlock: "a \<notin> U \<Longrightarrow>
    attempt_step (s, U) (fst (finish_unlock_lookup saved deleted a w tab profile target unlock res s), insert a U)"
| step_woken: "a \<notin> U \<Longrightarrow> attempt_step (s, U) (fst (reconnect_woken a w tab p g rp target s), insert a U)"
| step_serial: "attempt_step (s, U) (fst (serial_ports_found w tab profile b scan s), U)"
| step_direct: "attempt_step (s, U) (fst (on_direct_event tab profile b dp de s), U)"
| step_ssh: "attempt_step (s, U) (fst (on_ssh_event edits0 tab profile b c used e s), U)"
| step_rejected: "attempt_step (s, U) (fst (stored_credential_rejected saved deleted tab profile c s), U)"
| step_local_started: "attempt_step (s, U) (local_shell_started tab shell s, U)"
| step_local_ended: "attempt_step (s, U) (fst (finish_local_terminal tab m s), U)"
| step_offer: "attempt_step (s, U) (update_terminal tab (\<lambda>t. fst (offer_clipboard_read fm t)) s, U)"
| step_take: "attempt_step (s, U) (update_terminal tab (\<lambda>t. fst (take_pending_clipboard_read t)) s, U)"
| step_clear: "attempt_step (s, U) (update_terminal tab (\<lambda>t. fst (clear_clipboard_read rk g t)) s, U)"
| step_deny: "attempt_step (s, U) (update_terminal tab (\<lambda>t. fst (clear_pending_clipboard_read t)) s, U)"
| step_begin_mutation: "attempt_step (s, U) (fst (begin_checked_mutation k p exo s), U)"
| step_save: "attempt_step (s, U) (fst (commit_profile_save saved q exo k s), U)"
| step_credential: "attempt_step (s, U) (fst (commit_profile_credential_storage saved q st gen k s), U)"
| step_tabs: "tab_op s s' \<Longrightarrow> terminals s' \<subseteq> terminals s \<Longrightarrow> attempt_step (s, U) (s', U)"

lemma local_opened:
  assumes "conn_inv U s" "tabs_ok s" "i \<notin> at_id ` set (as_tabs s)"
  shows "conn_inv U (update_terminal i (\<lambda>t. t\<lparr>tt_worker := Some (LocalWorker w)\<rparr>) (fst (open_local_shell_tab edits0 i s)))"
proof -
  let ?new = "new_terminal_state LocalBackend (Some (se_osc52 (ss_settings (as_sessions s))))
       ''Starting local shell...'' True False (sftp_browser_default edits0) None"
  let ?s1 = "fst (open_local_shell_tab edits0 i s)"
  note sub = terminals_open(3) [of edits0 i s]
  have inv: "conn_inv U ?s1"
    by (rule conn_inv_add [OF assms(1) sub]) (simp_all add: opened_terminal_ok)
  show ?thesis
  proof (rule conn_inv_keep [OF inv])
    fix x assume "terminal_of i ?s1 = Some x" and ok: "conn_ok i x"
    then have "(i, x) \<in> insert (i, ?new) (terminals s)" using terminal_of_mem sub by blast
    then have "x = ?new" using assms(3) by (auto simp: terminals_def)
    then show "conn_ok i (x\<lparr>tt_worker := Some (LocalWorker w)\<rparr>) \<and>
        (attempt_of (x\<lparr>tt_worker := Some (LocalWorker w)\<rparr>) = attempt_of x \<or> attempt_of (x\<lparr>tt_worker := Some (LocalWorker w)\<rparr>) = None)"
      using ok by (simp add: conn_ok_def tab_parts new_terminal_state_def)
  qed
qed

text \<open>Each step keeps both invariants; the attempts that occur after it occurred before or are fresh.\<close>

lemma attempt_step_ok:
  assumes "attempt_step p q" "conn_inv W (fst p)" "W \<subseteq> snd p" "tabs_ok (fst p)"
  shows "conn_inv (W \<union> (snd q - snd p)) (fst q) \<and> tabs_ok (fst q) \<and> snd p \<subseteq> snd q"
proof -
  have started: "conn_inv (W \<union> (insert a U - U)) s'" if "conn_inv (insert a W) s'" "a \<notin> U" for a U s'
    using that by (simp add: insert_Diff_if)
  from assms show ?thesis
  proof (induction rule: attempt_step.induct)
    case (step_request a U i s register edits0 home_dir k w p target companion initial password)
    then have "a \<notin> W" by auto
    then show ?case
      using request_keeps [of W s a i register edits0 home_dir k w p target companion initial password] step_request started
      by auto
  next
    case (step_local i s U w edits0)
    then show ?case
      using local_opened [of W s i w edits0] tabs_ok_skeleton [OF skel_update open_tabs_ok(3) [of s i edits0]] by simp
  next
    case (step_tabs s s' U)
    then show ?case using conn_inv_sub [of W s s'] tab_op_ok [of s s'] by simp
  qed (auto simp: inv_ops intro!: started starts intro: tabs_ok_skeleton [rotated] simp: skel)
qed

end
