(* ===== verification/Attempt_Properties.thy ===== *)
theory Attempt_Properties
  imports Attempt_Steps
begin

text \<open>The properties of connection attempts, on the facts of \<open>Attempt_Steps\<close>.\<close>

section \<open>Runs\<close>

lemma attempt_steps_ok:
  assumes "attempt_step\<^sup>*\<^sup>* p q" "conn_inv W (fst p)" "W \<subseteq> snd p" "tabs_ok (fst p)"
  shows "conn_inv (W \<union> (snd q - snd p)) (fst q) \<and> tabs_ok (fst q) \<and> snd p \<subseteq> snd q"
  using assms(1)
proof (induction rule: rtranclp_induct)
  case base
  then show ?case using assms by simp
next
  case (step q r)
  have sub: "W \<union> (snd q - snd p) \<subseteq> snd q" using step.IH assms(3) by auto
  note last = attempt_step_ok [OF step.hyps(2) _ sub]
  have "W \<union> (snd q - snd p) \<union> (snd r - snd q) \<subseteq> W \<union> (snd r - snd p)" using last step.IH by auto
  then show ?case using last step.IH conn_inv_mono by blast
qed

lemma new_state_attempts: "conn_inv {} (app_state_new sessions)" "tabs_ok (app_state_new sessions)"
  by (simp_all add: conn_inv_def terminals_def app_state_new_def tabs_ok_def tab_list_ok_def companions_ok_def)

lemma attempts_reached:
  assumes "attempt_step\<^sup>*\<^sup>* (app_state_new sessions, {}) (s, U)"
  shows "conn_inv U s" "tabs_ok s"
  using attempt_steps_ok [OF assms, of "{}"] new_state_attempts by auto


section \<open>An example\<close>

definition key_profile :: session_profile where
  "key_profile = \<lparr>sp_id = 3, sp_name = ''web'', sp_group = [], sp_icon_override = None, sp_detected = None,
     sp_connection = ConnSsh \<lparr>sc_host = ''h'', sc_port = 22, sc_username = ''u'', sc_auth = PrivateKeyAuth ''k'',
       sc_credential_storage = None, sc_vault_key_saved = False, sc_fingerprint = Some ''F'', sc_x11 = X11Off,
       sc_remote_path = ''/'', sc_local_path = [], sc_policy = None\<rparr>\<rparr>"

definition key_sessions :: "app_settings session_store" where
  "key_sessions = \<lparr>ss_version = 37, ss_groups = [], ss_sessions = [key_profile], ss_recent = [],
     ss_settings = \<lparr>se_osc52 = False\<rparr>\<rparr>"

definition key_tab :: "unit app_state" where
  "key_tab = fst (request_profile_connection () ''/'' 7 8 9 10 3 TargetTerminal None None None
     (\<lambda>tab s. (s\<lparr>as_active := Some tab\<rparr>, True)) (app_state_new key_sessions))"

lemma key_tab_reached: "attempt_step\<^sup>*\<^sup>* (app_state_new key_sessions, {}) (key_tab, {9})"
proof -
  have "attempt_step (app_state_new key_sessions, {}) (key_tab, {9})"
    unfolding key_tab_def by (rule step_request) (simp_all add: app_state_new_def only_activates_def)
  then show ?thesis by (rule r_into_rtranclp)
qed

lemma key_tab_terminal: "matches_attempt 7 3 9 key_tab" "\<exists>x. (7, x) \<in> terminals key_tab \<and> tt_worker x = Some (SshWorker 10)"
proof -
  define y where "y = new_terminal_state (SshBackend 3 None) (Some False)
      ''Preparing connection...'' False True (sftp_browser_default ()) None"
  define one where "one = fst (open_terminal_tab_with_companion () 7 key_profile None (app_state_new key_sessions))"
  have one: "as_tabs one = [new_tab 7 (''web #'' @ show_nat 1) (TerminalKind y)]" "as_sessions one = key_sessions"
    by (simp_all add: one_def y_def open_terminal_tab_with_companion_def insert_connection_tab_def app_state_new_def
        key_profile_def key_sessions_def insert_at_def sat_add_def)
  have opened: "open_terminal_tab_with_companion () 7 key_profile None (app_state_new key_sessions) = (one, 7)"
    by (simp add: one_def prod_eq_iff opened_ids)
  have y: "tt_worker y = None" "is_ssh y" "ssh_route y = Some (3, None)" "connection_target_of y = TargetTerminal"
    "tt_sftp_initial_path y = None"
    by (simp_all add: y_def new_terminal_state_def is_ssh_def ssh_route_def connection_target_of_def is_sftp_def)
  have t: "terminal_of 7 (one\<lparr>as_active := Some 7\<rparr>) = Some y"
    by (simp add: terminal_of_def one new_tab_def)
  have p: "profile_of 3 (app_state_new key_sessions) = Some key_profile" "profile_of 3 (one\<lparr>as_active := Some 7\<rparr>) = Some key_profile"
    by (simp_all add: profile_of_def app_state_new_def one key_sessions_def key_profile_def)
  define s where "s = one\<lparr>as_active := Some 7\<rparr>"
  obtain c where conn: "sp_connection key_profile = ConnSsh c" "sc_fingerprint c = Some ''F''"
    by (simp add: key_profile_def)
  have e: "key_tab = fst (begin_authentication 9 10 7 key_profile TargetTerminal
      (update_terminal 7 (set_phase (AwaitingAuthentication False)) s))"
    unfolding key_tab_def request_profile_connection_def p(1) option.case connection_target.case opened Let_def prod.case bool.case
    using t conn by (simp add: s_def case_prod_beta)
  have k: "profile_ssh key_profile = Some c" "sc_auth c = PrivateKeyAuth ''k''" "sp_id key_profile = 3"
    using conn by (auto simp: key_profile_def profile_ssh_def)
  define y1 where "y1 = (set_phase (AwaitingAuthentication False) y)\<lparr>tt_status := ''Loading private key...''\<rparr>"
  define s1 where "s1 = set_tab_status 7 ''Loading private key...'' (update_terminal 7 (set_phase (AwaitingAuthentication False)) s)"
  have y1: "tt_worker y1 = None" "is_ssh y1" "ssh_route y1 = Some (3, None)" "connection_target_of y1 = TargetTerminal"
    "ssh_phase_of y1 = Some (AwaitingAuthentication False)"
    by (simp_all add: y1_def y_def new_terminal_state_def step_defs is_ssh_def ssh_route_def connection_target_of_def
        is_sftp_def ssh_phase_of_def)
  have s1: "terminal_of 7 s1 = Some y1" "profile_of 3 s1 = Some key_profile"
    using t p by (simp_all add: s1_def s_def y1_def set_tab_status_def)
  have "start_session_worker 9 10 7 key_profile StartPrompt TargetTerminal s1 =
      (update_terminal 7 (with_ssh_worker 9 10 key_profile) s1, Inr key_profile)"
    by (simp add: start_session_worker_def terminal_has_phase_def tab_ssh_profile_def worker_profile_def s1 y1 k)
  then have tab: "key_tab = update_terminal 7 (with_ssh_worker 9 10 key_profile) s1"
    unfolding e by (simp add: begin_authentication_def k s1_def [symmetric] start_or_prompt_def)
  have launched: "terminal_of 7 key_tab = Some (with_ssh_worker 9 10 key_profile y1)"
    unfolding tab terminal_of_update s1 by simp
  show "matches_attempt 7 3 9 key_tab" using launched
    by (simp add: matches_attempt_def with_ssh_worker_def y1_def y_def new_terminal_state_def step_defs ssh_route_def)
  show "\<exists>x. (7, x) \<in> terminals key_tab \<and> tt_worker x = Some (SshWorker 10)"
    using terminal_of_mem [OF launched] by (intro exI conjI) (auto simp: with_ssh_worker_def step_defs)
qed



section \<open>The end of an attempt\<close>

text \<open>The events of an SSH worker after which its attempt is over.\<close>

fun ends_attempt :: "ssh_session_event \<Rightarrow> bool" where
  "ends_attempt ShellExited = True"
| "ends_attempt SshDisconnected = True"
| "ends_attempt (HostKeyRejected _ _ _) = True"
| "ends_attempt (HostKeyRevoked _ _) = True"
| "ends_attempt AuthenticationFailed = True"
| "ends_attempt (PrivateKeyFailed _) = True"
| "ends_attempt (SshFailed _) = True"
| "ends_attempt (SshStopped _) = True"
| "ends_attempt _ = False"

lemma terminals_one:
  assumes "tabs_ok s" "(i, x) \<in> terminals s"
  shows "terminal_of i s = Some x"
proof -
  obtain u where u: "u \<in> set (as_tabs s)" "at_id u = i" "kind_terminal (at_kind u) = Some x"
    using assms(2) by (auto simp: terminals_def)
  have d: "distinct (map at_id (as_tabs s))" using assms(1) by (simp add: tabs_ok_def tab_list_ok_def)
  have "find (\<lambda>t. at_id t = i \<and> kind_terminal (at_kind t) \<noteq> None) (as_tabs s) = Some u"
  proof (cases "find (\<lambda>t. at_id t = i \<and> kind_terminal (at_kind t) \<noteq> None) (as_tabs s)")
    case None
    then show ?thesis using u by (auto simp: find_None_iff)
  next
    case (Some v)
    then have "v \<in> set (as_tabs s)" "at_id v = i" by (auto dest: find_SomeD)
    then have "v = u" using d u by (simp add: distinct_map inj_on_def)
    then show ?thesis using Some by simp
  qed
  then show ?thesis using u(3) by (simp add: terminal_of_def)
qed

lemma conn_inv_drop:
  assumes "conn_inv U s" "tabs_ok s" "matches_attempt tab p a s"
    and "\<And>x. conn_ok tab x \<Longrightarrow> is_ssh x \<Longrightarrow> profile_id x = Some p \<Longrightarrow> conn_ok tab (f x) \<and> attempt_of (f x) = None"
  shows "conn_inv (U - {a}) (update_terminal tab f s)"
proof -
  let ?s = "update_terminal tab f s"
  have keep: "conn_inv U ?s"
  proof (rule conn_inv_keep [OF assms(1)])
    fix x assume x: "terminal_of tab s = Some x" "conn_ok tab x"
    then show "conn_ok tab (f x) \<and> (attempt_of (f x) = attempt_of x \<or> attempt_of (f x) = None)"
      using assms(4) [OF x(2)] matches_ssh [OF assms(3) x(1)] by simp
  qed
  have ok: "tabs_ok ?s" by (rule tabs_ok_skeleton [OF skel_update assms(2)])
  obtain x where x: "terminal_of tab s = Some x" using assms(3) by (auto simp: matches_attempt_def split: bind_splits)
  have a: "attempt_of x = Some a" "attempt_of (f x) = None"
    using matches_ssh [OF assms(3) x] assms(4) [OF conn_inv_terminal [OF assms(1) x]] by simp_all
  have "b \<noteq> a" if m: "(j, y) \<in> terminals ?s" "attempt_of y = Some b" for j y b
  proof
    assume "b = a"
    have y: "terminal_of j ?s = Some y" by (rule terminals_one [OF ok m(1)])
    show False
    proof (cases "j = tab")
      case True
      then show False using y x a m(2) by simp
    next
      case False
      then have "(j, y) \<in> terminals s" using y by (simp add: terminal_of_mem)
      then show False using conn_invD(3) [OF assms(1) terminal_of_mem [OF x] _ a(1)] m(2) \<open>b = a\<close> False by blast
    qed
  qed
  then show ?thesis using keep unfolding conn_inv_def by blast
qed

lemma retry_drops:
  assumes "conn_inv U s" "tabs_ok s" "matches_attempt tab p a s" "phase_fits tab (Some p) ph"
  shows "conn_inv (U - {a}) (fst (prepare_retry_with_phase tab p a ph s))"
  using assms(3) unfolding prepare_retry_with_phase_def
  by (simp, intro conn_inv_drop [OF assms(1-3)])
    (simp add: keeps keeps_phase keeps_end_ssh end_attempt_backend assms(4))

lemma retire_drops:
  assumes "conn_inv U s" "tabs_ok s" "matches_attempt tab p a s"
  shows "conn_inv (U - {a}) (fst (retire_session_attempt edits0 tab p a s))"
  using assms(3) unfolding retire_session_attempt_def
  by (simp, intro conn_inv_drop [OF assms]) (simp add: keeps_retire)

lemma retries_true:
  assumes "matches_attempt tab p a s"
  shows "snd (retire_session_attempt edits0 tab p a s)" "snd (prepare_retry_with_phase tab p a ph s)"
  using assms by (simp_all add: retire_session_attempt_def prepare_retry_with_phase_def)

lemma ended_drops:
  assumes "conn_inv U s" "tabs_ok s" "matches_attempt tab (sp_id profile) a s" "ends_attempt e"
  shows "conn_inv (U - {a}) (fst (on_ssh_event edits0 tab profile a c used e s))"
proof -
  have host: "phase_fits tab (Some (sp_id profile)) (AwaitingHostKey pr)" if "hk_tab pr = tab" "hk_profile pr = sp_id profile" for pr
    using that by (simp add: phase_fits_def)
  have plain: "phase_fits tab (Some (sp_id profile)) (AwaitingAuthentication b)"
    "phase_fits tab (Some (sp_id profile)) LoadingStoredCredential" for b
    by (simp_all add: phase_fits_def)
  note drops = retire_drops [OF assms(1-3)] retry_drops [OF assms(1-3)]
  show ?thesis
    using assms(4) unfolding on_ssh_event_def Let_def
    by (cases e) (simp_all add: authentication_failed_def retire_and_reconnect_def host_key_retry_phase
        prepare_authentication_retry_def prepare_stored_credential_retry_def case_prod_beta
        retries_true [OF assms(3)] drops host plain inv_ops Let_def)
qed

lemma unmatched_silent:
  assumes "\<not> matches_attempt tab (sp_id profile) a s"
  shows "on_ssh_event edits0 tab profile a c used e s = (s, NoLaunch)"
  using assms unfolding on_ssh_event_def Let_def
  by (cases e) (simp_all add: authentication_failed_def retire_and_reconnect_def host_key_retry_phase
      prepare_authentication_retry_def prepare_stored_credential_retry_def mutate_terminal_attempt_def
      retire_session_attempt_def prepare_retry_with_phase_def Let_def)

text \<open>
  C5. A worker that was replaced cannot interfere: once an event has ended its attempt, then, whatever
  happens later to this tab and to the others, no tab has that attempt again, and every later event of it,
  a late failure, a host-key prompt, a second end, changes nothing and starts nothing.
\<close>

theorem ended_attempt_silent:
  assumes "attempt_step\<^sup>*\<^sup>* (app_state_new sessions, {}) (s, U)"
    and "matches_attempt tab (sp_id profile) a s" "ends_attempt e"
    and "attempt_step\<^sup>*\<^sup>* (fst (on_ssh_event edits0 tab profile a c used e s), U) (s', U')"
  shows "(\<forall>i t. (i, t) \<in> terminals s' \<longrightarrow> attempt_of t \<noteq> Some a) \<and>
    on_ssh_event edits1 tab' profile' a c' used' e' s' = (s', NoLaunch)"
proof -
  note reached = attempts_reached [OF assms(1)]
  let ?s1 = "fst (on_ssh_event edits0 tab profile a c used e s)"
  have inv: "conn_inv (U - {a}) ?s1" by (rule ended_drops [OF reached assms(2,3)])
  have ok: "tabs_ok ?s1" by (rule tabs_ok_skeleton [OF _ reached(2)]) (simp add: skel)
  have "a \<in> U" using conn_invD(2) [OF reached(1)] matches_ssh [OF assms(2)] assms(2)
    by (auto simp: matches_attempt_def split: bind_splits dest: terminal_of_mem)
  have "conn_inv (U - {a} \<union> (U' - U)) s'" using attempt_steps_ok [OF assms(4), of "U - {a}"] inv ok by auto
  then have none: "attempt_of t \<noteq> Some a" if "(i, t) \<in> terminals s'" for i t
    using conn_invD(2) that \<open>a \<in> U\<close> by blast
  have "\<not> matches_attempt tab' (sp_id profile') a s'"
  proof
    assume m: "matches_attempt tab' (sp_id profile') a s'"
    then obtain x where "terminal_of tab' s' = Some x" by (auto simp: matches_attempt_def split: bind_splits)
    then show False using matches_ssh [OF m] none terminal_of_mem by blast
  qed
  from unmatched_silent [OF this] show ?thesis using none by simp
qed

theorem ended_attempt_silent_witness:
  "on_ssh_event () 7 key_profile 9 (the (profile_ssh key_profile)) True SshConnected
     (fst (disconnect_session (fst (on_ssh_event () 7 key_profile 9 (the (profile_ssh key_profile)) False SshDisconnected key_tab)))) =
   (fst (disconnect_session (fst (on_ssh_event () 7 key_profile 9 (the (profile_ssh key_profile)) False SshDisconnected key_tab))), NoLaunch)"
proof -
  have "attempt_step\<^sup>*\<^sup>* (fst (on_ssh_event () 7 key_profile 9 (the (profile_ssh key_profile)) False SshDisconnected key_tab), {9})
     (fst (disconnect_session (fst (on_ssh_event () 7 key_profile 9 (the (profile_ssh key_profile)) False SshDisconnected key_tab))), {9})"
    by (intro r_into_rtranclp step_disconnect)
  moreover have "matches_attempt 7 (sp_id key_profile) 9 key_tab" using key_tab_terminal(1) by (simp add: key_profile_def)
  ultimately show ?thesis
    using ended_attempt_silent [OF key_tab_reached, of 7 key_profile 9 SshDisconnected "()" "the (profile_ssh key_profile)" False, THEN conjunct2] by simp
qed


section \<open>Reconnecting\<close>

text \<open>
  The waits that a tab announces when it loses its connection again and again; \<open>f\<close> is all that happens to
  it from one loss to the next.
\<close>

fun reconnect_waits :: "('x terminal_tab \<Rightarrow> 'x terminal_tab) list \<Rightarrow> 'x terminal_tab \<Rightarrow> nat list" where
  "reconnect_waits [] t = []"
| "reconnect_waits (f # fs) t =
     (case schedule_reconnect (f t) of
        (t1, None) \<Rightarrow> reconnect_waits fs t1
      | (t1, Some (_, _, delay)) \<Rightarrow> delay # reconnect_waits fs t1)"

lemma schedule_cases:
  "schedule_reconnect t = (t1, None) \<Longrightarrow> tt_attempt t1 = tt_attempt t"
  "schedule_reconnect t = (t1, Some (g, n, delay)) \<Longrightarrow>
     tt_attempt t1 = tt_attempt t + 1 \<and> tt_attempt t < 5 \<and> delay = 2 ^ tt_attempt t"
proof -
  assume a: "schedule_reconnect t = (t1, Some (g, n, delay))"
  then have n: "tt_attempt t < 5" "tt_attempt t1 = tt_attempt t + 1" "delay = reconnect_delay (tt_attempt t + 1)"
    by (auto simp: schedule_reconnect_def begin_reconnect_def MAX_RECONNECT_ATTEMPTS_def Let_def split: if_splits)
  have "reconnect_delay (k + 1) = 2 ^ k" if "k < 5" for k
  proof -
    have "k \<in> {0, 1, 2, 3, 4}" using that by auto
    then show ?thesis by (auto simp: reconnect_delay_def RECONNECT_BASE_DELAY_def RECONNECT_MAX_DELAY_def Let_def)
  qed
  then show "tt_attempt t1 = tt_attempt t + 1 \<and> tt_attempt t < 5 \<and> delay = 2 ^ tt_attempt t" using n by blast
qed (auto simp: schedule_reconnect_def begin_reconnect_def Let_def split: if_splits)

lemma waits_bounded:
  assumes "\<forall>f \<in> set fs. \<forall>t. tt_attempt t \<le> tt_attempt (f t)"
  shows "\<exists>ns. reconnect_waits fs t = map (\<lambda>n. 2 ^ n) ns \<and> sorted_wrt (<) (tt_attempt t # map Suc ns) \<and> (\<forall>n \<in> set ns. n < 5)"
  using assms
proof (induction fs arbitrary: t)
  case (Cons f fs)
  have up: "tt_attempt t \<le> tt_attempt (f t)" using Cons.prems by simp
  obtain t1 r where s: "schedule_reconnect (f t) = (t1, r)" by fastforce
  obtain ns where ns: "reconnect_waits fs t1 = map (\<lambda>n. 2 ^ n) ns" "sorted_wrt (<) (tt_attempt t1 # map Suc ns)"
    "\<forall>n \<in> set ns. n < 5"
    using Cons.IH [of t1] Cons.prems by auto
  show ?case
  proof (cases r)
    case None
    then show ?thesis using ns s schedule_cases(1) [of "f t" t1] up by (intro exI [of _ ns]) auto
  next
    case (Some q)
    then obtain g n d where q: "schedule_reconnect (f t) = (t1, Some (g, n, d))" using s by (cases q) auto
    from schedule_cases(2) [OF q] show ?thesis
      using ns q up by (intro exI [of _ "tt_attempt (f t) # ns"]) auto
  qed
qed simp

text \<open>
  C20. A tab that loses its connection again and again, without a successful connection or a retry of the
  user in between, waits at most five times, each time longer than before, at most sixteen seconds at once
  and at most 31 seconds in all, and then gives up.
\<close>

theorem reconnect_bounded:
  assumes "\<forall>f \<in> set fs. \<forall>t. tt_attempt t \<le> tt_attempt (f t)"
  shows "length (reconnect_waits fs t) \<le> 5 \<and> sorted_wrt (<) (reconnect_waits fs t) \<and>
    set (reconnect_waits fs t) \<subseteq> {1, 2, 4, 8, 16} \<and> sum_list (reconnect_waits fs t) \<le> 31"
proof -
  obtain ns where ns: "reconnect_waits fs t = map (\<lambda>n. 2 ^ n) ns" "sorted_wrt (<) (map Suc ns)" "\<forall>n \<in> set ns. n < 5"
    using waits_bounded [OF assms, of t] by auto
  have sorted: "sorted_wrt (<) ns" using ns(2) by (simp add: sorted_wrt_map)
  then have d: "distinct ns" by (simp add: strict_sorted_iff)
  have sub: "set ns \<subseteq> {0, 1, 2, 3, 4}" using ns(3) by fastforce
  have "length ns = card (set ns)" using d by (simp add: distinct_card)
  also have "\<dots> \<le> card {0, 1, 2, 3, 4 :: nat}" by (intro card_mono sub) simp
  finally have len: "length ns \<le> 5" by simp
  have "sum_list (map (\<lambda>n. 2 ^ n) ns) = (\<Sum>n \<in> set ns. 2 ^ n :: nat)" using d by (simp add: sum_list_distinct_conv_sum_set)
  also have "\<dots> \<le> (\<Sum>n \<in> {0, 1, 2, 3, 4}. 2 ^ n)" by (intro sum_mono2 sub) simp_all
  finally have "sum_list (reconnect_waits fs t) \<le> 31" using ns(1) by simp
  moreover have "sorted_wrt (<) (reconnect_waits fs t)" using sorted by (simp add: ns(1) sorted_wrt_map)
  moreover have "set (reconnect_waits fs t) \<subseteq> {1, 2, 4, 8, 16}" using sub by (auto simp: ns(1))
  ultimately show ?thesis using len by (simp add: ns(1))
qed

text \<open>Losing the connection and starting the next attempt keep the counter, as the theorem asks.\<close>

lemma failing_attempt_counts:
  "tt_attempt (retire_terminal edits0 t) = tt_attempt t" "tt_attempt (with_ssh_worker a w p t) = tt_attempt t"
  "tt_attempt (cancel_reconnect t) = tt_attempt t"
  by (simp_all add: retire_terminal_def with_ssh_worker_def step_defs split: backend.split)

definition losing :: "unit terminal_tab \<Rightarrow> unit terminal_tab" where
  "losing t = retire_terminal () (with_ssh_worker 1 2 key_profile t)"

definition lost_tab :: "unit terminal_tab" where
  "lost_tab = new_terminal_state (SshBackend 3 None) None [] False True (sftp_browser_default ()) None"

lemma losing_waits:
  assumes "tt_generation t = 0" "tt_reconnect_enabled t" "tt_attempt t = n" "n < 5"
  shows "\<exists>t1. reconnect_waits (losing # fs) t = 2 ^ n # reconnect_waits fs t1 \<and>
    tt_generation t1 = 0 \<and> tt_reconnect_enabled t1 \<and> tt_attempt t1 = n + 1"
proof -
  have l: "tt_generation (losing t) = 0" "tt_reconnect_enabled (losing t)" "tt_attempt (losing t) = n"
    "\<not> tt_reconnecting (losing t)" "tt_worker (losing t) = None"
    using assms by (simp_all add: losing_def retire_terminal_def with_ssh_worker_def step_defs split: backend.split)
  obtain t1 g k d where s: "schedule_reconnect (losing t) = (t1, Some (g, k, d))" "tt_generation t1 = 0" "tt_reconnect_enabled t1"
    using l assms(4) by (simp add: schedule_reconnect_def begin_reconnect_def MAX_RECONNECT_ATTEMPTS_def Let_def)
  from schedule_cases(2) [OF s(1)] show ?thesis using s l by auto
qed

theorem reconnect_bounded_witness:
  "sum_list (reconnect_waits (replicate 7 losing) lost_tab) \<le> 31 \<and>
    length (reconnect_waits (replicate 2 losing) lost_tab) = 2"
proof -
  have "\<forall>f \<in> set (replicate 7 losing). \<forall>t. tt_attempt t \<le> tt_attempt (f t)"
    by (simp add: losing_def failing_attempt_counts)
  note bounded = reconnect_bounded [OF this]
  have start: "tt_generation lost_tab = 0" "tt_reconnect_enabled lost_tab" "tt_attempt lost_tab = 0"
    by (simp_all add: lost_tab_def new_terminal_state_def)
  obtain t1 where one: "reconnect_waits (replicate 2 losing) lost_tab = 1 # reconnect_waits [losing] t1"
      "tt_generation t1 = 0" "tt_reconnect_enabled t1" "tt_attempt t1 = 1"
    using losing_waits [OF start, of "[losing]"] by (auto simp: numeral_2_eq_2)
  obtain t2 where "reconnect_waits [losing] t1 = 2 # reconnect_waits [] t2"
    using losing_waits [OF one(2-4), of "[]"] by auto
  then show ?thesis using bounded one(1) by simp
qed


section \<open>Host keys\<close>

lemma begin_launches_current:
  assumes "snd (begin_authentication a w tab profile target s) = LaunchWorker launched secret st"
  shows "profile_of (sp_id profile) s = Some profile"
proof -
  have start: "profile_of (sp_id profile) x = Some profile"
    if "snd (start_or_prompt a w tab profile target key m x) = LaunchWorker launched secret st" for x :: "'a app_state" and key m
    using that by (auto simp: start_or_prompt_def start_session_worker_def Let_def split: if_splits option.splits)
  have same: "profile_of (sp_id profile) (set_tab_status tab m x) = profile_of (sp_id profile) x" for m and x :: "'a app_state"
    by (simp add: set_tab_status_def)
  have take: "profile_of (sp_id profile) (fst (take_one_time_password tab (sp_id profile) s)) = profile_of (sp_id profile) s"
    by (simp add: take_one_time_password_def split: option.split)
  have lookup: "snd (begin_lookup tab q m task x) \<in> {NoLaunch, task}" for q m task and x :: "'a app_state"
    by (simp add: begin_lookup_def split: prod.split bool.split)
  obtain s1 pw where tk: "take_one_time_password tab (sp_id profile) s = (s1, pw)" by fastforce
  show ?thesis
    using assms take
      lookup [of "sp_id profile" "''Loading the hidden encrypted-vault unlock key...''" LookupUnlockKey s1]
      lookup [of "sp_id profile" "''Loading password from system credential store...''" LookupKeyring s1]
    by (auto simp: begin_authentication_def tk same
        dest!: start split: option.splits auth_method.splits if_splits credential_storage.splits)
qed

text \<open>
  C6. After a probe of the host key, authentication starts only when the tab is still waiting for a probe
  of this session, the probe was not cancelled, and the key that the server presented is trusted by the
  known hosts for the host and port of the session; a worker is started only for the session as it is now.
\<close>

theorem authentication_follows_trust:
  assumes "host_key_probed a w tab profile target purpose
      (Some (map_sum shown (\<lambda>x. x) (probe_host_key cr loaded valid host port net))) s = (s', l)" "l \<noteq> NoLaunch"
  shows "\<exists>key rest t pb. net_handshake net = Presents (ServerKey key) rest \<and>
    decision cr (loaded_entries loaded) host port key = Trusted \<and>
    terminal_of tab s = Some t \<and> ssh_phase_of t = Some (Probing pb) \<and> pb_tab pb = tab \<and> pb_profile pb = sp_id profile \<and>
    (\<forall>launched secret st. l = LaunchWorker launched secret st \<longrightarrow> profile_of (sp_id profile) s = Some profile)"
proof -
  let ?r = "map_sum shown (\<lambda>x. x) (probe_host_key cr loaded valid host port net)"
  obtain t where t: "terminal_of tab s = Some t" using assms by (auto simp: host_key_probed_def split: option.splits)
  define f where "f = finish_host_key_probe tab profile target (Some ?r) t"
  have go: "snd f = Some (Inr True)"
    using assms t by (auto simp: host_key_probed_def f_def [symmetric] Let_def case_prod_beta
        split: option.splits sum.splits bool.splits)
  have "\<exists>pr. ?r = Inr pr \<and> pr_decision pr = Trusted \<and>
      (\<exists>pb. ssh_phase_of t = Some (Probing pb) \<and> pb_tab pb = tab \<and> pb_profile pb = sp_id profile)"
    using go unfolding f_def finish_host_key_probe_def Let_def
    by (auto split: if_splits sum.splits option.splits ssh_phase.splits)
  then obtain pr pb where pr: "probe_host_key cr loaded valid host port net = Inr pr" "pr_decision pr = Trusted"
    and pb: "ssh_phase_of t = Some (Probing pb)" "pb_tab pb = tab" "pb_profile pb = sp_id profile"
    by (cases "probe_host_key cr loaded valid host port net") auto
  obtain key rest where key: "net_handshake net = Presents (ServerKey key) rest"
    "decision cr (loaded_entries loaded) host port key = Trusted"
    using probe_reports_decision [OF pr(1)] pr(2) by auto
  have l: "l = snd (begin_authentication a w tab profile target (update_terminal tab (\<lambda>_. fst f) s))"
    using assms(1) t go by (simp add: host_key_probed_def f_def [symmetric] Let_def case_prod_beta)
  have "profile_of (sp_id profile) s = Some profile" if "l = LaunchWorker launched secret st" for launched secret st
    using begin_launches_current [of a w tab profile target "update_terminal tab (\<lambda>_. fst f) s" launched secret st]
    unfolding l [symmetric] that profile_of_update by simp
  then show ?thesis using key t pb by blast
qed


definition open_profile :: session_profile where
  "open_profile = modify_ssh (\<lambda>c. c\<lparr>sc_fingerprint := None\<rparr>) key_profile"

definition open_sessions :: "app_settings session_store" where
  "open_sessions = key_sessions\<lparr>ss_sessions := [open_profile]\<rparr>"

definition waiting_state :: "ssh_phase \<Rightarrow> unit app_state" where
  "waiting_state ph = (app_state_new open_sessions)
     \<lparr>as_tabs := [new_tab 7 ''web #1'' (TerminalKind (lost_tab\<lparr>tt_phase := ph\<rparr>))], as_active := Some 7\<rparr>"

lemma open_profile_simps:
  "sp_id open_profile = 3" "\<exists>c. profile_ssh open_profile = Some c \<and> sc_host c = ''h'' \<and> sc_port c = 22 \<and>
     sc_auth c = PrivateKeyAuth ''k''"
  by (simp_all add: open_profile_def key_profile_def modify_ssh_def profile_ssh_def)

lemma waiting_state_simps:
  "terminal_of 7 (waiting_state ph) = Some (lost_tab\<lparr>tt_phase := ph\<rparr>)" "profile_of 3 (waiting_state ph) = Some open_profile"
  by (simp_all add: waiting_state_def terminal_of_def new_tab_def profile_of_def app_state_new_def open_sessions_def
      open_profile_simps)

lemma lost_tab_simps:
  "ssh_route (lost_tab\<lparr>tt_phase := ph\<rparr>) = Some (3, None)" "connection_target_of (lost_tab\<lparr>tt_phase := ph\<rparr>) = TargetTerminal"
  "ssh_phase_of (lost_tab\<lparr>tt_phase := ph\<rparr>) = Some ph" "is_ssh (lost_tab\<lparr>tt_phase := ph\<rparr>)"
  "tt_worker (lost_tab\<lparr>tt_phase := ph\<rparr>) = None" "tt_status (lost_tab\<lparr>tt_phase := ph\<rparr>) = []"
  "set_phase ph' (lost_tab\<lparr>tt_phase := ph\<rparr>) = lost_tab\<lparr>tt_phase := ph'\<rparr>"
  by (simp_all add: lost_tab_def new_terminal_state_def ssh_route_def connection_target_of_def ssh_phase_of_def
      is_ssh_def is_sftp_def step_defs)


lemma toy_probe:
  "probe_host_key toy_crypto (Inr [new_entry ''h'' 22 ''B'']) True ''h'' 22 toy_network =
    Inr \<lparr>pr_fingerprint = ''SHA256:B'', pr_decision = Trusted, pr_public_key = Some ''ssh-ed25519 B''\<rparr>"
  by (simp add: probe_host_key_def connect_transport_def connect_stream_def check_server_key_def toy_network_def
      toy_decision observation_default_def Let_def)

theorem authentication_follows_trust_witness:
  "snd (host_key_probed 9 10 7 open_profile TargetTerminal PurposeConnect
     (Some (map_sum (\<lambda>_. ''error'') (\<lambda>x. x)
        (probe_host_key toy_crypto (Inr [new_entry ''h'' 22 ''B'']) True ''h'' 22 toy_network)))
     (waiting_state (Probing \<lparr>pb_tab = 7, pb_profile = 3, pb_cancel = 8\<rparr>))) = LaunchWorker open_profile [] False \<and>
   decision toy_crypto [new_entry ''h'' 22 ''B''] ''h'' 22 ''B'' = Trusted"
proof -
  let ?s = "waiting_state (Probing \<lparr>pb_tab = 7, pb_profile = 3, pb_cancel = 8\<rparr>)"
  let ?r = "Some (map_sum (\<lambda>_. ''error'') (\<lambda>x. x)
        (probe_host_key toy_crypto (Inr [new_entry ''h'' 22 ''B'']) True ''h'' 22 toy_network))"
  define x where "x = (lost_tab\<lparr>tt_phase := AwaitingAuthentication False\<rparr>)\<lparr>tt_status := ''Loading private key...''\<rparr>"
  have x: "ssh_route x = Some (3, None)" "connection_target_of x = TargetTerminal" "is_ssh x" "tt_worker x = None"
    "ssh_phase_of x = Some (AwaitingAuthentication False)"
    using lost_tab_simps [of "AwaitingAuthentication False"]
    by (simp_all add: x_def ssh_route_def connection_target_of_def is_sftp_def is_ssh_def ssh_phase_of_def)
  obtain c where c: "profile_ssh open_profile = Some c" "sc_auth c = PrivateKeyAuth ''k''" using open_profile_simps by auto
  define s1 where "s1 = set_tab_status 7 ''Loading private key...''
      (update_terminal 7 (\<lambda>_. lost_tab\<lparr>tt_phase := AwaitingAuthentication False\<rparr>) ?s)"
  have s1: "terminal_of 7 s1 = Some x" "profile_of 3 s1 = Some open_profile"
    by (simp_all add: s1_def x_def set_tab_status_def waiting_state_simps)
  have launched: "snd (start_or_prompt 9 10 7 open_profile TargetTerminal [] m s1) = LaunchWorker open_profile [] False" for m
    by (simp add: start_or_prompt_def start_session_worker_def terminal_has_phase_def tab_ssh_profile_def worker_profile_def
        s1 x open_profile_simps)
  have "snd (host_key_probed 9 10 7 open_profile TargetTerminal PurposeConnect ?r ?s) = LaunchWorker open_profile [] False"
    using launched by (simp add: host_key_probed_def waiting_state_simps finish_host_key_probe_def lost_tab_simps toy_probe
        open_profile_simps(1) begin_authentication_def c s1_def Let_def)
  moreover from this have "\<exists>key rest. net_handshake toy_network = Presents (ServerKey key) rest \<and>
      decision toy_crypto (loaded_entries (Inr [new_entry ''h'' 22 ''B''])) ''h'' 22 key = Trusted"
    using authentication_follows_trust [OF prod.collapse [symmetric], of 9 10 7 open_profile TargetTerminal
        PurposeConnect "\<lambda>_. ''error''" toy_crypto "Inr [new_entry ''h'' 22 ''B'']" True "''h''" 22 toy_network ?s]
    by auto
  ultimately show ?thesis by (simp add: toy_network_def)
qed

section \<open>Trusting a host key\<close>

lemma profile_of_pinned:
  assumes "\<And>q. sp_id (f q) = sp_id q"
  shows "profile_of q (with_sessions (update_session p f (as_sessions s)) s') =
    (if q = p then map_option f (profile_of p s) else profile_of q s)"
proof -
  have "find (\<lambda>x. sp_id x = p) (update_first (\<lambda>q. sp_id q = p) f (ss_sessions (as_sessions s))) =
      map_option f (find (\<lambda>x. sp_id x = p) (ss_sessions (as_sessions s)))"
    by (rule find_update_first) (simp add: assms)
  moreover have "find (\<lambda>x. sp_id x = q) (update_first (\<lambda>q. sp_id q = p) f (ss_sessions (as_sessions s))) =
      find (\<lambda>x. sp_id x = q) (ss_sessions (as_sessions s))" if "q \<noteq> p"
    by (rule find_update_first_other) (use that assms in auto)
  ultimately show ?thesis by (simp add: profile_of_def with_sessions_def update_session_def)
qed

lemma modify_ssh_id [simp]: "sp_id (modify_ssh f p) = sp_id p"
  by (simp add: modify_ssh_def split: connection_profile.split)

lemma profile_of_finish [simp]: "profile_of q (finish_profile_mutation p k s) = profile_of q s"
  by (simp add: finish_profile_mutation_def)

lemma finished_mutation: "\<not> profile_mutation_is_current p k (finish_profile_mutation p k s)"
  by (simp add: finish_profile_mutation_def profile_mutation_is_current_def)

lemma current_update:
  "profile_mutation_is_current p k (update_terminal i f s) = profile_mutation_is_current p k s"
  by (simp add: profile_mutation_is_current_def update_terminal_def)

abbreviation pinned :: "pending_host_key \<Rightarrow> session_profile \<Rightarrow> session_profile" where
  "pinned pending \<equiv> modify_ssh (\<lambda>c. c\<lparr>sc_fingerprint := Some (hk_fingerprint pending)\<rparr>)"

text \<open>
  C7. A confirmation that succeeds has written the known hosts and the configuration, and pins exactly the
  fingerprint that was shown to exactly the session it was shown for, which still has the host and port of
  the prompt; no other session changes, and authentication goes on with the pinned session. Other tasks may
  run while the known hosts are written; the sessions stay as they are while the configuration is written.
\<close>

theorem confirmed_key_pinned:
  assumes "confirm_host_key file saved during after pending expected token s = (s', Inr r)"
    and "\<And>x. as_sessions (after x) = as_sessions x"
  shows "file = None \<and> saved = None \<and>
    (\<exists>c. profile_ssh expected = Some c \<and> sc_host c = hk_host pending \<and> sc_port c = hk_port pending) \<and>
    profile_of (hk_profile pending) s' = Some (pinned pending expected) \<and>
    (\<forall>q. q \<noteq> hk_profile pending \<longrightarrow> profile_of q s' = profile_of q (after (during s))) \<and>
    \<not> profile_mutation_is_current (hk_profile pending) token s' \<and>
    (\<forall>tab trusted target. r = Some (tab, trusted, target) \<longrightarrow> tab = hk_tab pending \<and> trusted = pinned pending expected)"
proof -
  let ?s1 = "during s"
  have none: "file = None" "saved = None" using assms(1)
    by (auto simp: confirm_host_key_def Let_def split: if_splits sum.splits)
  have cur: "profile_of (hk_profile pending) ?s1 = Some expected"
    using assms(1) by (auto simp: confirm_host_key_def ensure_profile_mutation_current_def Let_def split: if_splits)
  obtain store trusted where p: "pin_candidate pending expected ?s1 = Inr (store, trusted)"
    and commit: "commit_pin pending expected token store trusted (after ?s1) = (s', Inr r)"
    using assms(1) none by (auto simp: confirm_host_key_def Let_def split: if_splits sum.splits)
  obtain c where c: "profile_ssh expected = Some c" "sc_host c = hk_host pending" "sc_port c = hk_port pending"
    and store: "store = update_session (hk_profile pending) (pinned pending) (as_sessions ?s1)" "trusted = pinned pending expected"
    using p cur by (auto simp: pin_candidate_def Let_def split: if_splits option.splits)
  define s2 where "s2 = finish_profile_mutation (hk_profile pending) token (with_sessions store (after ?s1))"
  have s': "(s' = s2 \<or> s' = update_terminal (hk_tab pending) (set_phase (AwaitingAuthentication False)) s2) \<and>
      (\<forall>tab x target. r = Some (tab, x, target) \<longrightarrow> tab = hk_tab pending \<and> x = trusted)"
    using commit by (auto simp: commit_pin_def Let_def s2_def split: if_splits option.splits)
  have same: "profile_of q s' = profile_of q s2" "profile_mutation_is_current (hk_profile pending) token s' =
      profile_mutation_is_current (hk_profile pending) token s2" for q
    using s' current_update [of "hk_profile pending" token "hk_tab pending" _ s2] by auto
  have "profile_of q s2 = (if q = hk_profile pending then Some (pinned pending expected) else profile_of q ?s1)" for q
    unfolding s2_def store profile_of_finish profile_of_pinned [OF modify_ssh_id] by (simp add: cur)
  moreover have "\<not> profile_mutation_is_current (hk_profile pending) token s2" by (simp add: s2_def finished_mutation)
  moreover have "profile_of q (after ?s1) = profile_of q ?s1" for q by (simp add: profile_of_def assms(2))
  ultimately show ?thesis using none c same s' store(2) by auto
qed


definition shown_key :: pending_host_key where
  "shown_key = \<lparr>hk_tab = 7, hk_profile = 3, hk_host = ''h'', hk_port = 22, hk_fingerprint = ''G'',
     hk_public_key = Some ''K'', hk_changed = False, hk_revoked = False\<rparr>"

definition confirming_state :: "unit app_state" where
  "confirming_state = begin_profile_mutation 5 3 (waiting_state (ConfirmingHostKey shown_key))"

lemma confirming_state_simps:
  "terminal_of 7 confirming_state = Some (lost_tab\<lparr>tt_phase := ConfirmingHostKey shown_key\<rparr>)"
  "profile_of 3 confirming_state = Some open_profile" "profile_mutation_is_current 3 5 confirming_state"
  using waiting_state_simps [of "ConfirmingHostKey shown_key"]
  by (simp_all add: confirming_state_def begin_profile_mutation_def profile_mutation_is_current_def)

lemma shown_key_confirmed:
  "\<exists>s' r. confirm_host_key None None (\<lambda>x. x) (\<lambda>x. x) shown_key open_profile 5 confirming_state = (s', Inr r)"
proof -
  have cur: "ensure_profile_mutation_current 3 5 (Some open_profile) confirming_state"
    by (simp add: ensure_profile_mutation_current_def confirming_state_simps)
  obtain c where c: "profile_ssh open_profile = Some c" "sc_host c = ''h''" "sc_port c = 22" using open_profile_simps by auto
  have p: "\<exists>store. pin_candidate shown_key open_profile confirming_state = Inr (store, pinned shown_key open_profile)"
    by (simp add: pin_candidate_def shown_key_def confirming_state_simps c Let_def)
  then show ?thesis
    using cur by (auto simp: confirm_host_key_def commit_pin_def shown_key_def Let_def split: option.split)
qed

theorem confirmed_key_pinned_witness:
  "\<exists>s'. profile_of 3 s' = Some (pinned shown_key open_profile) \<and> \<not> profile_mutation_is_current 3 5 s' \<and>
    s' = fst (confirm_host_key None None (\<lambda>x. x) (\<lambda>x. x) shown_key open_profile 5 confirming_state)"
proof -
  obtain s' r where r: "confirm_host_key None None (\<lambda>x. x) (\<lambda>x. x) shown_key open_profile 5 confirming_state = (s', Inr r)"
    using shown_key_confirmed by blast
  from confirmed_key_pinned [OF this] show ?thesis using r by (intro exI [of _ s']) (simp add: shown_key_def)
qed

text \<open>
  C8. A confirmation that fails, for whatever reason, pins nothing: the sessions are what they were, the
  session is free to be changed again, nothing is started, and a tab that was confirming asks again.
\<close>

theorem host_key_error_asks_again:
  assumes "confirm_host_key file saved during after pending expected token s = (s1, Inl e)"
    and "\<And>x. as_sessions (during x) = as_sessions x" "\<And>x. as_sessions (after x) = as_sessions x"
    and "host_key_confirmed a w pending token (Inl e) s1 = (s2, l)"
  shows "as_sessions s2 = as_sessions s \<and> l = NoLaunch \<and> \<not> profile_mutation_is_current (hk_profile pending) token s2 \<and>
    (\<forall>t k. terminal_of (hk_tab pending) s1 = Some t \<longrightarrow> ssh_phase_of t = Some (ConfirmingHostKey k) \<longrightarrow>
       (\<exists>t2. terminal_of (hk_tab pending) s2 = Some t2 \<and> ssh_phase_of t2 = Some (AwaitingHostKey pending)))"
proof -
  have "as_sessions s1 = as_sessions s"
    using assms(1-3) by (auto simp: confirm_host_key_def commit_pin_def Let_def split: if_splits sum.splits option.splits)
  moreover have sessions: "as_sessions (update_terminal i f x) = as_sessions x" for i f and x :: "'a app_state"
    by (simp add: update_terminal_def)
  define s3 where "s3 = finish_profile_mutation (hk_profile pending) token s1"
  define s4 where "s4 = (case Option.bind (terminal_of (hk_tab pending) s3) ssh_phase_of of
      Some (ConfirmingHostKey _) \<Rightarrow> update_terminal (hk_tab pending) (set_phase (AwaitingHostKey pending)) s3
    | _ \<Rightarrow> s3)"
  have s2: "s2 = set_tab_status (hk_tab pending) (''Host-key update failed: '' @ e) s4" "l = NoLaunch"
    using assms(4) by (simp_all add: host_key_confirmed_def s3_def [symmetric] s4_def [symmetric] Let_def)
  have three: "as_sessions s3 = as_sessions s1" "terminal_of i s3 = terminal_of i s1" for i
    by (simp_all add: s3_def finish_profile_mutation_def)
  have "as_sessions s4 = as_sessions s3" "profile_mutation_is_current p k s4 = profile_mutation_is_current p k s3" for p k
    by (simp_all add: s4_def sessions current_update split: option.split ssh_phase.split)
  moreover have "\<exists>t2. terminal_of (hk_tab pending) s2 = Some t2 \<and> ssh_phase_of t2 = Some (AwaitingHostKey pending)"
    if "terminal_of (hk_tab pending) s1 = Some t" "ssh_phase_of t = Some (ConfirmingHostKey k)" for t k
  proof -
    have "is_ssh t" using that(2) by (simp add: ssh_phase_of_def split: if_splits)
    then show ?thesis
      using that by (simp add: s2 s4_def three set_tab_status_def ssh_phase_of_def step_defs is_ssh_def)
  qed
  ultimately show ?thesis
    using s2(2) finished_mutation [of "hk_profile pending" token s1]
    by (auto simp: s2(1) set_tab_status_def sessions current_update three s3_def [symmetric])
qed

theorem host_key_error_asks_again_witness:
  "\<exists>t. terminal_of 7 (fst (host_key_confirmed 9 10 shown_key 5 (Inl ''disk full'') confirming_state)) = Some t \<and>
    ssh_phase_of t = Some (AwaitingHostKey shown_key)"
proof -
  have "confirm_host_key (Some ''disk full'') None (\<lambda>x. x) (\<lambda>x. x) shown_key open_profile 5 confirming_state =
      (confirming_state, Inl ''disk full'')"
    by (simp add: confirm_host_key_def ensure_profile_mutation_current_def shown_key_def confirming_state_simps Let_def)
  from host_key_error_asks_again [OF this _ _ prod.collapse [symmetric], of 9 10] show ?thesis
    using confirming_state_simps(1) lost_tab_simps(3) [of "ConfirmingHostKey shown_key"] by (auto simp: shown_key_def)
qed

lemma rejected_key_prompt:
  assumes "matches_attempt tab (sp_id profile) a s"
    and "on_ssh_event edits0 tab profile a c used (HostKeyRejected None actual public_key) s = (s', l)"
  shows "\<exists>t. terminal_of tab s' = Some t \<and> ssh_phase_of t = Some (AwaitingHostKey
    \<lparr>hk_tab = tab, hk_profile = sp_id profile, hk_host = sc_host c, hk_port = sc_port c,
     hk_fingerprint = actual, hk_public_key = public_key, hk_changed = False, hk_revoked = False\<rparr>)"
proof -
  define pr where "pr = \<lparr>hk_tab = tab, hk_profile = sp_id profile, hk_host = sc_host c, hk_port = sc_port c,
      hk_fingerprint = actual, hk_public_key = public_key, hk_changed = False, hk_revoked = False\<rparr>"
  obtain x where x: "terminal_of tab s = Some x" using assms(1) by (auto simp: matches_attempt_def split: bind_splits)
  have ssh: "is_ssh x" using matches_ssh [OF assms(1) x] by blast
  have "s' = set_tab_status tab ''SSH host key changed; verify it before reconnecting''
      (update_terminal tab (\<lambda>t. set_phase (AwaitingHostKey pr) (end_attempt (set_ssh_attempt None) t)) s)"
    using assms by (simp add: on_ssh_event_def prepare_host_key_retry_def pr_def Let_def)
  moreover have "ssh_phase_of (set_phase (AwaitingHostKey pr) (end_attempt (set_ssh_attempt None) x)) = Some (AwaitingHostKey pr)"
    using ssh by (simp add: ssh_phase_of_def step_defs is_ssh_def split: backend.splits)
  ultimately show ?thesis
    using x unfolding pr_def [symmetric] by (auto simp: set_tab_status_def ssh_phase_of_def is_ssh_def split: if_splits)
qed

text \<open>
  C9. A key that changes behind the back of a session without a pin is not treated as a changed key: the
  worker reports a rejected key without an expected one, and the prompt that follows appends the new key to
  the known hosts instead of replacing the old one. After the user has confirmed it, the old key is trusted
  as before.
\<close>

theorem rejected_key_keeps_old:
  assumes "matches_attempt tab (sp_id profile) a s"
    and "on_ssh_event edits0 tab profile a c used (HostKeyRejected None actual (Some public_key)) s = (s', l)"
    and "plain_host (sc_host c)" "from_openssh cr public_key = Some key" "key_text_ok cr key key_text"
    and "load_from_path cr fs0 (Some f) = Inr old"
    and "decision cr old (sc_host c) (sc_port c) old_key = Trusted"
  shows "\<exists>t pr. terminal_of tab s' = Some t \<and> ssh_phase_of t = Some (AwaitingHostKey pr) \<and> \<not> hk_changed pr \<and>
    (\<forall>fs fs1 f' u es.
       confirm_known_host cr fs (Some f) (hk_host pr) (hk_port pr) public_key (hk_changed pr) = (Some f', Inr u) \<and>
       load_from_path cr fs1 (Some f') = Inr es \<longrightarrow>
         decision cr es (sc_host c) (sc_port c) old_key = Trusted)"
proof -
  define pr where "pr = \<lparr>hk_tab = tab, hk_profile = sp_id profile, hk_host = sc_host c, hk_port = sc_port c,
      hk_fingerprint = actual, hk_public_key = Some public_key, hk_changed = False, hk_revoked = False\<rparr>"
  have host: "hk_host pr = sc_host c" "hk_port pr = sc_port c" "\<not> hk_changed pr" by (simp_all add: pr_def)
  have t: "\<exists>t. terminal_of tab s' = Some t \<and> ssh_phase_of t = Some (AwaitingHostKey pr)"
    unfolding pr_def by (rule rejected_key_prompt [OF assms(1,2)])
  have "decision cr es (sc_host c) (sc_port c) old_key = Trusted"
    if "confirm_known_host cr fs (Some f) (hk_host pr) (hk_port pr) public_key (hk_changed pr) = (Some f', Inr u)"
      "load_from_path cr fs1 (Some f') = Inr es" for fs fs1 f' u es
  proof -
    have "es = old @ [new_entry (sc_host c) (sc_port c) key]"
      using appended_entries [OF assms(3,5), of fs f "sc_port c" f' u] that assms(4)
      by (simp add: confirm_known_host_def append_confirmed_openssh_def host load_entries [OF assms(6)] load_entries [OF that(2)])
    then have "matching cr old (sc_host c) (sc_port c) \<subseteq> matching cr es (sc_host c) (sc_port c)"
      "matching cr es (sc_host c) (sc_port c) \<subseteq>
        insert (new_entry (sc_host c) (sc_port c) key) (matching cr old (sc_host c) (sc_port c))"
      by (auto simp: matching_def)
    moreover have "\<not> he_revoked (new_entry (sc_host c) (sc_port c) key)" by (simp add: new_entry_def)
    ultimately show ?thesis
      using assms(7) unfolding decision_precedence Let_def by (auto split: if_splits)
  qed
  then show ?thesis using t host(3) by blast
qed


definition connected_state :: "unit app_state" where
  "connected_state = update_terminal 7 (with_ssh_worker 9 10 open_profile) (waiting_state PhaseIdle)"

lemma connected_state_matches: "matches_attempt 7 (sp_id open_profile) 9 connected_state"
  by (simp add: connected_state_def matches_attempt_def waiting_state_simps with_ssh_worker_def step_defs
      open_profile_simps lost_tab_def new_terminal_state_def ssh_route_def)

definition two_keys :: string where
  "two_keys = toy_line @ [CHR 0x0A] @ host_line ''h'' 22 ''ssh-ed25519 C''"

lemma two_keys_loaded: "load_from_path toy_crypto all_works (Some two_keys) = Inr [new_entry ''h'' 22 ''B'', new_entry ''h'' 22 ''C'']"
proof -
  have sp: "split_whitespace ''ssh-ed25519 C'' = [''ssh-ed25519'', ''C'']"
    by (simp add: split_whitespace_def fields_from.simps leading_space_def is_space_char_def space_codes_def)
  have plain: "plain_host ''h''" by (simp add: plain_host_def plain_char_def)
  have ok: "key_text_ok toy_crypto ''C'' ''ssh-ed25519 C''" by (simp add: key_text_ok_def sp)
  have "append_confirmed toy_crypto all_works (Some (toy_line @ [CHR 0x0A])) ''h'' 22 ''C'' = (Some two_keys, Inr ())"
    by (simp add: append_confirmed_def atomic_replace_def two_keys_def Let_def)
  from appended_entries [OF plain ok this] have e: "entries_of toy_crypto (str_lines two_keys) =
      [new_entry ''h'' 22 ''B'', new_entry ''h'' 22 ''C'']"
    by (simp add: entries_of_def toy_line_parsed)
  have lines: "str_lines two_keys = [toy_line, ''h ssh-ed25519 C'']"
    by (simp add: two_keys_def host_line_def format_host_def str_lines_def strip_cr_def toy_line_def)
  show ?thesis
    using e unfolding lines
    by (auto simp: load_from_path_def MAX_FILE_BYTES_def MAX_LINES_def lines split: option.splits)
      (simp add: two_keys_def host_line_def format_host_def toy_line_def)
qed

theorem rejected_key_keeps_old_witness:
  "\<exists>t pr. terminal_of 7 (fst (on_ssh_event () 7 open_profile 9 (the (profile_ssh open_profile)) False
       (HostKeyRejected None ''SHA256:C'' (Some ''ssh-ed25519 C'')) connected_state)) = Some t \<and>
    ssh_phase_of t = Some (AwaitingHostKey pr) \<and>
    confirm_known_host toy_crypto all_works (Some (toy_line @ [CHR 0x0A])) (hk_host pr) (hk_port pr) ''ssh-ed25519 C''
      (hk_changed pr) = (Some two_keys, Inr ()) \<and>
    decision toy_crypto [new_entry ''h'' 22 ''B'', new_entry ''h'' 22 ''C''] ''h'' 22 ''B'' = Trusted"
proof -
  obtain c where c: "profile_ssh open_profile = Some c" "sc_host c = ''h''" "sc_port c = 22" using open_profile_simps by auto
  have sp: "split_whitespace ''ssh-ed25519 C'' = [''ssh-ed25519'', ''C'']"
    by (simp add: split_whitespace_def fields_from.simps leading_space_def is_space_char_def space_codes_def)
  have plain: "plain_host (sc_host c)" by (simp add: c plain_host_def plain_char_def)
  have ok: "key_text_ok toy_crypto ''C'' ''ssh-ed25519 C''" by (simp add: key_text_ok_def sp)
  have key: "from_openssh toy_crypto ''ssh-ed25519 C'' = Some ''C''" by (simp add: strip_prefix_def)
  have old: "load_from_path toy_crypto all_works (Some (toy_line @ [CHR 0x0A])) = Inr [new_entry ''h'' 22 ''B'']"
    by (simp add: load_from_path_def MAX_FILE_BYTES_def MAX_LINES_def toy_line_parsed) (simp add: toy_line_def)
  have trusted: "decision toy_crypto [new_entry ''h'' 22 ''B''] (sc_host c) (sc_port c) ''B'' = Trusted"
    by (simp add: c toy_decision)
  obtain t pr where t: "terminal_of 7 (fst (on_ssh_event () 7 open_profile 9 c False
       (HostKeyRejected None ''SHA256:C'' (Some ''ssh-ed25519 C'')) connected_state)) = Some t"
      "ssh_phase_of t = Some (AwaitingHostKey pr)" "\<not> hk_changed pr"
    and later: "confirm_known_host toy_crypto all_works (Some (toy_line @ [CHR 0x0A])) (hk_host pr) (hk_port pr)
        ''ssh-ed25519 C'' (hk_changed pr) = (Some two_keys, Inr ()) \<Longrightarrow>
      decision toy_crypto [new_entry ''h'' 22 ''B'', new_entry ''h'' 22 ''C''] ''h'' 22 ''B'' = Trusted"
    using rejected_key_keeps_old [OF connected_state_matches prod.collapse [symmetric] plain key ok old trusted,
        of "()" False "''SHA256:C''"] two_keys_loaded c by auto
  have host: "hk_host pr = ''h''" "hk_port pr = 22"
    using rejected_key_prompt [OF connected_state_matches prod.collapse [symmetric], of "()" c False "''SHA256:C''"
        "Some ''ssh-ed25519 C''"] t(1,2) c by auto
  have "confirm_known_host toy_crypto all_works (Some (toy_line @ [CHR 0x0A])) (hk_host pr) (hk_port pr) ''ssh-ed25519 C''
      (hk_changed pr) = (Some two_keys, Inr ())"
    using t(3) key by (simp add: confirm_known_host_def append_confirmed_openssh_def append_confirmed_def atomic_replace_def
        host two_keys_def Let_def)
  then show ?thesis using t later by (auto simp: c)
qed

end
