(* ===== verification/Spec2Isabelle.thy ===== *)
theory Spec2Isabelle
  imports Dimensions Mouse_Protocol Telnet Sftp_Transfers Ssh_Connection Workspace_Snapshot
    Config_Store Tab_Properties Connection_Latency Attempt_Properties
begin

text \<open>
  A verification development for AX SSH, a desktop client for SSH, SFTP, Telnet and serial sessions
  written in Rust. Paths of source files are relative to \<^verbatim>\<open>src/\<close> of the repository.

  \<^bold>\<open>The program.\<close> One process shows tabs in windows. The application state
  (\<^verbatim>\<open>src/app/state.rs\<close> and the modules below it) is changed by callbacks of the user interface and
  by monitors of worker tasks. A worker owns one connection (\<^verbatim>\<open>src/ssh.rs\<close>, \<^verbatim>\<open>src/telnet.rs\<close>,
  \<^verbatim>\<open>src/sftp.rs\<close>), takes commands from a channel and answers with events, which a monitor
  (\<^verbatim>\<open>src/app/connection_monitor.rs\<close>) applies to the state of the tab. A tab with a terminal feeds
  the bytes it receives to a terminal model (\<^verbatim>\<open>src/terminal/model.rs\<close>) and sends what keys and the
  mouse are encoded to. Configuration and the workspace are files (\<^verbatim>\<open>src/config/\<close>).

  \<^bold>\<open>Conventions.\<close> They are those of \<open>Prelude\<close>, \<open>Rust_Text\<close>, \<open>Rust_Lines\<close> and \<open>Rust_Float\<close>: a
  Rust string is its UTF-8 bytes, fixed-width integers are words, or natural numbers with the saturation
  or wrapping written out, a set of the standard library is a set and a map a \<open>mapping\<close>, an \<^verbatim>\<open>f32\<close> is
  the rational it denotes with every operation rounded. A \<^verbatim>\<open>Result\<close> is a sum with the error on the
  left. Code of other packages is an argument: a record of functions (\<open>crypto\<close>, the Telnet parser), a
  script of what it answers (\<open>network\<close>, \<open>browser_world\<close>, \<open>inner_event list\<close>) or a type parameter.
  Whatever the environment may refuse (a file that cannot be written, a receiver that has gone) is part
  of the input of a definition.

  \<^bold>\<open>Terminal input and output.\<close>
  \<^item> \<open>Dimensions\<close>: \<^verbatim>\<open>src/terminal_dimensions.rs\<close> and the motion queues of \<^verbatim>\<open>src/terminal_input.rs\<close>.
  \<^item> \<open>Key_Input\<close>: \<^verbatim>\<open>src/terminal/input.rs\<close>, keys to xterm sequences and pasted text. A bracketed
    paste cannot leave its brackets; different modifiers give different sequences.
  \<^item> \<open>Mouse_Protocol\<close>: the byte observers and mouse reports of \<^verbatim>\<open>src/terminal/model.rs\<close>. The terminal
    core is a third-party package; what is read of it is the record \<open>term_view\<close>. Both observers are
    instances of the locale \<open>byte_observer\<close>, which makes them independent of how reads are split.

  \<^bold>\<open>Telnet.\<close> \<open>Telnet\<close>: \<^verbatim>\<open>src/telnet.rs\<close>, framing of the inbound stream, events, output batches and
  the session loop over a script of what \<^verbatim>\<open>select!\<close> yields. Framing loses nothing and does not depend
  on packet boundaries; a session reports its end once.

  \<^bold>\<open>SFTP.\<close>
  \<^item> \<open>Remote_Path\<close>, \<open>Sftp_Stream\<close>, \<open>Sftp_Browser\<close>: \<^verbatim>\<open>src/sftp.rs\<close>, path resolution, the stream that
    only releases complete packets of valid length, and the browser task with its cursor and pages. The
    poll loop is a \<open>partial_function\<close>; that it returns is part of the property about it. The page loop
    runs on the script of the server's answers, which bounds it.
  \<^item> \<open>Directory_History\<close>, \<open>Local_Directory\<close>, \<open>Sftp_Navigation\<close>, \<open>Sftp_Transfers\<close>:
    \<^verbatim>\<open>src/app/state/sftp.rs\<close> with the event handlers of \<^verbatim>\<open>src/app/connection_monitor.rs\<close>. The two
    browsers interpret the locale \<open>directory_browser\<close>. The transfer state extends the navigation state.
    A step relation per component lists every operation; the invariants hold in every reachable state.

  \<^bold>\<open>SSH.\<close>
  \<^item> \<open>Known_Hosts\<close>: \<^verbatim>\<open>src/ssh/known_hosts.rs\<close>, the file format, patterns, the decision about a key
    and the edits of the file. The glob loop is a \<open>partial_function\<close>, shown to end and to decide what a
    pattern means.
  \<^item> \<open>Ssh_Connection\<close>: \<^verbatim>\<open>src/ssh.rs\<close>, the check of the server key, the probe, authentication and the
    retry of the SFTP channel. Nothing secret is sent before the presented key is trusted, and a key that
    the user confirmed is the one that is accepted afterwards. Documented behaviour of \<^verbatim>\<open>russh\<close> used: a
    handshake completes only after the handler accepted the key.

  \<^bold>\<open>Windows.\<close>
  \<^item> \<open>Panes\<close>: \<^verbatim>\<open>src/app/panes.rs\<close>, the tree of panes of a window. It refines a list of tabs with a
    focus; ratios are \<^verbatim>\<open>f32\<close> values.
  \<^item> \<open>Workspace_Snapshot\<close>: \<^verbatim>\<open>src/config/workspace.rs\<close>, validation of a saved workspace, and that what
    is saved is accepted and what is accepted can be restored.

  \<^bold>\<open>Not modelled.\<close> The user interface and native windows, drawing, fonts and icons, audio and media,
  X11 forwarding, credentials stores, start-up and logging are calls into libraries or tables. The worker
  tasks of \<^verbatim>\<open>src/ssh/worker\<close>, file input and output of transfers, the session store, window routing and
  remote editing are further work.
\<close>

end
